(* ===== verification/Gm_Prelude.thy ===== *)
theory Gm_Prelude
  imports Main "HOL-Library.Word"
begin

text \<open>
  Shared vocabulary of the development: the machine types, the outcome of a run that may hit
  undefined behaviour, the integer macros of src/src/include/gralloc_gbm_mesa.h, and the lemmas
  on words and outcomes that every component uses.  C's \<open>int\<close> and \<open>uint32_t\<close> are both
  \<open>32 word\<close>; a signed reading is written with \<open>sint\<close>.
\<close>

unbundle bit_operations_syntax

named_theorems gm_ops "operations of the model, unfolded by the component proofs"
named_theorems gm_consts "error codes and flag values"

section \<open>Types and error codes\<close>

type_synonym u8 = "8 word"
type_synonym u32 = "32 word"
type_synonym u64 = "64 word"
type_synonym c_int = "32 word"
type_synonym bytes = "u8 list"

definition is_neg :: "c_int \<Rightarrow> bool" where
  "is_neg w \<longleftrightarrow> sint w < 0"

definition is_pos :: "c_int \<Rightarrow> bool" where
  "is_pos w \<longleftrightarrow> 0 < sint w"

definition EINVAL :: c_int where
  "EINVAL = 22"

definition ENOMEM :: c_int where
  "ENOMEM = 12"

declare EINVAL_def [gm_consts] ENOMEM_def [gm_consts]

lemma is_pos_not_neg: "is_pos w \<Longrightarrow> \<not> is_neg w"
  by (simp add: is_pos_def is_neg_def)

lemma is_neg_minus_one [simp]: "is_neg (- 1)"
  by (simp add: is_neg_def)

lemma not_is_pos_zero [simp]: "\<not> is_pos 0" "\<not> is_neg 0"
  by (simp_all add: is_pos_def is_neg_def)

lemma minus_EINVAL_neq [simp]: "- EINVAL \<noteq> 0" "0 \<noteq> - EINVAL" "EINVAL \<noteq> 0"
  by (simp_all add: EINVAL_def)

lemma minus_ENOMEM_neq [simp]: "- ENOMEM \<noteq> 0" "0 \<noteq> - ENOMEM" "ENOMEM \<noteq> 0"
  by (simp_all add: ENOMEM_def)

lemma is_neg_EINVAL [simp]: "is_neg (- EINVAL)" "\<not> is_pos (- EINVAL)"
  by (simp_all add: EINVAL_def is_neg_def is_pos_def)

lemma is_neg_ENOMEM [simp]: "is_neg (- ENOMEM)" "\<not> is_pos (- ENOMEM)"
  by (simp_all add: ENOMEM_def is_neg_def is_pos_def)

section \<open>Outcomes: a result, or the fault that stops the process\<close>

text \<open>
  Return codes are ordinary values.  A \<open>fault\<close> is what C++ gives no result for: reading through
  a null or dangling pointer, reading a variable that was never written, a failed \<open>assert\<close>,
  an uncaught C++ exception, signed overflow, destroying an object twice, locking a held mutex.
\<close>

datatype fault =
    NullDeref
  | DanglingDeref
  | OutOfBounds
  | UninitRead
  | AssertFail
  | SignedOverflow
  | UncaughtException
  | DoubleDestroy
  | Deadlock

datatype 'a run = Fault fault | Done 'a

primrec andThen :: "'a run \<Rightarrow> ('a \<Rightarrow> 'b run) \<Rightarrow> 'b run" where
  "andThen (Fault f) k = Fault f"
| "andThen (Done a) k = k a"

lemma andThen_eq_Done: "andThen m k = Done b \<longleftrightarrow> (\<exists>a. m = Done a \<and> k a = Done b)"
  by (cases m) auto

lemma andThen_eq_DoneE:
  assumes "andThen m k = Done b"
  obtains a where "m = Done a" and "k a = Done b"
  using assms by (auto simp: andThen_eq_Done)

lemma andThen_eq_Fault: "andThen m k = Fault f \<longleftrightarrow> m = Fault f \<or> (\<exists>a. m = Done a \<and> k a = Fault f)"
  by (cases m) auto

lemma andThen_assoc: "andThen (andThen m k) l = andThen m (\<lambda>x. andThen (k x) l)"
  by (cases m) auto

lemma andThen_Done_right [simp]: "andThen m Done = m"
  by (cases m) auto

primrec is_done :: "'a run \<Rightarrow> bool" where
  "is_done (Fault f) = False"
| "is_done (Done a) = True"

lemma is_done_iff: "is_done m \<longleftrightarrow> (\<exists>a. m = Done a)"
  by (cases m) auto

lemma is_done_andThen: "is_done (andThen m k) \<longleftrightarrow> (\<exists>a. m = Done a \<and> is_done (k a))"
  by (cases m) auto

section \<open>Signed counters\<close>

text \<open>\<open>++\<close> and \<open>--\<close> on an \<open>int\<close>: leaving the range is undefined.\<close>

definition inc_int :: "c_int \<Rightarrow> c_int run" where
  "inc_int n = (if sint n = 2 ^ 31 - 1 then Fault SignedOverflow else Done (n + 1))"

definition dec_int :: "c_int \<Rightarrow> c_int run" where
  "dec_int n = (if sint n = - (2 ^ 31) then Fault SignedOverflow else Done (n - 1))"

lemma unat_nonneg:
  assumes "\<not> is_neg n"
  shows "unat n = nat (sint n)"
proof -
  have "0 \<le> sint n" and "sint n < 2 ^ 32"
    using assms sint_lt [of n] by (auto simp: is_neg_def)
  then have "take_bit 32 (sint n) = sint n"
    by (intro take_bit_int_eq_self)
  then show ?thesis
    by (simp add: uint_sint flip: nat_uint_eq)
qed

lemma sint_add_one: "\<not> is_neg n \<Longrightarrow> sint n \<noteq> 2 ^ 31 - 1 \<Longrightarrow> sint (n + 1) = sint n + 1"
  using sint_lt [of n] by (simp add: is_neg_def sint_word_ariths signed_take_bit_int_eq_self)

lemma sint_sub_one: "\<not> is_neg n \<Longrightarrow> n \<noteq> 0 \<Longrightarrow> sint (n - 1) = sint n - 1"
  using sint_lt [of n] by (simp add: is_neg_def sint_word_ariths signed_take_bit_int_eq_self)

lemma inc_int_nonneg:
  assumes "\<not> is_neg n" and "inc_int n = Done m"
  shows "\<not> is_neg m \<and> m \<noteq> 0 \<and> unat m = unat n + 1"
proof -
  have m: "m = n + 1" and "sint n \<noteq> 2 ^ 31 - 1"
    using assms(2) by (auto simp: inc_int_def split: if_splits)
  then have s: "sint m = sint n + 1"
    using sint_add_one assms(1) by simp
  then have "\<not> is_neg m"
    using assms(1) by (simp add: is_neg_def)
  then show ?thesis
    using s unat_nonneg [of m] unat_nonneg [OF assms(1)] assms(1) by (auto simp: is_neg_def nat_add_distrib)
qed

lemma dec_int_pos:
  assumes "\<not> is_neg n" and "n \<noteq> 0"
  shows "dec_int n = Done (n - 1) \<and> \<not> is_neg (n - 1) \<and> unat (n - 1) = unat n - 1"
proof -
  have s: "sint (n - 1) = sint n - 1"
    using sint_sub_one assms by simp
  moreover have "0 < sint n"
    using unat_nonneg [OF assms(1)] assms(2) by (metis nat_0_iff not_le unat_eq_zero)
  ultimately have "\<not> is_neg (n - 1)"
    by (simp add: is_neg_def)
  then show ?thesis
    using s unat_nonneg [of "n - 1"] unat_nonneg [OF assms(1)] \<open>0 < sint n\<close>
    by (auto simp: dec_int_def is_neg_def nat_diff_distrib)
qed

lemma sint_small:
  fixes w :: u32
  assumes "unat w < 2 ^ 31"
  shows "sint w = int (unat w)" and "\<not> is_neg w"
proof -
  have "sint w = signed_take_bit 31 (int (unat w))"
    by (simp add: sint_uint)
  moreover have "int (unat w) < 2 ^ 31"
    using assms by (metis of_nat_less_iff of_nat_numeral of_nat_power)
  ultimately show s: "sint w = int (unat w)"
    by (simp only: signed_take_bit_int_eq_self)
  show "\<not> is_neg w"
    unfolding is_neg_def s by simp
qed

section \<open>The integer macros\<close>

text \<open>\<open>MAX\<close> (here \<open>MAX2\<close>), \<open>ALIGN\<close>, \<open>IS_ALIGNED\<close> and \<open>DIV_ROUND_UP\<close> on unsigned words, wrap-around included.\<close>

definition MAX2 :: "'a::len word \<Rightarrow> 'a word \<Rightarrow> 'a word" where
  "MAX2 a b = (if b < a then a else b)"

definition ALIGN :: "'a::len word \<Rightarrow> 'a word \<Rightarrow> 'a word" where
  "ALIGN a b = (a + b - 1) AND NOT (b - 1)"

definition IS_ALIGNED :: "'a::len word \<Rightarrow> 'a word \<Rightarrow> bool" where
  "IS_ALIGNED a b \<longleftrightarrow> ALIGN a b = a"

definition DIV_ROUND_UP :: "'a::len word \<Rightarrow> 'a word \<Rightarrow> 'a word" where
  "DIV_ROUND_UP n d = (n + d - 1) div d"

lemma unat_MAX2: "unat (MAX2 a b) = max (unat a) (unat b)"
  by (auto simp: MAX2_def max_def word_less_nat_alt)

lemma and_not_mask_sub:
  fixes x :: "'a::len word"
  shows "x AND NOT (mask k) = x - take_bit k x"
proof -
  have "(x AND NOT (mask k)) + (x AND mask k) = (x AND NOT (mask k)) OR (x AND mask k)"
    by (rule disjunctive_add) (auto simp: bit_simps)
  also have "\<dots> = x"
    by (rule bit_eqI) (auto simp: bit_simps)
  finally show ?thesis
    by (simp add: take_bit_eq_mask eq_diff_eq)
qed

lemma unat_and_not_mask:
  fixes x :: "'a::len word"
  shows "unat (x AND NOT (mask k)) = (unat x div 2 ^ k) * 2 ^ k"
proof -
  have tb: "unat (take_bit k x) = unat x mod 2 ^ k"
    by (simp add: unsigned_take_bit_eq flip: take_bit_eq_mod)
  then have le: "take_bit k x \<le> x"
    by (simp add: word_le_nat_alt)
  then have "unat (x AND NOT (mask k)) = unat x - unat (take_bit k x)"
    by (simp add: and_not_mask_sub unat_sub)
  then show ?thesis
    by (simp add: tb minus_mod_eq_div_mult)
qed

text \<open>
  \<open>ALIGN\<close> by a power of two is the next multiple, as long as the addition does not wrap.
\<close>

lemma unat_pow2: "k < LENGTH('a::len) \<Longrightarrow> unat (2 ^ k :: 'a word) = 2 ^ k"
  using unat_of_nat [of "2 ^ k", where 'a = 'a] by simp

lemma unat_ALIGN:
  fixes a :: "'a::len word"
  assumes k: "k < LENGTH('a)" and fits: "unat a + 2 ^ k - 1 < 2 ^ LENGTH('a)"
  shows "unat (ALIGN a (2 ^ k)) = (unat a + 2 ^ k - 1) div 2 ^ k * 2 ^ k"
proof -
  have m: "(2 ^ k - 1 :: 'a word) = mask k"
    by (simp add: mask_eq_exp_minus_1)
  have um: "unat (mask k :: 'a word) = 2 ^ k - 1"
    using k by (simp add: mask_eq_exp_minus_1 unat_sub_if' unat_pow2)
  have "ALIGN a (2 ^ k) = (a + mask k) AND NOT (mask k)"
    by (simp only: ALIGN_def m [symmetric] add_diff_eq)
  moreover have "unat (a + mask k) = unat a + (2 ^ k - 1)"
    using fits by (subst unat_add_lem [THEN iffD1]) (simp_all add: um)
  moreover have "unat a + (2 ^ k - 1) = unat a + 2 ^ k - 1"
    by simp
  ultimately show ?thesis
    by (simp only: unat_and_not_mask)
qed

lemma round_up_bounds:
  assumes "0 < (m::nat)"
  shows "n \<le> (n + m - 1) div m * m" and "(n + m - 1) div m * m < n + m"
    and "m dvd (n + m - 1) div m * m"
proof -
  have "(n + m - 1) div m * m + (n + m - 1) mod m = n + m - 1"
    by simp
  moreover have "(n + m - 1) mod m < m"
    using assms by simp
  ultimately show "n \<le> (n + m - 1) div m * m" and "(n + m - 1) div m * m < n + m"
    using assms by linarith+
qed simp

lemmas ALIGN_bounds = round_up_bounds [OF zero_less_power [OF zero_less_numeral]]

lemma unat_DIV_ROUND_UP:
  fixes n d :: "'a::len word"
  assumes "d \<noteq> 0" and "unat n + unat d - 1 < 2 ^ LENGTH('a)"
  shows "unat (DIV_ROUND_UP n d) = (unat n + unat d - 1) div unat d"
proof -
  have d: "0 < unat d"
    using assms(1) by (simp add: word_neq_0_conv [symmetric] unat_gt_0)
  have d1: "unat (d - 1) = unat d - 1"
    using d by (simp add: unat_minus_one assms(1))
  have "unat (n + (d - 1)) = unat n + unat (d - 1)"
    using assms(2) d by (intro unat_add_lem [THEN iffD1]) (simp add: d1)
  then have "unat (n + d - 1) = unat n + unat d - 1"
    using d by (simp add: d1 flip: add_diff_eq)
  then show ?thesis
    by (simp only: DIV_ROUND_UP_def unat_div)
qed

section \<open>Maps\<close>

text \<open>
  \<open>std::unordered_map::emplace\<close> stores a pair only when the key is absent; \<open>erase\<close> by key
  removes it if present.
\<close>

definition emplace :: "'k \<Rightarrow> 'v \<Rightarrow> ('k \<rightharpoonup> 'v) \<Rightarrow> ('k \<rightharpoonup> 'v)" where
  "emplace k v m = (if m k = None then m(k \<mapsto> v) else m)"

definition erase :: "'k \<Rightarrow> ('k \<rightharpoonup> 'v) \<Rightarrow> ('k \<rightharpoonup> 'v)" where
  "erase k m = m(k := None)"

lemma emplace_fresh: "k \<notin> dom m \<Longrightarrow> emplace k v m = m(k \<mapsto> v)"
  by (auto simp: emplace_def)

lemma dom_emplace [simp]: "dom (emplace k v m) = insert k (dom m)"
  by (auto simp: emplace_def)

lemma dom_erase [simp]: "dom (erase k m) = dom m - {k}"
  by (auto simp: erase_def)

lemma erase_same [simp]: "erase k m k = None"
  by (simp add: erase_def)

lemma erase_other [simp]: "k \<noteq> j \<Longrightarrow> erase k m j = m j"
  by (simp add: erase_def)

lemma erase_absent [simp]: "m k = None \<Longrightarrow> erase k m = m"
  by (auto simp: erase_def)

lemma erase_emplace [simp]: "m k = None \<Longrightarrow> erase k (emplace k v m) = m"
  by (auto simp: emplace_def erase_def)

lemma map_map_of_zip:
  assumes "distinct ks" and "length ks = length vs"
  shows "map (map_of (zip ks vs)) ks = map Some vs"
  using assms by (intro nth_equalityI) (auto simp: map_of_zip_nth)

lemma ran_erase: "ran (erase k m) \<subseteq> ran m"
  by (auto simp: erase_def ran_def)

section \<open>Chains of steps\<close>

primrec chain :: "('x \<Rightarrow> 's \<Rightarrow> 's \<Rightarrow> bool) \<Rightarrow> 'x list \<Rightarrow> 's \<Rightarrow> 's \<Rightarrow> bool" where
  "chain R [] s t \<longleftrightarrow> t = s"
| "chain R (x # xs) s t \<longleftrightarrow> (\<exists>u. R x s u \<and> chain R xs u t)"

lemma chain_append: "chain R (xs @ ys) s t \<longleftrightarrow> (\<exists>u. chain R xs s u \<and> chain R ys u t)"
  by (induction xs arbitrary: s) auto

lemma chain_invariant:
  assumes "chain R xs s t" and "I s" and "\<And>x s t. x \<in> set xs \<Longrightarrow> I s \<Longrightarrow> R x s t \<Longrightarrow> I t"
  shows "I t"
  using assms by (induction xs arbitrary: s) auto

end
