(* ===== verification/Gbm_Header.thy ===== *)
theory Gbm_Header
  imports Gm_Prelude
begin

text \<open>
  The constants and the import descriptor of src/src/include/mesa/gbm.h: FourCC pixel format
  codes, buffer use flags, transfer flags, and \<open>struct gbm_import_fd_modifier_data\<close>.  The
  functions that header declares are Mesa's; they are parameters of the model (see Gm_Process).
\<close>

named_theorems gbm_values "the numbers behind the GBM constants"

section \<open>FourCC codes\<close>

definition gbm_fourcc_code :: "char \<Rightarrow> char \<Rightarrow> char \<Rightarrow> char \<Rightarrow> u32" where
  "gbm_fourcc_code a b c d =
     of_char a OR push_bit 8 (of_char b) OR push_bit 16 (of_char c) OR push_bit 24 (of_char d)"

definition GBM_FORMAT_C8 :: u32 where
  "GBM_FORMAT_C8 = gbm_fourcc_code CHR ''C'' CHR ''8'' CHR '' '' CHR '' ''"

definition GBM_FORMAT_R8 :: u32 where
  "GBM_FORMAT_R8 = gbm_fourcc_code CHR ''R'' CHR ''8'' CHR '' '' CHR '' ''"

definition GBM_FORMAT_R16 :: u32 where
  "GBM_FORMAT_R16 = gbm_fourcc_code CHR ''R'' CHR ''1'' CHR ''6'' CHR '' ''"

definition GBM_FORMAT_GR88 :: u32 where
  "GBM_FORMAT_GR88 = gbm_fourcc_code CHR ''G'' CHR ''R'' CHR ''8'' CHR ''8''"

definition GBM_FORMAT_RG1616 :: u32 where
  "GBM_FORMAT_RG1616 = gbm_fourcc_code CHR ''R'' CHR ''G'' CHR ''3'' CHR ''2''"

definition GBM_FORMAT_GR1616 :: u32 where
  "GBM_FORMAT_GR1616 = gbm_fourcc_code CHR ''G'' CHR ''R'' CHR ''3'' CHR ''2''"

definition GBM_FORMAT_RGB332 :: u32 where
  "GBM_FORMAT_RGB332 = gbm_fourcc_code CHR ''R'' CHR ''G'' CHR ''B'' CHR ''8''"

definition GBM_FORMAT_BGR233 :: u32 where
  "GBM_FORMAT_BGR233 = gbm_fourcc_code CHR ''B'' CHR ''G'' CHR ''R'' CHR ''8''"

definition GBM_FORMAT_XRGB4444 :: u32 where
  "GBM_FORMAT_XRGB4444 = gbm_fourcc_code CHR ''X'' CHR ''R'' CHR ''1'' CHR ''2''"

definition GBM_FORMAT_XBGR4444 :: u32 where
  "GBM_FORMAT_XBGR4444 = gbm_fourcc_code CHR ''X'' CHR ''B'' CHR ''1'' CHR ''2''"

definition GBM_FORMAT_RGBX4444 :: u32 where
  "GBM_FORMAT_RGBX4444 = gbm_fourcc_code CHR ''R'' CHR ''X'' CHR ''1'' CHR ''2''"

definition GBM_FORMAT_BGRX4444 :: u32 where
  "GBM_FORMAT_BGRX4444 = gbm_fourcc_code CHR ''B'' CHR ''X'' CHR ''1'' CHR ''2''"

definition GBM_FORMAT_ARGB4444 :: u32 where
  "GBM_FORMAT_ARGB4444 = gbm_fourcc_code CHR ''A'' CHR ''R'' CHR ''1'' CHR ''2''"

definition GBM_FORMAT_ABGR4444 :: u32 where
  "GBM_FORMAT_ABGR4444 = gbm_fourcc_code CHR ''A'' CHR ''B'' CHR ''1'' CHR ''2''"

definition GBM_FORMAT_RGBA4444 :: u32 where
  "GBM_FORMAT_RGBA4444 = gbm_fourcc_code CHR ''R'' CHR ''A'' CHR ''1'' CHR ''2''"

definition GBM_FORMAT_BGRA4444 :: u32 where
  "GBM_FORMAT_BGRA4444 = gbm_fourcc_code CHR ''B'' CHR ''A'' CHR ''1'' CHR ''2''"

definition GBM_FORMAT_XRGB1555 :: u32 where
  "GBM_FORMAT_XRGB1555 = gbm_fourcc_code CHR ''X'' CHR ''R'' CHR ''1'' CHR ''5''"

definition GBM_FORMAT_XBGR1555 :: u32 where
  "GBM_FORMAT_XBGR1555 = gbm_fourcc_code CHR ''X'' CHR ''B'' CHR ''1'' CHR ''5''"

definition GBM_FORMAT_RGBX5551 :: u32 where
  "GBM_FORMAT_RGBX5551 = gbm_fourcc_code CHR ''R'' CHR ''X'' CHR ''1'' CHR ''5''"

definition GBM_FORMAT_BGRX5551 :: u32 where
  "GBM_FORMAT_BGRX5551 = gbm_fourcc_code CHR ''B'' CHR ''X'' CHR ''1'' CHR ''5''"

definition GBM_FORMAT_ARGB1555 :: u32 where
  "GBM_FORMAT_ARGB1555 = gbm_fourcc_code CHR ''A'' CHR ''R'' CHR ''1'' CHR ''5''"

definition GBM_FORMAT_ABGR1555 :: u32 where
  "GBM_FORMAT_ABGR1555 = gbm_fourcc_code CHR ''A'' CHR ''B'' CHR ''1'' CHR ''5''"

definition GBM_FORMAT_RGBA5551 :: u32 where
  "GBM_FORMAT_RGBA5551 = gbm_fourcc_code CHR ''R'' CHR ''A'' CHR ''1'' CHR ''5''"

definition GBM_FORMAT_BGRA5551 :: u32 where
  "GBM_FORMAT_BGRA5551 = gbm_fourcc_code CHR ''B'' CHR ''A'' CHR ''1'' CHR ''5''"

definition GBM_FORMAT_RGB565 :: u32 where
  "GBM_FORMAT_RGB565 = gbm_fourcc_code CHR ''R'' CHR ''G'' CHR ''1'' CHR ''6''"

definition GBM_FORMAT_BGR565 :: u32 where
  "GBM_FORMAT_BGR565 = gbm_fourcc_code CHR ''B'' CHR ''G'' CHR ''1'' CHR ''6''"

definition GBM_FORMAT_RGB888 :: u32 where
  "GBM_FORMAT_RGB888 = gbm_fourcc_code CHR ''R'' CHR ''G'' CHR ''2'' CHR ''4''"

definition GBM_FORMAT_BGR888 :: u32 where
  "GBM_FORMAT_BGR888 = gbm_fourcc_code CHR ''B'' CHR ''G'' CHR ''2'' CHR ''4''"

definition GBM_FORMAT_XRGB8888 :: u32 where
  "GBM_FORMAT_XRGB8888 = gbm_fourcc_code CHR ''X'' CHR ''R'' CHR ''2'' CHR ''4''"

definition GBM_FORMAT_XBGR8888 :: u32 where
  "GBM_FORMAT_XBGR8888 = gbm_fourcc_code CHR ''X'' CHR ''B'' CHR ''2'' CHR ''4''"

definition GBM_FORMAT_RGBX8888 :: u32 where
  "GBM_FORMAT_RGBX8888 = gbm_fourcc_code CHR ''R'' CHR ''X'' CHR ''2'' CHR ''4''"

definition GBM_FORMAT_BGRX8888 :: u32 where
  "GBM_FORMAT_BGRX8888 = gbm_fourcc_code CHR ''B'' CHR ''X'' CHR ''2'' CHR ''4''"

definition GBM_FORMAT_ARGB8888 :: u32 where
  "GBM_FORMAT_ARGB8888 = gbm_fourcc_code CHR ''A'' CHR ''R'' CHR ''2'' CHR ''4''"

definition GBM_FORMAT_ABGR8888 :: u32 where
  "GBM_FORMAT_ABGR8888 = gbm_fourcc_code CHR ''A'' CHR ''B'' CHR ''2'' CHR ''4''"

definition GBM_FORMAT_RGBA8888 :: u32 where
  "GBM_FORMAT_RGBA8888 = gbm_fourcc_code CHR ''R'' CHR ''A'' CHR ''2'' CHR ''4''"

definition GBM_FORMAT_BGRA8888 :: u32 where
  "GBM_FORMAT_BGRA8888 = gbm_fourcc_code CHR ''B'' CHR ''A'' CHR ''2'' CHR ''4''"

definition GBM_FORMAT_XRGB2101010 :: u32 where
  "GBM_FORMAT_XRGB2101010 = gbm_fourcc_code CHR ''X'' CHR ''R'' CHR ''3'' CHR ''0''"

definition GBM_FORMAT_XBGR2101010 :: u32 where
  "GBM_FORMAT_XBGR2101010 = gbm_fourcc_code CHR ''X'' CHR ''B'' CHR ''3'' CHR ''0''"

definition GBM_FORMAT_RGBX1010102 :: u32 where
  "GBM_FORMAT_RGBX1010102 = gbm_fourcc_code CHR ''R'' CHR ''X'' CHR ''3'' CHR ''0''"

definition GBM_FORMAT_BGRX1010102 :: u32 where
  "GBM_FORMAT_BGRX1010102 = gbm_fourcc_code CHR ''B'' CHR ''X'' CHR ''3'' CHR ''0''"

definition GBM_FORMAT_ARGB2101010 :: u32 where
  "GBM_FORMAT_ARGB2101010 = gbm_fourcc_code CHR ''A'' CHR ''R'' CHR ''3'' CHR ''0''"

definition GBM_FORMAT_ABGR2101010 :: u32 where
  "GBM_FORMAT_ABGR2101010 = gbm_fourcc_code CHR ''A'' CHR ''B'' CHR ''3'' CHR ''0''"

definition GBM_FORMAT_RGBA1010102 :: u32 where
  "GBM_FORMAT_RGBA1010102 = gbm_fourcc_code CHR ''R'' CHR ''A'' CHR ''3'' CHR ''0''"

definition GBM_FORMAT_BGRA1010102 :: u32 where
  "GBM_FORMAT_BGRA1010102 = gbm_fourcc_code CHR ''B'' CHR ''A'' CHR ''3'' CHR ''0''"

definition GBM_FORMAT_XBGR16161616 :: u32 where
  "GBM_FORMAT_XBGR16161616 = gbm_fourcc_code CHR ''X'' CHR ''B'' CHR ''4'' CHR ''8''"

definition GBM_FORMAT_ABGR16161616 :: u32 where
  "GBM_FORMAT_ABGR16161616 = gbm_fourcc_code CHR ''A'' CHR ''B'' CHR ''4'' CHR ''8''"

definition GBM_FORMAT_XBGR16161616F :: u32 where
  "GBM_FORMAT_XBGR16161616F = gbm_fourcc_code CHR ''X'' CHR ''B'' CHR ''4'' CHR ''H''"

definition GBM_FORMAT_ABGR16161616F :: u32 where
  "GBM_FORMAT_ABGR16161616F = gbm_fourcc_code CHR ''A'' CHR ''B'' CHR ''4'' CHR ''H''"

definition GBM_FORMAT_YUYV :: u32 where
  "GBM_FORMAT_YUYV = gbm_fourcc_code CHR ''Y'' CHR ''U'' CHR ''Y'' CHR ''V''"

definition GBM_FORMAT_YVYU :: u32 where
  "GBM_FORMAT_YVYU = gbm_fourcc_code CHR ''Y'' CHR ''V'' CHR ''Y'' CHR ''U''"

definition GBM_FORMAT_UYVY :: u32 where
  "GBM_FORMAT_UYVY = gbm_fourcc_code CHR ''U'' CHR ''Y'' CHR ''V'' CHR ''Y''"

definition GBM_FORMAT_VYUY :: u32 where
  "GBM_FORMAT_VYUY = gbm_fourcc_code CHR ''V'' CHR ''Y'' CHR ''U'' CHR ''Y''"

definition GBM_FORMAT_AYUV :: u32 where
  "GBM_FORMAT_AYUV = gbm_fourcc_code CHR ''A'' CHR ''Y'' CHR ''U'' CHR ''V''"

definition GBM_FORMAT_NV12 :: u32 where
  "GBM_FORMAT_NV12 = gbm_fourcc_code CHR ''N'' CHR ''V'' CHR ''1'' CHR ''2''"

definition GBM_FORMAT_NV21 :: u32 where
  "GBM_FORMAT_NV21 = gbm_fourcc_code CHR ''N'' CHR ''V'' CHR ''2'' CHR ''1''"

definition GBM_FORMAT_NV16 :: u32 where
  "GBM_FORMAT_NV16 = gbm_fourcc_code CHR ''N'' CHR ''V'' CHR ''1'' CHR ''6''"

definition GBM_FORMAT_NV61 :: u32 where
  "GBM_FORMAT_NV61 = gbm_fourcc_code CHR ''N'' CHR ''V'' CHR ''6'' CHR ''1''"

definition GBM_FORMAT_YUV410 :: u32 where
  "GBM_FORMAT_YUV410 = gbm_fourcc_code CHR ''Y'' CHR ''U'' CHR ''V'' CHR ''9''"

definition GBM_FORMAT_YVU410 :: u32 where
  "GBM_FORMAT_YVU410 = gbm_fourcc_code CHR ''Y'' CHR ''V'' CHR ''U'' CHR ''9''"

definition GBM_FORMAT_YUV411 :: u32 where
  "GBM_FORMAT_YUV411 = gbm_fourcc_code CHR ''Y'' CHR ''U'' CHR ''1'' CHR ''1''"

definition GBM_FORMAT_YVU411 :: u32 where
  "GBM_FORMAT_YVU411 = gbm_fourcc_code CHR ''Y'' CHR ''V'' CHR ''1'' CHR ''1''"

definition GBM_FORMAT_YUV420 :: u32 where
  "GBM_FORMAT_YUV420 = gbm_fourcc_code CHR ''Y'' CHR ''U'' CHR ''1'' CHR ''2''"

definition GBM_FORMAT_YVU420 :: u32 where
  "GBM_FORMAT_YVU420 = gbm_fourcc_code CHR ''Y'' CHR ''V'' CHR ''1'' CHR ''2''"

definition GBM_FORMAT_YUV422 :: u32 where
  "GBM_FORMAT_YUV422 = gbm_fourcc_code CHR ''Y'' CHR ''U'' CHR ''1'' CHR ''6''"

definition GBM_FORMAT_YVU422 :: u32 where
  "GBM_FORMAT_YVU422 = gbm_fourcc_code CHR ''Y'' CHR ''V'' CHR ''1'' CHR ''6''"

definition GBM_FORMAT_YUV444 :: u32 where
  "GBM_FORMAT_YUV444 = gbm_fourcc_code CHR ''Y'' CHR ''U'' CHR ''2'' CHR ''4''"

definition GBM_FORMAT_YVU444 :: u32 where
  "GBM_FORMAT_YVU444 = gbm_fourcc_code CHR ''Y'' CHR ''V'' CHR ''2'' CHR ''4''"

lemmas gbm_format_defs =
  GBM_FORMAT_C8_def
  GBM_FORMAT_R8_def
  GBM_FORMAT_R16_def
  GBM_FORMAT_GR88_def
  GBM_FORMAT_RG1616_def
  GBM_FORMAT_GR1616_def
  GBM_FORMAT_RGB332_def
  GBM_FORMAT_BGR233_def
  GBM_FORMAT_XRGB4444_def
  GBM_FORMAT_XBGR4444_def
  GBM_FORMAT_RGBX4444_def
  GBM_FORMAT_BGRX4444_def
  GBM_FORMAT_ARGB4444_def
  GBM_FORMAT_ABGR4444_def
  GBM_FORMAT_RGBA4444_def
  GBM_FORMAT_BGRA4444_def
  GBM_FORMAT_XRGB1555_def
  GBM_FORMAT_XBGR1555_def
  GBM_FORMAT_RGBX5551_def
  GBM_FORMAT_BGRX5551_def
  GBM_FORMAT_ARGB1555_def
  GBM_FORMAT_ABGR1555_def
  GBM_FORMAT_RGBA5551_def
  GBM_FORMAT_BGRA5551_def
  GBM_FORMAT_RGB565_def
  GBM_FORMAT_BGR565_def
  GBM_FORMAT_RGB888_def
  GBM_FORMAT_BGR888_def
  GBM_FORMAT_XRGB8888_def
  GBM_FORMAT_XBGR8888_def
  GBM_FORMAT_RGBX8888_def
  GBM_FORMAT_BGRX8888_def
  GBM_FORMAT_ARGB8888_def
  GBM_FORMAT_ABGR8888_def
  GBM_FORMAT_RGBA8888_def
  GBM_FORMAT_BGRA8888_def
  GBM_FORMAT_XRGB2101010_def
  GBM_FORMAT_XBGR2101010_def
  GBM_FORMAT_RGBX1010102_def
  GBM_FORMAT_BGRX1010102_def
  GBM_FORMAT_ARGB2101010_def
  GBM_FORMAT_ABGR2101010_def
  GBM_FORMAT_RGBA1010102_def
  GBM_FORMAT_BGRA1010102_def
  GBM_FORMAT_XBGR16161616_def
  GBM_FORMAT_ABGR16161616_def
  GBM_FORMAT_XBGR16161616F_def
  GBM_FORMAT_ABGR16161616F_def
  GBM_FORMAT_YUYV_def
  GBM_FORMAT_YVYU_def
  GBM_FORMAT_UYVY_def
  GBM_FORMAT_VYUY_def
  GBM_FORMAT_AYUV_def
  GBM_FORMAT_NV12_def
  GBM_FORMAT_NV21_def
  GBM_FORMAT_NV16_def
  GBM_FORMAT_NV61_def
  GBM_FORMAT_YUV410_def
  GBM_FORMAT_YVU410_def
  GBM_FORMAT_YUV411_def
  GBM_FORMAT_YVU411_def
  GBM_FORMAT_YUV420_def
  GBM_FORMAT_YVU420_def
  GBM_FORMAT_YUV422_def
  GBM_FORMAT_YVU422_def
  GBM_FORMAT_YUV444_def
  GBM_FORMAT_YVU444_def

text \<open>Each code as the number the compiler sees.\<close>

lemma gbm_format_values [gbm_values]:
  "GBM_FORMAT_C8 = 0x20203843"
  "GBM_FORMAT_R8 = 0x20203852"
  "GBM_FORMAT_R16 = 0x20363152"
  "GBM_FORMAT_GR88 = 0x38385247"
  "GBM_FORMAT_RG1616 = 0x32334752"
  "GBM_FORMAT_GR1616 = 0x32335247"
  "GBM_FORMAT_RGB332 = 0x38424752"
  "GBM_FORMAT_BGR233 = 0x38524742"
  "GBM_FORMAT_XRGB4444 = 0x32315258"
  "GBM_FORMAT_XBGR4444 = 0x32314258"
  "GBM_FORMAT_RGBX4444 = 0x32315852"
  "GBM_FORMAT_BGRX4444 = 0x32315842"
  "GBM_FORMAT_ARGB4444 = 0x32315241"
  "GBM_FORMAT_ABGR4444 = 0x32314241"
  "GBM_FORMAT_RGBA4444 = 0x32314152"
  "GBM_FORMAT_BGRA4444 = 0x32314142"
  "GBM_FORMAT_XRGB1555 = 0x35315258"
  "GBM_FORMAT_XBGR1555 = 0x35314258"
  "GBM_FORMAT_RGBX5551 = 0x35315852"
  "GBM_FORMAT_BGRX5551 = 0x35315842"
  "GBM_FORMAT_ARGB1555 = 0x35315241"
  "GBM_FORMAT_ABGR1555 = 0x35314241"
  "GBM_FORMAT_RGBA5551 = 0x35314152"
  "GBM_FORMAT_BGRA5551 = 0x35314142"
  "GBM_FORMAT_RGB565 = 0x36314752"
  "GBM_FORMAT_BGR565 = 0x36314742"
  "GBM_FORMAT_RGB888 = 0x34324752"
  "GBM_FORMAT_BGR888 = 0x34324742"
  "GBM_FORMAT_XRGB8888 = 0x34325258"
  "GBM_FORMAT_XBGR8888 = 0x34324258"
  "GBM_FORMAT_RGBX8888 = 0x34325852"
  "GBM_FORMAT_BGRX8888 = 0x34325842"
  "GBM_FORMAT_ARGB8888 = 0x34325241"
  "GBM_FORMAT_ABGR8888 = 0x34324241"
  "GBM_FORMAT_RGBA8888 = 0x34324152"
  "GBM_FORMAT_BGRA8888 = 0x34324142"
  "GBM_FORMAT_XRGB2101010 = 0x30335258"
  "GBM_FORMAT_XBGR2101010 = 0x30334258"
  "GBM_FORMAT_RGBX1010102 = 0x30335852"
  "GBM_FORMAT_BGRX1010102 = 0x30335842"
  "GBM_FORMAT_ARGB2101010 = 0x30335241"
  "GBM_FORMAT_ABGR2101010 = 0x30334241"
  "GBM_FORMAT_RGBA1010102 = 0x30334152"
  "GBM_FORMAT_BGRA1010102 = 0x30334142"
  "GBM_FORMAT_XBGR16161616 = 0x38344258"
  "GBM_FORMAT_ABGR16161616 = 0x38344241"
  "GBM_FORMAT_XBGR16161616F = 0x48344258"
  "GBM_FORMAT_ABGR16161616F = 0x48344241"
  "GBM_FORMAT_YUYV = 0x56595559"
  "GBM_FORMAT_YVYU = 0x55595659"
  "GBM_FORMAT_UYVY = 0x59565955"
  "GBM_FORMAT_VYUY = 0x59555956"
  "GBM_FORMAT_AYUV = 0x56555941"
  "GBM_FORMAT_NV12 = 0x3231564e"
  "GBM_FORMAT_NV21 = 0x3132564e"
  "GBM_FORMAT_NV16 = 0x3631564e"
  "GBM_FORMAT_NV61 = 0x3136564e"
  "GBM_FORMAT_YUV410 = 0x39565559"
  "GBM_FORMAT_YVU410 = 0x39555659"
  "GBM_FORMAT_YUV411 = 0x31315559"
  "GBM_FORMAT_YVU411 = 0x31315659"
  "GBM_FORMAT_YUV420 = 0x32315559"
  "GBM_FORMAT_YVU420 = 0x32315659"
  "GBM_FORMAT_YUV422 = 0x36315559"
  "GBM_FORMAT_YVU422 = 0x36315659"
  "GBM_FORMAT_YUV444 = 0x34325559"
  "GBM_FORMAT_YVU444 = 0x34325659"
  by (simp_all add: gbm_format_defs gbm_fourcc_code_def)

section \<open>Use flags and transfer flags\<close>

definition GBM_BO_USE_SCANOUT :: u32 where
  "GBM_BO_USE_SCANOUT = push_bit 0 1"

definition GBM_BO_USE_CURSOR :: u32 where
  "GBM_BO_USE_CURSOR = push_bit 1 1"

definition GBM_BO_USE_RENDERING :: u32 where
  "GBM_BO_USE_RENDERING = push_bit 2 1"

definition GBM_BO_USE_LINEAR :: u32 where
  "GBM_BO_USE_LINEAR = push_bit 4 1"

definition GBM_BO_USE_PROTECTED :: u32 where
  "GBM_BO_USE_PROTECTED = push_bit 5 1"

definition GBM_BO_TRANSFER_READ :: u32 where
  "GBM_BO_TRANSFER_READ = push_bit 0 1"

definition GBM_BO_TRANSFER_WRITE :: u32 where
  "GBM_BO_TRANSFER_WRITE = push_bit 1 1"

lemma gbm_flag_values [gbm_values]:
  "GBM_BO_USE_SCANOUT = 1" "GBM_BO_USE_CURSOR = 2" "GBM_BO_USE_RENDERING = 4"
  "GBM_BO_USE_LINEAR = 16" "GBM_BO_USE_PROTECTED = 32"
  "GBM_BO_TRANSFER_READ = 1" "GBM_BO_TRANSFER_WRITE = 2"
  by (simp_all add: GBM_BO_USE_SCANOUT_def GBM_BO_USE_CURSOR_def GBM_BO_USE_RENDERING_def
      GBM_BO_USE_LINEAR_def GBM_BO_USE_PROTECTED_def GBM_BO_TRANSFER_READ_def
      GBM_BO_TRANSFER_WRITE_def)

section \<open>The import descriptor\<close>

text \<open>
  \<open>GBM_BO_IMPORT_FD_MODIFIER\<close> is defined in the header, so the \<open>#ifdef\<close> of
  \<open>gralloc_gm_buffer_import\<close> selects this structure.
\<close>

definition GBM_MAX_PLANES :: nat where
  "GBM_MAX_PLANES = 4"

record gbm_import_fd_modifier_data =
  imp_width :: u32
  imp_height :: u32
  imp_format :: u32
  imp_num_fds :: u32
  imp_fds :: "c_int list"
  imp_strides :: "c_int list"
  imp_offsets :: "c_int list"
  imp_modifier :: u64

end
