(* ===== verification/Gm_Process.thy ===== *)
theory Gm_Process
  imports Gbm_Header
begin

text \<open>
  The data the library works on and the world it runs in: the structs of
  src/src/include/gralloc_gbm_mesa.h, drm/gralloc_handle.h and mesa/gbm_backend_abi.h as records,
  the constants and functions that come from outside the repository (Android headers, libcutils,
  libsync, Mesa's GBM, the kernel) as parameter records \<open>hal\<close> and \<open>'e gbm_env\<close>, and the
  state \<open>'e proc\<close> of a process that has the library loaded.
\<close>

section \<open>Constants of the Android headers\<close>

text \<open>
  \<open>HAL_PIXEL_FORMAT_*\<close> come from system/graphics.h and \<open>GRALLOC_USAGE_*\<close> from
  hardware/gralloc.h, which are not in the repository: they are fields of a parameter.
\<close>

record hal =
  HAL_PIXEL_FORMAT_RGBA_8888 :: u32
  HAL_PIXEL_FORMAT_RGBX_8888 :: u32
  HAL_PIXEL_FORMAT_RGB_888 :: u32
  HAL_PIXEL_FORMAT_RGB_565 :: u32
  HAL_PIXEL_FORMAT_BGRA_8888 :: u32
  HAL_PIXEL_FORMAT_RAW16 :: u32
  HAL_PIXEL_FORMAT_YV12 :: u32
  HAL_PIXEL_FORMAT_Y8 :: u32
  HAL_PIXEL_FORMAT_Y16 :: u32
  HAL_PIXEL_FORMAT_RGBA_FP16 :: u32
  HAL_PIXEL_FORMAT_RGBA_1010102 :: u32
  HAL_PIXEL_FORMAT_YCbCr_422_SP :: u32
  HAL_PIXEL_FORMAT_YCbCr_420_888 :: u32
  HAL_PIXEL_FORMAT_YCrCb_420_SP :: u32
  HAL_PIXEL_FORMAT_YCBCR_P010 :: u32
  HAL_PIXEL_FORMAT_BLOB :: u32
  HAL_PIXEL_FORMAT_IMPLEMENTATION_DEFINED :: u32
  GRALLOC_USAGE_SW_READ_OFTEN :: u32
  GRALLOC_USAGE_SW_WRITE_OFTEN :: u32
  GRALLOC_USAGE_SW_READ_MASK :: u32
  GRALLOC_USAGE_SW_WRITE_MASK :: u32
  GRALLOC_USAGE_CURSOR :: u32
  GRALLOC_USAGE_HW_RENDER :: u32
  GRALLOC_USAGE_HW_TEXTURE :: u32
  GRALLOC_USAGE_HW_FB :: u32
  GRALLOC_USAGE_HW_COMPOSER :: u32
  GRALLOC_USAGE_PROTECTED :: u32

text \<open>
  What the code relies on: the format codes it switches over are distinct (a C++ \<open>switch\<close> with
  two equal labels does not compile).
\<close>

definition hal_formats :: "hal \<Rightarrow> u32 list" where
  "hal_formats K =
    [HAL_PIXEL_FORMAT_RGBA_8888 K, HAL_PIXEL_FORMAT_RGBX_8888 K, HAL_PIXEL_FORMAT_RGB_888 K,
     HAL_PIXEL_FORMAT_RGB_565 K, HAL_PIXEL_FORMAT_BGRA_8888 K, HAL_PIXEL_FORMAT_RAW16 K,
     HAL_PIXEL_FORMAT_YV12 K, HAL_PIXEL_FORMAT_Y8 K, HAL_PIXEL_FORMAT_Y16 K,
     HAL_PIXEL_FORMAT_RGBA_FP16 K, HAL_PIXEL_FORMAT_RGBA_1010102 K,
     HAL_PIXEL_FORMAT_YCbCr_422_SP K, HAL_PIXEL_FORMAT_YCbCr_420_888 K,
     HAL_PIXEL_FORMAT_YCrCb_420_SP K, HAL_PIXEL_FORMAT_YCBCR_P010 K, HAL_PIXEL_FORMAT_BLOB K,
     HAL_PIXEL_FORMAT_IMPLEMENTATION_DEFINED K]"

definition hal_ok :: "hal \<Rightarrow> bool" where
  "hal_ok K \<longleftrightarrow> distinct (hal_formats K)"

text \<open>The values Android documents, used by the witnesses.\<close>

definition android_hal :: hal where
  "android_hal = \<lparr>
     HAL_PIXEL_FORMAT_RGBA_8888 = 1, HAL_PIXEL_FORMAT_RGBX_8888 = 2,
     HAL_PIXEL_FORMAT_RGB_888 = 3, HAL_PIXEL_FORMAT_RGB_565 = 4,
     HAL_PIXEL_FORMAT_BGRA_8888 = 5, HAL_PIXEL_FORMAT_RAW16 = 0x20,
     HAL_PIXEL_FORMAT_YV12 = 0x32315659, HAL_PIXEL_FORMAT_Y8 = 0x20203859,
     HAL_PIXEL_FORMAT_Y16 = 0x20363159, HAL_PIXEL_FORMAT_RGBA_FP16 = 0x16,
     HAL_PIXEL_FORMAT_RGBA_1010102 = 0x2B, HAL_PIXEL_FORMAT_YCbCr_422_SP = 0x10,
     HAL_PIXEL_FORMAT_YCbCr_420_888 = 0x23, HAL_PIXEL_FORMAT_YCrCb_420_SP = 0x11,
     HAL_PIXEL_FORMAT_YCBCR_P010 = 0x36, HAL_PIXEL_FORMAT_BLOB = 0x21,
     HAL_PIXEL_FORMAT_IMPLEMENTATION_DEFINED = 0x22,
     GRALLOC_USAGE_SW_READ_OFTEN = 0x3, GRALLOC_USAGE_SW_WRITE_OFTEN = 0x30,
     GRALLOC_USAGE_SW_READ_MASK = 0xF, GRALLOC_USAGE_SW_WRITE_MASK = 0xF0,
     GRALLOC_USAGE_CURSOR = 0x8000, GRALLOC_USAGE_HW_RENDER = 0x200,
     GRALLOC_USAGE_HW_TEXTURE = 0x100, GRALLOC_USAGE_HW_FB = 0x1000,
     GRALLOC_USAGE_HW_COMPOSER = 0x800, GRALLOC_USAGE_PROTECTED = 0x4000\<rparr>"

lemma android_hal_sel [simp]:
  "HAL_PIXEL_FORMAT_RGBA_8888 android_hal = 1" "HAL_PIXEL_FORMAT_RGBX_8888 android_hal = 2"
  "HAL_PIXEL_FORMAT_RGB_888 android_hal = 3" "HAL_PIXEL_FORMAT_RGB_565 android_hal = 4"
  "HAL_PIXEL_FORMAT_BGRA_8888 android_hal = 5" "HAL_PIXEL_FORMAT_RAW16 android_hal = 0x20"
  "HAL_PIXEL_FORMAT_YV12 android_hal = 0x32315659" "HAL_PIXEL_FORMAT_Y8 android_hal = 0x20203859"
  "HAL_PIXEL_FORMAT_Y16 android_hal = 0x20363159" "HAL_PIXEL_FORMAT_RGBA_FP16 android_hal = 0x16"
  "HAL_PIXEL_FORMAT_RGBA_1010102 android_hal = 0x2B"
  "HAL_PIXEL_FORMAT_YCbCr_422_SP android_hal = 0x10"
  "HAL_PIXEL_FORMAT_YCbCr_420_888 android_hal = 0x23"
  "HAL_PIXEL_FORMAT_YCrCb_420_SP android_hal = 0x11"
  "HAL_PIXEL_FORMAT_YCBCR_P010 android_hal = 0x36" "HAL_PIXEL_FORMAT_BLOB android_hal = 0x21"
  "HAL_PIXEL_FORMAT_IMPLEMENTATION_DEFINED android_hal = 0x22"
  "GRALLOC_USAGE_SW_READ_OFTEN android_hal = 0x3" "GRALLOC_USAGE_SW_WRITE_OFTEN android_hal = 0x30"
  "GRALLOC_USAGE_SW_READ_MASK android_hal = 0xF" "GRALLOC_USAGE_SW_WRITE_MASK android_hal = 0xF0"
  "GRALLOC_USAGE_CURSOR android_hal = 0x8000" "GRALLOC_USAGE_HW_RENDER android_hal = 0x200"
  "GRALLOC_USAGE_HW_TEXTURE android_hal = 0x100" "GRALLOC_USAGE_HW_FB android_hal = 0x1000"
  "GRALLOC_USAGE_HW_COMPOSER android_hal = 0x800" "GRALLOC_USAGE_PROTECTED android_hal = 0x4000"
  by (simp_all add: android_hal_def)

lemma android_hal_ok [simp]: "hal_ok android_hal"
  by (simp add: hal_ok_def hal_formats_def)

section \<open>Structs\<close>

text \<open>\<open>struct gralloc_buffer_desc\<close>.\<close>

record gralloc_buffer_desc =
  d_width :: u32
  d_height :: u32
  d_android_format :: u32
  d_android_usage :: u32
  d_android_reserved_size :: u32
  d_gbm_format :: u32
  d_flags :: u32
  d_layer_count :: u32

text \<open>\<open>struct bo_data\<close>; the pointer \<open>map_data\<close> is a 64-bit address, 0 for \<open>NULL\<close>.\<close>

record bo_data =
  map_data :: u64
  lock_count :: c_int
  locked_for :: c_int

text \<open>
  \<open>struct gbm_bo\<close> of mesa/gbm_backend_abi.h as far as the library sees it.  Only this library
  sets \<open>user_data\<close>, always to a \<open>bo_data\<close> of its own, so the object is kept inside the record;
  \<open>None\<close> is the null pointer of a buffer object that was never locked.
\<close>

record gbm_bo =
  bo_width :: u32
  bo_height :: u32
  bo_stride :: u32
  bo_format :: u32
  bo_modifier :: u64
  user_data :: "bo_data option"

text \<open>
  \<open>struct gralloc_handle_t\<close> laid over a \<open>native_handle_t\<close>: the header's \<open>numFds\<close> and
  \<open>numInts\<close>, the fields in order, and whatever data words follow them.
\<close>

record gralloc_handle_t =
  numFds :: nat
  numInts :: nat
  prime_fd :: c_int
  h_magic :: u32
  h_version :: u32
  h_width :: u32
  h_height :: u32
  h_format :: u32
  h_usage :: u32
  h_stride :: u32
  h_data_owner :: c_int
  h_modifier :: u64
  h_reserved :: u64
  h_rest :: "c_int list"

text \<open>
  \<open>sizeof\<close> from the field sizes and alignments: \<open>native_handle_t\<close> is three ints, then ten
  4-byte fields, then the two 8-byte fields declared \<open>aligned(8)\<close>.
\<close>

fun struct_end :: "nat \<Rightarrow> (nat \<times> nat) list \<Rightarrow> nat" where
  "struct_end off [] = off"
| "struct_end off ((sz, al) # fs) = struct_end ((off + al - 1) div al * al + sz) fs"

definition gralloc_handle_layout :: "(nat \<times> nat) list" where
  "gralloc_handle_layout =
     [(12, 4), (4, 4), (4, 4), (4, 4), (4, 4), (4, 4), (4, 4), (4, 4), (4, 4), (4, 4), (8, 8), (8, 8)]"

definition GRALLOC_HANDLE_VERSION :: u32 where
  "GRALLOC_HANDLE_VERSION = 4"

definition GRALLOC_HANDLE_MAGIC :: u32 where
  "GRALLOC_HANDLE_MAGIC = 0x60585350"

definition GRALLOC_HANDLE_NUM_FDS :: nat where
  "GRALLOC_HANDLE_NUM_FDS = 1"

definition GRALLOC_HANDLE_NUM_INTS :: nat where
  "GRALLOC_HANDLE_NUM_INTS = (struct_end 0 gralloc_handle_layout - 12) div 4 - GRALLOC_HANDLE_NUM_FDS"

text \<open>The data words of the struct, as \<open>native_handle_t::data\<close> holds them (little endian).\<close>

definition lo32 :: "u64 \<Rightarrow> c_int" where
  "lo32 x = ucast x"

definition hi32 :: "u64 \<Rightarrow> c_int" where
  "hi32 x = ucast (drop_bit 32 x)"

definition join32 :: "c_int \<Rightarrow> c_int \<Rightarrow> u64" where
  "join32 lo hi = ucast lo OR push_bit 32 (ucast hi)"

definition handle_data :: "gralloc_handle_t \<Rightarrow> c_int list" where
  "handle_data h =
     [prime_fd h, h_magic h, h_version h, h_width h, h_height h, h_format h, h_usage h, h_stride h,
      h_data_owner h, lo32 (h_modifier h), hi32 (h_modifier h), lo32 (h_reserved h),
      hi32 (h_reserved h)] @ h_rest h"

lemma GRALLOC_HANDLE_NUM_INTS_eq: "GRALLOC_HANDLE_NUM_INTS = 12"
  by (simp add: GRALLOC_HANDLE_NUM_INTS_def gralloc_handle_layout_def GRALLOC_HANDLE_NUM_FDS_def)

lemma length_handle_data: "length (handle_data h) = 13 + length (h_rest h)"
  by (simp add: handle_data_def)

lemma join32_lo_hi [simp]: "join32 (lo32 x) (hi32 x) = x"
  by (rule bit_eqI) (auto simp: join32_def lo32_def hi32_def bit_simps)

lemma lo32_join [simp]: "lo32 (join32 a b) = a"
  by (rule bit_eqI) (auto simp: join32_def lo32_def bit_simps)

lemma hi32_join [simp]: "hi32 (join32 a b) = b"
  by (rule bit_eqI) (auto simp: join32_def hi32_def bit_simps dest: bit_imp_le_length)

section \<open>The environment\<close>

text \<open>
  Functions outside the repository, over an opaque world \<open>'e\<close>.  A function that hands out a
  pointer, an object or a descriptor is told which ones are live, so that its documented promise
  (what it returns is new) can be stated of the function alone.  \<open>None\<close> and a negative
  descriptor are the failure values; \<open>p_errno\<close> reads \<open>errno\<close>.
\<close>

type_synonym ptr = u64
type_synonym bo_ptr = nat
type_synonym dev_ptr = nat

record 'e gbm_env =
  hal_of :: hal
  p_errno :: "'e \<Rightarrow> c_int"
  p_property_get :: "string \<Rightarrow> string \<Rightarrow> 'e \<Rightarrow> string"
  p_open :: "c_int set \<Rightarrow> string \<Rightarrow> 'e \<Rightarrow> c_int \<times> 'e"
  p_dup :: "c_int set \<Rightarrow> c_int \<Rightarrow> 'e \<Rightarrow> c_int \<times> 'e"
  p_sync_wait :: "c_int \<Rightarrow> c_int \<Rightarrow> 'e \<Rightarrow> c_int \<times> 'e"
  p_native_handle_create :: "ptr set \<Rightarrow> nat \<Rightarrow> nat \<Rightarrow> 'e \<Rightarrow> (ptr \<times> gralloc_handle_t) option \<times> 'e"
  p_native_handle_clone ::
    "ptr set \<Rightarrow> c_int set \<Rightarrow> gralloc_handle_t \<Rightarrow> 'e \<Rightarrow> (ptr \<times> gralloc_handle_t) option \<times> 'e"
  p_gbm_create_device :: "dev_ptr set \<Rightarrow> c_int \<Rightarrow> 'e \<Rightarrow> dev_ptr option \<times> 'e"
  p_gbm_device_get_fd :: "dev_ptr \<Rightarrow> c_int"
  p_gbm_bo_create ::
    "bo_ptr set \<Rightarrow> dev_ptr \<Rightarrow> u32 \<Rightarrow> u32 \<Rightarrow> u32 \<Rightarrow> u32 \<Rightarrow> 'e \<Rightarrow> (bo_ptr \<times> gbm_bo) option \<times> 'e"
  p_gbm_bo_import ::
    "bo_ptr set \<Rightarrow> dev_ptr \<Rightarrow> gbm_import_fd_modifier_data \<Rightarrow> 'e \<Rightarrow> (bo_ptr \<times> gbm_bo) option \<times> 'e"
  p_gbm_bo_get_fd :: "c_int set \<Rightarrow> bo_ptr \<Rightarrow> 'e \<Rightarrow> c_int \<times> 'e"
  p_gbm_bo_map ::
    "bo_ptr \<Rightarrow> u32 \<Rightarrow> u32 \<Rightarrow> u32 \<Rightarrow> u32 \<Rightarrow> u32 \<Rightarrow> u64 \<Rightarrow> 'e \<Rightarrow> (u64 \<times> u32 \<times> u64) \<times> 'e"
  p_gbm_bo_unmap :: "bo_ptr \<Rightarrow> u64 \<Rightarrow> 'e \<Rightarrow> 'e"

section \<open>The process\<close>

text \<open>
  The statics \<open>gbm_bo_handle_map\<close>, \<open>_gbm_dev_fd\<close> and \<open>_gbm_dev\<close> of gralloc_gbm_mesa.cpp, the
  live native handles, buffer objects and devices they point to, and the open descriptors.
\<close>

record 'e proc =
  env :: 'e
  gbm_bo_handle_map :: "ptr \<rightharpoonup> bo_ptr"
  gbm_dev_fd :: c_int
  gbm_dev :: "dev_ptr option"
  handles :: "ptr \<rightharpoonup> gralloc_handle_t"
  bos :: "bo_ptr \<rightharpoonup> gbm_bo"
  devs :: "dev_ptr set"
  open_fds :: "c_int set"

text \<open>The process at start: nothing allocated; \<open>fds\<close> are the descriptors it began with.\<close>

definition init_proc :: "'e \<Rightarrow> c_int set \<Rightarrow> 'e proc" where
  "init_proc e fds = \<lparr>env = e, gbm_bo_handle_map = Map.empty, gbm_dev_fd = - 1, gbm_dev = None,
     handles = Map.empty, bos = Map.empty, devs = {}, open_fds = fds\<rparr>"

section \<open>Pointers and descriptors\<close>

text \<open>
  \<open>gralloc_handle\<close> is a pointer cast.  Reading a field through it needs a live handle with room
  for the struct's thirteen data words; nothing in the library checks that room.
\<close>

definition load_native :: "ptr \<Rightarrow> 'e proc \<Rightarrow> gralloc_handle_t run" where
  "load_native p s =
     (if p = 0 then Fault NullDeref
      else case handles s p of None \<Rightarrow> Fault DanglingDeref | Some h \<Rightarrow> Done h)"

definition load_handle :: "ptr \<Rightarrow> 'e proc \<Rightarrow> gralloc_handle_t run" where
  "load_handle p s =
     andThen (load_native p s) (\<lambda>h.
       if numFds h + numInts h < GRALLOC_HANDLE_NUM_FDS + GRALLOC_HANDLE_NUM_INTS
       then Fault OutOfBounds else Done h)"

definition store_handle :: "ptr \<Rightarrow> gralloc_handle_t \<Rightarrow> 'e proc \<Rightarrow> 'e proc" where
  "store_handle p h s = s\<lparr>handles := (handles s)(p \<mapsto> h)\<rparr>"

definition load_bo :: "bo_ptr \<Rightarrow> 'e proc \<Rightarrow> gbm_bo run" where
  "load_bo b s = (case bos s b of None \<Rightarrow> Fault DanglingDeref | Some bo \<Rightarrow> Done bo)"

definition store_bo :: "bo_ptr \<Rightarrow> gbm_bo \<Rightarrow> 'e proc \<Rightarrow> 'e proc" where
  "store_bo b bo s = s\<lparr>bos := (bos s)(b \<mapsto> bo)\<rparr>"

definition add_fd :: "c_int \<Rightarrow> 'e proc \<Rightarrow> 'e proc" where
  "add_fd fd s = (if is_neg fd then s else s\<lparr>open_fds := insert fd (open_fds s)\<rparr>)"

definition close_fd :: "c_int \<Rightarrow> 'e proc \<Rightarrow> 'e proc" where
  "close_fd fd s = s\<lparr>open_fds := open_fds s - {fd}\<rparr>"

definition handle_fds :: "gralloc_handle_t \<Rightarrow> c_int list" where
  "handle_fds h = take (numFds h) (handle_data h)"

text \<open>The libcutils calls: \<open>close\<close> closes the handle's descriptors, \<open>delete\<close> frees its memory.\<close>

definition native_handle_clone :: "'e gbm_env \<Rightarrow> ptr \<Rightarrow> 'e proc \<Rightarrow> (ptr \<times> 'e proc) run" where
  "native_handle_clone P p s =
     andThen (load_native p s) (\<lambda>h.
       case p_native_handle_clone P (dom (handles s)) (open_fds s) h (env s) of
         (None, e) \<Rightarrow> Done (0, s\<lparr>env := e\<rparr>)
       | (Some (q, h'), e) \<Rightarrow>
           Done (q, s\<lparr>env := e, handles := (handles s)(q \<mapsto> h'),
                      open_fds := open_fds s \<union> set (filter (\<lambda>fd. \<not> is_neg fd) (handle_fds h'))\<rparr>))"

definition native_handle_close :: "ptr \<Rightarrow> 'e proc \<Rightarrow> 'e proc run" where
  "native_handle_close p s =
     andThen (load_native p s) (\<lambda>h. Done (s\<lparr>open_fds := open_fds s - set (handle_fds h)\<rparr>))"

definition native_handle_delete :: "ptr \<Rightarrow> 'e proc \<Rightarrow> 'e proc run" where
  "native_handle_delete p s =
     andThen (load_native p s) (\<lambda>h. Done (s\<lparr>handles := erase p (handles s)\<rparr>))"

section \<open>Creating a buffer handle\<close>

text \<open>
  \<open>gralloc_handle_create\<close> of drm/gralloc_handle.h: allocate, then fill in everything but
  stride, data owner, modifier and the reserved word, which keep what the allocator left there.
\<close>

definition gralloc_handle_create ::
    "'e gbm_env \<Rightarrow> c_int \<Rightarrow> c_int \<Rightarrow> c_int \<Rightarrow> c_int \<Rightarrow> 'e proc \<Rightarrow> ptr \<times> 'e proc" where
  "gralloc_handle_create P width height hal_format usage s =
     (case p_native_handle_create P (dom (handles s)) GRALLOC_HANDLE_NUM_FDS GRALLOC_HANDLE_NUM_INTS
             (env s) of
        (None, e) \<Rightarrow> (0, s\<lparr>env := e\<rparr>)
      | (Some (p, h), e) \<Rightarrow>
          (p, store_handle p
                (h\<lparr>h_magic := GRALLOC_HANDLE_MAGIC, h_version := GRALLOC_HANDLE_VERSION,
                   h_width := width, h_height := height, h_format := hal_format,
                   h_usage := usage, prime_fd := - 1\<rparr>)
                (s\<lparr>env := e\<rparr>)))"

section \<open>What the environment promises\<close>

text \<open>
  Documented behaviour of the outside functions, used as named hypotheses: the allocators return
  new memory of the size asked for, a clone carries the same words with new descriptors, the
  kernel returns unused descriptors, Mesa returns new buffer objects without user data.
\<close>

definition same_words :: "gralloc_handle_t \<Rightarrow> gralloc_handle_t \<Rightarrow> bool" where
  "same_words h h' \<longleftrightarrow> numFds h' = numFds h \<and> numInts h' = numInts h \<and>
     drop (numFds h) (handle_data h') = drop (numFds h) (handle_data h)"

definition handle_contract :: "'e gbm_env \<Rightarrow> bool" where
  "handle_contract P \<longleftrightarrow>
     (\<forall>L a b e p h e'. p_native_handle_create P L a b e = (Some (p, h), e') \<longrightarrow>
        p \<noteq> 0 \<and> p \<notin> L \<and> numFds h = a \<and> numInts h = b) \<and>
     (\<forall>L F h e p h' e'. p_native_handle_clone P L F h e = (Some (p, h'), e') \<longrightarrow>
        p \<noteq> 0 \<and> p \<notin> L \<and> same_words h h' \<and> set (handle_fds h') \<inter> F = {})"

definition bo_contract :: "'e gbm_env \<Rightarrow> bool" where
  "bo_contract P \<longleftrightarrow>
     (\<forall>L d w h f u e b bo e'. p_gbm_bo_create P L d w h f u e = (Some (b, bo), e') \<longrightarrow>
        b \<notin> L \<and> user_data bo = None) \<and>
     (\<forall>L d x e b bo e'. p_gbm_bo_import P L d x e = (Some (b, bo), e') \<longrightarrow>
        b \<notin> L \<and> user_data bo = None)"

definition fd_contract :: "'e gbm_env \<Rightarrow> bool" where
  "fd_contract P \<longleftrightarrow>
     (\<forall>F b e fd e'. p_gbm_bo_get_fd P F b e = (fd, e') \<longrightarrow> is_neg fd \<or> fd \<notin> F) \<and>
     (\<forall>F x e fd e'. p_dup P F x e = (fd, e') \<longrightarrow> is_neg fd \<or> fd \<notin> F) \<and>
     (\<forall>F x e fd e'. p_open P F x e = (fd, e') \<longrightarrow> is_neg fd \<or> fd \<notin> F)"

text \<open>
  \<open>gbm_bo_map\<close> stores a mapping token with every mapping it returns and none when it fails.
\<close>

definition map_contract :: "'e gbm_env \<Rightarrow> bool" where
  "map_contract P \<longleftrightarrow>
     (\<forall>b x y w h f md e a st md' e'. p_gbm_bo_map P b x y w h f md e = ((a, st, md'), e') \<longrightarrow>
        (if a = 0 then md' = md else md' \<noteq> 0))"

lemma map_contractD:
  assumes "map_contract P" and "p_gbm_bo_map P b x y w h f md e = ((a, st, md'), e')"
  shows "if a = 0 then md' = md else md' \<noteq> 0"
  using assms unfolding map_contract_def by blast

lemma handle_contract_create:
  assumes "handle_contract P" and "p_native_handle_create P L a b e = (Some (p, h), e')"
  shows "p \<noteq> 0" and "p \<notin> L" and "numFds h = a" and "numInts h = b"
  using assms unfolding handle_contract_def by metis+

lemma handle_contract_clone:
  assumes "handle_contract P" and "p_native_handle_clone P L F h e = (Some (p, h'), e')"
  shows "p \<noteq> 0" and "p \<notin> L" and "same_words h h'" and "set (handle_fds h') \<inter> F = {}"
  using assms unfolding handle_contract_def by metis+

lemma bo_contract_create:
  assumes "bo_contract P" and "p_gbm_bo_create P L d w h f u e = (Some (b, bo), e')"
  shows "b \<notin> L" and "user_data bo = None"
  using assms unfolding bo_contract_def by metis+

lemma bo_contract_import:
  assumes "bo_contract P" and "p_gbm_bo_import P L d x e = (Some (b, bo), e')"
  shows "b \<notin> L" and "user_data bo = None"
  using assms unfolding bo_contract_def by metis+

lemma load_handle_Done:
  "load_handle p s = Done h \<longleftrightarrow>
     p \<noteq> 0 \<and> handles s p = Some h \<and> 13 \<le> numFds h + numInts h"
  by (auto simp: load_handle_def load_native_def GRALLOC_HANDLE_NUM_INTS_eq
      GRALLOC_HANDLE_NUM_FDS_def split: option.splits)

lemma load_native_Done: "load_native p s = Done h \<longleftrightarrow> p \<noteq> 0 \<and> handles s p = Some h"
  by (auto simp: load_native_def split: option.splits)

lemma load_bo_Done [simp]: "load_bo b s = Done bo \<longleftrightarrow> bos s b = Some bo"
  by (auto simp: load_bo_def split: option.splits)

end
