(* ===== verification/Gm_Sample.thy ===== *)
theory Gm_Sample
  imports Gm_Process
begin

text \<open>
  A concrete environment in which everything succeeds while the supply lasts: it keeps every
  promise of Gm_Process, so the hypotheses of the properties can hold together.  The witnesses run
  the model in it; no property is restricted to it.
\<close>

definition pick :: "'a list \<Rightarrow> 'a set \<Rightarrow> 'a option" where
  "pick xs L = List.find (\<lambda>x. x \<notin> L) xs"

lemma pick_Some: "pick xs L = Some x \<Longrightarrow> x \<in> set xs \<and> x \<notin> L"
  by (auto simp: pick_def find_Some_iff)

lemma pick_Cons [simp]: "pick (x # xs) L = (if x \<in> L then pick xs L else Some x)"
  by (simp add: pick_def)

definition sample_fds :: "c_int list" where
  "sample_fds = [10, 11, 12, 13, 14, 15, 16, 17]"

definition sample_ptrs :: "ptr list" where
  "sample_ptrs = [0x1000, 0x2000, 0x3000, 0x4000]"

definition sample_bos :: "nat list" where
  "sample_bos = [1, 2, 3, 4]"

lemma pick_Nil [simp]: "pick [] L = None"
  by (simp add: pick_def)

lemmas sample_lists = sample_fds_def sample_ptrs_def sample_bos_def

definition fresh_fd :: "c_int set \<Rightarrow> c_int" where
  "fresh_fd F = (case pick sample_fds F of None \<Rightarrow> - 1 | Some fd \<Rightarrow> fd)"

lemma fresh_fd_new: "is_neg (fresh_fd F) \<or> fresh_fd F \<notin> F"
  by (auto simp: fresh_fd_def split: option.splits dest: pick_Some)

definition blank_handle :: "nat \<Rightarrow> nat \<Rightarrow> gralloc_handle_t" where
  "blank_handle a b = \<lparr>numFds = a, numInts = b, prime_fd = 0, h_magic = 0, h_version = 0,
     h_width = 0, h_height = 0, h_format = 0, h_usage = 0, h_stride = 0, h_data_owner = 0,
     h_modifier = 0, h_reserved = 0, h_rest = []\<rparr>"

definition sample_bo :: "u32 \<Rightarrow> u32 \<Rightarrow> u32 \<Rightarrow> gbm_bo" where
  "sample_bo w h f = \<lparr>bo_width = w, bo_height = h, bo_stride = 4 * w, bo_format = f,
     bo_modifier = 0, user_data = None\<rparr>"

definition sample_env :: "unit gbm_env" where
  "sample_env = \<lparr>
     hal_of = android_hal,
     p_errno = (\<lambda>e. 12),
     p_property_get = (\<lambda>key dflt e. dflt),
     p_open = (\<lambda>F path e. (fresh_fd F, e)),
     p_dup = (\<lambda>F fd e. (fresh_fd F, e)),
     p_sync_wait = (\<lambda>fd t e. (0, e)),
     p_native_handle_create = (\<lambda>L a b e.
        (map_option (\<lambda>p. (p, blank_handle a b)) (pick sample_ptrs L), e)),
     p_native_handle_clone = (\<lambda>L F h e.
        (if numFds h = 1 \<and> \<not> is_neg (fresh_fd F)
         then map_option (\<lambda>p. (p, h\<lparr>prime_fd := fresh_fd F\<rparr>)) (pick sample_ptrs L) else None, e)),
     p_gbm_create_device = (\<lambda>L fd e. (pick sample_bos L, e)),
     p_gbm_device_get_fd = (\<lambda>d. 10),
     p_gbm_bo_create = (\<lambda>L d w h f u e.
        (map_option (\<lambda>b. (b, sample_bo w h f)) (pick sample_bos L), e)),
     p_gbm_bo_import = (\<lambda>L d x e.
        (map_option (\<lambda>b. (b, sample_bo (imp_width x) (imp_height x) (imp_format x)))
           (pick sample_bos L), e)),
     p_gbm_bo_get_fd = (\<lambda>F b e. (fresh_fd F, e)),
     p_gbm_bo_map = (\<lambda>b x y w h fl md e. ((0x7F000000, 4 * w, 1), e)),
     p_gbm_bo_unmap = (\<lambda>b md e. e)\<rparr>"

lemma sample_env_sel [simp]:
  "hal_of sample_env = android_hal" "p_errno sample_env e = 12"
  "p_property_get sample_env key dflt e = dflt"
  "p_open sample_env F path e = (fresh_fd F, e)" "p_dup sample_env F fd e = (fresh_fd F, e)"
  "p_sync_wait sample_env fd t e = (0, e)"
  "p_native_handle_create sample_env L a b e =
     (map_option (\<lambda>p. (p, blank_handle a b)) (pick sample_ptrs L), e)"
  "p_native_handle_clone sample_env L F g e =
     (if numFds g = 1 \<and> \<not> is_neg (fresh_fd F)
      then map_option (\<lambda>p. (p, g\<lparr>prime_fd := fresh_fd F\<rparr>)) (pick sample_ptrs L) else None, e)"
  "p_gbm_create_device sample_env D fd e = (pick sample_bos D, e)"
  "p_gbm_device_get_fd sample_env d = 10"
  "p_gbm_bo_create sample_env B d w h f u e =
     (map_option (\<lambda>b. (b, sample_bo w h f)) (pick sample_bos B), e)"
  "p_gbm_bo_import sample_env B d x e =
     (map_option (\<lambda>b. (b, sample_bo (imp_width x) (imp_height x) (imp_format x)))
        (pick sample_bos B), e)"
  "p_gbm_bo_get_fd sample_env F b e = (fresh_fd F, e)"
  "p_gbm_bo_map sample_env b px py w h fl md e = ((0x7F000000, 4 * w, 1), e)"
  "p_gbm_bo_unmap sample_env b md e = e"
  by (simp_all add: sample_env_def)

lemma sample_ptr_nonzero: "pick sample_ptrs L = Some p \<Longrightarrow> p \<noteq> 0 \<and> p \<notin> L"
  by (drule pick_Some) (auto simp: sample_ptrs_def)

lemma sample_handle_contract [simp]: "handle_contract sample_env"
  unfolding handle_contract_def
proof (intro conjI allI impI)
  fix L a b e p h e'
  assume "p_native_handle_create sample_env L a b e = (Some (p, h), e')"
  then show "p \<noteq> 0" "p \<notin> L" "numFds h = a" "numInts h = b"
    by (auto simp: blank_handle_def dest: sample_ptr_nonzero)
next
  fix L F h e p h' e'
  assume "p_native_handle_clone sample_env L F h e = (Some (p, h'), e')"
  then have *: "pick sample_ptrs L = Some p" "h' = h\<lparr>prime_fd := fresh_fd F\<rparr>" "numFds h = 1"
    "\<not> is_neg (fresh_fd F)"
    by (auto split: if_splits)
  then show "p \<noteq> 0" "p \<notin> L" "same_words h h'"
    by (auto simp: same_words_def handle_data_def dest: sample_ptr_nonzero)
  show "set (handle_fds h') \<inter> F = {}"
    using * fresh_fd_new [of F] by (simp add: handle_fds_def handle_data_def)
qed

lemma sample_bo_contract [simp]: "bo_contract sample_env"
  by (auto simp: bo_contract_def sample_bo_def dest: pick_Some)

lemma sample_fd_contract [simp]: "fd_contract sample_env"
  using fresh_fd_new by (auto simp: fd_contract_def)

lemma sample_map_contract [simp]: "map_contract sample_env"
  by (simp add: map_contract_def)

text \<open>A process of this environment whose device is open.\<close>

definition sample_ready :: "unit proc" where
  "sample_ready = (init_proc () {10})\<lparr>gbm_dev := Some 1, gbm_dev_fd := 10, devs := {1}\<rparr>"

lemma sample_ready_sel [simp]:
  "gbm_dev sample_ready = Some 1" "gbm_dev_fd sample_ready = 10" "devs sample_ready = {1}"
  "open_fds sample_ready = {10}" "gbm_bo_handle_map sample_ready = Map.empty"
  "handles sample_ready = Map.empty" "bos sample_ready = Map.empty"
  by (simp_all add: sample_ready_def init_proc_def)

end
