(* ===== verification/Gm_Device.thy ===== *)
theory Gm_Device
  imports Gm_Sample
begin

text \<open>
  The process-wide GBM device of src/src/gralloc_gbm_mesa.cpp: opening the device node, creating
  or reusing the device, and the library destructor.
\<close>

section \<open>Operations\<close>

definition GRALLOC_DEFAULT_DEVICE_PROP :: string where
  "GRALLOC_DEFAULT_DEVICE_PROP = ''vendor.gralloc.device''"

definition GRALLOC_DEFAULT_DEVICE_PATH :: string where
  "GRALLOC_DEFAULT_DEVICE_PATH = ''/dev/dri/renderD128''"

text \<open>
  \<open>gralloc_gbm_device_create(fd, dev)\<close>.  \<open>dev_ptr\<close> says whether the out pointer is non-null;
  the second component of the result is what was stored through it, \<open>None\<close> when nothing was.
\<close>

definition gralloc_gbm_device_create ::
    "'e gbm_env \<Rightarrow> c_int \<Rightarrow> bool \<Rightarrow> 'e proc \<Rightarrow> (c_int \<times> dev_ptr option) \<times> 'e proc" where
  "gralloc_gbm_device_create P fd dev_ptr s =
    (if \<not> dev_ptr then ((- EINVAL, None), s)
     else if is_pos (gbm_dev_fd s) \<and> gbm_dev s \<noteq> None then ((0, gbm_dev s), s)
     else if is_neg fd then ((- EINVAL, None), s)
     else case p_gbm_create_device P (devs s) fd (env s) of
       (None, e) \<Rightarrow> ((- EINVAL, None), s\<lparr>env := e, gbm_dev := None, gbm_dev_fd := - 1\<rparr>)
     | (Some d, e) \<Rightarrow>
         ((0, Some d), s\<lparr>env := e, gbm_dev := Some d, gbm_dev_fd := p_gbm_device_get_fd P d,
                         devs := insert d (devs s)\<rparr>))"

definition gralloc_gbm_device_init :: "'e gbm_env \<Rightarrow> 'e proc \<Rightarrow> c_int \<times> 'e proc" where
  "gralloc_gbm_device_init P s =
    (let device_path = p_property_get P GRALLOC_DEFAULT_DEVICE_PROP GRALLOC_DEFAULT_DEVICE_PATH (env s);
         (fd, e) = p_open P (open_fds s) device_path (env s);
         s = s\<lparr>env := e\<rparr>
     in if is_neg fd then (- EINVAL, s)
        else let s = add_fd fd s;
                 ((r, _), s) = gralloc_gbm_device_create P fd True s
             in if r \<noteq> 0 then (- EINVAL, s) else (gbm_dev_fd s, s))"

text \<open>Mesa's \<open>gbm_device_destroy\<close> frees the device; a second call on it is a double free.\<close>

definition gbm_device_destroy :: "dev_ptr \<Rightarrow> 'e proc \<Rightarrow> 'e proc run" where
  "gbm_device_destroy d s =
     (if d \<in> devs s then Done (s\<lparr>devs := devs s - {d}\<rparr>) else Fault DoubleDestroy)"

definition cleanup_all :: "'e proc \<Rightarrow> 'e proc run" where
  "cleanup_all s =
    (let s = s\<lparr>gbm_dev_fd := - 1\<rparr>
     in case gbm_dev s of
          None \<Rightarrow> Done s
        | Some d \<Rightarrow> andThen (gbm_device_destroy d s) (\<lambda>s. Done (s\<lparr>gbm_dev := None\<rparr>)))"

section \<open>The cached device\<close>

text \<open>The cached pointer, when set, points to a live device.\<close>

definition dev_inv :: "'e proc \<Rightarrow> bool" where
  "dev_inv s \<longleftrightarrow> (\<forall>d. gbm_dev s = Some d \<longrightarrow> d \<in> devs s)"

definition dev_ready :: "'e proc \<Rightarrow> bool" where
  "dev_ready s \<longleftrightarrow> is_pos (gbm_dev_fd s) \<and> gbm_dev s \<noteq> None"

lemma dev_inv_init [simp]: "dev_inv (init_proc e F)"
  by (simp add: dev_inv_def init_proc_def)

lemma device_create_ready [simp]:
  "dev_ready s \<Longrightarrow> gralloc_gbm_device_create P fd True s = ((0, gbm_dev s), s)"
  by (simp add: gralloc_gbm_device_create_def dev_ready_def)

lemma device_create_dev_inv:
  assumes "gralloc_gbm_device_create P fd ok s = (r, s')" and "dev_inv s"
  shows "dev_inv s'"
  using assms
  by (auto simp: gralloc_gbm_device_create_def dev_inv_def split: if_splits prod.splits option.splits)

lemma device_create_result:
  assumes "gralloc_gbm_device_create P fd ok s = ((r, d), s')"
  shows "(r = 0 \<and> d \<noteq> None \<and> d = gbm_dev s') \<or> (r = - EINVAL \<and> d = None)"
  using assms
  by (auto simp: gralloc_gbm_device_create_def split: if_splits prod.splits option.splits) metis

text \<open>Everything but the environment and the device fields is left alone.\<close>

lemma device_create_frame:
  assumes "gralloc_gbm_device_create P fd ok s = (r, s')"
  shows "gbm_bo_handle_map s' = gbm_bo_handle_map s \<and> handles s' = handles s \<and> bos s' = bos s \<and>
    open_fds s' = open_fds s \<and> devs s \<subseteq> devs s'"
  using assms by (auto simp: gralloc_gbm_device_create_def split: if_splits prod.splits option.splits)

lemma device_init_frame:
  assumes "gralloc_gbm_device_init P s = (r, s')"
  shows "gbm_bo_handle_map s' = gbm_bo_handle_map s \<and> handles s' = handles s \<and> bos s' = bos s \<and>
    open_fds s \<subseteq> open_fds s' \<and> devs s \<subseteq> devs s'"
  using assms
  by (auto simp: gralloc_gbm_device_init_def Let_def add_fd_def split: if_splits prod.splits
      dest!: device_create_frame)

lemma device_init_dev_inv:
  assumes "gralloc_gbm_device_init P s = (r, s')" and "dev_inv s"
  shows "dev_inv s'"
  using assms
  by (auto simp: gralloc_gbm_device_init_def Let_def add_fd_def dev_inv_def
      gralloc_gbm_device_create_def split: if_splits prod.splits option.splits)

lemma device_init_pos_ready:
  assumes "gralloc_gbm_device_init P s = (r, s')" and "is_pos r"
  shows "dev_ready s' \<and> r = gbm_dev_fd s'"
  using assms
  by (auto simp: gralloc_gbm_device_init_def Let_def dev_ready_def split: if_splits prod.splits
      dest!: device_create_result)

lemma device_init_pos_fd:
  assumes "gralloc_gbm_device_init P s = (r, s')" and "is_pos r"
  shows "gbm_dev s' \<noteq> None"
  using device_init_pos_ready [OF assms] by (simp add: dev_ready_def)

lemma cleanup_all_idle:
  assumes "dev_inv s"
  shows "\<exists>s'. cleanup_all s = Done s' \<and> gbm_dev s' = None \<and> \<not> is_pos (gbm_dev_fd s')"
  using assms
  by (auto simp: cleanup_all_def Let_def gbm_device_destroy_def dev_inv_def is_pos_def split: option.splits)

section \<open>Properties\<close>

lemma device_init_sample:
  "\<exists>r s'. gralloc_gbm_device_init sample_env (init_proc () {}) = (r, s') \<and> is_pos r"
proof -
  obtain r s' where *: "gralloc_gbm_device_init sample_env (init_proc () {}) = (r, s')"
    by fastforce
  then have "is_pos r"
    by (auto simp: gralloc_gbm_device_init_def Let_def fresh_fd_def sample_lists init_proc_def
        add_fd_def is_neg_def is_pos_def gralloc_gbm_device_create_def)
  with * show ?thesis by blast
qed

text \<open>The GBM device is a process-wide singleton: initialisation either returns a positive
  descriptor with the device cached, after which every request with any descriptor returns that
  same device and changes nothing, or it returns an error or a descriptor that is not positive.\<close>

theorem device_is_singleton:
  assumes "gralloc_gbm_device_init P s = (r, s')" and "is_pos r"
  shows "\<exists>d. gbm_dev s' = Some d \<and> r = gbm_dev_fd s' \<and>
    (\<forall>fd. gralloc_gbm_device_create P fd True s' = ((0, Some d), s'))"
  using device_init_pos_ready [OF assms] by (auto simp: dev_ready_def gralloc_gbm_device_create_def)

theorem device_is_singleton_witness:
  "\<exists>r s'. gralloc_gbm_device_init sample_env (init_proc () {}) = (r, s') \<and> is_pos r \<and>
     gralloc_gbm_device_create sample_env 99 True s' = ((0, gbm_dev s'), s')"
proof -
  obtain r s' where *: "gralloc_gbm_device_init sample_env (init_proc () {}) = (r, s')" "is_pos r"
    using device_init_sample by blast
  with device_is_singleton [OF *] show ?thesis by fastforce
qed

text \<open>Initialising a process that already has its device opens the device node again and then
  drops the new descriptor: the call answers with the old one, and the new one stays open with
  nothing in the library referring to it.\<close>

theorem device_reinit_leaks_descriptor:
  assumes "fd_contract P" and "dev_ready s" and "gbm_dev_fd s \<in> open_fds s"
    and "p_open P (open_fds s)
          (p_property_get P GRALLOC_DEFAULT_DEVICE_PROP GRALLOC_DEFAULT_DEVICE_PATH (env s)) (env s)
         = (fd, e)"
    and "\<not> is_neg fd"
  shows "gralloc_gbm_device_init P s =
      (gbm_dev_fd s, s\<lparr>env := e, open_fds := insert fd (open_fds s)\<rparr>) \<and>
    fd \<notin> open_fds s \<and> fd \<noteq> gbm_dev_fd s"
proof -
  have new: "fd \<notin> open_fds s"
    using assms(1,4,5) unfolding fd_contract_def by blast
  have "dev_ready (add_fd fd (s\<lparr>env := e\<rparr>))"
    using assms(2) by (simp add: dev_ready_def add_fd_def)
  then show ?thesis
    using assms(3-5) new by (auto simp: gralloc_gbm_device_init_def Let_def add_fd_def)
qed

theorem device_reinit_leaks_descriptor_witness:
  "gralloc_gbm_device_init sample_env sample_ready =
     (10, sample_ready\<lparr>env := (), open_fds := {11, 10}\<rparr>)"
  using device_reinit_leaks_descriptor [of sample_env sample_ready 11 "()"]
  by (simp add: dev_ready_def is_pos_def is_neg_def fresh_fd_def sample_lists)

end
