(* ===== verification/Gm_Format.thy ===== *)
theory Gm_Format
  imports Gm_Process
begin

text \<open>
  Pixel formats and usage flags: the pure functions of src/src/gralloc_gbm_mesa.cpp that map an
  Android pixel format to a GBM FourCC code, Android usage bits to GBM buffer flags, and a format
  to its size in bits and bytes, with the stride conversion built on them.
\<close>

section \<open>The functions\<close>

definition gralloc_gm_android_format_to_gbm_format :: "hal \<Rightarrow> u32 \<Rightarrow> u32" where
  "gralloc_gm_android_format_to_gbm_format K android_format =
    (if android_format = HAL_PIXEL_FORMAT_RGBA_8888 K then GBM_FORMAT_ABGR8888
     else if android_format = HAL_PIXEL_FORMAT_RGBX_8888 K then GBM_FORMAT_XBGR8888
     else if android_format = HAL_PIXEL_FORMAT_RGB_888 K then GBM_FORMAT_BGR888
     else if android_format = HAL_PIXEL_FORMAT_RGB_565 K then GBM_FORMAT_BGR565
     else if android_format = HAL_PIXEL_FORMAT_BGRA_8888 K then GBM_FORMAT_ARGB8888
     else if android_format = HAL_PIXEL_FORMAT_RAW16 K then GBM_FORMAT_R16
     else if android_format = HAL_PIXEL_FORMAT_YV12 K then GBM_FORMAT_GR88
     else if android_format = HAL_PIXEL_FORMAT_Y8 K then GBM_FORMAT_R8
     else if android_format = HAL_PIXEL_FORMAT_Y16 K then GBM_FORMAT_R16
     else if android_format = HAL_PIXEL_FORMAT_RGBA_FP16 K then GBM_FORMAT_ABGR16161616F
     else if android_format = HAL_PIXEL_FORMAT_RGBA_1010102 K then GBM_FORMAT_ABGR2101010
     else if android_format = HAL_PIXEL_FORMAT_YCbCr_422_SP K then GBM_FORMAT_YUV422
     else if android_format = HAL_PIXEL_FORMAT_YCbCr_420_888 K \<or>
             android_format = HAL_PIXEL_FORMAT_YCrCb_420_SP K then GBM_FORMAT_YUV420
     else if android_format = HAL_PIXEL_FORMAT_YCBCR_P010 K
       then gbm_fourcc_code CHR ''P'' CHR ''0'' CHR ''1'' CHR ''0''
     else if android_format = HAL_PIXEL_FORMAT_BLOB K then GBM_FORMAT_R8
     else if android_format = HAL_PIXEL_FORMAT_IMPLEMENTATION_DEFINED K
       then gbm_fourcc_code CHR ''9'' CHR ''9'' CHR ''9'' CHR ''8''
     else 0)"

definition gralloc_gm_get_gbm_flags_from_android_usage :: "hal \<Rightarrow> c_int \<Rightarrow> c_int \<Rightarrow> u32" where
  "gralloc_gm_get_gbm_flags_from_android_usage K usage android_format =
    (let gbm_format = gralloc_gm_android_format_to_gbm_format K android_format;
         flags = 0;
         flags = (if usage AND (GRALLOC_USAGE_SW_READ_OFTEN K OR GRALLOC_USAGE_SW_WRITE_OFTEN K) \<noteq> 0
                  then flags OR GBM_BO_USE_LINEAR else flags);
         flags = (if usage AND GRALLOC_USAGE_CURSOR K \<noteq> 0
                  then (if gbm_format = GBM_FORMAT_ARGB8888 then flags OR GBM_BO_USE_CURSOR else flags)
                  else flags);
         flags = (if usage AND (GRALLOC_USAGE_HW_RENDER K OR GRALLOC_USAGE_HW_TEXTURE K) \<noteq> 0
                  then flags OR GBM_BO_USE_RENDERING else flags);
         flags = (if usage AND GRALLOC_USAGE_HW_FB K \<noteq> 0
                  then flags OR GBM_BO_USE_SCANOUT else flags);
         flags = (if usage AND GRALLOC_USAGE_HW_COMPOSER K \<noteq> 0
                  then flags OR (GBM_BO_USE_SCANOUT OR GBM_BO_USE_RENDERING) else flags);
         flags = (if usage AND GRALLOC_USAGE_HW_RENDER K \<noteq> 0
                  then flags OR GBM_BO_USE_RENDERING else flags);
         flags = (if usage AND GRALLOC_USAGE_PROTECTED K \<noteq> 0
                  then flags OR GBM_BO_USE_PROTECTED else flags)
     in flags)"

definition gralloc_gm_get_bpp_from_gbm_format :: "c_int \<Rightarrow> c_int" where
  "gralloc_gm_get_bpp_from_gbm_format gbm_format =
    (if gbm_format \<in> set [GBM_FORMAT_C8, GBM_FORMAT_RGB332, GBM_FORMAT_BGR233] then 8
     else if gbm_format \<in> set [GBM_FORMAT_YUV420, GBM_FORMAT_NV12, GBM_FORMAT_NV21,
       GBM_FORMAT_YVU420] then 12
     else if gbm_format \<in> set [GBM_FORMAT_XRGB4444, GBM_FORMAT_XBGR4444, GBM_FORMAT_RGBX4444,
       GBM_FORMAT_BGRX4444, GBM_FORMAT_ARGB4444, GBM_FORMAT_ABGR4444, GBM_FORMAT_RGBA4444,
       GBM_FORMAT_BGRA4444, GBM_FORMAT_XRGB1555, GBM_FORMAT_XBGR1555, GBM_FORMAT_RGBX5551,
       GBM_FORMAT_BGRX5551, GBM_FORMAT_ARGB1555, GBM_FORMAT_ABGR1555, GBM_FORMAT_RGBA5551,
       GBM_FORMAT_BGRA5551, GBM_FORMAT_RGB565, GBM_FORMAT_BGR565] then 16
     else if gbm_format \<in> set [GBM_FORMAT_YUYV, GBM_FORMAT_YVYU, GBM_FORMAT_UYVY,
       GBM_FORMAT_VYUY, GBM_FORMAT_YUV422] then 16
     else if gbm_format \<in> set [GBM_FORMAT_R16, GBM_FORMAT_GR88] then 16
     else if gbm_format \<in> set [GBM_FORMAT_RGB888, GBM_FORMAT_BGR888] then 24
     else if gbm_format \<in> set [GBM_FORMAT_YUV444] then 24
     else if gbm_format \<in> set [GBM_FORMAT_XRGB8888, GBM_FORMAT_XBGR8888, GBM_FORMAT_RGBX8888,
       GBM_FORMAT_BGRX8888, GBM_FORMAT_ARGB8888, GBM_FORMAT_ABGR8888, GBM_FORMAT_RGBA8888,
       GBM_FORMAT_BGRA8888, GBM_FORMAT_XRGB2101010, GBM_FORMAT_XBGR2101010,
       GBM_FORMAT_ARGB2101010, GBM_FORMAT_ABGR2101010] then 32
     else if gbm_format \<in> set [GBM_FORMAT_RG1616] then 32
     else if gbm_format \<in> set [GBM_FORMAT_XBGR16161616, GBM_FORMAT_ABGR16161616] then 64
     else if gbm_format \<in> set [GBM_FORMAT_XBGR16161616F, GBM_FORMAT_ABGR16161616F] then 64
     else 0)"

definition gralloc_gm_get_bytes_per_pixel_from_gbm_format :: "c_int \<Rightarrow> c_int" where
  "gralloc_gm_get_bytes_per_pixel_from_gbm_format gbm_format =
    (let bpp = gralloc_gm_get_bpp_from_gbm_format gbm_format
     in if is_pos bpp then (bpp + 7) div 8 else 4)"

definition gralloc_gm_get_bytes_per_pixel_from_android_format :: "hal \<Rightarrow> c_int \<Rightarrow> c_int" where
  "gralloc_gm_get_bytes_per_pixel_from_android_format K android_format =
     gralloc_gm_get_bytes_per_pixel_from_gbm_format
       (gralloc_gm_android_format_to_gbm_format K android_format)"

definition gralloc_gm_android_caculate_pixel_stride :: "hal \<Rightarrow> u32 \<Rightarrow> u32 \<Rightarrow> u32" where
  "gralloc_gm_android_caculate_pixel_stride K android_format stride =
     DIV_ROUND_UP stride (gralloc_gm_get_bytes_per_pixel_from_android_format K android_format)"

text \<open>
  \<open>gralloc_get_max_texture_2d_size\<close> returns \<open>UINT32_MAX\<close> through an \<open>int\<close>; the comparison in
  \<open>gralloc_is_desc_support\<close> reads it back as unsigned.
\<close>

definition gralloc_get_max_texture_2d_size :: c_int where
  "gralloc_get_max_texture_2d_size = word_of_int (2 ^ 32 - 1)"

definition gralloc_is_format_supported :: bool where
  "gralloc_is_format_supported = True"

definition gralloc_is_desc_support :: "gralloc_buffer_desc \<Rightarrow> bool" where
  "gralloc_is_desc_support desc =
    (let max_texture_size = gralloc_get_max_texture_2d_size
     in if \<not> gralloc_is_format_supported then False
        else d_width desc \<le> max_texture_size \<and> d_height desc \<le> max_texture_size)"

section \<open>Formats\<close>

lemma fourcc_P010_9998 [gbm_values]:
  "gbm_fourcc_code CHR ''P'' CHR ''0'' CHR ''1'' CHR ''0'' = 0x30313050"
  "gbm_fourcc_code CHR ''9'' CHR ''9'' CHR ''9'' CHR ''8'' = 0x38393939"
  by (simp_all add: gbm_fourcc_code_def)



text \<open>
  The \<open>switch\<close> is a lookup in a table; since its labels are distinct, every known format gets its
  own row.
\<close>

definition gbm_codes :: "u32 list" where
  "gbm_codes =
    [GBM_FORMAT_ABGR8888, GBM_FORMAT_XBGR8888, GBM_FORMAT_BGR888, GBM_FORMAT_BGR565,
     GBM_FORMAT_ARGB8888, GBM_FORMAT_R16, GBM_FORMAT_GR88, GBM_FORMAT_R8, GBM_FORMAT_R16,
     GBM_FORMAT_ABGR16161616F, GBM_FORMAT_ABGR2101010, GBM_FORMAT_YUV422, GBM_FORMAT_YUV420,
     GBM_FORMAT_YUV420, gbm_fourcc_code CHR ''P'' CHR ''0'' CHR ''1'' CHR ''0'', GBM_FORMAT_R8,
     gbm_fourcc_code CHR ''9'' CHR ''9'' CHR ''9'' CHR ''8'']"

lemma length_format_tables [simp]: "length (hal_formats K) = 17" "length gbm_codes = 17"
  by (simp_all add: hal_formats_def gbm_codes_def)

lemma to_gbm_format_lookup:
  "gralloc_gm_android_format_to_gbm_format K f =
    (case map_of (zip (hal_formats K) gbm_codes) f of None \<Rightarrow> 0 | Some c \<Rightarrow> c)"
  by (simp add: gralloc_gm_android_format_to_gbm_format_def hal_formats_def gbm_codes_def)

lemma to_gbm_format_nth:
  assumes "hal_ok K" and "i < 17"
  shows "gralloc_gm_android_format_to_gbm_format K (hal_formats K ! i) = gbm_codes ! i"
  using assms by (simp add: to_gbm_format_lookup hal_ok_def map_of_zip_nth)

lemma to_gbm_format_table:
  assumes "hal_ok K"
  shows "map (gralloc_gm_android_format_to_gbm_format K) (hal_formats K) = gbm_codes"
  using assms by (intro nth_equalityI) (simp_all add: to_gbm_format_nth)

lemma to_gbm_format_of:
  assumes "hal_ok K"
  shows "gralloc_gm_android_format_to_gbm_format K (HAL_PIXEL_FORMAT_RGBA_8888 K) = GBM_FORMAT_ABGR8888"
    and "gralloc_gm_android_format_to_gbm_format K (HAL_PIXEL_FORMAT_RGB_565 K) = GBM_FORMAT_BGR565"
    and "gralloc_gm_android_format_to_gbm_format K (HAL_PIXEL_FORMAT_BGRA_8888 K) = GBM_FORMAT_ARGB8888"
    and "gralloc_gm_android_format_to_gbm_format K (HAL_PIXEL_FORMAT_YV12 K) = GBM_FORMAT_GR88"
    and "gralloc_gm_android_format_to_gbm_format K (HAL_PIXEL_FORMAT_Y8 K) = GBM_FORMAT_R8"
    and "gralloc_gm_android_format_to_gbm_format K (HAL_PIXEL_FORMAT_YCrCb_420_SP K) = GBM_FORMAT_YUV420"
    and "gralloc_gm_android_format_to_gbm_format K (HAL_PIXEL_FORMAT_BLOB K) = GBM_FORMAT_R8"
  using to_gbm_format_table [OF assms] by (simp_all add: hal_formats_def gbm_codes_def)

lemma gbm_codes_nonzero: "0 \<notin> set gbm_codes"
  by (simp add: gbm_codes_def gbm_values)

lemma to_gbm_format_zero:
  "gralloc_gm_android_format_to_gbm_format K f = 0 \<longleftrightarrow> f \<notin> set (hal_formats K)"
proof (cases "map_of (zip (hal_formats K) gbm_codes) f")
  case None
  then have "f \<notin> set (hal_formats K)"
    by (simp add: map_of_zip_is_None)
  moreover have "gralloc_gm_android_format_to_gbm_format K f = 0"
    by (simp only: to_gbm_format_lookup None option.case)
  ultimately show ?thesis
    by simp
next
  case (Some c)
  then have "(f, c) \<in> set (zip (hal_formats K) gbm_codes)"
    by (rule map_of_SomeD)
  then have "f \<in> set (hal_formats K)" and "c \<in> set gbm_codes"
    by (auto dest: set_zip_leftD set_zip_rightD)
  with Some gbm_codes_nonzero show ?thesis
    by (auto simp: to_gbm_format_lookup)
qed

lemma to_gbm_format_ARGB8888D:
  assumes "gralloc_gm_android_format_to_gbm_format K f = GBM_FORMAT_ARGB8888"
  shows "f = HAL_PIXEL_FORMAT_BGRA_8888 K"
  using assms
  by (simp add: gralloc_gm_android_format_to_gbm_format_def gbm_values split: if_split_asm)

lemma to_gbm_format_ARGB8888:
  assumes "hal_ok K"
  shows "gralloc_gm_android_format_to_gbm_format K f = GBM_FORMAT_ARGB8888 \<longleftrightarrow>
    f = HAL_PIXEL_FORMAT_BGRA_8888 K"
  using assms to_gbm_format_ARGB8888D by (auto simp: to_gbm_format_of)

section \<open>Bytes per pixel\<close>

lemma bytes_per_pixel_gbm_table:
  "map gralloc_gm_get_bytes_per_pixel_from_gbm_format gbm_codes =
    [4, 4, 3, 2, 4, 2, 2, 4, 2, 8, 4, 2, 2, 2, 4, 4, 4]"
  by (simp add: gbm_codes_def gralloc_gm_get_bytes_per_pixel_from_gbm_format_def Let_def
      gralloc_gm_get_bpp_from_gbm_format_def gbm_values is_pos_def)

lemma bpp_range: "gralloc_gm_get_bpp_from_gbm_format f \<in> {0, 8, 12, 16, 24, 32, 64}"
  by (simp add: gralloc_gm_get_bpp_from_gbm_format_def)

lemma bytes_per_pixel_range:
  "gralloc_gm_get_bytes_per_pixel_from_gbm_format f \<in> {1, 2, 3, 4, 8}"
  using bpp_range [of f]
  by (auto simp: gralloc_gm_get_bytes_per_pixel_from_gbm_format_def is_pos_def)

lemma bytes_per_pixel_android_range:
  "gralloc_gm_get_bytes_per_pixel_from_android_format K f \<in> {1, 2, 3, 4, 8}"
  by (simp only: gralloc_gm_get_bytes_per_pixel_from_android_format_def bytes_per_pixel_range)

lemma bytes_per_pixel_android_bounds:
  fixes K f
  defines "d \<equiv> gralloc_gm_get_bytes_per_pixel_from_android_format K f"
  shows "d \<noteq> 0" and "0 < unat d" and "unat d \<le> 8"
  using bytes_per_pixel_android_range [of K f] by (auto simp: d_def)

section \<open>Properties\<close>

text \<open>The format conversion recognises exactly the seventeen HAL formats: it returns 0
  (unsupported) for every other code, and the listed FourCC code for each of them.\<close>

theorem android_format_conversion:
  assumes "hal_ok K"
  shows "(gralloc_gm_android_format_to_gbm_format K f = 0 \<longleftrightarrow> f \<notin> set (hal_formats K)) \<and>
    map (gralloc_gm_android_format_to_gbm_format K) (hal_formats K) =
    [GBM_FORMAT_ABGR8888, GBM_FORMAT_XBGR8888, GBM_FORMAT_BGR888, GBM_FORMAT_BGR565,
     GBM_FORMAT_ARGB8888, GBM_FORMAT_R16, GBM_FORMAT_GR88, GBM_FORMAT_R8, GBM_FORMAT_R16,
     GBM_FORMAT_ABGR16161616F, GBM_FORMAT_ABGR2101010, GBM_FORMAT_YUV422, GBM_FORMAT_YUV420,
     GBM_FORMAT_YUV420, 0x30313050, GBM_FORMAT_R8, 0x38393939]"
  using to_gbm_format_table [OF assms]
  by (simp add: to_gbm_format_zero gbm_codes_def fourcc_P010_9998)

theorem android_format_conversion_witness:
  "hal_ok android_hal \<and> gralloc_gm_android_format_to_gbm_format android_hal 99 = 0"
  using android_format_conversion [OF android_hal_ok, of 99] by (simp add: hal_formats_def)

text \<open>The flag word as a function of the seven conditions the code tests, in its order.\<close>

definition flag_chain :: "bool \<Rightarrow> bool \<Rightarrow> bool \<Rightarrow> bool \<Rightarrow> bool \<Rightarrow> bool \<Rightarrow> bool \<Rightarrow> u32" where
  "flag_chain sw cur gpu fb cmp ren prot =
     (if prot then GBM_BO_USE_PROTECTED else 0) OR
     (if ren \<or> gpu \<or> cmp then GBM_BO_USE_RENDERING else 0) OR
     (if fb \<or> cmp then GBM_BO_USE_SCANOUT else 0) OR
     (if cur then GBM_BO_USE_CURSOR else 0) OR (if sw then GBM_BO_USE_LINEAR else 0)"

lemma flags_eq_chain:
  "gralloc_gm_get_gbm_flags_from_android_usage K usage f =
    flag_chain (usage AND (GRALLOC_USAGE_SW_READ_OFTEN K OR GRALLOC_USAGE_SW_WRITE_OFTEN K) \<noteq> 0)
      (usage AND GRALLOC_USAGE_CURSOR K \<noteq> 0 \<and>
       gralloc_gm_android_format_to_gbm_format K f = GBM_FORMAT_ARGB8888)
      (usage AND (GRALLOC_USAGE_HW_RENDER K OR GRALLOC_USAGE_HW_TEXTURE K) \<noteq> 0)
      (usage AND GRALLOC_USAGE_HW_FB K \<noteq> 0) (usage AND GRALLOC_USAGE_HW_COMPOSER K \<noteq> 0)
      (usage AND GRALLOC_USAGE_HW_RENDER K \<noteq> 0) (usage AND GRALLOC_USAGE_PROTECTED K \<noteq> 0)"
proof -
  have "(let flags = 0 :: u32; flags = (if sw then flags OR GBM_BO_USE_LINEAR else flags);
         flags = (if c1 then if c2 then flags OR GBM_BO_USE_CURSOR else flags else flags);
         flags = (if gpu then flags OR GBM_BO_USE_RENDERING else flags);
         flags = (if fb then flags OR GBM_BO_USE_SCANOUT else flags);
         flags = (if cmp then flags OR (GBM_BO_USE_SCANOUT OR GBM_BO_USE_RENDERING) else flags);
         flags = (if ren then flags OR GBM_BO_USE_RENDERING else flags);
         flags = (if prot then flags OR GBM_BO_USE_PROTECTED else flags) in flags) =
        flag_chain sw (c1 \<and> c2) gpu fb cmp ren prot" for sw c1 c2 gpu fb cmp ren prot
    by (cases sw; cases c1; cases c2; cases gpu; cases fb; cases cmp; cases ren; cases prot;
        simp add: flag_chain_def gbm_values)
  then show ?thesis
    unfolding gralloc_gm_get_gbm_flags_from_android_usage_def Let_def by simp
qed

lemma flag_chain_bits:
  "flag_chain sw cur gpu fb cmp ren prot AND GBM_BO_USE_LINEAR \<noteq> 0 \<longleftrightarrow> sw"
  "flag_chain sw cur gpu fb cmp ren prot AND GBM_BO_USE_CURSOR \<noteq> 0 \<longleftrightarrow> cur"
  "flag_chain sw cur gpu fb cmp ren prot AND GBM_BO_USE_SCANOUT \<noteq> 0 \<longleftrightarrow> fb \<or> cmp"
  "flag_chain sw cur gpu fb cmp ren prot AND GBM_BO_USE_RENDERING \<noteq> 0 \<longleftrightarrow> ren \<or> gpu \<or> cmp"
  "flag_chain sw cur gpu fb cmp ren prot AND GBM_BO_USE_PROTECTED \<noteq> 0 \<longleftrightarrow> prot"
  "flag_chain sw cur gpu fb cmp ren prot AND NOT (GBM_BO_USE_LINEAR OR GBM_BO_USE_CURSOR OR
     GBM_BO_USE_SCANOUT OR GBM_BO_USE_RENDERING OR GBM_BO_USE_PROTECTED) = 0"
  by (simp_all add: flag_chain_def gbm_values)

lemma and_or_nonzero:
  fixes x :: "'a::len word"
  shows "x AND (a OR b) \<noteq> 0 \<longleftrightarrow> x AND a \<noteq> 0 \<or> x AND b \<noteq> 0"
  by (auto simp: bit_eq_iff bit_simps)

text \<open>Each GBM use flag is requested exactly for the usage bits that need it: linear for
  frequent CPU access, cursor only for BGRA buffers, scanout for framebuffer or composer use,
  rendering for GPU or composer use, protected for protected content; no other flag is ever set,
  in particular never \<open>GBM_BO_USE_WRITE\<close>.\<close>

theorem gbm_flags_exact:
  fixes K usage f
  defines "fl \<equiv> gralloc_gm_get_gbm_flags_from_android_usage K usage f"
  assumes "hal_ok K"
  shows "(fl AND GBM_BO_USE_LINEAR \<noteq> 0 \<longleftrightarrow>
      usage AND (GRALLOC_USAGE_SW_READ_OFTEN K OR GRALLOC_USAGE_SW_WRITE_OFTEN K) \<noteq> 0) \<and>
    (fl AND GBM_BO_USE_CURSOR \<noteq> 0 \<longleftrightarrow>
      usage AND GRALLOC_USAGE_CURSOR K \<noteq> 0 \<and> f = HAL_PIXEL_FORMAT_BGRA_8888 K) \<and>
    (fl AND GBM_BO_USE_SCANOUT \<noteq> 0 \<longleftrightarrow>
      usage AND (GRALLOC_USAGE_HW_FB K OR GRALLOC_USAGE_HW_COMPOSER K) \<noteq> 0) \<and>
    (fl AND GBM_BO_USE_RENDERING \<noteq> 0 \<longleftrightarrow>
      usage AND (GRALLOC_USAGE_HW_RENDER K OR GRALLOC_USAGE_HW_TEXTURE K OR
                 GRALLOC_USAGE_HW_COMPOSER K) \<noteq> 0) \<and>
    (fl AND GBM_BO_USE_PROTECTED \<noteq> 0 \<longleftrightarrow> usage AND GRALLOC_USAGE_PROTECTED K \<noteq> 0) \<and>
    fl AND NOT (GBM_BO_USE_LINEAR OR GBM_BO_USE_CURSOR OR GBM_BO_USE_SCANOUT OR
                GBM_BO_USE_RENDERING OR GBM_BO_USE_PROTECTED) = 0"
  unfolding fl_def flags_eq_chain flag_chain_bits to_gbm_format_ARGB8888 [OF assms(2)]
    and_or_nonzero by blast

theorem gbm_flags_exact_witness:
  "hal_ok android_hal \<and>
   gralloc_gm_get_gbm_flags_from_android_usage android_hal 0x8033 1 AND GBM_BO_USE_CURSOR = 0"
  using gbm_flags_exact [OF android_hal_ok, of "0x8033" 1] by simp

text \<open>The pixel stride handed to clients is the least number of pixels, of the size the
  format table gives, that covers the byte stride.\<close>

theorem pixel_stride_covers:
  fixes K f stride
  defines "bytes \<equiv> unat (gralloc_gm_get_bytes_per_pixel_from_android_format K f)"
    and "px \<equiv> unat (gralloc_gm_android_caculate_pixel_stride K f stride)"
  assumes "unat stride + 7 < 2 ^ 32"
  shows "unat stride \<le> px * bytes \<and> px * bytes < unat stride + bytes"
proof -
  have d: "gralloc_gm_get_bytes_per_pixel_from_android_format K f \<noteq> 0" "0 < bytes" "bytes \<le> 8"
    using bytes_per_pixel_android_bounds [of K f] by (simp_all add: bytes_def)
  have "px = (unat stride + bytes - 1) div bytes"
    unfolding px_def bytes_def gralloc_gm_android_caculate_pixel_stride_def
    using d assms by (intro unat_DIV_ROUND_UP) (simp_all add: bytes_def)
  then show ?thesis
    using round_up_bounds [OF d(2), of "unat stride"] by simp
qed

theorem pixel_stride_covers_witness:
  "unat (4096 :: u32) + 7 < 2 ^ 32 \<and>
   unat (4096 :: u32) \<le> unat (gralloc_gm_android_caculate_pixel_stride android_hal 1 4096) *
     unat (gralloc_gm_get_bytes_per_pixel_from_android_format android_hal 1)"
  using pixel_stride_covers [of 4096 android_hal 1] by simp

text \<open>For the formats stored as \<open>GBM_FORMAT_R8\<close> (\<open>BLOB\<close> and \<open>Y8\<close>, one byte per pixel) the
  size table has no row, so the default of four bytes is used and the pixel stride of a buffer
  whose byte stride is its width comes out as a quarter of the width.\<close>

theorem blob_pixel_stride_is_quartered:
  assumes "hal_ok K" and "f = HAL_PIXEL_FORMAT_BLOB K \<or> f = HAL_PIXEL_FORMAT_Y8 K"
    and "1 < unat width" and "unat width + 7 < 2 ^ 32"
  shows "unat (gralloc_gm_android_caculate_pixel_stride K f width) = (unat width + 3) div 4 \<and>
    unat (gralloc_gm_android_caculate_pixel_stride K f width) < unat width"
proof -
  have "gralloc_gm_android_format_to_gbm_format K f = GBM_FORMAT_R8"
    using assms(2) to_gbm_format_of [OF assms(1)] by auto
  then have b: "gralloc_gm_get_bytes_per_pixel_from_android_format K f = 4"
    by (simp add: gralloc_gm_get_bytes_per_pixel_from_android_format_def
        gralloc_gm_get_bytes_per_pixel_from_gbm_format_def Let_def
        gralloc_gm_get_bpp_from_gbm_format_def gbm_values)
  have "unat (DIV_ROUND_UP width 4) = (unat width + unat (4::u32) - 1) div unat (4::u32)"
    using assms(4) by (intro unat_DIV_ROUND_UP) simp_all
  moreover have "unat (4::u32) = 4" and "unat width + 4 - 1 = unat width + 3"
    by simp_all
  ultimately have "unat (gralloc_gm_android_caculate_pixel_stride K f width) = (unat width + 3) div 4"
    by (simp only: gralloc_gm_android_caculate_pixel_stride_def b)
  then show ?thesis
    using assms(3) by presburger
qed

theorem blob_pixel_stride_is_quartered_witness:
  "hal_ok android_hal \<and> unat (gralloc_gm_android_caculate_pixel_stride android_hal 0x21 4096) = 1024"
  using blob_pixel_stride_is_quartered [OF android_hal_ok, of "0x21" 4096] by simp

lemma all_ones_max: "(x :: u32) \<le> 0xFFFFFFFF"
proof -
  have "unat x < 2 ^ LENGTH(32)"
    by (rule unsigned_less)
  then show ?thesis
    by (simp add: word_le_nat_alt)
qed

lemma desc_supported [simp]: "gralloc_is_desc_support desc"
  by (simp add: gralloc_is_desc_support_def gralloc_get_max_texture_2d_size_def
      gralloc_is_format_supported_def all_ones_max)

text \<open>No buffer is ever rejected for its size: the texture limit reads back as the largest
  32-bit number and the format check is a stub, so every descriptor counts as supported.\<close>

theorem every_descriptor_supported: "gralloc_is_desc_support desc"
  by (rule desc_supported)

end
