(* ===== verification/Gm_Buffer.thy ===== *)
theory Gm_Buffer
  imports Gm_Device Gm_Format
begin

text \<open>
  Buffers and the registry of src/src/gralloc_gbm_mesa.cpp: allocating a buffer object for a
  descriptor, importing one from a handle, freeing it, and the map \<open>gbm_bo_handle_map\<close> from
  handles to buffer objects that ties them together.
\<close>

section \<open>Lookup\<close>

definition gralloc_get_gbm_bo_from_handle :: "ptr \<Rightarrow> 'e proc \<Rightarrow> bo_ptr option" where
  "gralloc_get_gbm_bo_from_handle handle s = gbm_bo_handle_map s handle"

section \<open>The size asked of GBM\<close>

text \<open>
  The size computed for a new buffer object (from the handle and the GBM flags) and, separately,
  for an imported one (from the handle alone).
\<close>

definition alloc_dims :: "hal \<Rightarrow> gralloc_handle_t \<Rightarrow> u32 \<Rightarrow> u32 \<times> u32" where
  "alloc_dims K handle flags =
    (let width = h_width handle;
         height = h_height handle;
         (width, height) =
           (if flags AND GBM_BO_USE_CURSOR \<noteq> 0
            then (ALIGN (MAX2 (h_width handle) 64) 16, ALIGN (MAX2 (h_height handle) 64) 16)
            else (width, height))
     in if h_format handle = HAL_PIXEL_FORMAT_YV12 K
        then (ALIGN (h_width handle) 32 div 2, height + ALIGN (h_height handle) 2 div 2)
        else (width, height))"

definition import_dims :: "hal \<Rightarrow> gralloc_handle_t \<Rightarrow> u32 \<times> u32" where
  "import_dims K handle =
    (let data_width = h_width handle;
         data_height = h_height handle;
         (data_width, data_height) =
           (if h_usage handle AND GRALLOC_USAGE_CURSOR K \<noteq> 0
            then (ALIGN (MAX2 (h_width handle) 64) 16, ALIGN (MAX2 (h_height handle) 64) 16)
            else (data_width, data_height))
     in if h_format handle = HAL_PIXEL_FORMAT_YV12 K
        then (ALIGN (h_width handle) 32 div 2, h_height handle + ALIGN (h_height handle) 2 div 2)
        else (data_width, data_height))"

section \<open>Allocation\<close>

text \<open>
  The tail of \<open>gralloc_allocate\<close>: fill the handle in from the buffer object, register the pair,
  and hand both results out.
\<close>

definition gralloc_allocate_finish ::
    "'e gbm_env \<Rightarrow> ptr \<Rightarrow> gralloc_handle_t \<Rightarrow> bo_ptr \<Rightarrow> gbm_bo \<Rightarrow> 'e proc
      \<Rightarrow> (c_int \<times> (c_int \<times> ptr) option) \<times> 'e proc" where
  "gralloc_allocate_finish P p handle b bo s =
    (let (fd, e) = p_gbm_bo_get_fd P (open_fds s) b (env s);
         s = add_fd fd (s\<lparr>env := e\<rparr>);
         handle = handle\<lparr>prime_fd := fd, h_stride := bo_stride bo, h_modifier := bo_modifier bo\<rparr>;
         s = store_handle p handle s;
         s = s\<lparr>gbm_bo_handle_map := emplace p b (gbm_bo_handle_map s)\<rparr>
     in ((0, Some (h_stride handle, p)), s))"

text \<open>
  \<open>gralloc_allocate(desc, out_stride, out_handle)\<close>.  The second component of the result is what
  was stored through the two out pointers, \<open>None\<close> when nothing was.  The local \<open>dev\<close> has no
  initialiser, so testing it after a failed \<open>gralloc_gbm_device_create\<close> reads an indeterminate
  value.
\<close>

definition gralloc_allocate ::
    "'e gbm_env \<Rightarrow> gralloc_buffer_desc \<Rightarrow> 'e proc
      \<Rightarrow> ((c_int \<times> (c_int \<times> ptr) option) \<times> 'e proc) run" where
  "gralloc_allocate P desc s =
    (if \<not> gralloc_is_desc_support desc then Done ((- EINVAL, None), s)
     else let ((ret, dev), s) = gralloc_gbm_device_create P (gbm_dev_fd s) True s
     in case dev of
       None \<Rightarrow> Fault UninitRead
     | Some dev \<Rightarrow>
         let (p, s) = gralloc_handle_create P (d_width desc) (d_height desc)
                        (d_android_format desc) (d_android_usage desc) s
         in if p = 0 then Done ((- EINVAL, None), s)
            else andThen (load_handle p s) (\<lambda>handle.
              let format = gralloc_gm_android_format_to_gbm_format (hal_of P) (h_format handle);
                  flags = gralloc_gm_get_gbm_flags_from_android_usage (hal_of P) (h_usage handle)
                            (h_format handle);
                  (width, height) = alloc_dims (hal_of P) handle flags
              in case p_gbm_bo_create P (dom (bos s)) dev width height format flags (env s) of
                   (None, e) \<Rightarrow>
                     andThen (native_handle_delete p (s\<lparr>env := e\<rparr>)) (\<lambda>s.
                       Done ((- p_errno P (env s), None), s))
                 | (Some (b, bo), e) \<Rightarrow>
                     Done (gralloc_allocate_finish P p handle b bo
                             (store_bo b bo (s\<lparr>env := e\<rparr>)))))"

section \<open>Import\<close>

definition import_data :: "hal \<Rightarrow> gralloc_handle_t \<Rightarrow> u32 \<Rightarrow> gbm_import_fd_modifier_data" where
  "import_data K handle format =
    (let zeros = replicate GBM_MAX_PLANES 0;
         (width, height) = import_dims K handle
     in \<lparr>imp_width = width, imp_height = height, imp_format = format, imp_num_fds = 1,
         imp_fds = zeros[0 := prime_fd handle], imp_strides = zeros[0 := h_stride handle],
         imp_offsets = zeros, imp_modifier = h_modifier handle\<rparr>)"

definition gralloc_gm_buffer_import :: "'e gbm_env \<Rightarrow> ptr \<Rightarrow> 'e proc \<Rightarrow> (c_int \<times> 'e proc) run" where
  "gralloc_gm_buffer_import P buffer_handle s =
    (if buffer_handle = 0 then Done (- EINVAL, s)
     else if gbm_bo_handle_map s buffer_handle \<noteq> None then Done (- EINVAL, s)
     else let ((_, dev), s) = gralloc_gbm_device_create P (gbm_dev_fd s) True s
     in case dev of
       None \<Rightarrow> Done (- EINVAL, s)
     | Some dev \<Rightarrow>
         andThen (load_handle buffer_handle s) (\<lambda>handle.
           if is_neg (prime_fd handle) then Done (- EINVAL, s)
           else let format = gralloc_gm_android_format_to_gbm_format (hal_of P) (h_format handle)
             in if format = 0 then Done (- EINVAL, s)
                else case p_gbm_bo_import P (dom (bos s)) dev (import_data (hal_of P) handle format)
                            (env s) of
                       (None, e) \<Rightarrow> Done (- EINVAL, s\<lparr>env := e\<rparr>)
                     | (Some (b, bo), e) \<Rightarrow>
                         let s = store_bo b bo (s\<lparr>env := e\<rparr>)
                         in Done (0, s\<lparr>gbm_bo_handle_map :=
                                        emplace buffer_handle b (gbm_bo_handle_map s)\<rparr>)))"

section \<open>Free\<close>

text \<open>
  Mesa's \<open>gbm_bo_destroy\<close> first calls the \<open>destroy_user_data\<close> callback on the attached data, which
  is \<open>gralloc_gbm_destroy_user_data\<close>: it deletes the \<open>bo_data\<close>.
\<close>

definition gralloc_gbm_destroy_user_data :: "gbm_bo \<Rightarrow> gbm_bo" where
  "gralloc_gbm_destroy_user_data bo = bo\<lparr>user_data := None\<rparr>"

definition gbm_bo_destroy :: "bo_ptr \<Rightarrow> 'e proc \<Rightarrow> 'e proc run" where
  "gbm_bo_destroy b s =
     (case bos s b of
        None \<Rightarrow> Fault DoubleDestroy
      | Some bo \<Rightarrow>
          let s = store_bo b (gralloc_gbm_destroy_user_data bo) s
          in Done (s\<lparr>bos := erase b (bos s)\<rparr>))"

text \<open>
  \<open>gralloc_gm_buffer_free\<close>.  The error returns give back \<open>-errno\<close>, whatever \<open>errno\<close> holds at that
  moment: none of the calls before them sets it.  The closing log line reads the handle.
\<close>

definition gralloc_gm_buffer_free :: "'e gbm_env \<Rightarrow> ptr \<Rightarrow> 'e proc \<Rightarrow> (c_int \<times> 'e proc) run" where
  "gralloc_gm_buffer_free P handle s =
    (let bo = gralloc_get_gbm_bo_from_handle handle s
     in if handle = 0 then Done (- p_errno P (env s), s)
        else if bo = None then Done (- p_errno P (env s), s)
        else case gralloc_get_gbm_bo_from_handle handle s of
          None \<Rightarrow> Done (- p_errno P (env s), s)
        | Some b \<Rightarrow>
            let s = s\<lparr>gbm_bo_handle_map := erase handle (gbm_bo_handle_map s)\<rparr>;
                s = (if gbm_bo_handle_map s handle \<noteq> None
                     then s\<lparr>gbm_bo_handle_map := erase handle (gbm_bo_handle_map s)\<rparr> else s)
            in andThen (gbm_bo_destroy b s) (\<lambda>s.
               andThen (load_handle handle s) (\<lambda>hnd. Done (0, s))))"

section \<open>The registry invariant\<close>

text \<open>
  Every registered handle is a live, full-size handle and maps to a live buffer object; no two
  handles share an object; and every live object is registered, so none can be lost.
\<close>

definition reg_inv :: "'e proc \<Rightarrow> bool" where
  "reg_inv s \<longleftrightarrow>
     (\<forall>p b. gbm_bo_handle_map s p = Some b \<longrightarrow>
        (\<exists>h. load_handle p s = Done h) \<and> b \<in> dom (bos s)) \<and>
     inj_on (gbm_bo_handle_map s) (dom (gbm_bo_handle_map s)) \<and>
     dom (bos s) \<subseteq> ran (gbm_bo_handle_map s)"

lemma reg_inv_init [simp]: "reg_inv (init_proc e F)"
  by (simp add: reg_inv_def init_proc_def)

lemma load_handle_cong: "handles s p = handles t p \<Longrightarrow> load_handle p s = load_handle p t"
  by (simp add: load_handle_def load_native_def)

lemma reg_inv_cong:
  assumes "gbm_bo_handle_map t = gbm_bo_handle_map s" and "bos t = bos s"
    and "\<And>p. p \<in> dom (gbm_bo_handle_map s) \<Longrightarrow> handles t p = handles s p"
  shows "reg_inv t \<longleftrightarrow> reg_inv s"
proof -
  have "load_handle p t = load_handle p s" if "gbm_bo_handle_map s p = Some b" for p b
    using assms(3) [of p] that by (intro load_handle_cong) auto
  then show ?thesis
    by (auto simp: reg_inv_def assms(1,2))
qed

lemma reg_invD:
  assumes "reg_inv s" and "gbm_bo_handle_map s p = Some b"
  obtains h bo where "load_handle p s = Done h" and "bos s b = Some bo"
  using assms by (fastforce simp: reg_inv_def)

lemma reg_inv_unique:
  assumes "reg_inv s" and "gbm_bo_handle_map s p = Some b" and "gbm_bo_handle_map s q = Some b"
  shows "p = q"
proof -
  have "inj_on (gbm_bo_handle_map s) (dom (gbm_bo_handle_map s))"
    using assms(1) by (simp add: reg_inv_def)
  then show ?thesis
    by (rule inj_onD) (auto simp: assms)
qed

lemma reg_inv_register:
  assumes inv: "reg_inv s" and p: "gbm_bo_handle_map s p = None" and b: "b \<notin> dom (bos s)"
    and map': "gbm_bo_handle_map t = (gbm_bo_handle_map s)(p \<mapsto> b)"
    and bos': "bos t = (bos s)(b \<mapsto> bo)"
    and keep: "\<And>q. q \<in> dom (gbm_bo_handle_map s) \<Longrightarrow> handles t q = handles s q"
    and ok: "load_handle p t = Done h"
  shows "reg_inv t"
proof -
  have lh: "load_handle q t = load_handle q s" if "gbm_bo_handle_map s q = Some c" for q c
    using keep [of q] that by (intro load_handle_cong) auto
  have nb: "gbm_bo_handle_map s q \<noteq> Some b" for q
    using inv b by (auto simp: reg_inv_def)
  have "(\<exists>h. load_handle q t = Done h) \<and> c \<in> dom (bos t)"
    if "gbm_bo_handle_map t q = Some c" for q c
    using that inv lh ok by (auto simp: map' bos' reg_inv_def split: if_splits)
  moreover have "inj_on (gbm_bo_handle_map t) (dom (gbm_bo_handle_map t))"
  proof (rule inj_onI)
    fix q r
    assume q: "q \<in> dom (gbm_bo_handle_map t)" and r: "r \<in> dom (gbm_bo_handle_map t)"
      and eq: "gbm_bo_handle_map t q = gbm_bo_handle_map t r"
    show "q = r"
    proof (cases "q = p \<or> r = p")
      case True
      then show ?thesis
        using eq nb nb [symmetric] by (auto simp: map' split: if_splits)
    next
      case False
      then show ?thesis
        using q r eq reg_inv_unique [OF inv] by (auto simp: map')
    qed
  qed
  moreover have "dom (bos t) \<subseteq> ran (gbm_bo_handle_map t)"
    using inv p by (auto simp: reg_inv_def bos' map' ran_map_upd)
  ultimately show ?thesis
    unfolding reg_inv_def by blast
qed

lemma reg_inv_unregister:
  assumes inv: "reg_inv s" and p: "gbm_bo_handle_map s p = Some b"
    and map': "gbm_bo_handle_map t = erase p (gbm_bo_handle_map s)"
    and bos': "bos t = erase b (bos s)"
    and keep: "\<And>q. q \<in> dom (gbm_bo_handle_map s) \<Longrightarrow> q \<noteq> p \<Longrightarrow> handles t q = handles s q"
  shows "reg_inv t"
proof -
  have lh: "load_handle q t = load_handle q s" if "gbm_bo_handle_map s q = Some c" "q \<noteq> p" for q c
    using keep [of q] that by (intro load_handle_cong) auto
  have "(\<exists>h. load_handle q t = Done h) \<and> c \<in> dom (bos t)"
    if "gbm_bo_handle_map t q = Some c" for q c
  proof -
    have q: "gbm_bo_handle_map s q = Some c" "q \<noteq> p"
      using that by (auto simp: map' erase_def split: if_splits)
    then have "c \<noteq> b"
      using reg_inv_unique [OF inv p] by blast
    then show ?thesis
      using q inv lh by (auto simp: bos' reg_inv_def)
  qed
  moreover have "inj_on (gbm_bo_handle_map t) (dom (gbm_bo_handle_map t))"
    using reg_inv_unique [OF inv] by (auto simp: map' inj_on_def erase_def split: if_splits)
  moreover have "dom (bos t) \<subseteq> ran (gbm_bo_handle_map t)"
  proof
    fix c assume "c \<in> dom (bos t)"
    then have c: "c \<in> dom (bos s)" "c \<noteq> b"
      by (auto simp: bos')
    then obtain q where "gbm_bo_handle_map s q = Some c"
      using inv by (auto simp: reg_inv_def ran_def)
    moreover from this c p have "q \<noteq> p" by auto
    ultimately have "gbm_bo_handle_map t q = Some c"
      by (simp add: map')
    then show "c \<in> ran (gbm_bo_handle_map t)"
      by (rule ranI)
  qed
  ultimately show ?thesis
    unfolding reg_inv_def by blast
qed

section \<open>What allocation does\<close>

lemma gralloc_handle_create_cases:
  assumes "gralloc_handle_create P w h f u s = (p, s')" and "handle_contract P"
  shows "(p = 0 \<and> handles s' = handles s) \<or>
    (p \<noteq> 0 \<and> p \<notin> dom (handles s) \<and>
     (\<exists>hd. handles s' = (handles s)(p \<mapsto> hd) \<and> load_handle p s' = Done hd \<and>
       numFds hd = 1 \<and> numInts hd = 12 \<and> prime_fd hd = - 1 \<and> h_width hd = w \<and>
       h_height hd = h \<and> h_format hd = f \<and> h_usage hd = u))"
  using assms handle_contract_create [OF assms(2)]
  by (fastforce simp: gralloc_handle_create_def store_handle_def load_handle_Done
      GRALLOC_HANDLE_NUM_INTS_eq GRALLOC_HANDLE_NUM_FDS_def split: prod.splits option.splits)

lemma gralloc_handle_create_frame:
  assumes "gralloc_handle_create P w h f u s = (p, s')"
  shows "gbm_bo_handle_map s' = gbm_bo_handle_map s \<and> bos s' = bos s \<and> open_fds s' = open_fds s \<and>
    gbm_dev s' = gbm_dev s \<and> gbm_dev_fd s' = gbm_dev_fd s \<and> devs s' = devs s"
  using assms by (auto simp: gralloc_handle_create_def store_handle_def split: prod.splits option.splits)

text \<open>The state of a successful allocation, over the state it started from.\<close>

definition allocated ::
    "'e proc \<Rightarrow> gralloc_buffer_desc \<Rightarrow> ptr \<Rightarrow> bo_ptr \<Rightarrow> gralloc_handle_t \<Rightarrow> gbm_bo \<Rightarrow> 'e proc \<Rightarrow> bool" where
  "allocated s desc p b h bo s' \<longleftrightarrow>
     p \<noteq> 0 \<and> p \<notin> dom (handles s) \<and> b \<notin> dom (bos s) \<and>
     gbm_bo_handle_map s' = emplace p b (gbm_bo_handle_map s) \<and>
     bos s' = (bos s)(b \<mapsto> bo) \<and> handles s' = (handles s)(p \<mapsto> h) \<and> load_handle p s' = Done h \<and>
     numFds h = 1 \<and> numInts h = 12 \<and> h_width h = d_width desc \<and> h_height h = d_height desc \<and>
     h_format h = d_android_format desc \<and> h_usage h = d_android_usage desc \<and>
     h_stride h = bo_stride bo \<and> h_modifier h = bo_modifier bo \<and> user_data bo = None \<and>
     open_fds s' = (if is_neg (prime_fd h) then open_fds s else insert (prime_fd h) (open_fds s)) \<and>
     (is_neg (prime_fd h) \<or> prime_fd h \<notin> open_fds s)"

definition unchanged_buffers :: "'e proc \<Rightarrow> 'e proc \<Rightarrow> bool" where
  "unchanged_buffers s s' \<longleftrightarrow>
     gbm_bo_handle_map s' = gbm_bo_handle_map s \<and> bos s' = bos s \<and> handles s' = handles s \<and>
     open_fds s' = open_fds s"

lemma unchanged_buffers_refl [simp]: "unchanged_buffers s s"
  by (simp add: unchanged_buffers_def)

lemma unchanged_buffers_trans:
  "unchanged_buffers s t \<Longrightarrow> unchanged_buffers t u \<Longrightarrow> unchanged_buffers s u"
  by (simp add: unchanged_buffers_def)

lemma unchanged_buffers_reg_inv: "unchanged_buffers s s' \<Longrightarrow> reg_inv s' \<longleftrightarrow> reg_inv s"
  by (intro reg_inv_cong) (simp_all add: unchanged_buffers_def)

lemma device_create_unchanged:
  "gralloc_gbm_device_create P fd ok s = (r, s') \<Longrightarrow> unchanged_buffers s s'"
  by (auto dest: device_create_frame simp: unchanged_buffers_def)

lemma allocate_finish_allocated:
  assumes c: "fd_contract P" "user_data bo = None"
    and p: "p \<noteq> 0" "p \<notin> dom (handles s)" and b: "b \<notin> dom (bos s)"
    and h: "numFds h = 1" "numInts h = 12" "h_width h = d_width desc" "h_height h = d_height desc"
      "h_format h = d_android_format desc" "h_usage h = d_android_usage desc"
    and t: "gbm_bo_handle_map t = gbm_bo_handle_map s" "bos t = (bos s)(b \<mapsto> bo)"
      "handles t = (handles s)(p \<mapsto> h)" "open_fds t = open_fds s"
    and run: "gralloc_allocate_finish P p h b bo t = ((r, out), s')"
  shows "r = 0 \<and> (\<exists>h'. out = Some (h_stride h', p) \<and> allocated s desc p b h' bo s')"
proof -
  obtain fd e where fd: "p_gbm_bo_get_fd P (open_fds t) b (env t) = (fd, e)"
    by fastforce
  have new: "is_neg fd \<or> fd \<notin> open_fds s"
    using c(1) fd t(4) unfolding fd_contract_def by metis
  let ?h = "h\<lparr>prime_fd := fd, h_stride := bo_stride bo, h_modifier := bo_modifier bo\<rparr>"
  have "r = 0" and "out = Some (h_stride ?h, p)"
    using run fd by (auto simp: gralloc_allocate_finish_def Let_def)
  moreover have "allocated s desc p b ?h bo s'"
    using run fd new p b h t c(2)
    by (auto simp: gralloc_allocate_finish_def Let_def allocated_def add_fd_def store_handle_def
        load_handle_Done fun_upd_def)
  ultimately show ?thesis by blast
qed

lemma gralloc_allocate_cases:
  assumes run: "gralloc_allocate P desc s = Done ((r, out), s')"
    and c: "handle_contract P" "bo_contract P" "fd_contract P"
  shows "(out = None \<and> unchanged_buffers s s') \<or>
    (r = 0 \<and> (\<exists>p b h bo. out = Some (h_stride h, p) \<and> allocated s desc p b h bo s'))"
proof -
  obtain ret dev s1 where dc: "gralloc_gbm_device_create P (gbm_dev_fd s) True s = ((ret, dev), s1)"
    by (metis prod.exhaust)
  have s1: "unchanged_buffers s s1"
    using dc by (rule device_create_unchanged)
  obtain p s2 where hc: "gralloc_handle_create P (d_width desc) (d_height desc)
      (d_android_format desc) (d_android_usage desc) s1 = (p, s2)"
    by fastforce
  note frame = gralloc_handle_create_frame [OF hc] and cs = gralloc_handle_create_cases [OF hc c(1)]
  show ?thesis
  proof (cases "dev = None \<or> \<not> gralloc_is_desc_support desc \<or> p = 0")
    case True
    then show ?thesis
      using run dc hc cs frame s1
      by (auto simp: gralloc_allocate_def unchanged_buffers_def split: if_splits option.splits)
  next
    case False
    then obtain d h where d: "dev = Some d" and sup: "gralloc_is_desc_support desc" and p0: "p \<noteq> 0"
      and p: "p \<notin> dom (handles s1)" and h: "handles s2 = (handles s1)(p \<mapsto> h)"
        "load_handle p s2 = Done h" "numFds h = 1" "numInts h = 12" "h_width h = d_width desc"
        "h_height h = d_height desc" "h_format h = d_android_format desc"
        "h_usage h = d_android_usage desc"
      using cs by auto
    obtain w ht where wh: "alloc_dims (hal_of P) h (gralloc_gm_get_gbm_flags_from_android_usage
        (hal_of P) (h_usage h) (h_format h)) = (w, ht)"
      by fastforce
    obtain res e where bc: "p_gbm_bo_create P (dom (bos s2)) d w ht
        (gralloc_gm_android_format_to_gbm_format (hal_of P) (h_format h))
        (gralloc_gm_get_gbm_flags_from_android_usage (hal_of P) (h_usage h) (h_format h))
        (env s2) = (res, e)"
      by fastforce
    show ?thesis
    proof (cases res)
      case None
      then show ?thesis
        using run dc hc d sup p0 h(1,2) wh bc p frame s1
        by (auto simp: gralloc_allocate_def Let_def andThen_eq_Done native_handle_delete_def
            load_native_Done unchanged_buffers_def erase_def split: if_splits)
    next
      case (Some bb)
      then obtain b bo where bb: "res = Some (b, bo)" by (cases bb) auto
      have b: "b \<notin> dom (bos s)" "user_data bo = None"
        using bo_contract_create [OF c(2) bc [unfolded bb]] frame s1
        by (auto simp: unchanged_buffers_def)
      let ?t = "store_bo b bo (s2\<lparr>env := e\<rparr>)"
      have "gralloc_allocate_finish P p h b bo ?t = ((r, out), s')"
        using run dc hc d sup p0 h(2) wh bc bb by (auto simp: gralloc_allocate_def Let_def)
      then show ?thesis
        using allocate_finish_allocated [OF c(3) b(2) p0 _ b(1) h(3-8), where t = ?t]
          p s1 frame h(1) by (auto simp: unchanged_buffers_def store_bo_def)
    qed
  qed
qed

lemma allocated_reg_inv:
  assumes inv: "reg_inv s" and a: "allocated s desc p b h bo s'"
  shows "gbm_bo_handle_map s p = None" and "gbm_bo_handle_map s' = (gbm_bo_handle_map s)(p \<mapsto> b)"
    and "reg_inv s'"
proof -
  show p: "gbm_bo_handle_map s p = None"
  proof (rule ccontr)
    assume "gbm_bo_handle_map s p \<noteq> None"
    then obtain c where "gbm_bo_handle_map s p = Some c" by auto
    with inv obtain h' where "load_handle p s = Done h'"
      by (rule reg_invD)
    then show False
      using a by (auto simp: allocated_def load_handle_Done)
  qed
  then show m: "gbm_bo_handle_map s' = (gbm_bo_handle_map s)(p \<mapsto> b)"
    using a by (auto simp: allocated_def emplace_def)
  show "reg_inv s'"
  proof (rule reg_inv_register [OF inv p _ m])
    show "handles s' q = handles s q" if "q \<in> dom (gbm_bo_handle_map s)" for q
      using that p a by (auto simp: allocated_def)
  qed (use a in \<open>auto simp: allocated_def\<close>)
qed

section \<open>What free and import do\<close>

lemma buffer_free_registered:
  assumes "reg_inv s" and "gbm_bo_handle_map s p = Some b"
  shows "gralloc_gm_buffer_free P p s =
    Done (0, s\<lparr>gbm_bo_handle_map := erase p (gbm_bo_handle_map s), bos := erase b (bos s)\<rparr>)"
proof -
  obtain h bo where h: "load_handle p s = Done h" and bo: "bos s b = Some bo"
    using reg_invD [OF assms] .
  let ?t = "s\<lparr>gbm_bo_handle_map := erase p (gbm_bo_handle_map s), bos := erase b (bos s)\<rparr>"
  have "p \<noteq> 0" and "load_handle p ?t = Done h"
    using h by (simp_all add: load_handle_Done)
  moreover have "erase b ((bos s)(b \<mapsto> x)) = erase b (bos s)" for x
    by (simp add: erase_def)
  ultimately show ?thesis
    using assms(2) bo
    by (simp add: gralloc_gm_buffer_free_def gralloc_get_gbm_bo_from_handle_def gbm_bo_destroy_def
        store_bo_def)
qed

lemma buffer_free_unregistered:
  assumes "gbm_bo_handle_map s p = None \<or> p = 0"
  shows "gralloc_gm_buffer_free P p s = Done (- p_errno P (env s), s)"
  using assms by (auto simp: gralloc_gm_buffer_free_def gralloc_get_gbm_bo_from_handle_def)

text \<open>The state of a successful import.\<close>

definition imported ::
    "'e proc \<Rightarrow> ptr \<Rightarrow> bo_ptr \<Rightarrow> gralloc_handle_t \<Rightarrow> gbm_bo \<Rightarrow> 'e proc \<Rightarrow> bool" where
  "imported s p b h bo s' \<longleftrightarrow>
     gbm_bo_handle_map s p = None \<and> b \<notin> dom (bos s) \<and> load_handle p s = Done h \<and>
     \<not> is_neg (prime_fd h) \<and> user_data bo = None \<and>
     gbm_bo_handle_map s' = (gbm_bo_handle_map s)(p \<mapsto> b) \<and> bos s' = (bos s)(b \<mapsto> bo) \<and>
     handles s' = handles s \<and> open_fds s' = open_fds s"

lemma buffer_import_eq:
  fixes P h
  defines "f \<equiv> gralloc_gm_android_format_to_gbm_format (hal_of P) (h_format h)"
  assumes dc: "gralloc_gbm_device_create P (gbm_dev_fd s) True s = ((ret, Some d), s1)"
    and p: "p \<noteq> 0" "gbm_bo_handle_map s p = None" and h: "load_handle p s1 = Done h"
    and bi: "p_gbm_bo_import P (dom (bos s1)) d (import_data (hal_of P) h f) (env s1) = (res, e)"
  shows "gralloc_gm_buffer_import P p s =
    (if is_neg (prime_fd h) \<or> f = 0 then Done (- EINVAL, s1)
     else case res of
            None \<Rightarrow> Done (- EINVAL, s1\<lparr>env := e\<rparr>)
          | Some (b, bo) \<Rightarrow>
              let s = store_bo b bo (s1\<lparr>env := e\<rparr>)
              in Done (0, s\<lparr>gbm_bo_handle_map := emplace p b (gbm_bo_handle_map s)\<rparr>))"
  using bi p h dc by (simp add: gralloc_gm_buffer_import_def Let_def f_def)

lemma buffer_import_cases:
  assumes run: "gralloc_gm_buffer_import P p s = Done (r, s')" and c: "bo_contract P"
  shows "(r = - EINVAL \<and> unchanged_buffers s s') \<or> (r = 0 \<and> (\<exists>b h bo. imported s p b h bo s'))"
proof -
  obtain ret dev s1 where dc: "gralloc_gbm_device_create P (gbm_dev_fd s) True s = ((ret, dev), s1)"
    by (metis prod.exhaust)
  have s1: "unchanged_buffers s s1"
    using dc by (rule device_create_unchanged)
  have lh: "load_handle p s1 = load_handle p s"
    using s1 by (intro load_handle_cong) (simp add: unchanged_buffers_def)
  show ?thesis
  proof (cases "p = 0 \<or> gbm_bo_handle_map s p \<noteq> None \<or> dev = None")
    case True
    then show ?thesis
      using run dc s1 by (auto simp: gralloc_gm_buffer_import_def split: if_splits option.splits)
  next
    case False
    then obtain d where d: "dev = Some d" and p: "p \<noteq> 0" "gbm_bo_handle_map s p = None"
      by auto
    obtain h where h: "load_handle p s1 = Done h"
      using run dc d p by (auto simp: gralloc_gm_buffer_import_def andThen_eq_Done)
    obtain res e where bi: "p_gbm_bo_import P (dom (bos s1)) d (import_data (hal_of P) h
        (gralloc_gm_android_format_to_gbm_format (hal_of P) (h_format h))) (env s1) = (res, e)"
      by fastforce
    note eq = run [unfolded buffer_import_eq [OF dc [unfolded d] p h bi]]
    have "unchanged_buffers s (s1\<lparr>env := e\<rparr>)"
      using s1 by (simp add: unchanged_buffers_def)
    moreover have "imported s p b h bo ((store_bo b bo (s1\<lparr>env := e\<rparr>))
        \<lparr>gbm_bo_handle_map := emplace p b (gbm_bo_handle_map s1)\<rparr>)"
      if "res = Some (b, bo)" and "\<not> is_neg (prime_fd h)" for b bo
      using that p h lh s1 bo_contract_import [OF c bi [unfolded that(1)]]
      by (simp add: imported_def unchanged_buffers_def store_bo_def emplace_def)
    ultimately show ?thesis
      using eq s1 by (fastforce simp: Let_def store_bo_def split: if_splits option.splits)
  qed
qed

lemma imported_reg_inv:
  assumes "reg_inv s" and "imported s p b h bo s'"
  shows "reg_inv s'"
proof (rule reg_inv_register [OF assms(1)])
  have "load_handle p s' = load_handle p s"
    using assms(2) by (intro load_handle_cong) (simp add: imported_def)
  then show "load_handle p s' = Done h"
    using assms(2) by (simp add: imported_def)
qed (use assms(2) in \<open>auto simp: imported_def\<close>)

section \<open>The registry as an interface\<close>

text \<open>
  What the layers above rely on: keys name objects, an acquire step binds a new key to a new
  object, a release step forgets exactly one key, and the live objects are those some key names.
\<close>

locale buffer_registry =
  fixes inv :: "'s \<Rightarrow> bool"
    and lookup :: "'k \<Rightarrow> 's \<Rightarrow> 'b option"
    and live :: "'s \<Rightarrow> 'b set"
    and acquire :: "'k \<Rightarrow> 's \<Rightarrow> 's \<Rightarrow> bool"
    and release :: "'k \<Rightarrow> 's \<Rightarrow> 's \<Rightarrow> bool"
  assumes acquire_inv: "inv s \<Longrightarrow> acquire k s t \<Longrightarrow> inv t"
    and release_inv: "inv s \<Longrightarrow> release k s t \<Longrightarrow> inv t"
    and acquire_new: "inv s \<Longrightarrow> acquire k s t \<Longrightarrow> lookup k s = None \<and> lookup k t \<noteq> None"
    and acquire_other: "inv s \<Longrightarrow> acquire k s t \<Longrightarrow> j \<noteq> k \<Longrightarrow> lookup j t = lookup j s"
    and release_lookup: "inv s \<Longrightarrow> release k s t \<Longrightarrow> lookup j t = (if j = k then None else lookup j s)"
    and live_iff: "inv s \<Longrightarrow> b \<in> live s \<longleftrightarrow> (\<exists>k. lookup k s = Some b)"
begin

lemma chain_acquire:
  assumes "chain acquire ks s t" and "inv s"
  shows "inv t" and "\<And>j. j \<notin> set ks \<Longrightarrow> lookup j t = lookup j s"
    and "\<And>j. j \<in> set ks \<Longrightarrow> lookup j s = None"
  using assms
proof (induction ks arbitrary: s)
  case (Cons k ks)
  {
    case 1
    then show ?case using Cons.IH(1) acquire_inv by auto
  next
    case 2
    then show ?case using Cons.IH(2) acquire_inv acquire_other by (metis chain.simps(2) list.set_intros)
  next
    case 3
    then show ?case
      using Cons.IH(3) acquire_inv acquire_new acquire_other
      by (metis chain.simps(2) set_ConsD)
  }
qed simp_all

lemma chain_release:
  assumes "chain release ks s t" and "inv s"
  shows "inv t" and "lookup j t = (if j \<in> set ks then None else lookup j s)"
  using assms
proof (induction ks arbitrary: s)
  case (Cons k ks)
  {
    case 1
    then show ?case using Cons.IH(1) release_inv by auto
  next
    case 2
    then obtain u where u: "release k s u" "chain release ks u t" by auto
    moreover from this 2 have "inv u" using release_inv by blast
    ultimately show ?case using Cons.IH(2) 2(2) release_lookup by auto
  }
qed simp_all

text \<open>Acquiring a batch of keys and releasing the same keys, in any order, leaves no trace.\<close>

lemma batch_balanced:
  assumes acq: "chain acquire ks s t" and rel: "chain release js t u" and inv: "inv s"
    and same: "set js = set ks"
  shows "inv u" and "lookup j u = lookup j s" and "live u = live s"
proof -
  have t: "inv t" by (rule chain_acquire(1) [OF acq inv])
  show u: "inv u" by (rule chain_release(1) [OF rel t])
  have l: "lookup j u = lookup j s" for j
    using chain_release(2) [OF rel t] chain_acquire(2,3) [OF acq inv] same by (cases "j \<in> set ks") auto
  then show "lookup j u = lookup j s" .
  show "live u = live s"
    using l by (auto simp: set_eq_iff live_iff [OF u] live_iff [OF inv])
qed

end

text \<open>
  The steps of the model: a registration binds a fresh handle to a fresh object; an
  unregistration forgets both.  Either may also change handles that are not registered.
\<close>

definition registers :: "ptr \<Rightarrow> 'e proc \<Rightarrow> 'e proc \<Rightarrow> bool" where
  "registers p s t \<longleftrightarrow>
     gbm_bo_handle_map s p = None \<and> is_done (load_handle p t) \<and>
     (\<exists>b bo. b \<notin> dom (bos s) \<and> gbm_bo_handle_map t = (gbm_bo_handle_map s)(p \<mapsto> b) \<and>
        bos t = (bos s)(b \<mapsto> bo)) \<and>
     (\<forall>q \<in> dom (gbm_bo_handle_map s). handles t q = handles s q)"

definition unregisters :: "ptr \<Rightarrow> 'e proc \<Rightarrow> 'e proc \<Rightarrow> bool" where
  "unregisters p s t \<longleftrightarrow>
     gbm_bo_handle_map t = erase p (gbm_bo_handle_map s) \<and>
     (\<exists>b. gbm_bo_handle_map s p = Some b \<and> bos t = erase b (bos s)) \<and>
     (\<forall>q \<in> dom (gbm_bo_handle_map s) - {p}. handles t q = handles s q)"

lemma registers_reg_inv: "reg_inv s \<Longrightarrow> registers p s t \<Longrightarrow> reg_inv t"
  unfolding registers_def is_done_iff by (elim conjE exE, rule reg_inv_register) blast+

lemma unregisters_reg_inv: "reg_inv s \<Longrightarrow> unregisters p s t \<Longrightarrow> reg_inv t"
  unfolding unregisters_def by (elim conjE exE, rule reg_inv_unregister) blast+

lemma reg_inv_live:
  assumes "reg_inv s"
  shows "b \<in> dom (bos s) \<longleftrightarrow> (\<exists>p. gralloc_get_gbm_bo_from_handle p s = Some b)"
  using assms by (fastforce simp: reg_inv_def gralloc_get_gbm_bo_from_handle_def ran_def)

interpretation reg: buffer_registry reg_inv gralloc_get_gbm_bo_from_handle "\<lambda>s. dom (bos s)"
  registers unregisters
proof
  show "reg_inv s \<Longrightarrow> registers k s t \<Longrightarrow> reg_inv t" for s t :: "'a proc" and k
    by (rule registers_reg_inv)
  show "reg_inv s \<Longrightarrow> unregisters k s t \<Longrightarrow> reg_inv t" for s t :: "'a proc" and k
    by (rule unregisters_reg_inv)
qed (auto simp: registers_def unregisters_def gralloc_get_gbm_bo_from_handle_def reg_inv_live erase_def)

lemma allocated_registers: "reg_inv s \<Longrightarrow> allocated s desc p b h bo t \<Longrightarrow> registers p s t"
  using allocated_reg_inv [of s desc p b h bo t]
  by (auto simp: registers_def is_done_iff allocated_def)

lemma imported_registers: "imported s p b h bo t \<Longrightarrow> registers p s t"
  by (auto simp: registers_def is_done_iff imported_def load_handle_Done)

lemma buffer_free_unregisters:
  assumes "reg_inv s" and "gbm_bo_handle_map s p \<noteq> None"
  shows "\<exists>t. gralloc_gm_buffer_free P p s = Done (0, t) \<and> unregisters p s t \<and>
    handles t = handles s \<and> open_fds t = open_fds s \<and> env t = env s"
  using assms by (auto simp: buffer_free_registered unregisters_def)

section \<open>When allocation faults\<close>

lemma allocate_done:
  assumes c: "handle_contract P" and n: "snd (fst (gralloc_gbm_device_create P (gbm_dev_fd s) True s)) \<noteq> None"
  shows "is_done (gralloc_allocate P desc s)"
proof -
  obtain ret d s1 where dc: "gralloc_gbm_device_create P (gbm_dev_fd s) True s = ((ret, Some d), s1)"
    using n by (cases "gralloc_gbm_device_create P (gbm_dev_fd s) True s") auto
  obtain p s2 where hc: "gralloc_handle_create P (d_width desc) (d_height desc)
      (d_android_format desc) (d_android_usage desc) s1 = (p, s2)"
    by fastforce
  show ?thesis
  proof (cases "p = 0")
    case True
    then show ?thesis
      using dc hc by (simp add: gralloc_allocate_def)
  next
    case False
    then obtain h where h: "load_handle p s2 = Done h"
      using gralloc_handle_create_cases [OF hc c] by auto
    then have nd: "is_done (native_handle_delete p (s2\<lparr>env := e\<rparr>))" for e
      by (auto simp: is_done_andThen native_handle_delete_def load_handle_Done load_native_Done)
    show ?thesis
      using dc hc h False nd [unfolded is_done_iff]
      by (auto simp: gralloc_allocate_def Let_def is_done_andThen split: prod.splits option.splits)

  qed
qed

section \<open>Cursor sizes\<close>

lemma alloc_dims_eq:
  assumes "hal_ok K"
  shows "alloc_dims K h (gralloc_gm_get_gbm_flags_from_android_usage K (h_usage h) (h_format h)) =
    (if h_usage h AND GRALLOC_USAGE_CURSOR K \<noteq> 0 \<and> h_format h = HAL_PIXEL_FORMAT_BGRA_8888 K
     then (ALIGN (MAX2 (h_width h) 64) 16, ALIGN (MAX2 (h_height h) 64) 16)
     else if h_format h = HAL_PIXEL_FORMAT_YV12 K
     then (ALIGN (h_width h) 32 div 2, h_height h + ALIGN (h_height h) 2 div 2)
     else (h_width h, h_height h))"
proof -
  have "HAL_PIXEL_FORMAT_BGRA_8888 K \<noteq> HAL_PIXEL_FORMAT_YV12 K"
    using assms by (simp add: hal_ok_def hal_formats_def)
  then show ?thesis
    unfolding alloc_dims_def flags_eq_chain flag_chain_bits to_gbm_format_ARGB8888 [OF assms]
    by (auto simp: Let_def)
qed

section \<open>Properties\<close>

lemma sample_allocate:
  "\<exists>r s'. gralloc_allocate sample_env
       \<lparr>d_width = 64, d_height = 4, d_android_format = 1, d_android_usage = 3,
        d_android_reserved_size = 0, d_gbm_format = 0, d_flags = 0, d_layer_count = 1\<rparr> sample_ready
     = Done ((r, Some (256, 0x1000)), s')"
  by (auto simp: gralloc_allocate_def Let_def dev_ready_def is_pos_def
      gralloc_handle_create_def store_handle_def load_handle_def load_native_def
      GRALLOC_HANDLE_NUM_INTS_eq GRALLOC_HANDLE_NUM_FDS_def sample_lists blank_handle_def
      gralloc_allocate_finish_def add_fd_def sample_bo_def alloc_dims_eq split: prod.splits)

text \<open>C12: A successful allocation returns a fresh handle that describes the request and is
  registered with a fresh buffer object whose stride is the stride returned; an unsuccessful one
  leaves handles, objects, registry and descriptors as they were.  Either way every registered
  handle stays valid and every live object stays reachable from exactly one handle.\<close>

theorem allocate_registers:
  assumes "gralloc_allocate P desc s = Done ((r, out), s')"
    and "handle_contract P" and "bo_contract P" and "fd_contract P" and "reg_inv s"
  shows "reg_inv s' \<and>
    (case out of
       None \<Rightarrow> gbm_bo_handle_map s' = gbm_bo_handle_map s \<and> bos s' = bos s \<and>
               handles s' = handles s \<and> open_fds s' = open_fds s
     | Some (stride, p) \<Rightarrow> r = 0 \<and> p \<notin> dom (handles s) \<and> gbm_bo_handle_map s p = None \<and>
         (\<exists>b bo h. b \<notin> dom (bos s) \<and> gbm_bo_handle_map s' = (gbm_bo_handle_map s)(p \<mapsto> b) \<and>
            bos s' = (bos s)(b \<mapsto> bo) \<and> load_handle p s' = Done h \<and>
            h_width h = d_width desc \<and> h_height h = d_height desc \<and>
            h_format h = d_android_format desc \<and> h_usage h = d_android_usage desc \<and>
            stride = h_stride h \<and> stride = bo_stride bo \<and> user_data bo = None))"
  using gralloc_allocate_cases [OF assms(1-4)]
proof (elim disjE conjE exE)
  assume "out = None" and "unchanged_buffers s s'"
  then show ?thesis
    using assms(5) by (simp add: unchanged_buffers_reg_inv) (simp add: unchanged_buffers_def)
next
  fix p b h bo
  assume "r = 0" and "out = Some (h_stride h, p)" and a: "allocated s desc p b h bo s'"
  then show ?thesis
    using allocated_reg_inv [OF assms(5) a] by (auto simp: allocated_def)
qed

theorem allocate_registers_witness:
  "\<exists>desc r s'. gralloc_allocate sample_env desc sample_ready = Done ((r, Some (256, 0x1000)), s') \<and>
     reg_inv s' \<and> r = 0"
proof -
  obtain desc r s' where run:
    "gralloc_allocate sample_env desc sample_ready = Done ((r, Some (256, 0x1000)), s')"
    using sample_allocate by blast
  have "reg_inv sample_ready"
    by (simp add: reg_inv_def)
  from allocate_registers [OF run _ _ _ this] run show ?thesis
    by auto
qed

text \<open>C13: Importing a handle that is not registered yet binds it to a fresh buffer object and
  touches no other entry, handle or descriptor; importing a registered handle, or a null one, is
  refused with \<open>-EINVAL\<close>, and so is every other failure, without a change to the buffers.  The
  registry stays consistent either way.\<close>

theorem import_registers:
  assumes "gralloc_gm_buffer_import P p s = Done (r, s')" and "bo_contract P" and "reg_inv s"
  shows "reg_inv s' \<and> handles s' = handles s \<and> open_fds s' = open_fds s \<and>
    (r = 0 \<or> r = - EINVAL) \<and>
    (p = 0 \<or> gbm_bo_handle_map s p \<noteq> None \<longrightarrow> r = - EINVAL) \<and>
    (if r = 0
     then \<exists>b bo. b \<notin> dom (bos s) \<and> gbm_bo_handle_map s' = (gbm_bo_handle_map s)(p \<mapsto> b) \<and>
            bos s' = (bos s)(b \<mapsto> bo) \<and> user_data bo = None
     else gbm_bo_handle_map s' = gbm_bo_handle_map s \<and> bos s' = bos s)"
  using buffer_import_cases [OF assms(1,2)]
proof (elim disjE conjE exE)
  assume "r = - EINVAL" and "unchanged_buffers s s'"
  then show ?thesis
    using assms(3) by (simp add: unchanged_buffers_reg_inv) (simp add: unchanged_buffers_def)
next
  fix b h bo
  assume "r = 0" and i: "imported s p b h bo s'"
  moreover have "p \<noteq> 0"
    using i by (auto simp: imported_def load_handle_Done)
  ultimately show ?thesis
    using imported_reg_inv [OF assms(3) i] by (auto simp: imported_def)
qed

text \<open>A process that received one buffer from another process: handle 0x2000, not registered.\<close>

definition received :: "unit proc" where
  "received = store_handle 0x2000
     ((blank_handle 1 12)\<lparr>prime_fd := 11, h_width := 64, h_height := 4, h_format := 1,
        h_usage := 3, h_stride := 256\<rparr>)
     (sample_ready\<lparr>open_fds := {10, 11}\<rparr>)"

lemma received_sel [simp]:
  "gbm_bo_handle_map received = Map.empty" "bos received = Map.empty" "dev_ready received"
  "dom (handles received) = {0x2000}" "open_fds received = {10, 11}" "devs received = {1}"
  "gbm_dev received = Some 1" "gbm_dev_fd received = 10"
  by (simp_all add: received_def store_handle_def dev_ready_def is_pos_def)

lemma received_inv [simp]: "reg_inv received"
  by (simp add: reg_inv_def)

lemma received_import:
  "\<exists>s'. gralloc_gm_buffer_import sample_env 0x2000 received = Done (0, s') \<and>
     gbm_bo_handle_map s' = [0x2000 \<mapsto> 1]"
  by (simp add: gralloc_gm_buffer_import_def Let_def received_def store_handle_def dev_ready_def
      is_pos_def is_neg_def load_handle_def load_native_def blank_handle_def sample_lists
      GRALLOC_HANDLE_NUM_INTS_eq GRALLOC_HANDLE_NUM_FDS_def to_gbm_format_zero hal_formats_def
      store_bo_def emplace_def)

theorem import_registers_witness:
  "\<exists>s'. gralloc_gm_buffer_import sample_env 0x2000 received = Done (0, s') \<and> reg_inv s' \<and>
     gbm_bo_handle_map s' = [0x2000 \<mapsto> 1]"
proof -
  obtain s' where s': "gralloc_gm_buffer_import sample_env 0x2000 received = Done (0, s')"
    and "gbm_bo_handle_map s' = [0x2000 \<mapsto> 1]"
    using received_import by blast
  then show ?thesis
    using import_registers [OF s'] by simp
qed

text \<open>C14: Freeing a registered handle always succeeds, removes exactly its entry and destroys
  exactly its buffer object, and keeps the registry consistent; freeing any other handle changes
  nothing and returns minus whatever \<open>errno\<close> happens to hold, so that it reports success when no
  earlier call had failed.\<close>

theorem buffer_free_exact:
  assumes "reg_inv s"
  shows "case gbm_bo_handle_map s p of
      Some b \<Rightarrow>
        (let s' = s\<lparr>gbm_bo_handle_map := erase p (gbm_bo_handle_map s), bos := erase b (bos s)\<rparr>
         in gralloc_gm_buffer_free P p s = Done (0, s') \<and> reg_inv s' \<and> b \<in> dom (bos s))
    | None \<Rightarrow> gralloc_gm_buffer_free P p s = Done (- p_errno P (env s), s)"
proof (cases "gbm_bo_handle_map s p")
  case (Some b)
  then obtain bo where "bos s b = Some bo"
    using reg_invD [OF assms] by blast
  moreover have "reg_inv (s\<lparr>gbm_bo_handle_map := erase p (gbm_bo_handle_map s), bos := erase b (bos s)\<rparr>)"
    by (rule reg_inv_unregister [OF assms Some]) simp_all
  ultimately show ?thesis
    using buffer_free_registered [OF assms Some] Some by (auto simp: Let_def)
qed (simp add: buffer_free_unregistered)

theorem buffer_free_exact_witness:
  "reg_inv received \<and>
   gralloc_gm_buffer_free (sample_env\<lparr>p_errno := \<lambda>e. 0\<rparr>) 0x2000 received = Done (0, received)"
  using buffer_free_exact [OF received_inv, where p = "0x2000" and
    P = "sample_env\<lparr>p_errno := \<lambda>e. 0\<rparr>"] by simp

text \<open>C15: Freeing the buffer that an allocation returned restores the registry and the set of
  live objects exactly, but the handle's memory and the descriptor exported for it are still there:
  closing and deleting the handle is left to the caller.\<close>

theorem allocate_free_leaves_handle:
  assumes run: "gralloc_allocate P desc s = Done ((r, Some (stride, p)), s')"
    and c: "handle_contract P" "bo_contract P" "fd_contract P" and inv: "reg_inv s"
  shows "\<exists>t h. gralloc_gm_buffer_free P p s' = Done (0, t) \<and>
    gbm_bo_handle_map t = gbm_bo_handle_map s \<and> bos t = bos s \<and>
    p \<notin> dom (handles s) \<and> handles t = (handles s)(p \<mapsto> h) \<and>
    (\<not> is_neg (prime_fd h) \<longrightarrow>
       prime_fd h \<notin> open_fds s \<and> open_fds t = insert (prime_fd h) (open_fds s))"
proof -
  obtain b h bo where a: "allocated s desc p b h bo s'"
    using gralloc_allocate_cases [OF run c] by auto
  note reg = allocated_reg_inv [OF inv a]
  have "gralloc_gm_buffer_free P p s' = Done (0, s'\<lparr>gbm_bo_handle_map :=
      erase p (gbm_bo_handle_map s'), bos := erase b (bos s')\<rparr>)"
    by (rule buffer_free_registered [OF reg(3)]) (simp add: reg(2))
  moreover have "erase p (gbm_bo_handle_map s') = gbm_bo_handle_map s"
    using reg(1,2) by (auto simp: erase_def)
  moreover have "erase b (bos s') = bos s"
    using a by (auto simp: allocated_def erase_def)
  ultimately show ?thesis
    using a by (auto simp: allocated_def)
qed

theorem allocate_free_leaves_handle_witness:
  "\<exists>desc r p s' t. gralloc_allocate sample_env desc sample_ready = Done ((r, Some (256, p)), s') \<and>
     gralloc_gm_buffer_free sample_env p s' = Done (0, t) \<and> handles t p \<noteq> None"
proof -
  obtain desc r s' where run:
    "gralloc_allocate sample_env desc sample_ready = Done ((r, Some (256, 0x1000)), s')"
    using sample_allocate by blast
  have "reg_inv sample_ready"
    by (simp add: reg_inv_def)
  from allocate_free_leaves_handle [OF run _ _ _ this] run show ?thesis
    by fastforce
qed

text \<open>Allocation either returns or reads its uninitialised \<open>dev\<close>: it faults exactly when no
  GBM device can be had, which is the case in every process that has not initialised the device,
  and no other fault is possible.\<close>

theorem allocate_faults_without_device:
  assumes "handle_contract P"
  shows "(gralloc_allocate P desc s = Fault f \<longleftrightarrow>
      f = UninitRead \<and> snd (fst (gralloc_gbm_device_create P (gbm_dev_fd s) True s)) = None) \<and>
    gralloc_allocate P desc (init_proc e F) = Fault UninitRead"
proof
  have uninit: "gralloc_allocate P desc t = Fault UninitRead"
    if "snd (fst (gralloc_gbm_device_create P (gbm_dev_fd t) True t)) = None" for t
    using that by (auto simp: gralloc_allocate_def split: prod.splits)
  show "gralloc_allocate P desc s = Fault f \<longleftrightarrow>
      f = UninitRead \<and> snd (fst (gralloc_gbm_device_create P (gbm_dev_fd s) True s)) = None"
    by (cases "snd (fst (gralloc_gbm_device_create P (gbm_dev_fd s) True s)) = None")
      (use uninit [of s] allocate_done [OF assms, of s desc] in \<open>auto simp: is_done_iff\<close>)
  show "gralloc_allocate P desc (init_proc e F) = Fault UninitRead"
    by (rule uninit) (simp add: gralloc_gbm_device_create_def init_proc_def is_pos_def)
qed

theorem allocate_faults_without_device_witness:
  "handle_contract sample_env \<and> (\<forall>desc. gralloc_allocate sample_env desc (init_proc () {}) = Fault UninitRead)"
  using allocate_faults_without_device [OF sample_handle_contract] by simp

text \<open>Import asks Mesa for the size that allocation used unless the cursor usage is set on a
  format other than BGRA and YV12 whose size is not already a legal cursor size: there allocation
  takes the exact size but import rounds it up.\<close>

theorem import_size_agrees:
  fixes K h
  defines "fl \<equiv> gralloc_gm_get_gbm_flags_from_android_usage K (h_usage h) (h_format h)"
  assumes "hal_ok K"
  shows "alloc_dims K h fl = import_dims K h \<longleftrightarrow>
    h_usage h AND GRALLOC_USAGE_CURSOR K = 0 \<or> h_format h = HAL_PIXEL_FORMAT_BGRA_8888 K \<or>
    h_format h = HAL_PIXEL_FORMAT_YV12 K \<or>
    ALIGN (MAX2 (h_width h) 64) 16 = h_width h \<and> ALIGN (MAX2 (h_height h) 64) 16 = h_height h"
proof -
  have "HAL_PIXEL_FORMAT_BGRA_8888 K \<noteq> HAL_PIXEL_FORMAT_YV12 K"
    using assms(2) by (simp add: hal_ok_def hal_formats_def)
  then show ?thesis
    unfolding fl_def alloc_dims_eq [OF assms(2)] import_dims_def by (auto simp: Let_def)
qed

theorem import_size_agrees_witness:
  "let h = (blank_handle 1 12)\<lparr>h_width := 24, h_height := 24, h_format := 1, h_usage := 0x8000\<rparr>
   in hal_ok android_hal \<and> import_dims android_hal h = (64, 64) \<and>
      alloc_dims android_hal h
        (gralloc_gm_get_gbm_flags_from_android_usage android_hal 0x8000 1) \<noteq> (64, 64)"
proof -
  let ?h = "(blank_handle 1 12)\<lparr>h_width := 24, h_height := 24, h_format := 1, h_usage := 0x8000\<rparr>"
  have "import_dims android_hal ?h = (64, 64)"
    by (simp add: import_dims_def ALIGN_def MAX2_def)
  then show ?thesis
    using import_size_agrees [OF android_hal_ok, of ?h] by (simp add: ALIGN_def MAX2_def)
qed

end
