(* ===== verification/Gm_Lock.thy ===== *)
theory Gm_Lock
  imports Gm_Buffer "HOL-Library.Multiset" "HOL-Library.Signed_Division"
begin

text \<open>
  CPU access to buffers in src/src/gralloc_gbm_mesa.cpp: mapping and unmapping a buffer object,
  the lock count and the usages it is locked for, the YCbCr lock, and the variants that first wait
  for a fence; then the lock protocol as an abstract state machine that the code refines.
\<close>

section \<open>The data attached to a buffer object\<close>

text \<open>
  \<open>(bo_data_t * )gbm_bo_get_user_data(bo)\<close> followed by a read or a write through the result.
\<close>

definition load_bo_data :: "bo_ptr \<Rightarrow> 'e proc \<Rightarrow> bo_data run" where
  "load_bo_data b s =
     andThen (load_bo b s) (\<lambda>bo.
       case user_data bo of None \<Rightarrow> Fault NullDeref | Some bd \<Rightarrow> Done bd)"

definition store_bo_data :: "bo_ptr \<Rightarrow> bo_data \<Rightarrow> 'e proc \<Rightarrow> 'e proc run" where
  "store_bo_data b bd s =
     andThen (load_bo b s) (\<lambda>bo. Done (store_bo b (bo\<lparr>user_data := Some bd\<rparr>) s))"

section \<open>Mapping\<close>

text \<open>
  \<open>gralloc_gbm_map\<close>; the address is \<open>None\<close> when nothing was stored through \<open>addr\<close>.  The closing
  \<open>assert\<close> compares the stride of the mapping with that of the buffer object.
\<close>

definition gralloc_gbm_map ::
    "'e gbm_env \<Rightarrow> ptr \<Rightarrow> bool \<Rightarrow> 'e proc \<Rightarrow> ((c_int \<times> u64 option) \<times> 'e proc) run" where
  "gralloc_gbm_map P handle enable_write s =
    (case gralloc_get_gbm_bo_from_handle handle s of
       None \<Rightarrow> Fault NullDeref
     | Some b \<Rightarrow>
         andThen (load_bo b s) (\<lambda>bo.
         andThen (load_bo_data b s) (\<lambda>bd.
           if map_data bd \<noteq> 0 then Done ((- EINVAL, None), s)
           else
             let flags = GBM_BO_TRANSFER_READ;
                 flags = (if enable_write then flags OR GBM_BO_TRANSFER_WRITE else flags);
                 ((addr, stride, md), e) =
                   p_gbm_bo_map P b 0 0 (bo_width bo) (bo_height bo) flags (map_data bd) (env s);
                 s = s\<lparr>env := e\<rparr>
             in andThen (store_bo_data b (bd\<lparr>map_data := md\<rparr>) s) (\<lambda>s.
                  if addr = 0 then Done ((- ENOMEM, Some addr), s)
                  else if stride \<noteq> bo_stride bo then Fault AssertFail
                  else Done ((0, Some addr), s)))))"

definition gralloc_gbm_unmap :: "'e gbm_env \<Rightarrow> bo_ptr \<Rightarrow> 'e proc \<Rightarrow> 'e proc run" where
  "gralloc_gbm_unmap P b s =
     andThen (load_bo_data b s) (\<lambda>bd.
       let s = s\<lparr>env := p_gbm_bo_unmap P b (map_data bd) (env s)\<rparr>
       in store_bo_data b (bd\<lparr>map_data := 0\<rparr>) s)"

section \<open>Lock and unlock\<close>

text \<open>The CPU bits of a usage, and the usage check against the buffer.\<close>

definition cpu_mask :: "hal \<Rightarrow> c_int" where
  "cpu_mask K = GRALLOC_USAGE_SW_WRITE_MASK K OR GRALLOC_USAGE_SW_READ_MASK K"

definition lock_refused :: "hal \<Rightarrow> gralloc_handle_t \<Rightarrow> c_int \<Rightarrow> bool" where
  "lock_refused K gbm_handle usage \<longleftrightarrow>
     h_usage gbm_handle AND usage \<noteq> usage \<and>
     h_usage gbm_handle AND GRALLOC_USAGE_SW_READ_OFTEN K = 0 \<and>
     h_usage gbm_handle AND GRALLOC_USAGE_HW_FB K = 0 \<and>
     h_usage gbm_handle AND GRALLOC_USAGE_HW_TEXTURE K = 0"

text \<open>
  The first lock attaches a zeroed \<open>bo_data\<close>.
\<close>

definition attach_bo_data :: "bo_ptr \<Rightarrow> 'e proc \<Rightarrow> (bo_data \<times> 'e proc) run" where
  "attach_bo_data b s =
     andThen (load_bo b s) (\<lambda>bo.
       case user_data bo of
         Some bd \<Rightarrow> Done (bd, s)
       | None \<Rightarrow>
           let bd = \<lparr>map_data = 0, lock_count = 0, locked_for = 0\<rparr>
           in andThen (store_bo_data b bd s) (\<lambda>s. Done (bd, s)))"

definition gralloc_gbm_bo_lock ::
    "'e gbm_env \<Rightarrow> ptr \<Rightarrow> c_int \<Rightarrow> 'e proc \<Rightarrow> ((c_int \<times> u64 option) \<times> 'e proc) run" where
  "gralloc_gbm_bo_lock P handle usage s =
    (case gralloc_get_gbm_bo_from_handle handle s of
       None \<Rightarrow> Done ((- EINVAL, None), s)
     | Some b \<Rightarrow>
         andThen (load_handle handle s) (\<lambda>gbm_handle.
           if lock_refused (hal_of P) gbm_handle usage then Done ((- EINVAL, None), s)
           else andThen (attach_bo_data b s) (\<lambda>(bd, s).
             if lock_count bd \<noteq> 0 \<and> locked_for bd AND usage \<noteq> usage
             then Done ((- EINVAL, None), s)
             else
               let usage = usage OR locked_for bd
               in andThen (if usage AND cpu_mask (hal_of P) \<noteq> 0
                           then gralloc_gbm_map P handle
                                  (usage AND GRALLOC_USAGE_SW_WRITE_MASK (hal_of P) \<noteq> 0) s
                           else Done ((0, None), s)) (\<lambda>((err, addr), s).
                  if err \<noteq> 0 then Done ((err, addr), s)
                  else andThen (load_bo_data b s) (\<lambda>bd.
                       andThen (inc_int (lock_count bd)) (\<lambda>n.
                       andThen (store_bo_data b
                                  (bd\<lparr>lock_count := n, locked_for := locked_for bd OR usage\<rparr>) s)
                         (\<lambda>s. Done ((0, addr), s))))))))"

definition gralloc_gbm_bo_unlock :: "'e gbm_env \<Rightarrow> ptr \<Rightarrow> 'e proc \<Rightarrow> (c_int \<times> 'e proc) run" where
  "gralloc_gbm_bo_unlock P handle s =
    (case gralloc_get_gbm_bo_from_handle handle s of
       None \<Rightarrow> Done (- EINVAL, s)
     | Some b \<Rightarrow>
         andThen (load_bo_data b s) (\<lambda>bd.
           let mapped = locked_for bd AND cpu_mask (hal_of P)
           in if lock_count bd = 0 then Done (0, s)
              else andThen (if mapped \<noteq> 0 then gralloc_gbm_unmap P b s else Done s) (\<lambda>s.
                   andThen (load_bo_data b s) (\<lambda>bd.
                   andThen (dec_int (lock_count bd)) (\<lambda>n.
                   andThen (store_bo_data b
                              (bd\<lparr>lock_count := n, locked_for := if n = 0 then 0 else locked_for bd\<rparr>)
                              s) (\<lambda>s. Done (0, s)))))))"

section \<open>YCbCr locks\<close>

text \<open>\<open>struct android_ycbcr\<close>, filled in by the lock; pointers are addresses, strides \<open>size_t\<close>.\<close>

record android_ycbcr =
  yc_y :: u64
  yc_cb :: u64
  yc_cr :: u64
  yc_ystride :: u64
  yc_cstride :: u64
  yc_chroma_step :: u64
  yc_reserved :: "u32 list"

text \<open>
  The plane addresses.  \<open>ystride\<close> and \<open>cstride\<close> are \<open>int\<close>s: products with the unsigned height are
  unsigned 32-bit, the halving of \<open>ystride\<close> is a signed division, and storing them in the
  \<open>size_t\<close> fields sign-extends.
\<close>

definition ycbcr_planes ::
    "hal \<Rightarrow> gralloc_handle_t \<Rightarrow> u64 \<Rightarrow> android_ycbcr \<Rightarrow> android_ycbcr option" where
  "ycbcr_planes K hnd addr ycbcr =
    (if h_format hnd = HAL_PIXEL_FORMAT_YCrCb_420_SP K
     then let cstride = ALIGN (h_width hnd) 16; ystride = cstride
          in Some (ycbcr\<lparr>yc_y := addr, yc_cr := addr + ucast (ystride * h_height hnd),
               yc_cb := addr + ucast (ystride * h_height hnd) + 1,
               yc_ystride := scast ystride, yc_cstride := scast cstride, yc_chroma_step := 2\<rparr>)
     else if h_format hnd = HAL_PIXEL_FORMAT_YV12 K
     then let ystride = h_width hnd; cstride = ALIGN (word_of_int (sint ystride sdiv 2)) 16
          in Some (ycbcr\<lparr>yc_y := addr, yc_cr := addr + ucast (ystride * h_height hnd),
               yc_cb := addr + ucast (ystride * h_height hnd) + ucast (cstride * h_height hnd div 2),
               yc_ystride := scast ystride, yc_cstride := scast cstride, yc_chroma_step := 1\<rparr>)
     else None)"

definition gralloc_gbm_bo_lock_ycbcr ::
    "'e gbm_env \<Rightarrow> ptr \<Rightarrow> c_int \<Rightarrow> android_ycbcr \<Rightarrow> 'e proc
      \<Rightarrow> ((c_int \<times> android_ycbcr) \<times> 'e proc) run" where
  "gralloc_gbm_bo_lock_ycbcr P handle usage ycbcr s =
     andThen (gralloc_gbm_bo_lock P handle usage s) (\<lambda>((err, out), s).
       if err \<noteq> 0 then Done ((err, ycbcr), s)
       else
         let addr = (case out of None \<Rightarrow> 0 | Some a \<Rightarrow> a);
             ycbcr = ycbcr\<lparr>yc_reserved := replicate (length (yc_reserved ycbcr)) 0\<rparr>
         in andThen (load_handle handle s) (\<lambda>hnd.
              case ycbcr_planes (hal_of P) hnd addr ycbcr of
                None \<Rightarrow> Done ((- EINVAL, ycbcr), s)
              | Some ycbcr \<Rightarrow> Done ((0, ycbcr), s)))"

section \<open>Fences\<close>

text \<open>
  The head shared by the two \<open>_async\<close> locks: wait for the fence and close it.  \<open>Inl\<close> is the
  early return on an error of \<open>sync_wait\<close>, which leaves the fence open.
\<close>

definition await_fence :: "'e gbm_env \<Rightarrow> c_int \<Rightarrow> 'e proc \<Rightarrow> (c_int + unit) \<times> 'e proc" where
  "await_fence P fence_fd s =
    (if \<not> is_neg fence_fd
     then let (err, e) = p_sync_wait P fence_fd 3000 (env s); s = s\<lparr>env := e\<rparr>
          in if is_neg err then (Inl err, s) else (Inr (), close_fd fence_fd s)
     else (Inr (), s))"

definition gralloc_gbm_bo_lock_async ::
    "'e gbm_env \<Rightarrow> ptr \<Rightarrow> c_int \<Rightarrow> c_int \<Rightarrow> 'e proc \<Rightarrow> ((c_int \<times> u64 option) \<times> 'e proc) run" where
  "gralloc_gbm_bo_lock_async P handle usage fence_fd s =
    (case await_fence P fence_fd s of
       (Inl err, s) \<Rightarrow> Done ((err, None), s)
     | (Inr _, s) \<Rightarrow> gralloc_gbm_bo_lock P handle usage s)"

text \<open>\<open>fence_ptr\<close>: whether the out pointer is non-null; what was stored through it is returned.\<close>

definition gralloc_gbm_bo_unlock_async ::
    "'e gbm_env \<Rightarrow> ptr \<Rightarrow> bool \<Rightarrow> 'e proc \<Rightarrow> ((c_int \<times> c_int option) \<times> 'e proc) run" where
  "gralloc_gbm_bo_unlock_async P handle fence_ptr s =
     andThen (gralloc_gbm_bo_unlock P handle s) (\<lambda>(ret, s).
       if ret \<noteq> 0 then Done ((ret, None), s)
       else Done ((0, if fence_ptr then Some (- 1) else None), s))"

definition gralloc_gbm_bo_lock_async_ycbcr ::
    "'e gbm_env \<Rightarrow> ptr \<Rightarrow> c_int \<Rightarrow> android_ycbcr \<Rightarrow> c_int \<Rightarrow> 'e proc
      \<Rightarrow> ((c_int \<times> android_ycbcr) \<times> 'e proc) run" where
  "gralloc_gbm_bo_lock_async_ycbcr P handle usage ycbcr fence_fd s =
    (case await_fence P fence_fd s of
       (Inl err, s) \<Rightarrow> Done ((err, ycbcr), s)
     | (Inr _, s) \<Rightarrow> gralloc_gbm_bo_lock_ycbcr P handle usage ycbcr s)"

section \<open>The operations in normal form\<close>

text \<open>
  Over a live buffer object, each operation is a function of the attached data: \<open>set_bd\<close> writes it
  back and nothing else changes.
\<close>

definition set_bd :: "bo_ptr \<Rightarrow> gbm_bo \<Rightarrow> bo_data \<Rightarrow> 'e proc \<Rightarrow> 'e proc" where
  "set_bd b bo bd s = s\<lparr>bos := (bos s)(b \<mapsto> bo\<lparr>user_data := Some bd\<rparr>)\<rparr>"

definition bd_of :: "bo_data option \<Rightarrow> bo_data" where
  "bd_of u = (case u of None \<Rightarrow> \<lparr>map_data = 0, lock_count = 0, locked_for = 0\<rparr> | Some bd \<Rightarrow> bd)"

lemma load_bo_data_eq:
  "bos s b = Some bo \<Longrightarrow> user_data bo = Some bd \<Longrightarrow> load_bo_data b s = Done bd"
  by (simp add: load_bo_data_def load_bo_def)

lemma store_bo_data_eq: "bos s b = Some bo \<Longrightarrow> store_bo_data b bd s = Done (set_bd b bo bd s)"
  by (simp add: store_bo_data_def load_bo_def store_bo_def set_bd_def)

lemma set_bd_sel [simp]:
  "bos (set_bd b bo bd s) = (bos s)(b \<mapsto> bo\<lparr>user_data := Some bd\<rparr>)"
  "gbm_bo_handle_map (set_bd b bo bd s) = gbm_bo_handle_map s"
  "handles (set_bd b bo bd s) = handles s" "open_fds (set_bd b bo bd s) = open_fds s"
  "devs (set_bd b bo bd s) = devs s" "gbm_dev (set_bd b bo bd s) = gbm_dev s"
  "gbm_dev_fd (set_bd b bo bd s) = gbm_dev_fd s" "env (set_bd b bo bd s) = env s"
  "(set_bd b bo bd s)\<lparr>env := e\<rparr> = set_bd b bo bd (s\<lparr>env := e\<rparr>)"
  "set_bd b (bo\<lparr>user_data := u\<rparr>) bd s = set_bd b bo bd s"
  "set_bd b bo bd (set_bd b bo bd' s) = set_bd b bo bd s"
  by (simp_all add: set_bd_def)

lemma set_bd_same: "bos s b = Some bo \<Longrightarrow> user_data bo = Some bd \<Longrightarrow> set_bd b bo bd s = s"
  by (simp add: set_bd_def fun_upd_idem)

lemma attach_eq:
  assumes "bos s b = Some bo"
  shows "attach_bo_data b s = Done (bd_of (user_data bo), set_bd b bo (bd_of (user_data bo)) s)"
  using assms
  by (auto simp: attach_bo_data_def load_bo_def bd_of_def Let_def store_bo_data_eq set_bd_same
      split: option.splits)

lemma map_eq:
  assumes "gbm_bo_handle_map s p = Some b" and "bos s b = Some bo" and "user_data bo = Some bd"
  shows "gralloc_gbm_map P p w s =
    (if map_data bd \<noteq> 0 then Done ((- EINVAL, None), s)
     else let ((addr, stride, md), e) =
            p_gbm_bo_map P b 0 0 (bo_width bo) (bo_height bo)
              (if w then GBM_BO_TRANSFER_READ OR GBM_BO_TRANSFER_WRITE else GBM_BO_TRANSFER_READ)
              (map_data bd) (env s);
            t = set_bd b bo (bd\<lparr>map_data := md\<rparr>) (s\<lparr>env := e\<rparr>)
          in if addr = 0 then Done ((- ENOMEM, Some addr), t)
             else if stride \<noteq> bo_stride bo then Fault AssertFail else Done ((0, Some addr), t))"
  using assms
  by (auto simp: gralloc_gbm_map_def gralloc_get_gbm_bo_from_handle_def load_bo_def
      load_bo_data_eq store_bo_data_eq Let_def split: prod.splits)

lemma lock_eq:
  fixes P usage bo
  defines "bd \<equiv> bd_of (user_data bo)"
  defines "u \<equiv> usage OR locked_for bd"
  assumes m: "gbm_bo_handle_map s p = Some b" and h: "load_handle p s = Done h"
    and bo: "bos s b = Some bo"
  shows "gralloc_gbm_bo_lock P p usage s =
    (if lock_refused (hal_of P) h usage then Done ((- EINVAL, None), s)
     else if lock_count bd \<noteq> 0 \<and> locked_for bd AND usage \<noteq> usage \<or>
             u AND cpu_mask (hal_of P) \<noteq> 0 \<and> map_data bd \<noteq> 0
     then Done ((- EINVAL, None), set_bd b bo bd s)
     else if u AND cpu_mask (hal_of P) = 0
     then andThen (inc_int (lock_count bd)) (\<lambda>n.
            Done ((0, None), set_bd b bo (bd\<lparr>lock_count := n, locked_for := locked_for bd OR u\<rparr>) s))
     else let ((addr, stride, md), e) =
            p_gbm_bo_map P b 0 0 (bo_width bo) (bo_height bo)
              (if u AND GRALLOC_USAGE_SW_WRITE_MASK (hal_of P) \<noteq> 0
               then GBM_BO_TRANSFER_READ OR GBM_BO_TRANSFER_WRITE else GBM_BO_TRANSFER_READ)
              (map_data bd) (env s);
            t = s\<lparr>env := e\<rparr>
          in if addr = 0 then Done ((- ENOMEM, Some addr), set_bd b bo (bd\<lparr>map_data := md\<rparr>) t)
             else if stride \<noteq> bo_stride bo then Fault AssertFail
             else andThen (inc_int (lock_count bd)) (\<lambda>n.
               Done ((0, Some addr), set_bd b bo
                 (bd\<lparr>map_data := md, lock_count := n, locked_for := locked_for bd OR u\<rparr>) t)))"
proof -
  let ?s = "set_bd b bo bd s"
  have m': "gbm_bo_handle_map ?s p = Some b" and b': "bos ?s b = Some (bo\<lparr>user_data := Some bd\<rparr>)"
    using m by simp_all
  note map = map_eq [OF m' b', simplified, of bd, OF refl]
  show ?thesis
    unfolding gralloc_gbm_bo_lock_def gralloc_get_gbm_bo_from_handle_def m option.case h andThen.simps
      attach_eq [OF bo, folded bd_def] prod.case Let_def u_def [symmetric] map
    by (auto simp: load_bo_data_eq store_bo_data_eq split: prod.splits)
qed

lemma unlock_eq:
  assumes m: "gbm_bo_handle_map s p = Some b" and bo: "bos s b = Some bo"
    and bd: "user_data bo = Some bd"
  shows "gralloc_gbm_bo_unlock P p s =
    (if lock_count bd = 0 then Done (0, s)
     else andThen (dec_int (lock_count bd)) (\<lambda>n.
       let md = (if locked_for bd AND cpu_mask (hal_of P) \<noteq> 0 then 0 else map_data bd);
           e = (if locked_for bd AND cpu_mask (hal_of P) \<noteq> 0
                then p_gbm_bo_unmap P b (map_data bd) (env s) else env s)
       in Done (0, set_bd b bo (bd\<lparr>map_data := md, lock_count := n,
                                   locked_for := if n = 0 then 0 else locked_for bd\<rparr>)
                      (s\<lparr>env := e\<rparr>))))"
  using assms
  by (cases "dec_int (lock_count bd)")
    (simp_all add: gralloc_gbm_bo_unlock_def gralloc_get_gbm_bo_from_handle_def
      gralloc_gbm_unmap_def load_bo_data_eq store_bo_data_eq Let_def)

section \<open>The lock protocol\<close>

text \<open>
  The protocol the code implements: a buffer is free, mapped for one CPU user, or held by any
  number of GPU users for a fixed set of usages.
\<close>

datatype lock_state = Free | CpuLocked c_int | GpuLocked nat c_int

primrec spec_lock :: "hal \<Rightarrow> c_int \<Rightarrow> lock_state \<Rightarrow> lock_state option" where
  "spec_lock K usage Free =
     Some (if usage AND cpu_mask K \<noteq> 0 then CpuLocked usage else GpuLocked 1 usage)"
| "spec_lock K usage (CpuLocked u) = None"
| "spec_lock K usage (GpuLocked n u) = (if u AND usage = usage then Some (GpuLocked (n + 1) u) else None)"

primrec spec_unlock :: "lock_state \<Rightarrow> lock_state" where
  "spec_unlock Free = Free"
| "spec_unlock (CpuLocked u) = Free"
| "spec_unlock (GpuLocked n u) = (if n = 1 then Free else GpuLocked (n - 1) u)"

primrec holders :: "lock_state \<Rightarrow> nat" where
  "holders Free = 0"
| "holders (CpuLocked u) = 1"
| "holders (GpuLocked n u) = n"

text \<open>What the attached data stands for, and the data that stands for something.\<close>

definition abs_lock :: "hal \<Rightarrow> bo_data option \<Rightarrow> lock_state" where
  "abs_lock K u =
    (let bd = bd_of u
     in if lock_count bd = 0 then Free
        else if locked_for bd AND cpu_mask K \<noteq> 0 then CpuLocked (locked_for bd)
        else GpuLocked (unat (lock_count bd)) (locked_for bd))"

definition bd_inv :: "hal \<Rightarrow> bo_data \<Rightarrow> bool" where
  "bd_inv K bd \<longleftrightarrow>
     \<not> is_neg (lock_count bd) \<and> (lock_count bd = 0 \<longrightarrow> locked_for bd = 0) \<and>
     (map_data bd \<noteq> 0 \<longleftrightarrow> locked_for bd AND cpu_mask K \<noteq> 0) \<and>
     (map_data bd \<noteq> 0 \<longrightarrow> lock_count bd = 1)"

definition lock_inv :: "hal \<Rightarrow> 'e proc \<Rightarrow> bool" where
  "lock_inv K s \<longleftrightarrow> (\<forall>b bo. bos s b = Some bo \<longrightarrow> bd_inv K (bd_of (user_data bo)))"

text \<open>The lock state of the buffer object a handle is registered for.\<close>

definition lock_state_of :: "hal \<Rightarrow> ptr \<Rightarrow> 'e proc \<Rightarrow> lock_state" where
  "lock_state_of K p s =
    (case gbm_bo_handle_map s p of
       None \<Rightarrow> Free
     | Some b \<Rightarrow> (case bos s b of None \<Rightarrow> Free | Some bo \<Rightarrow> abs_lock K (user_data bo)))"

lemma bd_of_simps [simp]:
  "bd_of None = \<lparr>map_data = 0, lock_count = 0, locked_for = 0\<rparr>" "bd_of (Some bd) = bd"
  by (simp_all add: bd_of_def)

lemma bd_inv_zero [simp]: "bd_inv K \<lparr>map_data = 0, lock_count = 0, locked_for = 0\<rparr>"
  by (simp add: bd_inv_def)

lemma abs_lock_bd_of [simp]: "abs_lock K (Some (bd_of u)) = abs_lock K u"
  by (simp add: abs_lock_def)

lemma lock_inv_init [simp]: "lock_inv K (init_proc e F)"
  by (simp add: lock_inv_def init_proc_def)

lemma lock_inv_cong: "bos t = bos s \<Longrightarrow> lock_inv K t \<longleftrightarrow> lock_inv K s"
  by (simp add: lock_inv_def)

lemma lock_inv_set_bd:
  assumes "lock_inv K s" and "bd_inv K bd"
  shows "lock_inv K (set_bd b bo bd (s\<lparr>env := e\<rparr>))" and "lock_inv K (set_bd b bo bd s)"
  using assms by (auto simp: lock_inv_def)

lemma or_and_absorb:
  fixes a b c :: "'a::len word"
  assumes "a AND b = b"
  shows "b OR a = a" and "a OR (b OR a) = a"
proof -
  show "b OR a = a"
    using assms by (auto simp: bit_eq_iff bit_simps)
  then show "a OR (b OR a) = a"
    by simp
qed

lemma and_sub_zero:
  fixes u x m :: "'a::len word"
  assumes "u AND x = x" and "u AND m = 0"
  shows "x AND m = 0"
proof -
  have "x AND m = (u AND m) AND x"
    using assms(1) by (metis and.assoc and.commute)
  then show ?thesis
    by (simp add: assms(2))
qed

lemma abs_lock_GpuD: "abs_lock K u = GpuLocked n l \<Longrightarrow> l AND cpu_mask K = 0"
  by (auto simp: abs_lock_def Let_def split: if_split_asm)

lemma abs_lock_CpuD:
  "abs_lock K u = CpuLocked l \<Longrightarrow>
     lock_count (bd_of u) \<noteq> 0 \<and> locked_for (bd_of u) AND cpu_mask K \<noteq> 0"
  by (auto simp: abs_lock_def Let_def split: if_split_asm)

text \<open>The three outcomes of a lock on the attached data, against the protocol.\<close>

lemma lock_outcome_ok:
  assumes inv: "bd_inv K bd" and ok: "lock_count bd = 0 \<or> locked_for bd AND usage = usage"
    and n: "inc_int (lock_count bd) = Done n"
    and md: "md \<noteq> 0 \<longleftrightarrow> (usage OR locked_for bd) AND cpu_mask K \<noteq> 0"
    and free: "(usage OR locked_for bd) AND cpu_mask K \<noteq> 0 \<Longrightarrow> map_data bd = 0"
  defines "bd' \<equiv> bd\<lparr>map_data := md, lock_count := n,
                    locked_for := locked_for bd OR (usage OR locked_for bd)\<rparr>"
  shows "bd_inv K bd' \<and> spec_lock K usage (abs_lock K (Some bd)) = Some (abs_lock K (Some bd'))"
proof -
  have n': "\<not> is_neg n" "n \<noteq> 0" "unat n = unat (lock_count bd) + 1"
    using inc_int_nonneg [OF _ n] inv by (auto simp: bd_inv_def)
  show ?thesis
  proof (cases "lock_count bd = 0")
    case True
    then have "n = 1" and "locked_for bd = 0" and "map_data bd = 0"
      using n inv by (auto simp: inc_int_def bd_inv_def)
    then show ?thesis
      using True md by (auto simp: bd'_def bd_inv_def abs_lock_def is_neg_def)
  next
    case False
    then have u2: "locked_for bd AND usage = usage"
      using ok by simp
    note u = or_and_absorb(1) [OF u2] u2
    have l: "locked_for bd AND cpu_mask K = 0"
      using free [unfolded u(1)] inv unfolding bd_inv_def by metis
    have bd': "bd' = bd\<lparr>map_data := 0, lock_count := n, locked_for := locked_for bd\<rparr>"
      using md [unfolded u(1)] l unfolding bd'_def u(1) by simp
    have "abs_lock K (Some bd) = GpuLocked (unat (lock_count bd)) (locked_for bd)"
      using False l by (simp add: abs_lock_def)
    moreover have "abs_lock K (Some bd') = GpuLocked (unat (lock_count bd) + 1) (locked_for bd)"
      using l n' by (simp add: abs_lock_def bd')
    moreover have "bd_inv K bd'"
      using l n' by (simp add: bd_inv_def bd')
    ultimately show ?thesis
      using u(2) by simp
  qed
qed

lemma lock_outcome_busy:
  assumes inv: "bd_inv K bd"
    and "lock_count bd \<noteq> 0 \<and> locked_for bd AND usage \<noteq> usage \<or>
         (usage OR locked_for bd) AND cpu_mask K \<noteq> 0 \<and> map_data bd \<noteq> 0"
  shows "spec_lock K usage (abs_lock K (Some bd)) = None"
  using assms by (auto simp: abs_lock_def bd_inv_def)

lemma unlock_outcome:
  assumes inv: "bd_inv K bd" and n0: "lock_count bd \<noteq> 0"
  defines "n \<equiv> lock_count bd - 1"
  defines "bd' \<equiv> bd\<lparr>map_data := if locked_for bd AND cpu_mask K \<noteq> 0 then 0 else map_data bd,
                    lock_count := n, locked_for := if n = 0 then 0 else locked_for bd\<rparr>"
  shows "bd_inv K bd' \<and> abs_lock K (Some bd') = spec_unlock (abs_lock K (Some bd)) \<and>
    dec_int (lock_count bd) = Done n"
proof -
  have d: "dec_int (lock_count bd) = Done n" "\<not> is_neg n" "unat n = unat (lock_count bd) - 1"
    using dec_int_pos [OF _ n0] inv by (auto simp: bd_inv_def n_def)
  moreover have "n = 0 \<longleftrightarrow> unat (lock_count bd) = 1"
    using d(3) n0 by (metis One_nat_def Suc_pred diff_self_eq_0 unat_eq_zero unat_gt_0)
  moreover have "locked_for bd AND cpu_mask K \<noteq> 0 \<Longrightarrow> lock_count bd = 1"
    using inv by (simp add: bd_inv_def)
  ultimately show ?thesis
    using inv n0 by (auto simp: bd'_def bd_inv_def abs_lock_def n_def)
qed

section \<open>The code refines the protocol\<close>

text \<open>A lock or unlock touches the data of one buffer object and the environment only.\<close>

definition only_lock_data :: "'e proc \<Rightarrow> 'e proc \<Rightarrow> bool" where
  "only_lock_data s t \<longleftrightarrow>
     gbm_bo_handle_map t = gbm_bo_handle_map s \<and> handles t = handles s \<and>
     open_fds t = open_fds s \<and> devs t = devs s \<and> gbm_dev t = gbm_dev s \<and>
     gbm_dev_fd t = gbm_dev_fd s \<and> dom (bos t) = dom (bos s)"

lemma only_lock_data_refl [simp]: "only_lock_data s s"
  by (simp add: only_lock_data_def)

lemma only_lock_data_set_bd:
  "bos s b = Some bo \<Longrightarrow> only_lock_data s (set_bd b bo bd s)"
  "bos s b = Some bo \<Longrightarrow> only_lock_data s (set_bd b bo bd (s\<lparr>env := e\<rparr>))"
  by (auto simp: only_lock_data_def)

lemma only_lock_data_reg_inv:
  assumes "only_lock_data s t"
  shows "reg_inv t \<longleftrightarrow> reg_inv s"
proof -
  have "load_handle p t = load_handle p s" for p
    using assms by (intro load_handle_cong) (simp add: only_lock_data_def)
  then show ?thesis
    using assms by (simp add: reg_inv_def only_lock_data_def)
qed

lemma lock_state_set_bd:
  assumes "reg_inv s" and "gbm_bo_handle_map s p = Some b" and "bos s b = Some bo"
  shows "lock_state_of K p (set_bd b bo bd s) = abs_lock K (Some bd)"
    and "q \<noteq> p \<Longrightarrow> lock_state_of K q (set_bd b bo bd s) = lock_state_of K q s"
    and "lock_state_of K p s = abs_lock K (Some (bd_of (user_data bo)))"
  using assms reg_inv_unique [OF assms(1,2), of q]
  by (auto simp: lock_state_of_def split: option.splits)

lemma lock_state_env [simp]:
  "lock_state_of K q (set_bd b bo bd (s\<lparr>env := e\<rparr>)) = lock_state_of K q (set_bd b bo bd s)"
  by (simp add: lock_state_of_def split: option.splits)

lemma lock_inv_bd:
  "lock_inv K s \<Longrightarrow> bos s b = Some bo \<Longrightarrow> bd_inv K (bd_of (user_data bo))"
  by (simp add: lock_inv_def)

text \<open>What a lock call does, as one relation between the states and the result.\<close>

definition lock_result ::
    "'e gbm_env \<Rightarrow> ptr \<Rightarrow> c_int \<Rightarrow> 'e proc \<Rightarrow> c_int \<Rightarrow> u64 option \<Rightarrow> 'e proc \<Rightarrow> bool" where
  "lock_result P p usage s r addr s' \<longleftrightarrow>
    (let K = hal_of P; st = lock_state_of K p s; st' = lock_state_of K p s'
     in only_lock_data s s' \<and> lock_inv K s' \<and>
        (\<forall>q. q \<noteq> p \<longrightarrow> lock_state_of K q s' = lock_state_of K q s) \<and>
        (if r = 0
         then spec_lock K usage st = Some st' \<and>
              (\<exists>b h. gbm_bo_handle_map s p = Some b \<and> load_handle p s = Done h \<and>
                     \<not> lock_refused K h usage) \<and>
              (case st' of CpuLocked u \<Rightarrow> \<exists>a. addr = Some a \<and> a \<noteq> 0 | _ \<Rightarrow> addr = None)
         else st' = st \<and>
              (r = - EINVAL \<and>
                 (gbm_bo_handle_map s p = None \<or>
                  (\<exists>h. load_handle p s = Done h \<and> lock_refused K h usage) \<or>
                  spec_lock K usage st = None) \<or>
               r = - ENOMEM \<and> st = Free \<and> usage AND cpu_mask K \<noteq> 0)))"

lemma lock_result_keeps:
  assumes "lock_result P p usage s r addr s'" and "reg_inv s"
  shows "reg_inv s'" and "lock_inv (hal_of P) s'" and "gbm_bo_handle_map s' = gbm_bo_handle_map s"
    and "handles s' = handles s"
  using assms only_lock_data_reg_inv [of s s']
  by (auto simp: lock_result_def Let_def only_lock_data_def)

lemma lock_result_done:
  assumes reg: "reg_inv s" and inv: "lock_inv (hal_of P) s" and p: "gbm_bo_handle_map s p = Some b"
    and h: "load_handle p s = Done h" "\<not> lock_refused (hal_of P) h usage" and bo: "bos s b = Some bo"
    and new: "bd_inv (hal_of P) bd \<and> spec_lock (hal_of P) usage (abs_lock (hal_of P) (Some (bd_of (user_data bo)))) =
      Some (abs_lock (hal_of P) (Some bd))"
    and a: "case abs_lock (hal_of P) (Some bd) of CpuLocked u \<Rightarrow> \<exists>a. addr = Some a \<and> a \<noteq> 0 | _ \<Rightarrow> addr = None"
  shows "lock_result P p usage s 0 addr (set_bd b bo bd (s\<lparr>env := e\<rparr>))"
proof -
  note st = lock_state_set_bd [OF reg p bo, where K = "hal_of P"]
  have "lock_inv (hal_of P) (set_bd b bo bd (s\<lparr>env := e\<rparr>))"
    using lock_inv_set_bd(1) [OF inv] new by blast
  then show ?thesis
    using only_lock_data_set_bd(2) [OF bo] st new a p h by (simp add: lock_result_def Let_def)
qed

lemma lock_result_refused:
  assumes reg: "reg_inv s" and inv: "lock_inv (hal_of P) s" and p: "gbm_bo_handle_map s p = Some b"
    and bo: "bos s b = Some bo" and st: "st = abs_lock (hal_of P) (Some (bd_of (user_data bo)))"
    and r: "r = - EINVAL \<and> spec_lock (hal_of P) usage st = None \<or>
      r = - ENOMEM \<and> st = Free \<and> usage AND cpu_mask (hal_of P) \<noteq> 0"
  shows "lock_result P p usage s r addr (set_bd b bo (bd_of (user_data bo)) (s\<lparr>env := e\<rparr>))"
proof -
  note ls = lock_state_set_bd [OF reg p bo, where K = "hal_of P"]
  have "lock_inv (hal_of P) (set_bd b bo (bd_of (user_data bo)) (s\<lparr>env := e\<rparr>))"
    using lock_inv_set_bd(1) [OF inv lock_inv_bd [OF inv bo]] .
  then show ?thesis
    using only_lock_data_set_bd(2) [OF bo] ls r by (auto simp: lock_result_def Let_def st)
qed

text \<open>A lock that maps nothing, and one that maps the buffer object.\<close>

lemma lock_refines_gpu:
  assumes bd: "bd_inv K bd" and ok: "lock_count bd = 0 \<or> locked_for bd AND usage = usage"
    and gpu: "(usage OR locked_for bd) AND cpu_mask K = 0" and n: "inc_int (lock_count bd) = Done n"
  defines "bd' \<equiv> bd\<lparr>lock_count := n, locked_for := locked_for bd OR (usage OR locked_for bd)\<rparr>"
  shows "bd_inv K bd' \<and> spec_lock K usage (abs_lock K (Some bd)) = Some (abs_lock K (Some bd'))"
    and "case abs_lock K (Some bd') of CpuLocked u \<Rightarrow> False | _ \<Rightarrow> True"
proof -
  have "map_data bd = 0"
    using gpu bd by (auto simp: bd_inv_def bit_eq_iff bit_simps)
  then have "bd\<lparr>map_data := 0, lock_count := n, locked_for := locked_for bd OR (usage OR locked_for bd)\<rparr> = bd'"
    by (simp add: bd'_def)
  with lock_outcome_ok [OF bd ok n, of 0] gpu
  show "bd_inv K bd' \<and> spec_lock K usage (abs_lock K (Some bd)) = Some (abs_lock K (Some bd'))"
    by simp
  have "locked_for bd' AND cpu_mask K = 0"
    using gpu by (auto simp: bd'_def bit_eq_iff bit_simps)
  then show "case abs_lock K (Some bd') of CpuLocked u \<Rightarrow> False | _ \<Rightarrow> True"
    by (simp add: abs_lock_def Let_def)
qed

lemma lock_refines_cpu:
  assumes bd: "bd_inv K bd" and ok: "lock_count bd = 0 \<or> locked_for bd AND usage = usage"
    and cpu: "(usage OR locked_for bd) AND cpu_mask K \<noteq> 0" and n: "inc_int (lock_count bd) = Done n"
    and md: "map_data bd = 0" "md \<noteq> 0"
  defines "bd' \<equiv> bd\<lparr>map_data := md, lock_count := n, locked_for := locked_for bd OR (usage OR locked_for bd)\<rparr>"
  shows "bd_inv K bd' \<and> spec_lock K usage (abs_lock K (Some bd)) = Some (abs_lock K (Some bd'))"
    and "\<exists>u. abs_lock K (Some bd') = CpuLocked u"
proof -
  show new: "bd_inv K bd' \<and> spec_lock K usage (abs_lock K (Some bd)) = Some (abs_lock K (Some bd'))"
    using lock_outcome_ok [OF bd ok n, of md] cpu md by (simp add: bd'_def)
  have "lock_count bd' \<noteq> 0" and "locked_for bd' AND cpu_mask K \<noteq> 0"
    using new md(2) by (auto simp: bd_inv_def bd'_def)
  then show "\<exists>u. abs_lock K (Some bd') = CpuLocked u"
    by (simp add: abs_lock_def)
qed

lemma lock_nothing_held:
  assumes bd: "bd_inv K bd" and ok: "lock_count bd = 0 \<or> locked_for bd AND usage = usage"
    and cpu: "(usage OR locked_for bd) AND cpu_mask K \<noteq> 0" and md: "map_data bd = 0"
  shows "abs_lock K (Some bd) = Free \<and> usage AND cpu_mask K \<noteq> 0"
proof -
  have "locked_for bd AND cpu_mask K = 0"
    using bd md by (simp add: bd_inv_def)
  then have "lock_count bd = 0"
    using ok or_and_absorb(1) [of "locked_for bd" usage] cpu by auto
  moreover from this have "locked_for bd = 0"
    using bd by (simp add: bd_inv_def)
  ultimately show ?thesis
    using cpu by (simp add: abs_lock_def)
qed

lemma lock_refines_mapping:
  assumes reg: "reg_inv s" and inv: "lock_inv (hal_of P) s" and c: "map_contract P"
    and p: "gbm_bo_handle_map s p = Some b" and h: "load_handle p s = Done h" "\<not> lock_refused (hal_of P) h usage"
    and bo: "bos s b = Some bo" and bd: "bd = bd_of (user_data bo)"
    and ok: "lock_count bd = 0 \<or> locked_for bd AND usage = usage" and md: "map_data bd = 0"
    and cpu: "(usage OR locked_for bd) AND cpu_mask (hal_of P) \<noteq> 0"
    and run: "gralloc_gbm_bo_lock P p usage s = Done ((r, addr), s')"
  shows "lock_result P p usage s r addr s'"
proof -
  let ?K = "hal_of P"
  let ?fl = "if (usage OR locked_for bd) AND GRALLOC_USAGE_SW_WRITE_MASK ?K \<noteq> 0
             then GBM_BO_TRANSFER_READ OR GBM_BO_TRANSFER_WRITE else GBM_BO_TRANSFER_READ"
  have inv_bd: "bd_inv ?K bd"
    unfolding bd by (rule lock_inv_bd [OF inv bo])
  obtain a stride md' e where pm:
    "p_gbm_bo_map P b 0 0 (bo_width bo) (bo_height bo) ?fl (map_data bd) (env s) = ((a, stride, md'), e)"
    by (metis prod.exhaust)
  have md': "if a = 0 then md' = 0 else md' \<noteq> 0"
    using map_contractD [OF c pm] md by simp
  have nb: "\<not> (lock_count bd \<noteq> 0 \<and> locked_for bd AND usage \<noteq> usage \<or>
      (usage OR locked_for bd) AND cpu_mask ?K \<noteq> 0 \<and> map_data bd \<noteq> 0)"
    using ok md by blast
  note eq = run [unfolded lock_eq [OF p h(1) bo] bd [symmetric] if_not_P [OF h(2)] if_not_P [OF nb]
      if_not_P [OF cpu] pm]
  show ?thesis
  proof (cases "a = 0")
    case True
    then have "r = - ENOMEM" and "s' = set_bd b bo (bd\<lparr>map_data := 0\<rparr>) (s\<lparr>env := e\<rparr>)"
      using eq md' by simp_all
    moreover have "bd\<lparr>map_data := 0\<rparr> = bd"
      using md by simp
    ultimately show ?thesis
      using lock_result_refused [OF reg inv p bo] lock_nothing_held [OF inv_bd ok cpu md] by (simp add: bd)
  next
    case False
    then obtain n where n: "inc_int (lock_count bd) = Done n" and "r = 0" "addr = Some a"
      and s': "s' = set_bd b bo (bd\<lparr>map_data := md', lock_count := n,
                 locked_for := locked_for bd OR (usage OR locked_for bd)\<rparr>) (s\<lparr>env := e\<rparr>)"
      using eq by (auto elim!: andThen_eq_DoneE split: if_splits)
    note new = lock_refines_cpu [OF inv_bd ok cpu n md, of md']
    show ?thesis
      unfolding s' \<open>r = 0\<close> \<open>addr = Some a\<close>
      using new md' False by (intro lock_result_done [OF reg inv p h bo]) (auto simp: bd)
  qed
qed

lemma lock_refines:
  assumes run: "gralloc_gbm_bo_lock P p usage s = Done ((r, addr), s')"
    and reg: "reg_inv s" and inv: "lock_inv (hal_of P) s" and c: "map_contract P"
  shows "lock_result P p usage s r addr s'"
proof (cases "gbm_bo_handle_map s p")
  case None
  then show ?thesis
    using run inv by (auto simp: gralloc_gbm_bo_lock_def gralloc_get_gbm_bo_from_handle_def
        lock_result_def Let_def)
next
  case (Some b)
  then obtain h bo where h: "load_handle p s = Done h" and bo: "bos s b = Some bo"
    using reg_invD [OF reg] by blast
  let ?K = "hal_of P" and ?bd = "bd_of (user_data bo)"
  let ?busy = "lock_count ?bd \<noteq> 0 \<and> locked_for ?bd AND usage \<noteq> usage \<or>
               (usage OR locked_for ?bd) AND cpu_mask ?K \<noteq> 0 \<and> map_data ?bd \<noteq> 0"
  note bd = lock_inv_bd [OF inv bo] and eq = run [unfolded lock_eq [OF Some h bo]]
  consider (refused) "lock_refused ?K h usage"
    | (busy) "\<not> lock_refused ?K h usage" ?busy
    | (gpu) "\<not> lock_refused ?K h usage" "\<not> ?busy" "(usage OR locked_for ?bd) AND cpu_mask ?K = 0"
    | (cpu) "\<not> lock_refused ?K h usage" "\<not> ?busy" "(usage OR locked_for ?bd) AND cpu_mask ?K \<noteq> 0"
    by blast
  then show ?thesis
  proof cases
    case refused
    then show ?thesis
      using eq h inv by (auto simp: lock_result_def Let_def)
  next
    case busy
    then have "r = - EINVAL" and "s' = set_bd b bo ?bd (s\<lparr>env := env s\<rparr>)"
      using eq unfolding if_not_P [OF busy(1)] if_P [OF busy(2)] by simp_all
    then show ?thesis
      using lock_result_refused [OF reg inv Some bo] lock_outcome_busy [OF bd busy(2)] by blast
  next
    case gpu
    then obtain n where n: "inc_int (lock_count ?bd) = Done n" and r: "r = 0" "addr = None"
      and s': "s' = set_bd b bo (?bd\<lparr>lock_count := n,
                 locked_for := locked_for ?bd OR (usage OR locked_for ?bd)\<rparr>) (s\<lparr>env := env s\<rparr>)"
      using eq unfolding if_not_P [OF gpu(1)] if_not_P [OF gpu(2)] if_P [OF gpu(3)]
      by (auto elim!: andThen_eq_DoneE)
    note new = lock_refines_gpu [OF bd _ gpu(3) n]
    show ?thesis
      unfolding s' r using new gpu(2)
      by (intro lock_result_done [OF reg inv Some h gpu(1) bo]) (auto split: lock_state.splits)
  next
    case cpu
    then show ?thesis
      using lock_refines_mapping [OF reg inv c Some h cpu(1) bo refl _ _ cpu(3) run] by blast
  qed
qed

lemma unlock_refines:
  assumes run: "gralloc_gbm_bo_unlock P p s = Done (r, s')"
    and reg: "reg_inv s" and inv: "lock_inv (hal_of P) s"
  shows "only_lock_data s s' \<and> lock_inv (hal_of P) s' \<and>
    (\<forall>q. q \<noteq> p \<longrightarrow> lock_state_of (hal_of P) q s' = lock_state_of (hal_of P) q s) \<and>
    (if gbm_bo_handle_map s p = None then r = - EINVAL \<and> s' = s
     else r = 0 \<and> lock_state_of (hal_of P) p s' = spec_unlock (lock_state_of (hal_of P) p s))"
proof (cases "gbm_bo_handle_map s p")
  case None
  then show ?thesis
    using run inv by (simp add: gralloc_gbm_bo_unlock_def gralloc_get_gbm_bo_from_handle_def)
next
  case (Some b)
  then obtain bo where bo: "bos s b = Some bo"
    using reg_invD [OF reg] by blast
  then obtain bd where bd: "user_data bo = Some bd"
    using run Some by (cases "user_data bo") (auto simp: gralloc_gbm_bo_unlock_def
        gralloc_get_gbm_bo_from_handle_def load_bo_data_def load_bo_def)
  note st = lock_state_set_bd [OF reg Some bo, where K = "hal_of P"]
  note eq = run [unfolded unlock_eq [OF Some bo bd]]
  have i: "bd_inv (hal_of P) bd"
    using lock_inv_bd [OF inv bo] bd by simp
  show ?thesis
  proof (cases "lock_count bd = 0")
    case True
    then show ?thesis
      using eq inv Some st(3) bd by (simp add: abs_lock_def)
  next
    case False
    obtain bd' e where "r = 0" and s': "s' = set_bd b bo bd' (s\<lparr>env := e\<rparr>)" and "bd_inv (hal_of P) bd'"
      and "abs_lock (hal_of P) (Some bd') = spec_unlock (abs_lock (hal_of P) (Some bd))"
      using eq False unlock_outcome [OF i False] by (auto simp: Let_def)
    then show ?thesis
      using Some st bd lock_inv_set_bd [OF inv] only_lock_data_set_bd [OF bo] by simp
  qed
qed

lemma unlock_faults:
  assumes reg: "reg_inv s" and inv: "lock_inv (hal_of P) s"
  shows "gralloc_gbm_bo_unlock P p s = Fault f \<longleftrightarrow>
    f = NullDeref \<and> (\<exists>b bo. gbm_bo_handle_map s p = Some b \<and> bos s b = Some bo \<and> user_data bo = None)"
proof (cases "gbm_bo_handle_map s p")
  case None
  then show ?thesis
    by (simp add: gralloc_gbm_bo_unlock_def gralloc_get_gbm_bo_from_handle_def)
next
  case (Some b)
  then obtain bo where bo: "bos s b = Some bo"
    using reg_invD [OF reg] by blast
  show ?thesis
  proof (cases "user_data bo")
    case None
    then show ?thesis
      using Some bo by (auto simp: gralloc_gbm_bo_unlock_def gralloc_get_gbm_bo_from_handle_def
          load_bo_data_def load_bo_def)
  next
    case (Some bd)
    have "bd_inv (hal_of P) bd"
      using lock_inv_bd [OF inv bo] Some by simp
    then show ?thesis
      using \<open>gbm_bo_handle_map s p = Some b\<close> bo Some unlock_outcome [of "hal_of P" bd]
      by (auto simp: unlock_eq Let_def)
  qed
qed

lemma unlock_done:
  assumes "reg_inv s" and "lock_inv (hal_of P) s" and "gbm_bo_handle_map s p = Some b"
    and "bos s b = Some bo" and "user_data bo \<noteq> None"
  shows "is_done (gralloc_gbm_bo_unlock P p s)"
  using unlock_faults [OF assms(1,2), of p] assms(3-5)
  by (cases "gralloc_gbm_bo_unlock P p s") auto

lemma lock_faults:
  assumes reg: "reg_inv s" and f: "gralloc_gbm_bo_lock P p usage s = Fault f"
  shows "f = AssertFail \<or> f = SignedOverflow"
proof (cases "gbm_bo_handle_map s p")
  case None
  then show ?thesis
    using f by (simp add: gralloc_gbm_bo_lock_def gralloc_get_gbm_bo_from_handle_def)
next
  case (Some b)
  then obtain h bo where h: "load_handle p s = Done h" and bo: "bos s b = Some bo"
    using reg_invD [OF reg] by blast
  show ?thesis
    using f unfolding lock_eq [OF Some h bo]
    by (auto simp: andThen_eq_Fault inc_int_def Let_def split: if_splits prod.splits)
qed

section \<open>Locking as an interface\<close>

text \<open>
  What the mappers need from a lock service: acquiring and releasing a key count its holders and
  leave every other key alone.
\<close>

locale lock_service =
  fixes inv :: "'s \<Rightarrow> bool"
    and cnt :: "'k \<Rightarrow> 's \<Rightarrow> nat"
    and acq :: "'k \<Rightarrow> 's \<Rightarrow> 's \<Rightarrow> bool"
    and rel :: "'k \<Rightarrow> 's \<Rightarrow> 's \<Rightarrow> bool"
  assumes acq_inv: "inv s \<Longrightarrow> acq k s t \<Longrightarrow> inv t"
    and rel_inv: "inv s \<Longrightarrow> rel k s t \<Longrightarrow> inv t"
    and acq_count: "inv s \<Longrightarrow> acq k s t \<Longrightarrow> cnt j t = cnt j s + (if j = k then 1 else 0)"
    and rel_count: "inv s \<Longrightarrow> rel k s t \<Longrightarrow> cnt j t = cnt j s - (if j = k then 1 else 0)"
begin

lemma chain_acq:
  assumes "chain acq ks s t" and "inv s"
  shows "inv t" and "cnt j t = cnt j s + count_list ks j"
  using assms
proof (induction ks arbitrary: s)
  case (Cons k ks)
  {
    case 1
    then show ?case using Cons.IH(1) acq_inv by auto
  next
    case 2
    then obtain u where u: "acq k s u" "chain acq ks u t" by auto
    moreover from this 2 have "inv u" using acq_inv by blast
    ultimately show ?case using Cons.IH(2) acq_count [OF 2(2) u(1), of j] by simp
  }
qed simp_all

lemma chain_rel:
  assumes "chain rel ks s t" and "inv s"
  shows "inv t" and "cnt j t = cnt j s - count_list ks j"
  using assms
proof (induction ks arbitrary: s)
  case (Cons k ks)
  {
    case 1
    then show ?case using Cons.IH(1) rel_inv by auto
  next
    case 2
    then obtain u where u: "rel k s u" "chain rel ks u t" by auto
    moreover from this 2 have "inv u" using rel_inv by blast
    ultimately show ?case using Cons.IH(2) rel_count [OF 2(2) u(1), of j] by simp
  }
qed simp_all

lemma balanced:
  assumes "chain acq ks s t" and "chain rel js t u" and "inv s" and "mset js = mset ks"
  shows "inv u" and "cnt j u = cnt j s"
proof -
  have t: "inv t" by (rule chain_acq(1) [OF assms(1,3)])
  show "inv u" by (rule chain_rel(1) [OF assms(2) t])
  have "count_list js j = count_list ks j"
    using assms(4) by (metis count_mset)
  then show "cnt j u = cnt j s"
    using chain_acq(2) [OF assms(1,3), of j] chain_rel(2) [OF assms(2) t, of j] by simp
qed

end

definition locks_ok :: "'e gbm_env \<Rightarrow> 'e proc \<Rightarrow> bool" where
  "locks_ok P s \<longleftrightarrow> map_contract P \<and> reg_inv s \<and> lock_inv (hal_of P) s"

definition holders_of :: "'e gbm_env \<Rightarrow> ptr \<Rightarrow> 'e proc \<Rightarrow> nat" where
  "holders_of P p s = holders (lock_state_of (hal_of P) p s)"

definition locks :: "'e gbm_env \<Rightarrow> ptr \<Rightarrow> 'e proc \<Rightarrow> 'e proc \<Rightarrow> bool" where
  "locks P p s t \<longleftrightarrow> (\<exists>usage addr. gralloc_gbm_bo_lock P p usage s = Done ((0, addr), t))"

definition unlocks :: "'e gbm_env \<Rightarrow> ptr \<Rightarrow> 'e proc \<Rightarrow> 'e proc \<Rightarrow> bool" where
  "unlocks P p s t \<longleftrightarrow> gralloc_gbm_bo_unlock P p s = Done (0, t)"

lemma spec_lock_holders: "spec_lock K u st = Some st' \<Longrightarrow> holders st' = holders st + 1"
  by (cases st) (auto split: if_splits)

lemma spec_unlock_holders: "holders (spec_unlock st) = holders st - 1"
  by (cases st) auto

interpretation lk: lock_service "locks_ok P" "holders_of P" "locks P" "unlocks P"
  for P :: "'e gbm_env"
proof
  fix s t :: "'e proc" and k j
  assume inv: "locks_ok P s"
  {
    assume "locks P k s t"
    then obtain usage addr where *: "gralloc_gbm_bo_lock P k usage s = Done ((0, addr), t)"
      by (auto simp: locks_def)
    then have "lock_result P k usage s 0 addr t"
      using inv lock_refines by (auto simp: locks_ok_def)
    then show "locks_ok P t"
      and "holders_of P j t = holders_of P j s + (if j = k then 1 else 0)"
      using inv only_lock_data_reg_inv spec_lock_holders
      by (auto simp: lock_result_def Let_def locks_ok_def holders_of_def)
  next
    assume "unlocks P k s t"
    then have *: "gralloc_gbm_bo_unlock P k s = Done (0, t)"
      by (simp add: unlocks_def)
    show "locks_ok P t"
      and "holders_of P j t = holders_of P j s - (if j = k then 1 else 0)"
      using inv unlock_refines [OF *] only_lock_data_reg_inv spec_unlock_holders
      by (auto simp: locks_ok_def holders_of_def split: if_splits)
  }
qed

section \<open>Plane addresses\<close>

lemma half_width:
  fixes w :: u32
  assumes "unat w < 2 ^ 31"
  shows "unat (word_of_int (sint w sdiv 2) :: u32) = unat w div 2"
proof -
  have "sint w sdiv 2 = int (unat w div 2)"
    unfolding sint_small(1) [OF assms] signed_divide_int_def by (cases "w = 0") (auto simp: zdiv_int sgn_if unat_gt_0)
  moreover have "unat w div 2 < 2 ^ 32"
    using assms by simp
  ultimately show ?thesis
    by (simp only: of_int_of_nat_eq unat_of_nat) simp
qed

lemma YV12_dims:
  assumes "hal_ok K" and "h_format h = HAL_PIXEL_FORMAT_YV12 K"
    and "alloc_dims K h (gralloc_gm_get_gbm_flags_from_android_usage K (h_usage h) (h_format h)) = (bw, bh)"
    and "unat (h_width h) < 2 ^ 31" and "unat (h_height h) < 2 ^ 31"
  shows "unat bw = (unat (h_width h) + 31) div 32 * 16"
    and "unat bh = unat (h_height h) + (unat (h_height h) + 1) div 2"
proof -
  have "HAL_PIXEL_FORMAT_BGRA_8888 K \<noteq> HAL_PIXEL_FORMAT_YV12 K"
    using assms(1) by (simp add: hal_ok_def hal_formats_def)
  then have b: "bw = ALIGN (h_width h) 32 div 2" "bh = h_height h + ALIGN (h_height h) 2 div 2"
    using assms(2,3) unfolding alloc_dims_eq [OF assms(1)] by simp_all
  have "unat (ALIGN (h_width h) (2 ^ 5)) = (unat (h_width h) + 2 ^ 5 - 1) div 2 ^ 5 * 2 ^ 5"
    using assms(4) by (intro unat_ALIGN) simp_all
  then show "unat bw = (unat (h_width h) + 31) div 32 * 16"
    by (simp add: b unat_div)
  have "unat (ALIGN (h_height h) (2 ^ 1)) = (unat (h_height h) + 2 ^ 1 - 1) div 2 ^ 1 * 2 ^ 1"
    using assms(5) by (intro unat_ALIGN) simp_all
  then have a: "unat (ALIGN (h_height h) 2 div 2) = (unat (h_height h) + 1) div 2"
    by (simp add: unat_div)
  have "unat (h_height h) + unat (ALIGN (h_height h) 2 div 2) < 2 ^ 32"
    using assms(5) unfolding a by simp
  then show "unat bh = unat (h_height h) + (unat (h_height h) + 1) div 2"
    using a by (simp add: b unat_add_lem [THEN iffD1])
qed

text \<open>The arithmetic of the three planes, in bytes: \<open>c\<close> is a sixteenth of the chroma stride.\<close>

lemma YV12_planes_fit:
  fixes w ht c A :: nat
  assumes "w \<le> A" and "2 * c \<le> A" and "even c"
  shows "w * ht + c * ht div 2 + c * ((ht + 1) div 2) \<le> A * (ht + (ht + 1) div 2)"
proof -
  obtain d where c: "c = 2 * d"
    using assms(3) by blast
  let ?r = "(ht + 1) div 2"
  have "c * ht div 2 = d * ht"
    by (simp add: c)
  moreover have "d * ht \<le> d * (2 * ?r)"
    by (intro mult_le_mono2) linarith
  then have "d * ht \<le> c * ?r"
    by (simp add: c mult.commute mult.left_commute)
  moreover have "2 * c * ?r \<le> A * ?r"
    by (rule mult_le_mono1 [OF assms(2)])
  moreover have "w * ht \<le> A * ht"
    by (rule mult_le_mono1 [OF assms(1)])
  moreover have "A * (ht + ?r) = A * ht + A * ?r"
    by (rule add_mult_distrib2)
  moreover have "2 * c * ?r = c * ?r + c * ?r"
    by simp
  ultimately show ?thesis
    by linarith
qed


lemma chroma_stride_bounds:
  fixes w :: nat
  shows "w \<le> 2 * ((w + 31) div 32 * 16)"
    and "2 * ((w div 2 + 15) div 16 * 16) \<le> 2 * ((w + 31) div 32 * 16)"
proof -
  show "w \<le> 2 * ((w + 31) div 32 * 16)"
    by linarith
  have "w div 2 + 15 \<le> (w + 31) div 2"
    by linarith
  then have "(w div 2 + 15) div 16 \<le> (w + 31) div 2 div 16"
    by (rule div_le_mono)
  also have "\<dots> = (w + 31) div (2 * 16)"
    by (rule div_mult2_eq [symmetric])
  finally show "2 * ((w div 2 + 15) div 16 * 16) \<le> 2 * ((w + 31) div 32 * 16)"
    by simp
qed

lemma unat_numeral_two: "unat (2 :: u32) = 2"
  by simp

lemma ucast_of_unat: "(ucast (x :: u32) :: u64) = of_nat (unat x)"
  by simp

lemma scast_of_sint: "(scast (x :: u32) :: u64) = of_int (sint x)"
  by simp

lemma planes_words:
  fixes w h :: u32
  assumes "unat w * unat h < 2 ^ 32"
  shows "(ucast (w * h) :: u64) = of_nat (unat w * unat h)"
    and "(ucast (w * h div 2) :: u64) = of_nat (unat w * unat h div 2)"
proof -
  have m: "unat (w * h) = unat w * unat h"
    using assms by (intro unat_mult_lem [THEN iffD1]) simp
  show "(ucast (w * h) :: u64) = of_nat (unat w * unat h)"
    by (simp only: ucast_of_unat m)
  show "(ucast (w * h div 2) :: u64) = of_nat (unat w * unat h div 2)"
    by (simp only: ucast_of_unat unat_div m unat_numeral_two)
qed

lemma scast_small:
  fixes w :: u32
  shows "unat w < 2 ^ 31 \<Longrightarrow> (scast w :: u64) = of_nat (unat w)"
  by (simp only: scast_of_sint sint_small(1) of_int_of_nat_eq)

section \<open>Properties\<close>

text \<open>A process with one registered, never locked buffer: handle 0x2000, object 1.\<close>

definition one_buffer :: "unit proc" where
  "one_buffer = received\<lparr>gbm_bo_handle_map := [0x2000 \<mapsto> 1], bos := [1 \<mapsto> sample_bo 64 4 0]\<rparr>"

lemma one_buffer_sel [simp]:
  "gbm_bo_handle_map one_buffer = [0x2000 \<mapsto> 1]" "bos one_buffer = [1 \<mapsto> sample_bo 64 4 0]"
  "load_handle 0x2000 one_buffer = Done ((blank_handle 1 12)\<lparr>prime_fd := 11, h_width := 64,
     h_height := 4, h_format := 1, h_usage := 3, h_stride := 256\<rparr>)"
  by (simp_all add: one_buffer_def received_def store_handle_def load_handle_def load_native_def
      blank_handle_def GRALLOC_HANDLE_NUM_INTS_eq GRALLOC_HANDLE_NUM_FDS_def)

lemma one_buffer_at:
  "gbm_bo_handle_map one_buffer 0x2000 = Some 1" "bos one_buffer 1 = Some (sample_bo 64 4 0)"
  by simp_all

lemma one_buffer_inv [simp]: "reg_inv one_buffer" "lock_inv android_hal one_buffer"
  "locks_ok sample_env one_buffer" "lock_state_of android_hal 0x2000 one_buffer = Free"
  by (auto simp: reg_inv_def lock_inv_def sample_bo_def locks_ok_def lock_state_of_def abs_lock_def)

lemma one_buffer_lock:
  "\<exists>s'. gralloc_gbm_bo_lock sample_env 0x2000 3 one_buffer = Done ((0, Some 0x7F000000), s') \<and>
     bos s' = [1 \<mapsto> (sample_bo 64 4 0)\<lparr>user_data :=
        Some \<lparr>map_data = 1, lock_count = 1, locked_for = 3\<rparr>\<rparr>]"
  unfolding lock_eq [OF one_buffer_at(1) one_buffer_sel(3) one_buffer_at(2)]
  by (simp add: lock_refused_def sample_bo_def cpu_mask_def inc_int_def set_bd_def)

lemma one_buffer_locked_unlock:
  assumes "gralloc_gbm_bo_lock sample_env 0x2000 3 one_buffer = Done ((0, Some 0x7F000000), s')"
  shows "\<exists>t. gralloc_gbm_bo_unlock sample_env 0x2000 s' = Done (0, t)"
proof -
  have bos: "bos s' = [1 \<mapsto> (sample_bo 64 4 0)\<lparr>user_data :=
        Some \<lparr>map_data = 1, lock_count = 1, locked_for = 3\<rparr>\<rparr>]"
    using one_buffer_lock assms by auto
  have l: "lock_result sample_env 0x2000 3 one_buffer 0 (Some 0x7F000000) s'"
    by (rule lock_refines [OF assms]) simp_all
  then have inv: "reg_inv s'" "lock_inv android_hal s'" "gbm_bo_handle_map s' 0x2000 = Some 1"
    using lock_result_keeps [OF l] by simp_all
  have "is_done (gralloc_gbm_bo_unlock sample_env 0x2000 s')"
    using unlock_faults [OF inv(1), of sample_env "0x2000"] inv bos
    by (cases "gralloc_gbm_bo_unlock sample_env 0x2000 s'") auto
  then obtain r t where un: "gralloc_gbm_bo_unlock sample_env 0x2000 s' = Done (r, t)"
    by (auto simp: is_done_iff)
  then show ?thesis
    using unlock_refines [OF un] inv by auto
qed

text \<open>C16: A lock call is exactly a step of the abstract lock protocol: it succeeds only where the
  protocol allows it and then moves the buffer to the protocol's next state, handing out a non-null
  address if and only if the CPU bits are set; it fails with \<open>-EINVAL\<close> for an unknown buffer, a
  refused usage or a state in which the protocol forbids it, or with \<open>-ENOMEM\<close> when a free buffer
  cannot be mapped, and then no lock state changes.  No other buffer is affected, and the registry
  and the lock invariant are kept.\<close>

theorem lock_refines_protocol:
  fixes P
  defines "K \<equiv> hal_of P"
  assumes run: "gralloc_gbm_bo_lock P p usage s = Done ((r, addr), s')"
    and "reg_inv s" and "lock_inv K s" and "map_contract P"
  shows "reg_inv s' \<and> lock_inv K s' \<and>
    (\<forall>q. q \<noteq> p \<longrightarrow> lock_state_of K q s' = lock_state_of K q s) \<and>
    (if r = 0
     then spec_lock K usage (lock_state_of K p s) = Some (lock_state_of K p s') \<and>
          (case lock_state_of K p s' of CpuLocked u \<Rightarrow> \<exists>a. addr = Some a \<and> a \<noteq> 0 | _ \<Rightarrow> addr = None) \<and>
          (\<exists>h. load_handle p s = Done h \<and> \<not> lock_refused K h usage)
     else lock_state_of K p s' = lock_state_of K p s \<and>
          (r = - EINVAL \<and>
             (gbm_bo_handle_map s p = None \<or>
              (\<exists>h. load_handle p s = Done h \<and> lock_refused K h usage) \<or>
              spec_lock K usage (lock_state_of K p s) = None) \<or>
           r = - ENOMEM \<and> lock_state_of K p s = Free \<and> usage AND cpu_mask K \<noteq> 0))"
  using lock_refines [OF run] assms(3-5) only_lock_data_reg_inv [of s s']
  by (auto simp: lock_result_def Let_def K_def)

theorem lock_refines_protocol_witness:
  "\<exists>s'. gralloc_gbm_bo_lock sample_env 0x2000 3 one_buffer = Done ((0, Some 0x7F000000), s') \<and>
     lock_state_of android_hal 0x2000 s' = CpuLocked 3"
proof -
  obtain s' where run: "gralloc_gbm_bo_lock sample_env 0x2000 3 one_buffer
      = Done ((0, Some 0x7F000000), s')"
    using one_buffer_lock by blast
  show ?thesis
    using lock_refines_protocol [OF run] run by (auto simp: cpu_mask_def)
qed

text \<open>C17: An unlock of a registered buffer that returns always returns 0 and takes the lock state
  to the protocol's next state: one GPU holder less, or free again when the last holder or the CPU
  user leaves, with the mapping gone; an unknown handle gives \<open>-EINVAL\<close> and changes nothing.  Other
  buffers keep their state.\<close>

theorem unlock_refines_protocol:
  fixes P
  defines "K \<equiv> hal_of P"
  assumes run: "gralloc_gbm_bo_unlock P p s = Done (r, s')" and "reg_inv s" and "lock_inv K s"
  shows "reg_inv s' \<and> lock_inv K s' \<and>
    (\<forall>q. q \<noteq> p \<longrightarrow> lock_state_of K q s' = lock_state_of K q s) \<and>
    (if gbm_bo_handle_map s p = None then r = - EINVAL \<and> s' = s
     else r = 0 \<and> lock_state_of K p s' = spec_unlock (lock_state_of K p s))"
  using unlock_refines [OF run] assms(3,4) only_lock_data_reg_inv [of s s'] by (auto simp: K_def)

theorem unlock_refines_protocol_witness:
  "\<exists>s' t. gralloc_gbm_bo_lock sample_env 0x2000 3 one_buffer = Done ((0, Some 0x7F000000), s') \<and>
     gralloc_gbm_bo_unlock sample_env 0x2000 s' = Done (0, t) \<and>
     lock_state_of android_hal 0x2000 t = Free"
proof -
  obtain s' t where run: "gralloc_gbm_bo_lock sample_env 0x2000 3 one_buffer
      = Done ((0, Some 0x7F000000), s')"
    and un: "gralloc_gbm_bo_unlock sample_env 0x2000 s' = Done (0, t)"
    using one_buffer_lock one_buffer_locked_unlock by blast
  have l: "lock_result sample_env 0x2000 3 one_buffer 0 (Some 0x7F000000) s'"
    by (rule lock_refines [OF run]) simp_all
  then have "lock_state_of android_hal 0x2000 s' = CpuLocked 3"
    by (simp add: lock_result_def Let_def cpu_mask_def)
  moreover have "reg_inv s'" "lock_inv android_hal s'" "gbm_bo_handle_map s' 0x2000 = Some 1"
    using lock_result_keeps [OF l] by simp_all
  ultimately show ?thesis
    using unlock_refines_protocol [OF un] run un by auto
qed

text \<open>C18: Any sequence of successful locks, over any handles and usages, followed by as many
  unlocks of each handle in any order, leaves every buffer with the number of holders it had
  before.\<close>

theorem locks_balance:
  assumes "chain (\<lambda>p s t. \<exists>u a. gralloc_gbm_bo_lock P p u s = Done ((0, a), t)) ps s t"
    and "chain (\<lambda>p s t. gralloc_gbm_bo_unlock P p s = Done (0, t)) qs t u"
    and "map_contract P" and "reg_inv s" and "lock_inv (hal_of P) s" and "mset qs = mset ps"
  shows "holders (lock_state_of (hal_of P) p u) = holders (lock_state_of (hal_of P) p s) \<and>
    reg_inv u \<and> lock_inv (hal_of P) u"
proof -
  have "locks P = (\<lambda>p s t. \<exists>u a. gralloc_gbm_bo_lock P p u s = Done ((0, a), t))"
    and "unlocks P = (\<lambda>p s t. gralloc_gbm_bo_unlock P p s = Done (0, t))"
    by (auto simp: fun_eq_iff locks_def unlocks_def)
  then have l: "chain (locks P) ps s t" and u: "chain (unlocks P) qs t u"
    using assms(1,2) by simp_all
  have ok: "locks_ok P s"
    using assms(3-5) by (simp add: locks_ok_def)
  show ?thesis
    using lk.balanced(1) [OF l u ok assms(6)] lk.balanced(2) [OF l u ok assms(6)]
    by (simp add: locks_ok_def holders_of_def)
qed

theorem locks_balance_witness:
  "\<exists>t u. chain (\<lambda>p s t. \<exists>us a. gralloc_gbm_bo_lock sample_env p us s = Done ((0, a), t))
       [0x2000] one_buffer t \<and>
     chain (\<lambda>p s t. gralloc_gbm_bo_unlock sample_env p s = Done (0, t)) [0x2000] t u \<and>
     holders (lock_state_of android_hal 0x2000 u) = 0"
proof -
  obtain s' t where run: "gralloc_gbm_bo_lock sample_env 0x2000 3 one_buffer
      = Done ((0, Some 0x7F000000), s')"
    and un: "gralloc_gbm_bo_unlock sample_env 0x2000 s' = Done (0, t)"
    using one_buffer_lock one_buffer_locked_unlock by blast
  have ch: "chain (\<lambda>p s t. \<exists>us a. gralloc_gbm_bo_lock sample_env p us s = Done ((0, a), t))
      [0x2000] one_buffer s'"
    "chain (\<lambda>p s t. gralloc_gbm_bo_unlock sample_env p s = Done (0, t)) [0x2000] s' t"
    using run un by auto
  show ?thesis
    using locks_balance [OF ch] ch by (intro exI [of _ s'] exI [of _ t]) simp
qed

lemma lock_state_GpuD: "lock_state_of K p s = GpuLocked n l \<Longrightarrow> l AND cpu_mask K = 0"
  by (auto simp: lock_state_of_def dest: abs_lock_GpuD split: option.splits)

lemma spec_lock_cpu:
  assumes step: "spec_lock K usage (lock_state_of K p s) = Some (lock_state_of K p t)"
    and "usage AND cpu_mask K \<noteq> 0"
  shows "\<exists>l. lock_state_of K p t = CpuLocked l"
proof (cases "lock_state_of K p s")
  case (GpuLocked n l)
  then have "l AND usage = usage" and "lock_state_of K p t = GpuLocked (n + 1) l"
    using step by (auto split: if_splits)
  then have "usage AND cpu_mask K = 0"
    using lock_state_GpuD and_sub_zero by blast
  then show ?thesis
    using assms(2) by simp
qed (use assms in \<open>auto intro: exI [of _ usage] dest: sym\<close>)

text \<open>A buffer locked for the CPU: every lock is refused, and one unlock frees it.\<close>

lemma cpu_locked_next:
  assumes cpu: "lock_state_of (hal_of P) p s = CpuLocked l" and inv: "reg_inv s" "lock_inv (hal_of P) s"
    and p: "gbm_bo_handle_map s p = Some b"
  shows "\<exists>t. gralloc_gbm_bo_lock P p usage s = Done ((- EINVAL, None), t)"
    and "\<exists>t. gralloc_gbm_bo_unlock P p s = Done (0, t) \<and> lock_state_of (hal_of P) p t = Free"
proof -
  let ?K = "hal_of P"
  obtain h bo where h: "load_handle p s = Done h" and bo: "bos s b = Some bo"
    using reg_invD [OF inv(1) p] by blast
  let ?bd = "bd_of (user_data bo)"
  have n: "lock_count ?bd \<noteq> 0" "locked_for ?bd AND cpu_mask ?K \<noteq> 0"
    using cpu unfolding lock_state_set_bd(3) [OF inv(1) p bo] by (auto dest: abs_lock_CpuD)
  then have "map_data ?bd \<noteq> 0"
    using lock_inv_bd [OF inv(2) bo] by (simp add: bd_inv_def)
  moreover have "(usage OR locked_for ?bd) AND cpu_mask ?K \<noteq> 0"
    using n(2) by (auto simp: bit_eq_iff bit_simps)
  ultimately show "\<exists>t. gralloc_gbm_bo_lock P p usage s = Done ((- EINVAL, None), t)"
    unfolding lock_eq [OF p h bo] by auto
  have "user_data bo \<noteq> None"
    using n(1) by (cases "user_data bo") auto
  then obtain r t where un: "gralloc_gbm_bo_unlock P p s = Done (r, t)"
    using unlock_done [OF inv p bo] by (auto simp: is_done_iff)
  then show "\<exists>t. gralloc_gbm_bo_unlock P p s = Done (0, t) \<and> lock_state_of ?K p t = Free"
    using unlock_refines [OF un inv] p cpu by auto
qed

text \<open>C19: CPU access is exclusive: once a lock with CPU bits has succeeded, every further lock of
  that buffer, whatever its usage, is refused with \<open>-EINVAL\<close>, although the code means to allow
  multiple locks with compatible usages; one unlock makes the buffer free again.\<close>

theorem cpu_lock_is_exclusive:
  fixes P
  defines "K \<equiv> hal_of P"
  assumes run: "gralloc_gbm_bo_lock P p usage s = Done ((0, addr), s')"
    and "usage AND cpu_mask K \<noteq> 0" and "reg_inv s" and "lock_inv K s" and "map_contract P"
  shows "(\<forall>usage2. \<exists>s''. gralloc_gbm_bo_lock P p usage2 s' = Done ((- EINVAL, None), s'')) \<and>
    (\<exists>t. gralloc_gbm_bo_unlock P p s' = Done (0, t) \<and> lock_state_of K p t = Free)"
proof -
  have res: "lock_result P p usage s 0 addr s'"
    using lock_refines [OF run] assms by simp
  note kept = lock_result_keeps [OF res assms(4)]
  obtain b where p: "gbm_bo_handle_map s' p = Some b"
    using res kept(3) by (auto simp: lock_result_def Let_def)
  have "spec_lock K usage (lock_state_of K p s) = Some (lock_state_of K p s')"
    using res by (simp add: lock_result_def Let_def K_def)
  then obtain l where "lock_state_of K p s' = CpuLocked l"
    using spec_lock_cpu assms(3) by blast
  then show ?thesis
    using cpu_locked_next [OF _ kept(1,2) p] by (auto simp: K_def)
qed

theorem cpu_lock_is_exclusive_witness:
  "\<exists>s' s''. gralloc_gbm_bo_lock sample_env 0x2000 3 one_buffer = Done ((0, Some 0x7F000000), s') \<and>
     gralloc_gbm_bo_lock sample_env 0x2000 3 s' = Done ((- EINVAL, None), s'')"
proof -
  obtain s' where run: "gralloc_gbm_bo_lock sample_env 0x2000 3 one_buffer
      = Done ((0, Some 0x7F000000), s')"
    using one_buffer_lock by blast
  show ?thesis
    using cpu_lock_is_exclusive [OF run] run by (auto simp: cpu_mask_def)
qed

text \<open>Under the invariants an unlock faults in exactly one case, a null dereference when the
  buffer is registered but was never locked, and a lock can fault only through the stride assertion
  of the mapping or by overflowing the lock count.\<close>

theorem lock_unlock_faults:
  assumes "reg_inv s" and "lock_inv (hal_of P) s"
  shows "(gralloc_gbm_bo_unlock P p s = Fault f \<longleftrightarrow>
      f = NullDeref \<and>
      (\<exists>b bo. gbm_bo_handle_map s p = Some b \<and> bos s b = Some bo \<and> user_data bo = None)) \<and>
    (gralloc_gbm_bo_lock P p usage s = Fault g \<longrightarrow> g = AssertFail \<or> g = SignedOverflow)"
  using unlock_faults [OF assms] lock_faults [OF assms(1)] by blast

theorem lock_unlock_faults_witness:
  "reg_inv one_buffer \<and> gralloc_gbm_bo_unlock sample_env 0x2000 one_buffer = Fault NullDeref"
  using lock_unlock_faults [of one_buffer sample_env "0x2000" NullDeref] by (auto simp: sample_bo_def)

text \<open>C21: A YCbCr lock of a buffer that is neither NV21 nor YV12 reports \<open>-EINVAL\<close> but keeps the
  lock it took on the way: the buffer has one holder more than before, and the caller, told that the
  lock failed, has no reason to unlock it.\<close>

theorem ycbcr_lock_leaks_lock:
  fixes P
  defines "K \<equiv> hal_of P"
  assumes run: "gralloc_gbm_bo_lock P p usage s = Done ((0, addr), s')"
    and h: "load_handle p s = Done h"
    and "h_format h \<noteq> HAL_PIXEL_FORMAT_YCrCb_420_SP K" and "h_format h \<noteq> HAL_PIXEL_FORMAT_YV12 K"
    and "reg_inv s" and "lock_inv K s" and "map_contract P"
  shows "\<exists>yc'. gralloc_gbm_bo_lock_ycbcr P p usage yc s = Done ((- EINVAL, yc'), s') \<and>
    holders (lock_state_of K p s') = holders (lock_state_of K p s) + 1"
proof -
  have res: "lock_result P p usage s 0 addr s'"
    using lock_refines [OF run] assms by simp
  then have "handles s' = handles s"
    by (simp add: lock_result_def Let_def only_lock_data_def)
  then have "load_handle p s' = Done h"
    using h load_handle_cong [of s' p s] by simp
  moreover have "spec_lock K usage (lock_state_of K p s) = Some (lock_state_of K p s')"
    using res by (simp add: lock_result_def Let_def K_def)
  ultimately show ?thesis
    using run assms(4,5) spec_lock_holders
    by (simp add: gralloc_gbm_bo_lock_ycbcr_def Let_def ycbcr_planes_def K_def)
qed

theorem ycbcr_lock_leaks_lock_witness:
  "\<forall>yc. \<exists>yc' s'. gralloc_gbm_bo_lock_ycbcr sample_env 0x2000 3 yc one_buffer
      = Done ((- EINVAL, yc'), s') \<and> holders (lock_state_of android_hal 0x2000 s') = 1"
proof
  fix yc
  obtain s' where run: "gralloc_gbm_bo_lock sample_env 0x2000 3 one_buffer
      = Done ((0, Some 0x7F000000), s')"
    using one_buffer_lock by blast
  show "\<exists>yc' s'. gralloc_gbm_bo_lock_ycbcr sample_env 0x2000 3 yc one_buffer
      = Done ((- EINVAL, yc'), s') \<and> holders (lock_state_of android_hal 0x2000 s') = 1"
    using ycbcr_lock_leaks_lock [OF run one_buffer_sel(3), of yc] by fastforce
qed

lemma YV12_planes_value:
  fixes K hnd yc addr
  defines "w \<equiv> unat (h_width hnd)" and "ht \<equiv> unat (h_height hnd)"
  defines "C \<equiv> (w div 2 + 15) div 16 * 16"
  assumes K: "hal_ok K" and f: "h_format hnd = HAL_PIXEL_FORMAT_YV12 K"
    and w: "w < 2 ^ 31" and wh: "w * ht < 2 ^ 32" and Ch: "C * ht < 2 ^ 32"
  shows "\<exists>y. ycbcr_planes K hnd addr yc = Some y \<and> yc_y y = addr \<and>
      yc_cr y = addr + of_nat (w * ht) \<and> yc_cb y = addr + of_nat (w * ht) + of_nat (C * ht div 2) \<and>
      yc_ystride y = of_nat w \<and> yc_cstride y = of_nat C \<and> yc_chroma_step y = 1"
proof -
  have half: "unat (word_of_int (sint (h_width hnd) sdiv 2) :: u32) = w div 2"
    unfolding w_def by (rule half_width) (use w in \<open>simp add: w_def\<close>)
  have "unat (ALIGN (word_of_int (sint (h_width hnd) sdiv 2) :: u32) (2 ^ 4)) =
      (w div 2 + 2 ^ 4 - 1) div 2 ^ 4 * 2 ^ 4"
    unfolding half [symmetric] using w by (intro unat_ALIGN) (simp_all only: half, simp_all)
  then have "unat (ALIGN (word_of_int (sint (h_width hnd) sdiv 2) :: u32) 16) = C"
    by (simp add: C_def)
  moreover have "C < 2 ^ 31"
    using w unfolding C_def by simp
  moreover have "HAL_PIXEL_FORMAT_YV12 K \<noteq> HAL_PIXEL_FORMAT_YCrCb_420_SP K"
    using K by (simp add: hal_ok_def hal_formats_def)
  ultimately show ?thesis
    using f w planes_words [of "h_width hnd" "h_height hnd"]
      planes_words(2) [of "ALIGN (word_of_int (sint (h_width hnd) sdiv 2)) 16" "h_height hnd"] Ch wh
      scast_small [of "h_width hnd"] scast_small [of "ALIGN (word_of_int (sint (h_width hnd) sdiv 2)) 16"]
    by (simp add: ycbcr_planes_def Let_def w_def ht_def)
qed

text \<open>C20: The YCbCr lock of a YV12 buffer hands out planes that lie inside the buffer object that
  was allocated for it (twice the width times the height asked of GBM, in bytes), for every size
  below 4 GiB; the Cr plane ends exactly where Cb starts when the height is even, and overlaps it
  by half a row when it is odd.\<close>

theorem YV12_planes_in_bounds:
  fixes K hnd yc addr
  defines "w \<equiv> unat (h_width hnd)" and "ht \<equiv> unat (h_height hnd)"
  defines "C \<equiv> (w div 2 + 15) div 16 * 16"
  assumes K: "hal_ok K" and f: "h_format hnd = HAL_PIXEL_FORMAT_YV12 K"
    and dims: "alloc_dims K hnd (gralloc_gm_get_gbm_flags_from_android_usage K (h_usage hnd)
                 (h_format hnd)) = (bw, bh)"
    and w: "w < 2 ^ 31" and h: "ht < 2 ^ 31" and fits: "2 * unat bw * unat bh < 2 ^ 32"
  shows "(\<exists>y. ycbcr_planes K hnd addr yc = Some y \<and> yc_y y = addr \<and>
      yc_cr y = addr + of_nat (w * ht) \<and> yc_cb y = addr + of_nat (w * ht) + of_nat (C * ht div 2) \<and>
      yc_ystride y = of_nat w \<and> yc_cstride y = of_nat C \<and> yc_chroma_step y = 1) \<and>
    w * ht + C * ht div 2 + C * ((ht + 1) div 2) \<le> 2 * unat bw * unat bh \<and>
    (even ht \<longrightarrow> C * ((ht + 1) div 2) = C * ht div 2) \<and>
    (odd ht \<longrightarrow> C * ((ht + 1) div 2) = C * ht div 2 + C div 2)"
proof (intro conjI)
  have bw: "unat bw = (w + 31) div 32 * 16" and bh: "unat bh = ht + (ht + 1) div 2"
    using YV12_dims [OF K f dims] w h by (simp_all add: w_def ht_def)
  have A: "w \<le> 2 * unat bw" "2 * C \<le> 2 * unat bw"
    unfolding bw C_def by (rule chroma_stride_bounds)+
  have "even C"
    by (simp add: C_def)
  then show total: "w * ht + C * ht div 2 + C * ((ht + 1) div 2) \<le> 2 * unat bw * unat bh"
    using YV12_planes_fit [OF A, of ht] by (simp only: bh)
  have "C * ht \<le> unat bw * unat bh"
    using A bh by (intro mult_le_mono) simp_all
  then have "C * ht < 2 ^ 32" and "w * ht < 2 ^ 32"
    using fits total by linarith+
  then show "\<exists>y. ycbcr_planes K hnd addr yc = Some y \<and> yc_y y = addr \<and>
      yc_cr y = addr + of_nat (w * ht) \<and> yc_cb y = addr + of_nat (w * ht) + of_nat (C * ht div 2) \<and>
      yc_ystride y = of_nat w \<and> yc_cstride y = of_nat C \<and> yc_chroma_step y = 1"
    using YV12_planes_value [OF K f, of addr yc] w by (simp add: w_def ht_def C_def)
  show "even ht \<longrightarrow> C * ((ht + 1) div 2) = C * ht div 2"
    by (auto elim!: evenE)
  show "odd ht \<longrightarrow> C * ((ht + 1) div 2) = C * ht div 2 + C div 2"
    using \<open>even C\<close> by (auto elim!: oddE evenE)
qed

theorem YV12_planes_in_bounds_witness:
  "let h = (blank_handle 1 12)\<lparr>h_width := 64, h_height := 48, h_format := 0x32315659\<rparr>;
       yc = \<lparr>yc_y = 0, yc_cb = 0, yc_cr = 0, yc_ystride = 0, yc_cstride = 0, yc_chroma_step = 0,
             yc_reserved = []\<rparr>
   in \<exists>y. ycbcr_planes android_hal h 0x1000 yc = Some y \<and> yc_cr y = 0x1000 + 3072 \<and>
        yc_cb y = 0x1000 + 3840"
proof -
  let ?h = "(blank_handle 1 12)\<lparr>h_width := 64, h_height := 48, h_format := 0x32315659\<rparr>"
  let ?yc = "\<lparr>yc_y = 0, yc_cb = 0, yc_cr = 0, yc_ystride = 0, yc_cstride = 0, yc_chroma_step = 0,
    yc_reserved = []\<rparr>"
  have "alloc_dims android_hal ?h (gralloc_gm_get_gbm_flags_from_android_usage android_hal
      (h_usage ?h) (h_format ?h)) = (32, 72)"
    unfolding alloc_dims_eq [OF android_hal_ok] by (simp add: ALIGN_def)
  from YV12_planes_in_bounds [OF android_hal_ok _ this, of "0x1000" ?yc] show ?thesis
    by (auto simp: Let_def)
qed

end
