(* ===== verification/Metadata_Codec.thy ===== *)
theory Metadata_Codec
  imports Gm_Prelude
begin

text \<open>
  The byte format of buffer metadata: \<open>MetadataWriter\<close>, \<open>MetadataReader\<close> and the
  \<open>MetadataValue\<close> encoders and decoders of
  src/include/stable-c-v34/implutils/include/android/hardware/graphics/mapper/utils/IMapperMetadataTypes.h.
  Floats are kept as their 32-bit patterns; \<open>memcpy\<close> of an integer is little endian, as on every
  Android target.
\<close>

section \<open>Errors\<close>

definition AIMAPPER_ERROR_NONE :: int where
  "AIMAPPER_ERROR_NONE = 0"

definition AIMAPPER_ERROR_BAD_DESCRIPTOR :: int where
  "AIMAPPER_ERROR_BAD_DESCRIPTOR = 1"

definition AIMAPPER_ERROR_BAD_BUFFER :: int where
  "AIMAPPER_ERROR_BAD_BUFFER = 2"

definition AIMAPPER_ERROR_BAD_VALUE :: int where
  "AIMAPPER_ERROR_BAD_VALUE = 3"

definition AIMAPPER_ERROR_NO_RESOURCES :: int where
  "AIMAPPER_ERROR_NO_RESOURCES = 5"

definition AIMAPPER_ERROR_UNSUPPORTED :: int where
  "AIMAPPER_ERROR_UNSUPPORTED = 7"

named_theorems aimapper_errors "the error codes"

declare AIMAPPER_ERROR_NONE_def [aimapper_errors] AIMAPPER_ERROR_BAD_DESCRIPTOR_def [aimapper_errors]
  AIMAPPER_ERROR_BAD_BUFFER_def [aimapper_errors] AIMAPPER_ERROR_BAD_VALUE_def [aimapper_errors]
  AIMAPPER_ERROR_NO_RESOURCES_def [aimapper_errors] AIMAPPER_ERROR_UNSUPPORTED_def [aimapper_errors]

section \<open>Integers as bytes\<close>

definition to_le :: "'a::len word \<Rightarrow> bytes" where
  "to_le x = map (\<lambda>i. ucast (drop_bit (8 * i) x)) [0..<LENGTH('a) div 8]"

primrec of_le :: "bytes \<Rightarrow> 'a::len word" where
  "of_le [] = 0"
| "of_le (b # bs) = ucast b OR push_bit 8 (of_le bs)"

lemma length_to_le [simp]: "length (to_le (x :: 'a::len word)) = LENGTH('a) div 8"
  by (simp add: to_le_def)

lemma bit_of_le:
  "bit (of_le bs :: 'a::len word) n \<longleftrightarrow>
     n < LENGTH('a) \<and> n div 8 < length bs \<and> bit (bs ! (n div 8)) (n mod 8)"
proof (induction bs arbitrary: n)
  case (Cons b bs)
  show ?case
  proof (cases "n < 8")
    case True
    then show ?thesis
      by (auto simp: bit_simps)
  next
    case False
    then have "n div 8 = Suc ((n - 8) div 8)" and "n mod 8 = (n - 8) mod 8"
      by (simp_all add: le_div_geq le_mod_geq)
    moreover have "\<not> bit b n"
      using False by (auto dest: bit_imp_le_length)
    ultimately show ?thesis
      using False Cons.IH [of "n - 8"] by (auto simp: bit_simps)
  qed
qed simp

lemma of_le_to_le:
  assumes "8 dvd LENGTH('a)"
  shows "of_le (to_le x) = (x :: 'a::len word)"
proof (rule bit_word_eqI)
  fix n assume n: "n < LENGTH('a)"
  obtain k where k: "LENGTH('a) = 8 * k"
    using assms by blast
  have i: "n div 8 < LENGTH('a) div 8"
    using n k by auto
  have "bit (to_le x ! (n div 8)) (n mod 8) = bit x (8 * (n div 8) + n mod 8)"
    using i by (simp add: to_le_def bit_simps)
  then show "bit (of_le (to_le x) :: 'a word) n = bit x n"
    using n i by (simp add: bit_of_le)
qed

section \<open>The writer\<close>

text \<open>
  \<open>mDest\<close> is represented by the bytes stored so far, from the start of the destination;
  \<open>mDesiredSize\<close> is an \<open>int32_t\<close> whose additions are overflow-checked.
\<close>

record metadata_writer =
  w_written :: bytes
  mSizeRemaining :: nat
  mDesiredSize :: int

definition MetadataWriter :: "nat \<Rightarrow> metadata_writer" where
  "MetadataWriter destBufferSize =
     \<lparr>w_written = [], mSizeRemaining = destBufferSize, mDesiredSize = 0\<rparr>"

definition reserve :: "nat \<Rightarrow> metadata_writer \<Rightarrow> bool \<times> metadata_writer" where
  "reserve sizeToWrite w =
    (if mDesiredSize w < 0 then (False, w)
     else if mDesiredSize w + int sizeToWrite > 2 ^ 31 - 1
     then (False, w\<lparr>mDesiredSize := - AIMAPPER_ERROR_BAD_VALUE, mSizeRemaining := 0\<rparr>)
     else let w = w\<lparr>mDesiredSize := mDesiredSize w + int sizeToWrite\<rparr>
          in if sizeToWrite > mSizeRemaining w then (False, w\<lparr>mSizeRemaining := 0\<rparr>)
             else (True, w\<lparr>mSizeRemaining := mSizeRemaining w - sizeToWrite\<rparr>))"

text \<open>\<open>reserve\<close> followed by \<open>memcpy\<close>, the body of every \<open>write\<close>.\<close>

definition write_raw :: "bytes \<Rightarrow> metadata_writer \<Rightarrow> metadata_writer" where
  "write_raw bs w =
    (let (dest, w) = reserve (length bs) w
     in if dest then w\<lparr>w_written := w_written w @ bs\<rparr> else w)"

definition write_int :: "'a::len word \<Rightarrow> metadata_writer \<Rightarrow> metadata_writer" where
  "write_int value w = write_raw (to_le value) w"

definition write_string :: "bytes \<Rightarrow> metadata_writer \<Rightarrow> metadata_writer" where
  "write_string value w = write_raw value (write_int (of_nat (length value) :: u64) w)"

definition write_buffer :: "bytes \<Rightarrow> metadata_writer \<Rightarrow> metadata_writer" where
  "write_buffer value w = write_raw value (write_int (of_nat (length value) :: u64) w)"

record ExtendableType =
  ext_name :: bytes
  ext_value :: u64

record XyColor =
  xy_x :: u32
  xy_y :: u32

definition write_extendable :: "ExtendableType \<Rightarrow> metadata_writer \<Rightarrow> metadata_writer" where
  "write_extendable value w = write_int (ext_value value) (write_string (ext_name value) w)"

definition write_xycolor :: "XyColor \<Rightarrow> metadata_writer \<Rightarrow> metadata_writer" where
  "write_xycolor value w = write_int (xy_y value) (write_int (xy_x value) w)"

text \<open>The header: the interface name, then the number of the metadata type.\<close>

definition header_name :: bytes where
  "header_name = map of_char ''android.hardware.graphics.common.StandardMetadataType''"

definition writeHeader :: "u64 \<Rightarrow> metadata_writer \<Rightarrow> metadata_writer" where
  "writeHeader hv w = write_int hv (write_string header_name w)"

section \<open>The reader\<close>

text \<open>\<open>mSrc\<close> with \<open>mSizeRemaining\<close> is the list of bytes still to be read.\<close>

record metadata_reader =
  mSrc :: bytes
  mOk :: bool

definition MetadataReader :: "bytes \<Rightarrow> metadata_reader" where
  "MetadataReader metadata = \<lparr>mSrc = metadata, mOk = True\<rparr>"

definition advance :: "nat \<Rightarrow> metadata_reader \<Rightarrow> bytes option \<times> metadata_reader" where
  "advance sz r =
    (if mOk r \<and> sz \<le> length (mSrc r) then (Some (take sz (mSrc r)), r\<lparr>mSrc := drop sz (mSrc r)\<rparr>)
     else (None, r\<lparr>mOk := False\<rparr>))"

definition readInt :: "metadata_reader \<Rightarrow> 'a::len word option \<times> metadata_reader" where
  "readInt r =
    (case advance (LENGTH('a) div 8) r of
       (None, r) \<Rightarrow> (None, r)
     | (Some src, r) \<Rightarrow> (Some (of_le src), r))"

text \<open>\<open>read(T&)\<close> into a field that the record's constructor has set to zero.\<close>

definition read_int :: "metadata_reader \<Rightarrow> 'a::len word \<times> metadata_reader" where
  "read_int r = (case readInt r of (None, r) \<Rightarrow> (0, r) | (Some x, r) \<Rightarrow> (x, r))"

definition readString :: "metadata_reader \<Rightarrow> bytes \<times> metadata_reader" where
  "readString r =
    (case readInt r of
       (None, r) \<Rightarrow> ([], r)
     | (Some len, r) \<Rightarrow>
         (case advance (unat (len :: u64)) r of (None, r) \<Rightarrow> ([], r) | (Some src, r) \<Rightarrow> (src, r)))"

definition checkHeader :: "u64 \<Rightarrow> metadata_reader \<Rightarrow> metadata_reader" where
  "checkHeader hv r =
    (let (name, r) = readString r;
         r = (if name \<noteq> header_name then r\<lparr>mOk := False\<rparr> else r);
         (v, r) = readInt r
     in if v \<noteq> Some hv then r\<lparr>mOk := False\<rparr> else r)"

definition read_extendable :: "metadata_reader \<Rightarrow> ExtendableType \<times> metadata_reader" where
  "read_extendable r =
    (let (name, r) = readString r; (v, r) = read_int r in (\<lparr>ext_name = name, ext_value = v\<rparr>, r))"

definition readExtendable :: "metadata_reader \<Rightarrow> ExtendableType option \<times> metadata_reader" where
  "readExtendable r =
    (let (name, r) = readString r
     in case readInt r of
          (None, r) \<Rightarrow> (None, r)
        | (Some v, r) \<Rightarrow> (Some \<lparr>ext_name = name, ext_value = v\<rparr>, r))"

definition read_xycolor :: "metadata_reader \<Rightarrow> XyColor \<times> metadata_reader" where
  "read_xycolor r = (let (x, r) = read_int r; (y, r) = read_int r in (\<lparr>xy_x = x, xy_y = y\<rparr>, r))"

definition readBuffer :: "metadata_reader \<Rightarrow> bytes \<times> metadata_reader" where
  "readBuffer r =
    (let (len, r) = readInt r;
         len = unat (case len of None \<Rightarrow> 0 | Some (l :: u64) \<Rightarrow> l)
     in case advance len r of (None, r) \<Rightarrow> ([], r) | (Some src, r) \<Rightarrow> (src, r))"

section \<open>Structured values\<close>

record PlaneLayoutComponent =
  plc_type :: ExtendableType
  offsetInBits :: u64
  sizeInBits :: u64

record PlaneLayout =
  components :: "PlaneLayoutComponent list"
  offsetInBytes :: u64
  sampleIncrementInBits :: u64
  strideInBytes :: u64
  widthInSamples :: u64
  heightInSamples :: u64
  totalSizeInBytes :: u64
  horizontalSubsampling :: u64
  verticalSubsampling :: u64

record Rect =
  rect_left :: u32
  rect_top :: u32
  rect_right :: u32
  rect_bottom :: u32

record Smpte2086 =
  primaryRed :: XyColor
  primaryGreen :: XyColor
  primaryBlue :: XyColor
  whitePoint :: XyColor
  maxLuminance :: u32
  minLuminance :: u32

record Cta861_3 =
  maxContentLightLevel :: u32
  maxFrameAverageLightLevel :: u32

definition write_component :: "PlaneLayoutComponent \<Rightarrow> metadata_writer \<Rightarrow> metadata_writer" where
  "write_component c w =
     write_int (sizeInBits c) (write_int (offsetInBits c) (write_extendable (plc_type c) w))"

definition write_plane :: "PlaneLayout \<Rightarrow> metadata_writer \<Rightarrow> metadata_writer" where
  "write_plane v w =
    (let w = write_int (of_nat (length (components v)) :: u64) w;
         w = fold write_component (components v) w;
         w = write_int (offsetInBytes v) w;
         w = write_int (sampleIncrementInBits v) w;
         w = write_int (strideInBytes v) w;
         w = write_int (widthInSamples v) w;
         w = write_int (heightInSamples v) w;
         w = write_int (totalSizeInBytes v) w;
         w = write_int (horizontalSubsampling v) w
     in write_int (verticalSubsampling v) w)"

definition write_planes :: "PlaneLayout list \<Rightarrow> metadata_writer \<Rightarrow> metadata_writer" where
  "write_planes values w = fold write_plane values (write_int (of_nat (length values) :: u64) w)"

definition write_rect :: "Rect \<Rightarrow> metadata_writer \<Rightarrow> metadata_writer" where
  "write_rect r w =
     write_int (rect_bottom r) (write_int (rect_right r) (write_int (rect_top r)
       (write_int (rect_left r) w)))"

definition write_rects :: "Rect list \<Rightarrow> metadata_writer \<Rightarrow> metadata_writer" where
  "write_rects value w = fold write_rect value (write_int (of_nat (length value) :: u64) w)"

definition write_smpte2086 :: "Smpte2086 \<Rightarrow> metadata_writer \<Rightarrow> metadata_writer" where
  "write_smpte2086 v w =
    (let w = write_xycolor (primaryRed v) w;
         w = write_xycolor (primaryGreen v) w;
         w = write_xycolor (primaryBlue v) w;
         w = write_xycolor (whitePoint v) w;
         w = write_int (maxLuminance v) w
     in write_int (minLuminance v) w)"

definition write_cta861_3 :: "Cta861_3 \<Rightarrow> metadata_writer \<Rightarrow> metadata_writer" where
  "write_cta861_3 v w =
     write_int (maxFrameAverageLightLevel v) (write_int (maxContentLightLevel v) w)"

text \<open>
  The counted loops of the decoders stop as soon as the reader has failed.  Reserving room for more
  elements than a vector can have throws; the limits are a parameter.
\<close>

record codec_limits =
  lim_planes :: nat
  lim_components :: nat
  lim_rects :: nat

definition reserve_vec :: "nat \<Rightarrow> u64 \<Rightarrow> unit run" where
  "reserve_vec lim n = (if unat n \<le> lim then Done () else Fault UncaughtException)"

primrec read_loop ::
    "nat \<Rightarrow> (metadata_reader \<Rightarrow> ('a \<times> metadata_reader) run) \<Rightarrow> metadata_reader
      \<Rightarrow> ('a list \<times> metadata_reader) run" where
  "read_loop 0 rd r = Done ([], r)"
| "read_loop (Suc n) rd r =
    (if \<not> mOk r then Done ([], r)
     else andThen (rd r) (\<lambda>(x, r). andThen (read_loop n rd r) (\<lambda>(xs, r). Done (x # xs, r))))"

text \<open>\<open>readInt<int64_t>().value_or(0)\<close>, \<open>reserve\<close>, then the loop.\<close>

definition read_counted ::
    "nat \<Rightarrow> (metadata_reader \<Rightarrow> ('a \<times> metadata_reader) run) \<Rightarrow> metadata_reader
      \<Rightarrow> ('a list \<times> metadata_reader) run" where
  "read_counted lim rd r =
    (let (n, r) = readInt r; n = (case n of None \<Rightarrow> 0 | Some (n :: u64) \<Rightarrow> n)
     in andThen (reserve_vec lim n) (\<lambda>_. read_loop (nat (sint n)) rd r))"

definition read_component :: "metadata_reader \<Rightarrow> (PlaneLayoutComponent \<times> metadata_reader) run" where
  "read_component r =
    (let (ty, r) = read_extendable r; (off, r) = read_int r; (sz, r) = read_int r
     in Done (\<lparr>plc_type = ty, offsetInBits = off, sizeInBits = sz\<rparr>, r))"

definition read_plane :: "codec_limits \<Rightarrow> metadata_reader \<Rightarrow> (PlaneLayout \<times> metadata_reader) run" where
  "read_plane L r =
     andThen (read_counted (lim_components L) read_component r) (\<lambda>(comps, r).
       let (a, r) = read_int r; (b, r) = read_int r; (c, r) = read_int r; (d, r) = read_int r;
           (e, r) = read_int r; (f, r) = read_int r; (g, r) = read_int r; (h, r) = read_int r
       in Done (\<lparr>components = comps, offsetInBytes = a, sampleIncrementInBits = b,
                 strideInBytes = c, widthInSamples = d, heightInSamples = e, totalSizeInBytes = f,
                 horizontalSubsampling = g, verticalSubsampling = h\<rparr>, r))"

definition read_planes :: "codec_limits \<Rightarrow> metadata_reader \<Rightarrow> (PlaneLayout list \<times> metadata_reader) run" where
  "read_planes L r = read_counted (lim_planes L) (read_plane L) r"

definition read_rect :: "metadata_reader \<Rightarrow> (Rect \<times> metadata_reader) run" where
  "read_rect r =
    (let (a, r) = read_int r; (b, r) = read_int r; (c, r) = read_int r; (d, r) = read_int r
     in Done (\<lparr>rect_left = a, rect_top = b, rect_right = c, rect_bottom = d\<rparr>, r))"

definition read_rects :: "codec_limits \<Rightarrow> metadata_reader \<Rightarrow> (Rect list \<times> metadata_reader) run" where
  "read_rects L r = read_counted (lim_rects L) read_rect r"

definition read_smpte2086 :: "metadata_reader \<Rightarrow> (Smpte2086 \<times> metadata_reader) run" where
  "read_smpte2086 r =
    (let (a, r) = read_xycolor r; (b, r) = read_xycolor r; (c, r) = read_xycolor r;
         (d, r) = read_xycolor r; (e, r) = read_int r; (f, r) = read_int r
     in Done (\<lparr>primaryRed = a, primaryGreen = b, primaryBlue = c, whitePoint = d,
               maxLuminance = e, minLuminance = f\<rparr>, r))"

definition read_cta861_3 :: "metadata_reader \<Rightarrow> (Cta861_3 \<times> metadata_reader) run" where
  "read_cta861_3 r =
    (let (a, r) = read_int r; (b, r) = read_int r
     in Done (\<lparr>maxContentLightLevel = a, maxFrameAverageLightLevel = b\<rparr>, r))"

section \<open>Encode and decode\<close>

text \<open>
  An \<open>encode\<close> gives back the desired size and the bytes it stored in the destination; a \<open>decode\<close>
  gives back the optional value.  One pair per specialisation of \<open>MetadataValue\<close>.
\<close>

definition finish :: "metadata_writer \<Rightarrow> int \<times> bytes" where
  "finish w = (mDesiredSize w, w_written w)"

definition encode_int :: "u64 \<Rightarrow> 'a::len word \<Rightarrow> nat \<Rightarrow> int \<times> bytes" where
  "encode_int hv value n = finish (write_int value (writeHeader hv (MetadataWriter n)))"

definition decode_int :: "u64 \<Rightarrow> bytes \<Rightarrow> 'a::len word option" where
  "decode_int hv m = fst (readInt (checkHeader hv (MetadataReader m)))"

definition encode_enum :: "u64 \<Rightarrow> 'a::len word \<Rightarrow> nat \<Rightarrow> int \<times> bytes" where
  "encode_enum hv value n = finish (write_int value (writeHeader hv (MetadataWriter n)))"

definition decode_enum :: "u64 \<Rightarrow> bytes \<Rightarrow> 'a::len word option" where
  "decode_enum hv m =
    (let (temp, r) = read_int (checkHeader hv (MetadataReader m)) in if mOk r then Some temp else None)"

definition encode_string :: "u64 \<Rightarrow> bytes \<Rightarrow> nat \<Rightarrow> int \<times> bytes" where
  "encode_string hv value n = finish (write_string value (writeHeader hv (MetadataWriter n)))"

definition decode_string :: "u64 \<Rightarrow> bytes \<Rightarrow> bytes option" where
  "decode_string hv m =
    (let (result, r) = readString (checkHeader hv (MetadataReader m))
     in if mOk r then Some result else None)"

definition encode_extendable :: "u64 \<Rightarrow> ExtendableType \<Rightarrow> nat \<Rightarrow> int \<times> bytes" where
  "encode_extendable hv value n = finish (write_extendable value (writeHeader hv (MetadataWriter n)))"

definition decode_extendable :: "u64 \<Rightarrow> bytes \<Rightarrow> ExtendableType option" where
  "decode_extendable hv m = fst (readExtendable (checkHeader hv (MetadataReader m)))"

definition encode_planes :: "u64 \<Rightarrow> PlaneLayout list \<Rightarrow> nat \<Rightarrow> int \<times> bytes" where
  "encode_planes hv values n = finish (write_planes values (writeHeader hv (MetadataWriter n)))"

definition decode_planes :: "codec_limits \<Rightarrow> u64 \<Rightarrow> bytes \<Rightarrow> PlaneLayout list option run" where
  "decode_planes L hv m =
     andThen (read_planes L (checkHeader hv (MetadataReader m))) (\<lambda>(values, r).
       Done (if mOk r then Some values else None))"

definition encode_rects :: "u64 \<Rightarrow> Rect list \<Rightarrow> nat \<Rightarrow> int \<times> bytes" where
  "encode_rects hv value n = finish (write_rects value (writeHeader hv (MetadataWriter n)))"

definition decode_rects :: "codec_limits \<Rightarrow> u64 \<Rightarrow> bytes \<Rightarrow> Rect list option run" where
  "decode_rects L hv m =
     andThen (read_rects L (checkHeader hv (MetadataReader m))) (\<lambda>(value, r).
       Done (if mOk r then Some value else None))"

definition encode_smpte2086 :: "u64 \<Rightarrow> Smpte2086 option \<Rightarrow> nat \<Rightarrow> int \<times> bytes" where
  "encode_smpte2086 hv optValue n =
    (case optValue of
       Some value \<Rightarrow> finish (write_smpte2086 value (writeHeader hv (MetadataWriter n)))
     | None \<Rightarrow> (0, []))"

definition decode_smpte2086 :: "u64 \<Rightarrow> bytes \<Rightarrow> Smpte2086 option option run" where
  "decode_smpte2086 hv m =
    (if length m > 0
     then andThen (read_smpte2086 (checkHeader hv (MetadataReader m))) (\<lambda>(value, r).
            Done (if mOk r then Some (Some value) else None))
     else Done (Some None))"

definition encode_cta861_3 :: "u64 \<Rightarrow> Cta861_3 option \<Rightarrow> nat \<Rightarrow> int \<times> bytes" where
  "encode_cta861_3 hv optValue n =
    (case optValue of
       Some value \<Rightarrow> finish (write_cta861_3 value (writeHeader hv (MetadataWriter n)))
     | None \<Rightarrow> (0, []))"

definition decode_cta861_3 :: "u64 \<Rightarrow> bytes \<Rightarrow> Cta861_3 option option run" where
  "decode_cta861_3 hv m =
    (if length m > 0
     then andThen (read_cta861_3 (checkHeader hv (MetadataReader m))) (\<lambda>(value, r).
            Done (if mOk r then Some (Some value) else None))
     else Done (Some None))"

definition encode_blob :: "u64 \<Rightarrow> bytes option \<Rightarrow> nat \<Rightarrow> int \<times> bytes" where
  "encode_blob hv value n =
    (case value of
       None \<Rightarrow> (0, [])
     | Some v \<Rightarrow> finish (write_buffer v (writeHeader hv (MetadataWriter n))))"

definition decode_blob :: "u64 \<Rightarrow> bytes \<Rightarrow> bytes option option" where
  "decode_blob hv m =
    (if length m > 0
     then (let (value, r) = readBuffer (checkHeader hv (MetadataReader m))
           in if mOk r then Some (Some value) else None)
     else Some None)"

section \<open>Writing a list of chunks\<close>

text \<open>Every \<open>write\<close> of the code is a sequence of raw writes: \<open>emit\<close> is that sequence.\<close>

definition emit :: "bytes list \<Rightarrow> metadata_writer \<Rightarrow> metadata_writer" where
  "emit cs w = fold write_raw cs w"

definition stream_size :: "bytes list \<Rightarrow> nat" where
  "stream_size cs = length (concat cs)"

lemma emit_simps [simp]:
  "emit [] w = w" "emit (c # cs) w = emit cs (write_raw c w)"
  by (simp_all add: emit_def)

lemma emit_append: "emit (cs @ ds) w = emit ds (emit cs w)"
  by (simp add: emit_def)

lemma stream_size_simps [simp]:
  "stream_size [] = 0" "stream_size (c # cs) = length c + stream_size cs" "stream_size (cs @ ds) = stream_size cs + stream_size ds"
  by (simp_all add: stream_size_def)

lemma write_raw_desired:
  assumes "0 \<le> mDesiredSize w"
  shows "mDesiredSize (write_raw c w) =
    (if mDesiredSize w + int (length c) \<le> 2 ^ 31 - 1 then mDesiredSize w + int (length c) else - 3)"
  using assms by (simp add: write_raw_def reserve_def Let_def AIMAPPER_ERROR_BAD_VALUE_def)

lemma write_raw_error: "mDesiredSize w < 0 \<Longrightarrow> write_raw c w = w"
  by (simp add: write_raw_def reserve_def)

lemma emit_error: "mDesiredSize w < 0 \<Longrightarrow> emit cs w = w"
  by (induction cs) (simp_all add: write_raw_error)

lemma emit_desired:
  assumes "0 \<le> mDesiredSize w"
  shows "mDesiredSize (emit cs w) =
    (if mDesiredSize w + int (stream_size cs) \<le> 2 ^ 31 - 1 \<or> cs = [] then mDesiredSize w + int (stream_size cs)
     else - 3)"
  using assms
proof (induction cs arbitrary: w)
  case (Cons c cs)
  show ?case
  proof (cases "mDesiredSize w + int (length c) \<le> 2 ^ 31 - 1")
    case True
    then have d: "mDesiredSize (write_raw c w) = mDesiredSize w + int (length c)"
      using Cons.prems by (simp add: write_raw_desired)
    then have "mDesiredSize (emit cs (write_raw c w)) =
      (if mDesiredSize (write_raw c w) + int (stream_size cs) \<le> 2 ^ 31 - 1 \<or> cs = []
       then mDesiredSize (write_raw c w) + int (stream_size cs) else - 3)"
      using Cons.prems by (intro Cons.IH) simp
    then show ?thesis
      using True d by (auto simp: algebra_simps)
  next
    case False
    then have "mDesiredSize (write_raw c w) = - 3"
      using Cons.prems by (simp add: write_raw_desired)
    then show ?thesis
      using False by (simp add: emit_error)
  qed
qed simp

text \<open>Storage: never past the room given, always a prefix of the full stream, all of it if it fits.\<close>

lemma write_raw_room:
  "length (w_written (write_raw c w)) + mSizeRemaining (write_raw c w)
     \<le> length (w_written w) + mSizeRemaining w"
  by (auto simp: write_raw_def reserve_def Let_def)

lemma emit_room:
  "length (w_written (emit cs w)) + mSizeRemaining (emit cs w)
     \<le> length (w_written w) + mSizeRemaining w"
proof (induction cs arbitrary: w)
  case (Cons c cs)
  show ?case
    using Cons.IH [of "write_raw c w"] write_raw_room [of c w] by simp
qed simp

lemma emit_full:
  "mSizeRemaining w = 0 \<Longrightarrow> w_written (emit cs w) = w_written w"
proof (induction cs arbitrary: w)
  case (Cons c cs)
  have "w_written (write_raw c w) = w_written w \<and> mSizeRemaining (write_raw c w) = 0"
    using Cons.prems by (auto simp: write_raw_def reserve_def Let_def)
  then show ?case
    using Cons.IH by simp
qed simp

lemma write_raw_cases:
  "mDesiredSize w < 0 \<or> w_written (write_raw c w) = w_written w @ c \<or>
   w_written (write_raw c w) = w_written w \<and> mSizeRemaining (write_raw c w) = 0"
  by (auto simp: write_raw_def reserve_def Let_def)

lemma emit_prefix: "\<exists>ys. w_written (emit cs w) @ ys = w_written w @ concat cs"
proof (induction cs arbitrary: w)
  case (Cons c cs)
  show ?case
    using write_raw_cases [of w c]
  proof (elim disjE conjE)
    assume "w_written (write_raw c w) = w_written w @ c"
    then show ?thesis
      using Cons.IH [of "write_raw c w"] by simp
  next
    assume "w_written (write_raw c w) = w_written w" and "mSizeRemaining (write_raw c w) = 0"
    then show ?thesis
      using emit_full [of "write_raw c w" cs] by simp
  qed (simp add: write_raw_error emit_error)
qed simp

lemma emit_fits:
  assumes "0 \<le> mDesiredSize w" and "mDesiredSize w + int (stream_size cs) \<le> 2 ^ 31 - 1"
    and "stream_size cs \<le> mSizeRemaining w"
  shows "w_written (emit cs w) = w_written w @ concat cs"
  using assms
proof (induction cs arbitrary: w)
  case (Cons c cs)
  have "write_raw c w = w\<lparr>w_written := w_written w @ c, mDesiredSize := mDesiredSize w + int (length c),
      mSizeRemaining := mSizeRemaining w - length c\<rparr>"
    using Cons.prems by (simp add: write_raw_def reserve_def Let_def)
  then show ?case
    using Cons.prems Cons.IH [of "write_raw c w"] by simp
qed simp

text \<open>The four facts for a fresh writer, as the public interface promises them.\<close>

lemma emit_fresh:
  fixes cs n
  defines "w \<equiv> emit cs (MetadataWriter n)"
  shows "mDesiredSize w = (if int (stream_size cs) \<le> 2 ^ 31 - 1 then int (stream_size cs) else - AIMAPPER_ERROR_BAD_VALUE)"
    and "length (w_written w) \<le> n"
    and "\<exists>ys. w_written w @ ys = concat cs"
    and "int (stream_size cs) \<le> 2 ^ 31 - 1 \<Longrightarrow> stream_size cs \<le> n \<Longrightarrow> w_written w = concat cs"
proof -
  let ?w = "MetadataWriter n"
  show "mDesiredSize w = (if int (stream_size cs) \<le> 2 ^ 31 - 1 then int (stream_size cs) else - AIMAPPER_ERROR_BAD_VALUE)"
    using emit_desired [of ?w cs] by (auto simp: w_def MetadataWriter_def AIMAPPER_ERROR_BAD_VALUE_def)
  show "length (w_written w) \<le> n"
    using emit_room [of cs ?w] by (simp add: w_def MetadataWriter_def)
  show "\<exists>ys. w_written w @ ys = concat cs"
    using emit_prefix [of cs ?w] by (simp add: w_def MetadataWriter_def)
  show "w_written w = concat cs" if "int (stream_size cs) \<le> 2 ^ 31 - 1" and "stream_size cs \<le> n"
    using that emit_fits [of ?w cs] by (simp add: w_def MetadataWriter_def)
qed

section \<open>Reading back\<close>

lemma advance_append:
  "mOk r \<Longrightarrow> mSrc r = xs @ ys \<Longrightarrow> n = length xs \<Longrightarrow> advance n r = (Some xs, r\<lparr>mSrc := ys\<rparr>)"
  by (simp add: advance_def)

lemma readInt_to_le:
  fixes x :: "'a::len word"
  assumes "8 dvd LENGTH('a)" and "mOk r" and "mSrc r = to_le x @ rest"
  shows "readInt r = (Some x, r\<lparr>mSrc := rest\<rparr>)"
  using assms by (simp add: readInt_def advance_append of_le_to_le)

lemma read_int_to_le:
  fixes x :: "'a::len word"
  assumes "8 dvd LENGTH('a)" and "mOk r" and "mSrc r = to_le x @ rest"
  shows "read_int r = (x, r\<lparr>mSrc := rest\<rparr>)"
  using readInt_to_le [OF assms] by (simp add: read_int_def)

lemma sint_of_nat64:
  assumes "n < 2 ^ 63"
  shows "sint (of_nat n :: u64) = int n"
proof -
  have "int n < 2 ^ 63"
    using assms by (metis of_nat_less_iff of_nat_numeral of_nat_power)
  moreover have "take_bit 64 n = n"
    using assms by (simp add: take_bit_nat_eq_self)
  ultimately have "sint (of_nat n :: u64) = signed_take_bit 63 (int n)"
    by (simp add: sint_uint uint_nat unsigned_of_nat)
  also have "\<dots> = int n"
    using \<open>int n < 2 ^ 63\<close> by (simp only: signed_take_bit_int_eq_self)
  finally show ?thesis .
qed

section \<open>Codecs as an interface\<close>

text \<open>
  A value's writer emits the chunks \<open>chunks v\<close>; its reader, positioned on those bytes, gives the
  value back and stops right behind them.
\<close>

locale metadata_codec =
  fixes chunks :: "'a \<Rightarrow> bytes list"
    and wr :: "'a \<Rightarrow> metadata_writer \<Rightarrow> metadata_writer"
    and rd :: "metadata_reader \<Rightarrow> ('a \<times> metadata_reader) run"
    and valid :: "'a \<Rightarrow> bool"
  assumes wr_emit: "wr v w = emit (chunks v) w"
    and rd_chunks: "valid v \<Longrightarrow> mOk r \<Longrightarrow> mSrc r = concat (chunks v) @ rest \<Longrightarrow>
      rd r = Done (v, r\<lparr>mSrc := rest\<rparr>)"
begin

lemma fold_emit: "fold wr vs w = emit (concat (map chunks vs)) w"
  by (induction vs arbitrary: w) (simp_all add: wr_emit emit_append)

lemma loop_chunks:
  assumes "list_all valid vs" and "mOk r" and "mSrc r = concat (concat (map chunks vs)) @ rest"
  shows "read_loop (length vs) rd r = Done (vs, r\<lparr>mSrc := rest\<rparr>)"
  using assms
proof (induction vs arbitrary: r)
  case (Cons v vs)
  let ?rest = "concat (concat (map chunks vs)) @ rest"
  have "rd r = Done (v, r\<lparr>mSrc := ?rest\<rparr>)"
    by (rule rd_chunks) (use Cons.prems in simp_all)
  moreover have "read_loop (length vs) rd (r\<lparr>mSrc := ?rest\<rparr>) = Done (vs, r\<lparr>mSrc := rest\<rparr>)"
    using Cons.IH [of "r\<lparr>mSrc := ?rest\<rparr>"] Cons.prems by simp
  ultimately show ?case
    using Cons.prems(2) by simp
qed simp

lemma counted_chunks:
  assumes "list_all valid vs" and "mOk r" and "length vs \<le> lim" and "length vs < 2 ^ 63"
    and "mSrc r = to_le (of_nat (length vs) :: u64) @ concat (concat (map chunks vs)) @ rest"
  shows "read_counted lim rd r = Done (vs, r\<lparr>mSrc := rest\<rparr>)"
proof -
  let ?n = "of_nat (length vs) :: u64"
  let ?r = "r\<lparr>mSrc := concat (concat (map chunks vs)) @ rest\<rparr>"
  have n: "unat ?n = length vs"
    using assms(4) by (simp add: unat_of_nat take_bit_nat_eq_self_iff)
  have s: "nat (sint ?n) = length vs"
    using assms(4) by (simp add: sint_of_nat64)
  have "readInt r = (Some ?n, ?r)"
    by (rule readInt_to_le) (use assms(2,5) in simp_all)
  moreover have "read_loop (length vs) rd ?r = Done (vs, r\<lparr>mSrc := rest\<rparr>)"
    using loop_chunks [of vs ?r rest] assms(1,2) by simp
  ultimately show ?thesis
    using assms(3) n s by (simp add: read_counted_def reserve_vec_def)
qed

lemma wr_after: "wr v (emit hs w) = emit (hs @ chunks v) w"
  by (simp add: wr_emit emit_append)

end

section \<open>Every value is a codec\<close>

definition int_chunks :: "'a::len word \<Rightarrow> bytes list" where
  "int_chunks x = [to_le x]"

definition string_chunks :: "bytes \<Rightarrow> bytes list" where
  "string_chunks s = [to_le (of_nat (length s) :: u64), s]"

definition extendable_chunks :: "ExtendableType \<Rightarrow> bytes list" where
  "extendable_chunks v = string_chunks (ext_name v) @ int_chunks (ext_value v)"

definition xycolor_chunks :: "XyColor \<Rightarrow> bytes list" where
  "xycolor_chunks v = int_chunks (xy_x v) @ int_chunks (xy_y v)"

definition component_chunks :: "PlaneLayoutComponent \<Rightarrow> bytes list" where
  "component_chunks c =
     extendable_chunks (plc_type c) @ int_chunks (offsetInBits c) @ int_chunks (sizeInBits c)"

definition plane_chunks :: "PlaneLayout \<Rightarrow> bytes list" where
  "plane_chunks v =
     int_chunks (of_nat (length (components v)) :: u64) @
     concat (map component_chunks (components v)) @
     int_chunks (offsetInBytes v) @ int_chunks (sampleIncrementInBits v) @
     int_chunks (strideInBytes v) @ int_chunks (widthInSamples v) @ int_chunks (heightInSamples v) @
     int_chunks (totalSizeInBytes v) @ int_chunks (horizontalSubsampling v) @
     int_chunks (verticalSubsampling v)"

definition planes_chunks :: "PlaneLayout list \<Rightarrow> bytes list" where
  "planes_chunks vs = int_chunks (of_nat (length vs) :: u64) @ concat (map plane_chunks vs)"

definition rect_chunks :: "Rect \<Rightarrow> bytes list" where
  "rect_chunks r =
     int_chunks (rect_left r) @ int_chunks (rect_top r) @ int_chunks (rect_right r) @
     int_chunks (rect_bottom r)"

definition rects_chunks :: "Rect list \<Rightarrow> bytes list" where
  "rects_chunks rs = int_chunks (of_nat (length rs) :: u64) @ concat (map rect_chunks rs)"

definition smpte2086_chunks :: "Smpte2086 \<Rightarrow> bytes list" where
  "smpte2086_chunks v =
     xycolor_chunks (primaryRed v) @ xycolor_chunks (primaryGreen v) @
     xycolor_chunks (primaryBlue v) @ xycolor_chunks (whitePoint v) @
     int_chunks (maxLuminance v) @ int_chunks (minLuminance v)"

definition cta861_3_chunks :: "Cta861_3 \<Rightarrow> bytes list" where
  "cta861_3_chunks v = int_chunks (maxContentLightLevel v) @ int_chunks (maxFrameAverageLightLevel v)"

definition string_ok :: "bytes \<Rightarrow> bool" where
  "string_ok s \<longleftrightarrow> length s < 2 ^ 63"

lemma readString_chunks:
  assumes "string_ok s" and "mOk r" and "mSrc r = concat (string_chunks s) @ rest"
  shows "readString r = (s, r\<lparr>mSrc := rest\<rparr>)"
proof -
  let ?n = "of_nat (length s) :: u64"
  have "readInt r = (Some ?n, r\<lparr>mSrc := s @ rest\<rparr>)"
    by (rule readInt_to_le) (use assms in \<open>simp_all add: string_chunks_def\<close>)
  moreover have "unat ?n = length s"
    using assms(1) by (simp add: string_ok_def unat_of_nat take_bit_nat_eq_self_iff)
  ultimately show ?thesis
    using assms(2) by (simp add: readString_def advance_append)
qed

lemma readBuffer_chunks:
  assumes "string_ok s" and "mOk r" and "mSrc r = concat (string_chunks s) @ rest"
  shows "readBuffer r = (s, r\<lparr>mSrc := rest\<rparr>)"
proof -
  let ?n = "of_nat (length s) :: u64"
  have "readInt r = (Some ?n, r\<lparr>mSrc := s @ rest\<rparr>)"
    by (rule readInt_to_le) (use assms in \<open>simp_all add: string_chunks_def\<close>)
  moreover have "unat ?n = length s"
    using assms(1) by (simp add: string_ok_def unat_of_nat take_bit_nat_eq_self_iff)
  ultimately show ?thesis
    using assms(2) by (simp add: readBuffer_def advance_append)
qed

lemma read_int_chunks:
  fixes x :: "'a::len word"
  assumes "8 dvd LENGTH('a)" and "mOk r" and "mSrc r = concat (int_chunks x) @ rest"
  shows "read_int r = (x, r\<lparr>mSrc := rest\<rparr>)"
  using assms by (intro read_int_to_le) (simp_all add: int_chunks_def)

lemma read_extendable_chunks:
  assumes "string_ok (ext_name v)" and "mOk r" and "mSrc r = concat (extendable_chunks v) @ rest"
  shows "read_extendable r = (v, r\<lparr>mSrc := rest\<rparr>)" and "readExtendable r = (Some v, r\<lparr>mSrc := rest\<rparr>)"
proof -
  let ?r = "r\<lparr>mSrc := concat (int_chunks (ext_value v)) @ rest\<rparr>"
  have s: "readString r = (ext_name v, ?r)"
    by (rule readString_chunks) (use assms in \<open>simp_all add: extendable_chunks_def\<close>)
  have i: "readInt ?r = (Some (ext_value v), r\<lparr>mSrc := rest\<rparr>)"
    using readInt_to_le [of ?r "ext_value v" rest] assms(2) by (simp add: int_chunks_def)
  show "read_extendable r = (v, r\<lparr>mSrc := rest\<rparr>)" and "readExtendable r = (Some v, r\<lparr>mSrc := rest\<rparr>)"
    using s i by (simp_all add: read_extendable_def readExtendable_def read_int_def)
qed

lemma read_xycolor_chunks:
  assumes "mOk r" and "mSrc r = concat (xycolor_chunks v) @ rest"
  shows "read_xycolor r = (v, r\<lparr>mSrc := rest\<rparr>)"
  using assms by (simp add: read_xycolor_def xycolor_chunks_def read_int_chunks [where x = "xy_x v"]
      read_int_chunks [where x = "xy_y v"])

lemma write_chunks:
  "write_int x w = emit (int_chunks x) w"
  "write_string s w = emit (string_chunks s) w"
  "write_buffer s w = emit (string_chunks s) w"
  "write_extendable e w = emit (extendable_chunks e) w"
  "write_xycolor c w = emit (xycolor_chunks c) w"
  by (simp_all add: write_int_def int_chunks_def write_string_def write_buffer_def string_chunks_def
      write_extendable_def extendable_chunks_def write_xycolor_def xycolor_chunks_def emit_append)

interpretation int32: metadata_codec int_chunks "write_int :: u32 \<Rightarrow> _" "\<lambda>r. Done (read_int r)" "\<lambda>_. True"
  by unfold_locales (simp_all add: write_chunks read_int_chunks)

interpretation int64: metadata_codec int_chunks "write_int :: u64 \<Rightarrow> _" "\<lambda>r. Done (read_int r)" "\<lambda>_. True"
  by unfold_locales (simp_all add: write_chunks read_int_chunks)

interpretation str: metadata_codec string_chunks write_string "\<lambda>r. Done (readString r)" string_ok
  by unfold_locales (simp_all add: write_chunks readString_chunks)

interpretation blob: metadata_codec string_chunks write_buffer "\<lambda>r. Done (readBuffer r)" string_ok
  by unfold_locales (simp_all add: write_chunks readBuffer_chunks)

interpretation ext: metadata_codec extendable_chunks write_extendable "\<lambda>r. Done (read_extendable r)"
  "\<lambda>v. string_ok (ext_name v)"
  by unfold_locales (simp_all add: write_chunks read_extendable_chunks)

interpretation xy: metadata_codec xycolor_chunks write_xycolor "\<lambda>r. Done (read_xycolor r)" "\<lambda>_. True"
  by unfold_locales (simp_all add: write_chunks read_xycolor_chunks)

definition component_ok :: "PlaneLayoutComponent \<Rightarrow> bool" where
  "component_ok c \<longleftrightarrow> string_ok (ext_name (plc_type c))"

interpretation comp: metadata_codec component_chunks write_component read_component component_ok
proof
  fix v :: PlaneLayoutComponent and w :: metadata_writer and r :: metadata_reader and rest
  show "write_component v w = emit (component_chunks v) w"
    by (simp add: write_component_def component_chunks_def write_chunks emit_append)
  assume ok: "component_ok v" "mOk r" "mSrc r = concat (component_chunks v) @ rest"
  let ?r1 = "r\<lparr>mSrc := concat (int_chunks (offsetInBits v) @ int_chunks (sizeInBits v)) @ rest\<rparr>"
  let ?r2 = "r\<lparr>mSrc := concat (int_chunks (sizeInBits v)) @ rest\<rparr>"
  have "read_extendable r = (plc_type v, ?r1)"
    by (rule read_extendable_chunks) (use ok in \<open>simp_all add: component_ok_def component_chunks_def\<close>)
  moreover have "read_int ?r1 = (offsetInBits v, ?r2)"
    using read_int_chunks [of ?r1 "offsetInBits v" "concat (int_chunks (sizeInBits v)) @ rest"] ok(2)
    by simp
  moreover have "read_int ?r2 = (sizeInBits v, r\<lparr>mSrc := rest\<rparr>)"
    using read_int_chunks [of ?r2 "sizeInBits v" rest] ok(2) by simp
  ultimately show "read_component r = Done (v, r\<lparr>mSrc := rest\<rparr>)"
    by (simp add: read_component_def)
qed

text \<open>A run of integers read one after the other, the tail of every record.\<close>

lemma read_int_Cons:
  fixes x :: "'a::len word"
  assumes "8 dvd LENGTH('a)"
  shows "read_int \<lparr>mSrc = concat (int_chunks x) @ rest, mOk = True\<rparr> = (x, \<lparr>mSrc = rest, mOk = True\<rparr>)"
  using read_int_chunks [of "\<lparr>mSrc = concat (int_chunks x) @ rest, mOk = True\<rparr>" x rest] assms by simp

lemma reader_eq: "mOk r \<Longrightarrow> mSrc r = bs \<Longrightarrow> r = \<lparr>mSrc = bs, mOk = True\<rparr>"
  by (cases r) simp

definition plane_ok :: "codec_limits \<Rightarrow> PlaneLayout \<Rightarrow> bool" where
  "plane_ok L v \<longleftrightarrow> list_all component_ok (components v) \<and>
     length (components v) \<le> lim_components L \<and> length (components v) < 2 ^ 63"

interpretation plane: metadata_codec plane_chunks write_plane "read_plane L" "plane_ok L"
  for L :: codec_limits
proof
  fix v :: PlaneLayout and w :: metadata_writer and r :: metadata_reader and rest
  show "write_plane v w = emit (plane_chunks v) w"
    by (simp add: write_plane_def plane_chunks_def write_chunks emit_append comp.fold_emit Let_def)
  assume ok: "plane_ok L v" "mOk r" "mSrc r = concat (plane_chunks v) @ rest"
  let ?tail = "concat (int_chunks (offsetInBytes v)) @ concat (int_chunks (sampleIncrementInBits v)) @
    concat (int_chunks (strideInBytes v)) @ concat (int_chunks (widthInSamples v)) @
    concat (int_chunks (heightInSamples v)) @ concat (int_chunks (totalSizeInBytes v)) @
    concat (int_chunks (horizontalSubsampling v)) @ concat (int_chunks (verticalSubsampling v)) @ rest"
  have "read_counted (lim_components L) read_component r = Done (components v, r\<lparr>mSrc := ?tail\<rparr>)"
    by (rule comp.counted_chunks) (use ok in \<open>simp_all add: plane_ok_def plane_chunks_def int_chunks_def\<close>)
  moreover have "r\<lparr>mSrc := ?tail\<rparr> = \<lparr>mSrc = ?tail, mOk = True\<rparr>"
    and "r\<lparr>mSrc := rest\<rparr> = \<lparr>mSrc = rest, mOk = True\<rparr>"
    using ok(2) by (simp_all add: reader_eq)
  ultimately show "read_plane L r = Done (v, r\<lparr>mSrc := rest\<rparr>)"
    by (simp add: read_plane_def read_int_Cons)
qed

definition planes_ok :: "codec_limits \<Rightarrow> PlaneLayout list \<Rightarrow> bool" where
  "planes_ok L vs \<longleftrightarrow> list_all (plane_ok L) vs \<and> length vs \<le> lim_planes L \<and> length vs < 2 ^ 63"

interpretation planes: metadata_codec planes_chunks write_planes "read_planes L" "planes_ok L"
  for L :: codec_limits
proof
  fix vs :: "PlaneLayout list" and w :: metadata_writer and r :: metadata_reader and rest
  show "write_planes vs w = emit (planes_chunks vs) w"
    by (simp add: write_planes_def planes_chunks_def write_chunks emit_append plane.fold_emit)
  assume "planes_ok L vs" "mOk r" "mSrc r = concat (planes_chunks vs) @ rest"
  then show "read_planes L r = Done (vs, r\<lparr>mSrc := rest\<rparr>)"
    unfolding read_planes_def
    by (intro plane.counted_chunks) (simp_all add: planes_ok_def planes_chunks_def int_chunks_def)
qed

interpretation rect: metadata_codec rect_chunks write_rect read_rect "\<lambda>_. True"
proof
  fix v :: Rect and w :: metadata_writer and r :: metadata_reader and rest
  show "write_rect v w = emit (rect_chunks v) w"
    by (simp add: write_rect_def rect_chunks_def write_chunks emit_append)
  assume ok: "mOk r" "mSrc r = concat (rect_chunks v) @ rest"
  then have "r = \<lparr>mSrc = concat (rect_chunks v) @ rest, mOk = True\<rparr>"
    by (simp add: reader_eq)
  then show "read_rect r = Done (v, r\<lparr>mSrc := rest\<rparr>)"
    by (simp add: read_rect_def rect_chunks_def read_int_Cons)
qed

definition rects_ok :: "codec_limits \<Rightarrow> Rect list \<Rightarrow> bool" where
  "rects_ok L vs \<longleftrightarrow> length vs \<le> lim_rects L \<and> length vs < 2 ^ 63"

interpretation rects: metadata_codec rects_chunks write_rects "read_rects L" "rects_ok L"
  for L :: codec_limits
proof
  fix vs :: "Rect list" and w :: metadata_writer and r :: metadata_reader and rest
  show "write_rects vs w = emit (rects_chunks vs) w"
    by (simp add: write_rects_def rects_chunks_def write_chunks emit_append rect.fold_emit)
  assume "rects_ok L vs" "mOk r" "mSrc r = concat (rects_chunks vs) @ rest"
  then show "read_rects L r = Done (vs, r\<lparr>mSrc := rest\<rparr>)"
    unfolding read_rects_def
    by (intro rect.counted_chunks)
      (simp_all add: rects_ok_def rects_chunks_def int_chunks_def list_all_iff)
qed

lemma read_xycolor_Cons:
  "read_xycolor \<lparr>mSrc = concat (xycolor_chunks x) @ rest, mOk = True\<rparr> = (x, \<lparr>mSrc = rest, mOk = True\<rparr>)"
  using read_xycolor_chunks [of "\<lparr>mSrc = concat (xycolor_chunks x) @ rest, mOk = True\<rparr>" x rest] by simp

interpretation smpte: metadata_codec smpte2086_chunks write_smpte2086 read_smpte2086 "\<lambda>_. True"
proof
  fix v :: Smpte2086 and w :: metadata_writer and r :: metadata_reader and rest
  show "write_smpte2086 v w = emit (smpte2086_chunks v) w"
    by (simp add: write_smpte2086_def smpte2086_chunks_def write_chunks emit_append Let_def)
  assume ok: "mOk r" "mSrc r = concat (smpte2086_chunks v) @ rest"
  then have "r = \<lparr>mSrc = concat (smpte2086_chunks v) @ rest, mOk = True\<rparr>"
    by (simp add: reader_eq)
  then show "read_smpte2086 r = Done (v, r\<lparr>mSrc := rest\<rparr>)"
    by (simp add: read_smpte2086_def smpte2086_chunks_def read_int_Cons read_xycolor_Cons)
qed

interpretation cta: metadata_codec cta861_3_chunks write_cta861_3 read_cta861_3 "\<lambda>_. True"
proof
  fix v :: Cta861_3 and w :: metadata_writer and r :: metadata_reader and rest
  show "write_cta861_3 v w = emit (cta861_3_chunks v) w"
    by (simp add: write_cta861_3_def cta861_3_chunks_def write_chunks emit_append)
  assume ok: "mOk r" "mSrc r = concat (cta861_3_chunks v) @ rest"
  then have "r = \<lparr>mSrc = concat (cta861_3_chunks v) @ rest, mOk = True\<rparr>"
    by (simp add: reader_eq)
  then show "read_cta861_3 r = Done (v, r\<lparr>mSrc := rest\<rparr>)"
    by (simp add: read_cta861_3_def cta861_3_chunks_def read_int_Cons)
qed

section \<open>The value types as one sum\<close>

text \<open>
  \<open>MetadataValue<HEADER, T>\<close> for the value types the mapper uses: \<open>T\<close> selects the specialisation.
  An enum is its underlying integer.
\<close>

datatype metadata_kind =
    KInt32 | KInt64 | KEnum32 | KEnum64 | KString | KExtendable | KPlanes | KRects | KSmpte2086
  | KCta861_3 | KBlob

datatype metadata_value =
    MInt32 u32
  | MInt64 u64
  | MEnum32 u32
  | MEnum64 u64
  | MString bytes
  | MExtendable ExtendableType
  | MPlanes "PlaneLayout list"
  | MRects "Rect list"
  | MSmpte2086 "Smpte2086 option"
  | MCta861_3 "Cta861_3 option"
  | MBlob "bytes option"

primrec kind_of :: "metadata_value \<Rightarrow> metadata_kind" where
  "kind_of (MInt32 x) = KInt32"
| "kind_of (MInt64 x) = KInt64"
| "kind_of (MEnum32 x) = KEnum32"
| "kind_of (MEnum64 x) = KEnum64"
| "kind_of (MString s) = KString"
| "kind_of (MExtendable e) = KExtendable"
| "kind_of (MPlanes ps) = KPlanes"
| "kind_of (MRects rs) = KRects"
| "kind_of (MSmpte2086 v) = KSmpte2086"
| "kind_of (MCta861_3 v) = KCta861_3"
| "kind_of (MBlob v) = KBlob"

primrec metadata_encode :: "u64 \<Rightarrow> metadata_value \<Rightarrow> nat \<Rightarrow> int \<times> bytes" where
  "metadata_encode hv (MInt32 x) n = encode_int hv x n"
| "metadata_encode hv (MInt64 x) n = encode_int hv x n"
| "metadata_encode hv (MEnum32 x) n = encode_enum hv x n"
| "metadata_encode hv (MEnum64 x) n = encode_enum hv x n"
| "metadata_encode hv (MString s) n = encode_string hv s n"
| "metadata_encode hv (MExtendable e) n = encode_extendable hv e n"
| "metadata_encode hv (MPlanes ps) n = encode_planes hv ps n"
| "metadata_encode hv (MRects rs) n = encode_rects hv rs n"
| "metadata_encode hv (MSmpte2086 v) n = encode_smpte2086 hv v n"
| "metadata_encode hv (MCta861_3 v) n = encode_cta861_3 hv v n"
| "metadata_encode hv (MBlob v) n = encode_blob hv v n"

definition run_map :: "('a \<Rightarrow> 'b) \<Rightarrow> 'a option run \<Rightarrow> 'b option run" where
  "run_map f m = andThen m (\<lambda>x. Done (map_option f x))"

primrec metadata_decode ::
    "codec_limits \<Rightarrow> u64 \<Rightarrow> bytes \<Rightarrow> metadata_kind \<Rightarrow> metadata_value option run" where
  "metadata_decode L hv m KInt32 = Done (map_option MInt32 (decode_int hv m))"
| "metadata_decode L hv m KInt64 = Done (map_option MInt64 (decode_int hv m))"
| "metadata_decode L hv m KEnum32 = Done (map_option MEnum32 (decode_enum hv m))"
| "metadata_decode L hv m KEnum64 = Done (map_option MEnum64 (decode_enum hv m))"
| "metadata_decode L hv m KString = Done (map_option MString (decode_string hv m))"
| "metadata_decode L hv m KExtendable = Done (map_option MExtendable (decode_extendable hv m))"
| "metadata_decode L hv m KPlanes = run_map MPlanes (decode_planes L hv m)"
| "metadata_decode L hv m KRects = run_map MRects (decode_rects L hv m)"
| "metadata_decode L hv m KSmpte2086 = run_map MSmpte2086 (decode_smpte2086 hv m)"
| "metadata_decode L hv m KCta861_3 = run_map MCta861_3 (decode_cta861_3 hv m)"
| "metadata_decode L hv m KBlob = Done (map_option MBlob (decode_blob hv m))"

text \<open>The bytes an encoding stands for, and the values whose vectors fit their C++ containers.\<close>

definition header_chunks :: "u64 \<Rightarrow> bytes list" where
  "header_chunks hv = string_chunks header_name @ int_chunks hv"

primrec value_chunks :: "u64 \<Rightarrow> metadata_value \<Rightarrow> bytes list" where
  "value_chunks hv (MInt32 x) = header_chunks hv @ int_chunks x"
| "value_chunks hv (MInt64 x) = header_chunks hv @ int_chunks x"
| "value_chunks hv (MEnum32 x) = header_chunks hv @ int_chunks x"
| "value_chunks hv (MEnum64 x) = header_chunks hv @ int_chunks x"
| "value_chunks hv (MString s) = header_chunks hv @ string_chunks s"
| "value_chunks hv (MExtendable e) = header_chunks hv @ extendable_chunks e"
| "value_chunks hv (MPlanes ps) = header_chunks hv @ planes_chunks ps"
| "value_chunks hv (MRects rs) = header_chunks hv @ rects_chunks rs"
| "value_chunks hv (MSmpte2086 v) =
     (case v of None \<Rightarrow> [] | Some x \<Rightarrow> header_chunks hv @ smpte2086_chunks x)"
| "value_chunks hv (MCta861_3 v) =
     (case v of None \<Rightarrow> [] | Some x \<Rightarrow> header_chunks hv @ cta861_3_chunks x)"
| "value_chunks hv (MBlob v) = (case v of None \<Rightarrow> [] | Some x \<Rightarrow> header_chunks hv @ string_chunks x)"

primrec value_ok :: "codec_limits \<Rightarrow> metadata_value \<Rightarrow> bool" where
  "value_ok L (MInt32 x) = True"
| "value_ok L (MInt64 x) = True"
| "value_ok L (MEnum32 x) = True"
| "value_ok L (MEnum64 x) = True"
| "value_ok L (MString s) = string_ok s"
| "value_ok L (MExtendable e) = string_ok (ext_name e)"
| "value_ok L (MPlanes ps) = planes_ok L ps"
| "value_ok L (MRects rs) = rects_ok L rs"
| "value_ok L (MSmpte2086 v) = True"
| "value_ok L (MCta861_3 v) = True"
| "value_ok L (MBlob v) = (case v of None \<Rightarrow> True | Some s \<Rightarrow> string_ok s)"

lemma writeHeader_chunks: "writeHeader hv w = emit (header_chunks hv) w"
  by (simp add: writeHeader_def header_chunks_def write_chunks emit_append)

lemmas encode_defs = encode_int_def encode_enum_def encode_string_def encode_extendable_def
  encode_planes_def encode_rects_def encode_smpte2086_def encode_cta861_3_def encode_blob_def

lemma encode_emit: "metadata_encode hv v n = finish (emit (value_chunks hv v) (MetadataWriter n))"
proof -
  have none: "(0, []) = finish (emit [] (MetadataWriter n))"
    by (simp add: finish_def MetadataWriter_def)
  show ?thesis
    by (cases v) (simp_all add: encode_defs writeHeader_chunks write_chunks emit_append none
        planes.wr_after rects.wr_after smpte.wr_after cta.wr_after split: option.splits)
qed

lemma length_header_chunks: "length (concat (header_chunks hv)) = 69"
  by (simp add: header_chunks_def string_chunks_def int_chunks_def header_name_def)

lemma string_ok_header [simp]: "string_ok header_name"
  by (simp add: string_ok_def header_name_def)

lemma checkHeader_chunks:
  assumes "mOk r" and "mSrc r = concat (header_chunks hv) @ rest"
  shows "checkHeader hv' r =
    (if hv' = hv then r\<lparr>mSrc := rest\<rparr> else r\<lparr>mSrc := rest, mOk := False\<rparr>)"
proof -
  let ?r = "r\<lparr>mSrc := concat (int_chunks hv) @ rest\<rparr>"
  have "readString r = (header_name, ?r)"
    by (rule readString_chunks) (use assms in \<open>simp_all add: header_chunks_def\<close>)
  moreover have "readInt ?r = (Some hv, r\<lparr>mSrc := rest\<rparr>)"
    using readInt_to_le [of ?r hv rest] assms(1) by (simp add: int_chunks_def)
  ultimately show ?thesis
    by (simp add: checkHeader_def)
qed

lemma header_front:
  "checkHeader hv' (MetadataReader (concat (header_chunks hv) @ bs)) = \<lparr>mSrc = bs, mOk = (hv' = hv)\<rparr>"
  using checkHeader_chunks [of "MetadataReader (concat (header_chunks hv) @ bs)" hv bs hv']
  by (simp add: MetadataReader_def)

lemma header_nonempty [simp]: "concat (header_chunks hv) \<noteq> []"
  using length_header_chunks [of hv] by (metis list.size(3) zero_neq_numeral)

lemma header_ex [simp]:
  "\<exists>xs\<in>set (header_chunks hv). xs \<noteq> []" "\<exists>xs\<in>set (header_chunks hv) \<union> A. xs \<noteq> []"
  "\<exists>xs. (xs \<in> set (header_chunks hv) \<or> xs \<in> A) \<and> xs \<noteq> []"
  using header_nonempty [of hv] by (auto simp: concat_eq_Nil_conv)

text \<open>Reading with a failed reader.\<close>

lemma failed_reads:
  assumes "\<not> mOk r"
  shows "fst (readInt r) = None" "\<not> mOk (snd (readInt r))" "\<not> mOk (snd (read_int r))"
    "\<not> mOk (snd (readString r))" "\<not> mOk (snd (readBuffer r))" "fst (readExtendable r) = None"
    "\<not> mOk (snd (read_xycolor r))"
  using assms
  by (auto simp: readInt_def read_int_def readString_def readBuffer_def readExtendable_def
      read_xycolor_def advance_def)

lemma failed_counted:
  assumes "\<not> mOk r"
  shows "\<exists>r'. read_counted lim rd r = Done ([], r') \<and> \<not> mOk r'"
  using assms by (auto simp: read_counted_def reserve_vec_def readInt_def advance_def)

section \<open>Properties\<close>

text \<open>C31: Encoding is size-honest and memory-safe for every kind of value: for each value there
  is one byte stream such that, whatever the size of the destination (zero included), the size
  returned is the length of that stream, or \<open>-AIMAPPER_ERROR_BAD_VALUE\<close> when it exceeds
  \<open>INT32_MAX\<close>; never more bytes are stored than the destination has; what is stored is a prefix of
  the stream, and all of it as soon as it fits.\<close>

theorem encode_size_and_bounds:
  "\<exists>bs. \<forall>n. case metadata_encode hv v n of (sz, stored) \<Rightarrow>
     sz = (if int (length bs) \<le> 2 ^ 31 - 1 then int (length bs) else - AIMAPPER_ERROR_BAD_VALUE) \<and>
     length stored \<le> n \<and> (\<exists>ys. stored @ ys = bs) \<and>
     (0 \<le> sz \<longrightarrow> sz \<le> int n \<longrightarrow> stored = bs)"
proof (intro exI allI)
  fix n
  let ?cs = "value_chunks hv v"
  have nn: "\<not> 0 \<le> - AIMAPPER_ERROR_BAD_VALUE"
    by (simp add: AIMAPPER_ERROR_BAD_VALUE_def)
  show "case metadata_encode hv v n of (sz, stored) \<Rightarrow>
     sz = (if int (length (concat ?cs)) \<le> 2 ^ 31 - 1 then int (length (concat ?cs))
             else - AIMAPPER_ERROR_BAD_VALUE) \<and>
     length stored \<le> n \<and> (\<exists>ys. stored @ ys = concat ?cs) \<and>
     (0 \<le> sz \<longrightarrow> sz \<le> int n \<longrightarrow> stored = concat ?cs)"
    using emit_fresh [of ?cs n] nn
    by (simp add: encode_emit finish_def stream_size_def split: if_splits)
qed

theorem encode_size_and_bounds_witness:
  "\<exists>bs. (\<exists>ys. snd (metadata_encode 3 (MInt64 640) 10) @ ys = bs) \<and>
     length (snd (metadata_encode 3 (MInt64 640) 10)) \<le> 10 \<and>
     (0 \<le> fst (metadata_encode 3 (MInt64 640) 100) \<longrightarrow> fst (metadata_encode 3 (MInt64 640) 100) \<le> 100 \<longrightarrow>
        snd (metadata_encode 3 (MInt64 640) 100) = bs)"
proof -
  obtain bs where bs: "\<forall>n. case metadata_encode 3 (MInt64 640) n of (sz, stored) \<Rightarrow>
     sz = (if int (length bs) \<le> 2 ^ 31 - 1 then int (length bs) else - AIMAPPER_ERROR_BAD_VALUE) \<and>
     length stored \<le> n \<and> (\<exists>ys. stored @ ys = bs) \<and>
     (0 \<le> sz \<longrightarrow> sz \<le> int n \<longrightarrow> stored = bs)"
    using encode_size_and_bounds [of 3 "MInt64 640"] by blast
  show ?thesis
    using spec [OF bs, of 10] spec [OF bs, of 100]
    by (intro exI [of _ bs]) (simp add: case_prod_beta del: metadata_encode.simps)
qed

lemma encode_stored:
  assumes "metadata_encode hv v n = (sz, stored)" and "0 \<le> sz" and "sz \<le> int n"
  shows "stored = concat (value_chunks hv v)"
  using assms emit_fresh(1,4) [of "value_chunks hv v" n]
  by (auto simp: encode_emit finish_def stream_size_def AIMAPPER_ERROR_BAD_VALUE_def split: if_splits)

lemma encode_room:
  assumes "length (concat (value_chunks hv v)) \<le> n" and "int (length (concat (value_chunks hv v))) \<le> 2 ^ 31 - 1"
  shows "metadata_encode hv v n = (int (length (concat (value_chunks hv v))), concat (value_chunks hv v))"
  using emit_fresh(1,4) [of "value_chunks hv v" n] assms
  by (simp add: encode_emit finish_def stream_size_def)

lemma encode_no_room:
  assumes "int (length (concat (value_chunks hv v))) \<le> 2 ^ 31 - 1"
  shows "metadata_encode hv v 0 = (int (length (concat (value_chunks hv v))), [])"
  using emit_fresh(1,2) [of "value_chunks hv v" 0] assms
  by (simp add: encode_emit finish_def stream_size_def)

text \<open>A decoder looks at the front of its bytes only, so a longer buffer decodes to the same value.\<close>

lemma decode_prefix:
  assumes ok: "value_ok L v" and ne: "value_chunks hv v \<noteq> []"
  shows "metadata_decode L hv (concat (value_chunks hv v) @ rest) (kind_of v) = Done (Some v)"
proof -
  let ?r = "\<lambda>cs. \<lparr>mSrc = concat cs @ rest, mOk = True\<rparr> :: metadata_reader"
  let ?e = "\<lparr>mSrc = rest, mOk = True\<rparr> :: metadata_reader"
  have int32: "readInt (?r (int_chunks x)) = (Some x, ?e)" "read_int (?r (int_chunks x)) = (x, ?e)" for x :: u32
    using readInt_to_le [of "?r (int_chunks x)" x rest] read_int_chunks [of "?r (int_chunks x)" x rest]
    by (simp_all add: int_chunks_def)
  have int64: "readInt (?r (int_chunks x)) = (Some x, ?e)" "read_int (?r (int_chunks x)) = (x, ?e)" for x :: u64
    using readInt_to_le [of "?r (int_chunks x)" x rest] read_int_chunks [of "?r (int_chunks x)" x rest]
    by (simp_all add: int_chunks_def)
  have str: "readString (?r (string_chunks s)) = (s, ?e)" "readBuffer (?r (string_chunks s)) = (s, ?e)"
    if "string_ok s" for s
    using readString_chunks [OF that, of "?r (string_chunks s)" rest]
      readBuffer_chunks [OF that, of "?r (string_chunks s)" rest] by simp_all
  have ext: "readExtendable (?r (extendable_chunks e)) = (Some e, ?e)" if "string_ok (ext_name e)" for e
    using read_extendable_chunks(2) [OF that, of "?r (extendable_chunks e)" rest] by simp
  have planes: "read_planes L (?r (planes_chunks ps)) = Done (ps, ?e)" if "planes_ok L ps" for ps
    using planes.rd_chunks [OF that, of "?r (planes_chunks ps)" rest] by simp
  have rects: "read_rects L (?r (rects_chunks rs)) = Done (rs, ?e)" if "rects_ok L rs" for rs
    using rects.rd_chunks [OF that, of "?r (rects_chunks rs)" rest] by simp
  have smpte: "read_smpte2086 (?r (smpte2086_chunks s)) = Done (s, ?e)" for s
    using smpte.rd_chunks [where v = s and r = "?r (smpte2086_chunks s)" and rest = rest] by simp
  have cta: "read_cta861_3 (?r (cta861_3_chunks s)) = Done (s, ?e)" for s
    using cta.rd_chunks [where v = s and r = "?r (cta861_3_chunks s)" and rest = rest] by simp
  show ?thesis
    using ok ne
    by (cases v) (simp_all add: decode_int_def decode_enum_def decode_string_def decode_extendable_def
        decode_planes_def decode_rects_def decode_smpte2086_def decode_cta861_3_def decode_blob_def
        header_front int32 int64 str ext planes rects smpte cta run_map_def split: option.splits)
qed

lemma decode_nothing:
  "metadata_decode L hv [] k = Done (case k of
     KSmpte2086 \<Rightarrow> Some (MSmpte2086 None) | KCta861_3 \<Rightarrow> Some (MCta861_3 None) | KBlob \<Rightarrow> Some (MBlob None)
   | _ \<Rightarrow> None)"
proof -
  let ?r = "\<lparr>mSrc = [], mOk = False\<rparr> :: metadata_reader"
  have hd: "checkHeader hv (MetadataReader []) = ?r"
    by (simp add: checkHeader_def MetadataReader_def readString_def readInt_def advance_def)
  have ints: "readInt ?r = (None, ?r)" "read_int ?r = (0, ?r)"
    by (simp_all add: readInt_def read_int_def advance_def)
  have strs: "readString ?r = ([], ?r)" "readBuffer ?r = ([], ?r)" "readExtendable ?r = (None, ?r)"
    by (simp_all add: readString_def readBuffer_def readExtendable_def ints advance_def)
  have cnt: "read_counted lim rd ?r = Done ([], ?r)" for lim and rd :: "metadata_reader \<Rightarrow> ('b \<times> metadata_reader) run"
    by (simp add: read_counted_def ints reserve_vec_def)
  show ?thesis
    by (cases k) (simp_all add: decode_int_def decode_enum_def decode_string_def decode_extendable_def
        decode_planes_def decode_rects_def decode_smpte2086_def decode_cta861_3_def decode_blob_def
        hd ints strs read_planes_def read_rects_def cnt run_map_def)
qed

lemma decode_stream:
  assumes ok: "value_ok L v"
  shows "metadata_decode L hv (concat (value_chunks hv v)) (kind_of v) = Done (Some v)"
proof (cases "value_chunks hv v = []")
  case True
  then have "v = MSmpte2086 None \<or> v = MCta861_3 None \<or> v = MBlob None"
    by (cases v) (auto simp: header_chunks_def string_chunks_def split: option.splits)
  then show ?thesis
    using decode_nothing [of L hv "kind_of v"] by auto
next
  case False
  then show ?thesis
    using decode_prefix [OF ok, of hv "[]"] by simp
qed

lemma decode_prefix_wrong:
  assumes hv: "hv' \<noteq> hv"
  shows "metadata_decode L hv' (concat (header_chunks hv) @ rest) k = Done None"
proof -
  let ?r = "\<lparr>mSrc = rest, mOk = False\<rparr> :: metadata_reader"
  have ints: "readInt ?r = (None, ?r)" "read_int ?r = (0, ?r)"
    by (simp_all add: readInt_def read_int_def advance_def)
  have strs: "readString ?r = ([], ?r)" "readBuffer ?r = ([], ?r)" "readExtendable ?r = (None, ?r)"
    by (simp_all add: readString_def readBuffer_def readExtendable_def ints advance_def)
  have cnt: "read_counted lim rd ?r = Done ([], ?r)" for lim and rd :: "metadata_reader \<Rightarrow> ('b \<times> metadata_reader) run"
    by (simp add: read_counted_def ints reserve_vec_def)
  have xy: "read_xycolor ?r = (\<lparr>xy_x = 0, xy_y = 0\<rparr>, ?r)"
    by (simp add: read_xycolor_def ints)
  show ?thesis
    by (cases k) (simp_all add: decode_int_def decode_enum_def decode_string_def decode_extendable_def
        decode_planes_def decode_rects_def decode_smpte2086_def decode_cta861_3_def decode_blob_def
        header_front hv ints strs read_planes_def read_rects_def cnt read_smpte2086_def read_cta861_3_def xy
        run_map_def)
qed

lemma decode_stream_wrong:
  assumes ne: "value_chunks hv v \<noteq> []" and hv: "hv' \<noteq> hv"
  shows "metadata_decode L hv' (concat (value_chunks hv v)) k = Done None"
proof -
  obtain cs where "value_chunks hv v = header_chunks hv @ cs"
    using ne by (cases v) (auto split: option.splits)
  then show ?thesis
    using decode_prefix_wrong [OF hv, of L "concat cs" k] by simp
qed

text \<open>C30: Decoding inverts encoding: the bytes an encode stored in a destination that was large
  enough decode, under the same metadata type, to the very value that was encoded, for all eleven
  kinds of value.\<close>

theorem decode_encode:
  assumes "metadata_encode hv v n = (sz, stored)" and "0 \<le> sz" and "sz \<le> int n" and "value_ok L v"
  shows "metadata_decode L hv stored (kind_of v) = Done (Some v)"
  unfolding encode_stored [OF assms(1-3)] by (rule decode_stream [OF assms(4)])

theorem decode_encode_witness:
  "let L = \<lparr>lim_planes = 9, lim_components = 9, lim_rects = 9\<rparr>;
       v = MRects [\<lparr>rect_left = 0, rect_top = 0, rect_right = 64, rect_bottom = 48\<rparr>]
   in value_ok L v \<and> metadata_decode L 16 (snd (metadata_encode 16 v 200)) KRects = Done (Some v)"
proof -
  let ?L = "\<lparr>lim_planes = 9, lim_components = 9, lim_rects = 9\<rparr>"
  let ?v = "MRects [\<lparr>rect_left = 0, rect_top = 0, rect_right = 64, rect_bottom = 48\<rparr>]"
  obtain sz stored where e: "metadata_encode 16 ?v 200 = (sz, stored)"
    by fastforce
  have "sz = 93"
    using e emit_fresh(1) [of "value_chunks 16 ?v" 200]
    by (simp add: encode_emit finish_def header_chunks_def string_chunks_def int_chunks_def
        header_name_def rects_chunks_def rect_chunks_def)
  then show ?thesis
    using decode_encode [OF e, of ?L] e by (simp add: rects_ok_def)
qed

text \<open>Metadata of one type is never taken for another: the stored bytes of a value, decoded
  under a different type number, are rejected whatever kind of value is expected.\<close>

theorem decode_checks_type:
  assumes "metadata_encode hv v n = (sz, stored)" and "0 < sz" and "sz \<le> int n" and "hv' \<noteq> hv"
  shows "metadata_decode L hv' stored k = Done None"
proof -
  have st: "stored = concat (value_chunks hv v)"
    by (rule encode_stored [OF assms(1)]) (use assms(2,3) in simp_all)
  have "value_chunks hv v \<noteq> []"
    using assms(1,2) by (auto simp: encode_emit finish_def MetadataWriter_def)
  then show ?thesis
    unfolding st by (rule decode_stream_wrong [OF _ assms(4)])
qed

theorem decode_checks_type_witness:
  "metadata_decode \<lparr>lim_planes = 9, lim_components = 9, lim_rects = 9\<rparr> 4
     (snd (metadata_encode 3 (MInt64 640) 100)) KInt64 = Done None"
proof -
  obtain sz stored where e: "metadata_encode 3 (MInt64 640) 100 = (sz, stored)"
    by fastforce
  have "sz = 77"
    using e emit_fresh(1) [of "value_chunks 3 (MInt64 640)" 100]
    by (simp add: encode_emit finish_def header_chunks_def string_chunks_def int_chunks_def
        header_name_def)
  then show ?thesis
    using decode_checks_type [OF e, of 4 "\<lparr>lim_planes = 9, lim_components = 9, lim_rects = 9\<rparr>" KInt64] e
    by simp
qed

text \<open>A plane count that no vector can hold, any negative one included, does not make the
  decoder report a bad value: reserving the vector throws, and nothing catches it.\<close>

theorem decode_planes_count_throws:
  assumes "lim_planes L < unat (count :: u64)"
  shows "metadata_decode L hv (concat (header_chunks hv) @ to_le count @ rest) KPlanes =
    Fault UncaughtException"
proof -
  let ?m = "concat (header_chunks hv) @ to_le count @ rest"
  have "readInt \<lparr>mSrc = to_le count @ rest, mOk = True\<rparr> =
      (Some count, \<lparr>mSrc = rest, mOk = True\<rparr> :: metadata_reader)"
    using readInt_to_le [of "\<lparr>mSrc = to_le count @ rest, mOk = True\<rparr>" count rest] by simp
  then have "decode_planes L hv ?m = Fault UncaughtException"
    unfolding decode_planes_def header_front
    using assms by (simp add: read_planes_def read_counted_def reserve_vec_def)
  then show ?thesis
    by (simp add: run_map_def)
qed

theorem decode_planes_count_throws_witness:
  "metadata_decode \<lparr>lim_planes = 2 ^ 60, lim_components = 9, lim_rects = 9\<rparr> 15
     (concat (header_chunks 15) @ to_le (0xFFFFFFFFFFFFFFFF :: u64) @ []) KPlanes = Fault UncaughtException"
  by (rule decode_planes_count_throws) simp

end
