(* ===== verification/Standard_Metadata.thy ===== *)
theory Standard_Metadata
  imports Metadata_Codec
begin

text \<open>
  The standard metadata types: the \<open>DEFINE_TYPE\<close> table of IMapperMetadataTypes.h and the dispatch
  \<open>invokeWithStandardMetadata\<close>, \<open>provideStandardMetadata\<close>, \<open>applyStandardMetadata\<close> over it.
\<close>

datatype standard_metadata_type =
    INVALID
  | BUFFER_ID
  | NAME
  | WIDTH
  | HEIGHT
  | LAYER_COUNT
  | PIXEL_FORMAT_REQUESTED
  | PIXEL_FORMAT_FOURCC
  | PIXEL_FORMAT_MODIFIER
  | USAGE
  | ALLOCATION_SIZE
  | PROTECTED_CONTENT
  | COMPRESSION
  | INTERLACED
  | CHROMA_SITING
  | PLANE_LAYOUTS
  | CROP
  | DATASPACE
  | BLEND_MODE
  | SMPTE2086
  | CTA861_3
  | SMPTE2094_10
  | SMPTE2094_40
  | STRIDE

text \<open>
  The AIDL enumeration is not in the repository: the numbers of its constants and the array
  \<open>ndk::internal::enum_values<StandardMetadataType>\<close> are a parameter.  The \<open>static_assert\<close> of
  \<open>DEFINE_TYPE\<close> is what the code checks of it at compile time.
\<close>

record smt_enum =
  smt_code :: "standard_metadata_type \<Rightarrow> u64"
  smt_values :: "standard_metadata_type list"

definition smt_ok :: "smt_enum \<Rightarrow> bool" where
  "smt_ok S \<longleftrightarrow>
     (\<forall>T. unat (smt_code S T) < length (smt_values S) \<and> smt_values S ! unat (smt_code S T) = T)"

text \<open>The documented numbering, for the witnesses.\<close>

definition android_smt :: smt_enum where
  "android_smt = (let vs = [INVALID, BUFFER_ID, NAME, WIDTH, HEIGHT, LAYER_COUNT,
       PIXEL_FORMAT_REQUESTED, PIXEL_FORMAT_FOURCC, PIXEL_FORMAT_MODIFIER, USAGE, ALLOCATION_SIZE,
       PROTECTED_CONTENT, COMPRESSION, INTERLACED, CHROMA_SITING, PLANE_LAYOUTS, CROP, DATASPACE,
       BLEND_MODE, SMPTE2086, CTA861_3, SMPTE2094_10, SMPTE2094_40, STRIDE]
     in \<lparr>smt_code = (\<lambda>T. of_nat (length (takeWhile (\<lambda>U. U \<noteq> T) vs))), smt_values = vs\<rparr>)"

lemma android_smt_ok [simp]: "smt_ok android_smt"
  unfolding smt_ok_def
proof
  fix T
  show "unat (smt_code android_smt T) < length (smt_values android_smt) \<and>
      smt_values android_smt ! unat (smt_code android_smt T) = T"
    by (cases T) (simp_all add: android_smt_def Let_def)
qed

text \<open>The value type of each standard type.\<close>

primrec std_kind :: "standard_metadata_type \<Rightarrow> metadata_kind option" where
  "std_kind INVALID = None"
| "std_kind BUFFER_ID = Some KInt64"
| "std_kind NAME = Some KString"
| "std_kind WIDTH = Some KInt64"
| "std_kind HEIGHT = Some KInt64"
| "std_kind LAYER_COUNT = Some KInt64"
| "std_kind PIXEL_FORMAT_REQUESTED = Some KEnum32"
| "std_kind PIXEL_FORMAT_FOURCC = Some KInt32"
| "std_kind PIXEL_FORMAT_MODIFIER = Some KInt64"
| "std_kind USAGE = Some KEnum64"
| "std_kind ALLOCATION_SIZE = Some KInt64"
| "std_kind PROTECTED_CONTENT = Some KInt64"
| "std_kind COMPRESSION = Some KExtendable"
| "std_kind INTERLACED = Some KExtendable"
| "std_kind CHROMA_SITING = Some KExtendable"
| "std_kind PLANE_LAYOUTS = Some KPlanes"
| "std_kind CROP = Some KRects"
| "std_kind DATASPACE = Some KEnum32"
| "std_kind BLEND_MODE = Some KEnum32"
| "std_kind SMPTE2086 = Some KSmpte2086"
| "std_kind CTA861_3 = Some KCta861_3"
| "std_kind SMPTE2094_10 = Some KBlob"
| "std_kind SMPTE2094_40 = Some KBlob"
| "std_kind STRIDE = Some KInt32"

text \<open>
  \<open>invokeWithStandardMetadata\<close> indexes its jump table with the type number; the springboard of
  \<open>INVALID\<close>, and a number outside the table, call nothing.
\<close>

definition invokeWithStandardMetadata :: "smt_enum \<Rightarrow> u64 \<Rightarrow> standard_metadata_type option" where
  "invokeWithStandardMetadata S type =
    (let index = unat type
     in if index < length (smt_values S)
        then (let T = smt_values S ! index in if T \<noteq> INVALID then Some T else None)
        else None)"

text \<open>
  \<open>provideStandardMetadata\<close> hands the callback an encoder bound to the type; the callback answers
  with a size and what was stored.  \<open>applyStandardMetadata\<close> hands it the decoded value.
\<close>

definition provideStandardMetadata ::
    "smt_enum \<Rightarrow> u64 \<Rightarrow> nat
      \<Rightarrow> (standard_metadata_type \<Rightarrow> (metadata_value \<Rightarrow> int \<times> bytes) \<Rightarrow> 's
            \<Rightarrow> ((int \<times> bytes) \<times> 's) run) \<Rightarrow> 's
      \<Rightarrow> ((int \<times> bytes) \<times> 's) run" where
  "provideStandardMetadata S type destBufferSize f s =
    (case invokeWithStandardMetadata S type of
       None \<Rightarrow> Done ((- AIMAPPER_ERROR_UNSUPPORTED, []), s)
     | Some T \<Rightarrow> f T (\<lambda>value. metadata_encode (smt_code S T) value destBufferSize) s)"

definition applyStandardMetadata ::
    "smt_enum \<Rightarrow> codec_limits \<Rightarrow> u64 \<Rightarrow> bytes
      \<Rightarrow> (standard_metadata_type \<Rightarrow> metadata_value \<Rightarrow> 's \<Rightarrow> (int \<times> 's) run) \<Rightarrow> 's
      \<Rightarrow> (int \<times> 's) run" where
  "applyStandardMetadata S L type metadata f s =
    (case invokeWithStandardMetadata S type of
       None \<Rightarrow> Done (AIMAPPER_ERROR_UNSUPPORTED, s)
     | Some T \<Rightarrow>
         (case std_kind T of
            None \<Rightarrow> Done (AIMAPPER_ERROR_UNSUPPORTED, s)
          | Some k \<Rightarrow>
              andThen (metadata_decode L (smt_code S T) metadata k) (\<lambda>value.
                case value of
                  None \<Rightarrow> Done (AIMAPPER_ERROR_BAD_VALUE, s)
                | Some v \<Rightarrow> f T v s)))"

lemma invoke_code:
  assumes "smt_ok S"
  shows "invokeWithStandardMetadata S (smt_code S T) = (if T = INVALID then None else Some T)"
  using assms by (simp add: invokeWithStandardMetadata_def smt_ok_def Let_def)

lemma smt_code_inj:
  assumes "smt_ok S"
  shows "smt_code S T = smt_code S U \<longleftrightarrow> T = U"
  using assms unfolding smt_ok_def by metis

lemma std_kind_None [simp]: "std_kind T = None \<longleftrightarrow> T = INVALID"
  by (cases T) simp_all

section \<open>Properties\<close>

text \<open>What one side provides the other side receives: when a provider answers a standard type
  with a value of that type and the encoding fits the buffer, applying the stored bytes under the
  same type number runs the receiver's callback on exactly that value; a number that names no type,
  or names \<open>INVALID\<close>, runs no callback on either side.\<close>

theorem provide_then_apply:
  assumes S: "smt_ok S" and T: "T \<noteq> INVALID"
    and p: "provideStandardMetadata S (smt_code S T) n (\<lambda>U enc t. Done (enc v, t)) s
              = Done ((sz, stored), s)"
    and sz: "0 \<le> sz" "sz \<le> int n" and k: "std_kind T = Some (kind_of v)" and ok: "value_ok L v"
  shows "applyStandardMetadata S L (smt_code S T) stored f t = f T v t \<and>
    applyStandardMetadata S L (smt_code S INVALID) stored f t = Done (AIMAPPER_ERROR_UNSUPPORTED, t)"
proof -
  have "metadata_encode (smt_code S T) v n = (sz, stored)"
    using p T by (simp add: provideStandardMetadata_def invoke_code [OF S])
  then have "metadata_decode L (smt_code S T) stored (kind_of v) = Done (Some v)"
    using sz ok encode_stored decode_stream by metis
  then show ?thesis
    using T k by (simp add: applyStandardMetadata_def invoke_code [OF S])
qed

theorem provide_then_apply_witness:
  "\<exists>stored. applyStandardMetadata android_smt \<lparr>lim_planes = 1, lim_components = 1, lim_rects = 1\<rparr>
     (smt_code android_smt WIDTH) stored (\<lambda>T v t. Done (if v = MInt64 640 then 0 else 1, t)) (3 :: nat)
     = Done (0, 3)"
proof -
  let ?c = "smt_code android_smt WIDTH" and ?v = "MInt64 640"
  obtain sz stored where e: "metadata_encode ?c ?v 100 = (sz, stored)"
    by fastforce
  have sz: "sz = 77"
    using e emit_fresh(1) [of "value_chunks ?c ?v" 100]
    by (simp add: encode_emit finish_def header_chunks_def string_chunks_def int_chunks_def
        header_name_def)
  have p: "provideStandardMetadata android_smt ?c 100 (\<lambda>U enc t. Done (enc ?v, t)) (3 :: nat)
      = Done ((sz, stored), 3)"
    using e by (simp add: provideStandardMetadata_def invoke_code)
  show ?thesis
    using provide_then_apply [OF android_smt_ok _ p, of "\<lparr>lim_planes = 1, lim_components = 1,
        lim_rects = 1\<rparr>" "\<lambda>T v t. Done (if v = MInt64 640 then 0 else 1, t)" 3] sz by auto
qed

end
