(* ===== verification/Plane_Layouts.thy ===== *)
theory Plane_Layouts
  imports Gbm_Header Metadata_Codec
begin

text \<open>
  The plane layouts the Stable-C mapper reports: \<open>GetPlaneLayoutsMap\<close> and \<open>getPlaneLayouts\<close> of
  src/src/mapper_stablec/Mapper.cpp, one definition per row of the table.
\<close>

text \<open>
  The component types come from the gralloctypes library: a parameter.  Fields the table leaves out
  are zero.
\<close>

record component_types =
  Type_Y :: ExtendableType
  Type_CB :: ExtendableType
  Type_CR :: ExtendableType
  Type_R :: ExtendableType
  Type_G :: ExtendableType
  Type_B :: ExtendableType
  Type_A :: ExtendableType

definition plane_of :: "(ExtendableType \<times> u64 \<times> u64) list \<Rightarrow> u64 \<Rightarrow> u64 \<Rightarrow> u64 \<Rightarrow> PlaneLayout" where
  "plane_of comps increment hsub vsub =
     \<lparr>components = map (\<lambda>(ty, off, sz). \<lparr>plc_type = ty, offsetInBits = off, sizeInBits = sz\<rparr>) comps,
      offsetInBytes = 0, sampleIncrementInBits = increment, strideInBytes = 0, widthInSamples = 0,
      heightInSamples = 0, totalSizeInBytes = 0, horizontalSubsampling = hsub,
      verticalSubsampling = vsub\<rparr>"

section \<open>The rows\<close>

definition layout_ABGR8888 :: "component_types \<Rightarrow> PlaneLayout list" where
  "layout_ABGR8888 T =
    [plane_of [(Type_R T, 0, 8), (Type_G T, 8, 8), (Type_B T, 16, 8), (Type_A T, 24, 8)] 32 1 1]"

definition layout_ABGR2101010 :: "component_types \<Rightarrow> PlaneLayout list" where
  "layout_ABGR2101010 T =
    [plane_of [(Type_R T, 0, 10), (Type_G T, 10, 10), (Type_B T, 20, 10), (Type_A T, 30, 2)] 32 1 1]"

definition layout_ABGR16161616F :: "component_types \<Rightarrow> PlaneLayout list" where
  "layout_ABGR16161616F T =
    [plane_of [(Type_R T, 0, 16), (Type_G T, 16, 16), (Type_B T, 32, 16), (Type_A T, 48, 16)] 64 1 1]"

definition layout_ARGB8888 :: "component_types \<Rightarrow> PlaneLayout list" where
  "layout_ARGB8888 T =
    [plane_of [(Type_B T, 0, 8), (Type_G T, 8, 8), (Type_R T, 16, 8), (Type_A T, 24, 8)] 32 1 1]"

definition layout_NV12 :: "component_types \<Rightarrow> PlaneLayout list" where
  "layout_NV12 T =
    [plane_of [(Type_Y T, 0, 8)] 8 1 1,
     plane_of [(Type_CB T, 0, 8), (Type_CR T, 8, 8)] 16 2 2]"

definition layout_NV21 :: "component_types \<Rightarrow> PlaneLayout list" where
  "layout_NV21 T =
    [plane_of [(Type_Y T, 0, 8)] 8 1 1,
     plane_of [(Type_CR T, 0, 8), (Type_CB T, 8, 8)] 16 2 2]"

definition layout_R8 :: "component_types \<Rightarrow> PlaneLayout list" where
  "layout_R8 T =
    [plane_of [(Type_R T, 0, 8)] 8 1 1]"

definition layout_R16 :: "component_types \<Rightarrow> PlaneLayout list" where
  "layout_R16 T =
    [plane_of [(Type_R T, 0, 16)] 16 1 1]"

definition layout_RGB565 :: "component_types \<Rightarrow> PlaneLayout list" where
  "layout_RGB565 T =
    [plane_of [(Type_B T, 0, 5), (Type_G T, 5, 6), (Type_R T, 11, 5)] 16 1 1]"

definition layout_BGR888 :: "component_types \<Rightarrow> PlaneLayout list" where
  "layout_BGR888 T =
    [plane_of [(Type_R T, 0, 8), (Type_G T, 8, 8), (Type_B T, 16, 8)] 24 1 1]"

definition layout_XBGR8888 :: "component_types \<Rightarrow> PlaneLayout list" where
  "layout_XBGR8888 T =
    [plane_of [(Type_R T, 0, 8), (Type_G T, 8, 8), (Type_B T, 16, 8)] 32 1 1]"

definition layout_YVU420 :: "component_types \<Rightarrow> PlaneLayout list" where
  "layout_YVU420 T =
    [plane_of [(Type_Y T, 0, 8)] 8 1 1,
     plane_of [(Type_CR T, 0, 8)] 8 2 2,
     plane_of [(Type_CB T, 0, 8)] 8 2 2]"

definition layout_RGBX8888 :: "component_types \<Rightarrow> PlaneLayout list" where
  "layout_RGBX8888 T =
    [plane_of [(Type_B T, 16, 8), (Type_G T, 8, 8), (Type_R T, 0, 8)] 32 1 1]"

definition layout_XRGB8888 :: "component_types \<Rightarrow> PlaneLayout list" where
  "layout_XRGB8888 T =
    [plane_of [(Type_B T, 16, 8), (Type_G T, 8, 8), (Type_R T, 0, 8)] 32 1 1]"

section \<open>The table\<close>

definition GetPlaneLayoutsMap :: "component_types \<Rightarrow> (u32 \<times> PlaneLayout list) list" where
  "GetPlaneLayoutsMap T =
    [(GBM_FORMAT_ABGR8888, layout_ABGR8888 T),
     (GBM_FORMAT_ABGR2101010, layout_ABGR2101010 T),
     (GBM_FORMAT_ABGR16161616F, layout_ABGR16161616F T),
     (GBM_FORMAT_ARGB8888, layout_ARGB8888 T),
     (GBM_FORMAT_NV12, layout_NV12 T),
     (GBM_FORMAT_NV21, layout_NV21 T),
     (GBM_FORMAT_R8, layout_R8 T),
     (GBM_FORMAT_R16, layout_R16 T),
     (GBM_FORMAT_RGB565, layout_RGB565 T),
     (GBM_FORMAT_BGR888, layout_BGR888 T),
     (GBM_FORMAT_XBGR8888, layout_XBGR8888 T),
     (GBM_FORMAT_YVU420, layout_YVU420 T),
     (GBM_FORMAT_RGBX8888, layout_RGBX8888 T),
     (GBM_FORMAT_XRGB8888, layout_XRGB8888 T)]"

text \<open>The result code and the layouts stored in the out vector, \<open>None\<close> when nothing is stored.\<close>

definition getPlaneLayouts :: "component_types \<Rightarrow> u32 \<Rightarrow> c_int \<times> PlaneLayout list option" where
  "getPlaneLayouts T gbmFormat =
    (case map_of (GetPlaneLayoutsMap T) gbmFormat of
       None \<Rightarrow> (- EINVAL, None)
     | Some planes \<Rightarrow> (0, Some planes))"

end
