(* ===== verification/Stablec_Mapper.thy ===== *)
theory Stablec_Mapper
  imports Gm_Lock Standard_Metadata Plane_Layouts
begin

text \<open>
  The Stable-C mapper \<open>GbmMesaMapperV5\<close> of src/src/mapper_stablec/Mapper.cpp: buffer import and
  release, CPU locks, standard metadata, and the provider of
  IMapperProvider.h that loads it.  The interface passes non-null out pointers (\<open>_Nonnull\<close>).
\<close>

section \<open>Parameters and state\<close>

text \<open>
  Constants and layouts of the AIDL and gralloctypes libraries, which are not in the repository:
  the enumeration of standard types, the well-known values, and \<open>sizeof\<close> and the object
  representation of the two structs that \<open>setStandardMetadata\<close> copies raw.
\<close>

record mapper_consts =
  mc_smt :: smt_enum
  mc_components :: component_types
  BufferUsage_PROTECTED :: u64
  BlendMode_NONE :: u32
  Dataspace_UNKNOWN :: u32
  Compression_None :: ExtendableType
  Interlaced_None :: ExtendableType
  ChromaSiting_None :: ExtendableType
  sizeof_Smpte2086 :: nat
  load_Smpte2086 :: "bytes \<Rightarrow> Smpte2086"
  sizeof_Cta861_3 :: nat
  load_Cta861_3 :: "bytes \<Rightarrow> Cta861_3"

text \<open>\<open>struct gralloc_metadata\<close> of Mapper.h.\<close>

record gralloc_metadata =
  md_prime_fd :: c_int
  blend_mode :: u32
  dataspace :: u32
  md_cta861_3 :: Cta861_3
  md_smpte2086 :: Smpte2086

text \<open>
  A process with the mapper loaded: the library's state, \<open>mInitialized\<close>, and
  \<open>gralloc_metadata_prime_fd_map\<close>; each metadata object is owned by its map entry alone, so the
  pointer is replaced by the object.
\<close>

record 'e mapper =
  gm :: "'e proc"
  mInitialized :: bool
  metadata_map :: "c_int \<rightharpoonup> gralloc_metadata"

definition STANDARD_METADATA_NAME :: bytes where
  "STANDARD_METADATA_NAME = map of_char ''android.hardware.graphics.common.StandardMetadataType''"

record AIMapper_MetadataType =
  mt_name :: bytes
  mt_value :: u64

definition isStandardMetadata :: "AIMapper_MetadataType \<Rightarrow> bool" where
  "isStandardMetadata metadataType \<longleftrightarrow> STANDARD_METADATA_NAME = mt_name metadataType"

definition zero_cta861_3 :: Cta861_3 where
  "zero_cta861_3 = \<lparr>maxContentLightLevel = 0, maxFrameAverageLightLevel = 0\<rparr>"

definition zero_smpte2086 :: Smpte2086 where
  "zero_smpte2086 = (let z = \<lparr>xy_x = 0, xy_y = 0\<rparr>
     in \<lparr>primaryRed = z, primaryGreen = z, primaryBlue = z, whitePoint = z, maxLuminance = 0,
         minLuminance = 0\<rparr>)"

definition createMetadata ::
    "mapper_consts \<Rightarrow> gralloc_handle_t \<Rightarrow> 'e mapper \<Rightarrow> gralloc_metadata \<times> 'e mapper" where
  "createMetadata C handle m =
    (case metadata_map m (prime_fd handle) of
       Some md \<Rightarrow> (md, m)
     | None \<Rightarrow>
         let md = \<lparr>md_prime_fd = prime_fd handle, blend_mode = BlendMode_NONE C,
                   dataspace = Dataspace_UNKNOWN C, md_cta861_3 = zero_cta861_3,
                   md_smpte2086 = zero_smpte2086\<rparr>
         in (md, m\<lparr>metadata_map := (metadata_map m)(prime_fd handle \<mapsto> md)\<rparr>))"

section \<open>Construction and loading\<close>

definition GbmMesaMapperV5 :: "'e gbm_env \<Rightarrow> 'e proc \<Rightarrow> 'e mapper" where
  "GbmMesaMapperV5 P s =
    (let (fd, s) = gralloc_gbm_device_init P s
     in \<lparr>gm = s, mInitialized = is_pos fd, metadata_map = Map.empty\<rparr>)"

text \<open>
  \<open>IMapperProvider::load\<close>: the once-flag of this provider, the process-wide instance pointer (here
  the number of the provider that set it), and the implementation once it exists.  A second provider
  in the process is fatal.
\<close>

record 'e provider =
  mLoadOnceFlag :: bool
  sIMapperInstance :: "nat option"
  mImpl :: "'e mapper option"

definition load :: "'e gbm_env \<Rightarrow> nat \<Rightarrow> 'e proc \<Rightarrow> 'e provider \<Rightarrow> (int \<times> 'e provider) run" where
  "load P this s p =
    (if mLoadOnceFlag p then Done (AIMAPPER_ERROR_NONE, p)
     else if sIMapperInstance p \<noteq> None then Fault AssertFail
     else Done (AIMAPPER_ERROR_NONE,
                p\<lparr>sIMapperInstance := Some this, mImpl := Some (GbmMesaMapperV5 P s),
                  mLoadOnceFlag := True\<rparr>))"

section \<open>Buffers\<close>

definition importBuffer ::
    "'e gbm_env \<Rightarrow> ptr \<Rightarrow> 'e mapper \<Rightarrow> ((int \<times> ptr option) \<times> 'e mapper) run" where
  "importBuffer P bufferHandle m =
    (if \<not> mInitialized m then Done ((AIMAPPER_ERROR_NO_RESOURCES, None), m)
     else if bufferHandle = 0 then Done ((AIMAPPER_ERROR_BAD_BUFFER, None), m)
     else andThen (load_native bufferHandle (gm m)) (\<lambda>h.
       if numFds h = 0 then Done ((AIMAPPER_ERROR_BAD_BUFFER, None), m)
       else andThen (native_handle_clone P bufferHandle (gm m)) (\<lambda>(imported, s).
         if imported = 0 then Done ((AIMAPPER_ERROR_NO_RESOURCES, None), m\<lparr>gm := s\<rparr>)
         else andThen (gralloc_gm_buffer_import P imported s) (\<lambda>(ret, s).
           if ret \<noteq> 0
           then andThen (native_handle_close imported s) (\<lambda>s.
                andThen (native_handle_delete imported s) (\<lambda>s.
                  Done ((AIMAPPER_ERROR_NO_RESOURCES, None), m\<lparr>gm := s\<rparr>)))
           else Done ((AIMAPPER_ERROR_NONE, Some imported), m\<lparr>gm := s\<rparr>)))))"

definition freeBuffer :: "'e gbm_env \<Rightarrow> ptr \<Rightarrow> 'e mapper \<Rightarrow> (int \<times> 'e mapper) run" where
  "freeBuffer P buffer m =
    (if \<not> mInitialized m then Done (AIMAPPER_ERROR_NO_RESOURCES, m)
     else if buffer = 0 then Done (AIMAPPER_ERROR_BAD_BUFFER, m)
     else andThen (load_handle buffer (gm m)) (\<lambda>hnd.
       let m = (if metadata_map m (prime_fd hnd) \<noteq> None
                then m\<lparr>metadata_map := erase (prime_fd hnd) (metadata_map m)\<rparr> else m)
       in andThen (gralloc_gm_buffer_free P buffer (gm m)) (\<lambda>(ret, s).
            if ret \<noteq> 0 then Done (AIMAPPER_ERROR_BAD_BUFFER, m\<lparr>gm := s\<rparr>)
            else andThen (native_handle_close buffer s) (\<lambda>s.
                 andThen (native_handle_delete buffer s) (\<lambda>s.
                   Done (AIMAPPER_ERROR_NONE, m\<lparr>gm := s\<rparr>))))))"

text \<open>The sizes stored through the out pointers, \<open>None\<close> when nothing is.\<close>

definition getTransportSize ::
    "ptr \<Rightarrow> 'e mapper \<Rightarrow> ((int \<times> (nat \<times> nat) option) \<times> 'e mapper) run" where
  "getTransportSize bufferHandle m =
    (if \<not> mInitialized m then Done ((AIMAPPER_ERROR_NO_RESOURCES, None), m)
     else if bufferHandle = 0 then Done ((AIMAPPER_ERROR_BAD_BUFFER, None), m)
     else andThen (load_native bufferHandle (gm m)) (\<lambda>h.
       Done ((AIMAPPER_ERROR_NONE, Some (numFds h, numInts h)), m)))"

text \<open>
  \<open>lock\<close>: \<open>unique_fd\<close> owns the acquire fence and closes it on every way out, unless it is -1; nothing
  waits for it.
\<close>

definition close_fence :: "c_int \<Rightarrow> 'e mapper \<Rightarrow> 'e mapper" where
  "close_fence fence m = (if fence = - 1 then m else m\<lparr>gm := close_fd fence (gm m)\<rparr>)"

definition lock ::
    "'e gbm_env \<Rightarrow> ptr \<Rightarrow> u64 \<Rightarrow> c_int \<Rightarrow> 'e mapper \<Rightarrow> ((int \<times> u64 option) \<times> 'e mapper) run" where
  "lock P bufferHandle cpuUsage acquireFence m =
    (if \<not> mInitialized m
     then Done ((AIMAPPER_ERROR_NO_RESOURCES, None), close_fence acquireFence m)
     else if bufferHandle = 0
     then Done ((AIMAPPER_ERROR_BAD_BUFFER, None), close_fence acquireFence m)
     else if cpuUsage = 0 then Done ((AIMAPPER_ERROR_BAD_VALUE, None), close_fence acquireFence m)
     else let usage = ucast cpuUsage
       in andThen (gralloc_gbm_bo_lock P bufferHandle usage (gm m)) (\<lambda>((ret, outData), s).
            if ret \<noteq> 0
            then Done ((AIMAPPER_ERROR_BAD_VALUE, outData), close_fence acquireFence (m\<lparr>gm := s\<rparr>))
            else Done ((AIMAPPER_ERROR_NONE, outData), close_fence acquireFence (m\<lparr>gm := s\<rparr>))))"

definition unlock :: "'e gbm_env \<Rightarrow> ptr \<Rightarrow> 'e mapper \<Rightarrow> ((int \<times> c_int option) \<times> 'e mapper) run" where
  "unlock P buffer m =
    (if \<not> mInitialized m then Done ((AIMAPPER_ERROR_NO_RESOURCES, None), m)
     else if buffer = 0 then Done ((AIMAPPER_ERROR_BAD_BUFFER, None), m)
     else andThen (gralloc_gbm_bo_unlock P buffer (gm m)) (\<lambda>(ret, s).
       if ret \<noteq> 0 then Done ((AIMAPPER_ERROR_BAD_BUFFER, None), m\<lparr>gm := s\<rparr>)
       else Done ((AIMAPPER_ERROR_NONE, Some (- 1)), m\<lparr>gm := s\<rparr>)))"

definition flushLockedBuffer :: "ptr \<Rightarrow> 'e mapper \<Rightarrow> int \<times> 'e mapper" where
  "flushLockedBuffer buffer m = (AIMAPPER_ERROR_NONE, m)"

definition rereadLockedBuffer :: "ptr \<Rightarrow> 'e mapper \<Rightarrow> int \<times> 'e mapper" where
  "rereadLockedBuffer buffer m = (AIMAPPER_ERROR_NONE, m)"

text \<open>\<open>getReservedRegion\<close>: a null region of size zero.\<close>

definition getReservedRegion :: "ptr \<Rightarrow> 'e mapper \<Rightarrow> (int \<times> (ptr \<times> u64) option) \<times> 'e mapper" where
  "getReservedRegion buffer m =
    (if \<not> mInitialized m then ((AIMAPPER_ERROR_NO_RESOURCES, None), m)
     else if buffer = 0 then ((AIMAPPER_ERROR_BAD_BUFFER, None), m)
     else ((AIMAPPER_ERROR_NONE, Some (0, 0)), m))"

text \<open>The dump functions build a callback and never call it.\<close>

definition dumpBuffer :: "ptr \<Rightarrow> 'e mapper \<Rightarrow> int \<times> 'e mapper" where
  "dumpBuffer bufferHandle m =
    (if \<not> mInitialized m then (AIMAPPER_ERROR_NO_RESOURCES, m)
     else if bufferHandle = 0 then (AIMAPPER_ERROR_BAD_BUFFER, m)
     else (AIMAPPER_ERROR_NONE, m))"

definition dumpAllBuffers :: "'e mapper \<Rightarrow> int \<times> 'e mapper" where
  "dumpAllBuffers m =
    (if \<not> mInitialized m then (AIMAPPER_ERROR_NO_RESOURCES, m) else (AIMAPPER_ERROR_NONE, m))"

section \<open>Metadata\<close>

text \<open>The plane layouts of a buffer: the table's row with the sizes of the handle filled in.\<close>

definition fill_plane :: "gralloc_handle_t \<Rightarrow> PlaneLayout \<Rightarrow> PlaneLayout" where
  "fill_plane hnd planeLayout = planeLayout\<lparr>
     offsetInBytes := 0, strideInBytes := ucast (h_stride hnd),
     totalSizeInBytes := ucast (h_stride hnd * DIV_ROUND_UP (h_height hnd) 1),
     widthInSamples :=
       word_of_int (uint (h_width hnd) sdiv sint (horizontalSubsampling planeLayout)),
     heightInSamples :=
       word_of_int (uint (h_height hnd) sdiv sint (verticalSubsampling planeLayout))\<rparr>"

definition handle_plane_layouts :: "hal \<Rightarrow> mapper_consts \<Rightarrow> gralloc_handle_t \<Rightarrow> PlaneLayout list" where
  "handle_plane_layouts K C hnd =
    (case getPlaneLayouts (mc_components C) (gralloc_gm_android_format_to_gbm_format K (h_format hnd)) of
       (_, None) \<Rightarrow> []
     | (_, Some planeLayouts) \<Rightarrow> map (fill_plane hnd) planeLayouts)"

definition handle_crop :: "gralloc_handle_t \<Rightarrow> Rect list" where
  "handle_crop hnd =
     [\<lparr>rect_left = 0, rect_top = 0, rect_right = h_width hnd, rect_bottom = h_height hnd\<rparr>]"

definition allocation_size :: "ptr \<Rightarrow> 'e proc \<Rightarrow> u64 run" where
  "allocation_size handle s =
    (case gralloc_get_gbm_bo_from_handle handle s of
       None \<Rightarrow> Done 0
     | Some b \<Rightarrow> andThen (load_bo b s) (\<lambda>bo. Done (ucast (bo_stride bo * bo_height bo))))"

text \<open>
  The template \<open>getStandardMetadata<T>\<close>: what it passes to \<open>provide\<close>, \<open>None\<close> where it returns
  \<open>AIMAPPER_ERROR_UNSUPPORTED\<close>.  Width and height go through \<open>int32_t\<close> into a \<open>uint64_t\<close>.
\<close>

definition standard_value ::
    "'e gbm_env \<Rightarrow> mapper_consts \<Rightarrow> ptr \<Rightarrow> gralloc_handle_t \<Rightarrow> gralloc_metadata \<Rightarrow> 'e proc
      \<Rightarrow> standard_metadata_type \<Rightarrow> metadata_value option run" where
  "standard_value P C handle hnd md s T =
    (case T of
       BUFFER_ID \<Rightarrow> Done (Some (MInt64 handle))
     | WIDTH \<Rightarrow> Done (Some (MInt64 (scast (h_width hnd))))
     | HEIGHT \<Rightarrow> Done (Some (MInt64 (scast (h_height hnd))))
     | LAYER_COUNT \<Rightarrow> Done (Some (MInt64 1))
     | PIXEL_FORMAT_REQUESTED \<Rightarrow> Done (Some (MEnum32 (h_format hnd)))
     | PIXEL_FORMAT_FOURCC \<Rightarrow>
         let fourcc_format = gralloc_gm_android_format_to_gbm_format (hal_of P) (h_format hnd)
         in Done (if fourcc_format > 0 then Some (MInt32 fourcc_format) else None)
     | PIXEL_FORMAT_MODIFIER \<Rightarrow> Done (Some (MInt64 (h_modifier hnd)))
     | USAGE \<Rightarrow> Done (Some (MEnum64 (ucast (h_usage hnd))))
     | ALLOCATION_SIZE \<Rightarrow> andThen (allocation_size handle s) (\<lambda>size. Done (Some (MInt64 size)))
     | PROTECTED_CONTENT \<Rightarrow>
         Done (Some (MInt64 (if ucast (h_usage hnd) AND BufferUsage_PROTECTED C \<noteq> 0 then 1 else 0)))
     | COMPRESSION \<Rightarrow> Done (Some (MExtendable (Compression_None C)))
     | INTERLACED \<Rightarrow> Done (Some (MExtendable (Interlaced_None C)))
     | CHROMA_SITING \<Rightarrow> Done (Some (MExtendable (ChromaSiting_None C)))
     | PLANE_LAYOUTS \<Rightarrow> Done (Some (MPlanes (handle_plane_layouts (hal_of P) C hnd)))
     | CROP \<Rightarrow> Done (Some (MRects (handle_crop hnd)))
     | DATASPACE \<Rightarrow> Done (Some (MEnum32 (dataspace md)))
     | BLEND_MODE \<Rightarrow> Done (Some (MEnum32 (blend_mode md)))
     | SMPTE2086 \<Rightarrow> Done (Some (MSmpte2086 (Some (md_smpte2086 md))))
     | CTA861_3 \<Rightarrow> Done (Some (MCta861_3 (Some (md_cta861_3 md))))
     | STRIDE \<Rightarrow>
         Done (Some (MInt32 (gralloc_gm_android_caculate_pixel_stride (hal_of P) (h_format hnd)
                               (h_stride hnd))))
     | _ \<Rightarrow> Done None)"

definition get_standard ::
    "'e gbm_env \<Rightarrow> mapper_consts \<Rightarrow> ptr \<Rightarrow> standard_metadata_type \<Rightarrow> (metadata_value \<Rightarrow> int \<times> bytes)
      \<Rightarrow> 'e mapper \<Rightarrow> ((int \<times> bytes) \<times> 'e mapper) run" where
  "get_standard P C handle T provide m =
     andThen (load_handle handle (gm m)) (\<lambda>hnd.
       let (md, m) = createMetadata C hnd m
       in andThen (standard_value P C handle hnd md (gm m) T) (\<lambda>value.
            case value of
              None \<Rightarrow> Done ((AIMAPPER_ERROR_UNSUPPORTED, []), m)
            | Some v \<Rightarrow> Done (provide v, m)))"

definition getStandardMetadata ::
    "'e gbm_env \<Rightarrow> mapper_consts \<Rightarrow> ptr \<Rightarrow> u64 \<Rightarrow> nat \<Rightarrow> 'e mapper
      \<Rightarrow> ((int \<times> bytes) \<times> 'e mapper) run" where
  "getStandardMetadata P C bufferHandle standardType outDataSize m =
    (if \<not> mInitialized m then Done ((AIMAPPER_ERROR_NO_RESOURCES, []), m)
     else if bufferHandle = 0 then Done ((AIMAPPER_ERROR_BAD_BUFFER, []), m)
     else provideStandardMetadata (mc_smt C) standardType outDataSize
            (get_standard P C bufferHandle) m)"

definition getMetadata ::
    "'e gbm_env \<Rightarrow> mapper_consts \<Rightarrow> ptr \<Rightarrow> AIMapper_MetadataType \<Rightarrow> nat \<Rightarrow> 'e mapper
      \<Rightarrow> ((int \<times> bytes) \<times> 'e mapper) run" where
  "getMetadata P C buffer metadataType outDataSize m =
    (if isStandardMetadata metadataType
     then getStandardMetadata P C buffer (mt_value metadataType) outDataSize m
     else Done ((AIMAPPER_ERROR_UNSUPPORTED, []), m))"

text \<open>
  \<open>setStandardMetadata\<close>: after \<open>createMetadata\<close>, the four settable types copy the caller's bytes as
  the raw object; \<open>upd\<close> stores back through the pointer into the map.
\<close>

definition update_metadata ::
    "c_int \<Rightarrow> (gralloc_metadata \<Rightarrow> gralloc_metadata) \<Rightarrow> 'e mapper \<Rightarrow> 'e mapper" where
  "update_metadata fd upd m =
     m\<lparr>metadata_map := (metadata_map m)(fd := map_option upd (metadata_map m fd))\<rparr>"

definition setStandardMetadata ::
    "mapper_consts \<Rightarrow> ptr \<Rightarrow> u64 \<Rightarrow> bytes \<Rightarrow> 'e mapper \<Rightarrow> (int \<times> 'e mapper) run" where
  "setStandardMetadata C buffer standardMetadataType metadata m =
    (if \<not> mInitialized m then Done (AIMAPPER_ERROR_NO_RESOURCES, m)
     else if buffer = 0 then Done (AIMAPPER_ERROR_BAD_BUFFER, m)
     else andThen (load_handle buffer (gm m)) (\<lambda>handle.
       let (_, m) = createMetadata C handle m;
           code = smt_code (mc_smt C);
           fd = prime_fd handle
       in if standardMetadataType = code DATASPACE
          then (if length metadata \<noteq> 4 then Done (AIMAPPER_ERROR_BAD_VALUE, m)
                else Done (AIMAPPER_ERROR_NONE,
                           update_metadata fd (\<lambda>md. md\<lparr>dataspace := of_le metadata\<rparr>) m))
          else if standardMetadataType = code BLEND_MODE
          then (if length metadata \<noteq> 4 then Done (AIMAPPER_ERROR_BAD_VALUE, m)
                else Done (AIMAPPER_ERROR_NONE,
                           update_metadata fd (\<lambda>md. md\<lparr>blend_mode := of_le metadata\<rparr>) m))
          else if standardMetadataType = code SMPTE2086
          then (if length metadata \<noteq> sizeof_Smpte2086 C then Done (AIMAPPER_ERROR_BAD_VALUE, m)
                else Done (AIMAPPER_ERROR_NONE,
                           update_metadata fd
                             (\<lambda>md. md\<lparr>md_smpte2086 := load_Smpte2086 C metadata\<rparr>) m))
          else if standardMetadataType = code CTA861_3
          then (if length metadata \<noteq> sizeof_Cta861_3 C then Done (AIMAPPER_ERROR_BAD_VALUE, m)
                else Done (AIMAPPER_ERROR_NONE,
                           update_metadata fd (\<lambda>md. md\<lparr>md_cta861_3 := load_Cta861_3 C metadata\<rparr>) m))
          else if standardMetadataType \<in> set (map code [BUFFER_ID, NAME, WIDTH, HEIGHT, LAYER_COUNT,
                    PIXEL_FORMAT_REQUESTED, USAGE])
          then Done (AIMAPPER_ERROR_BAD_VALUE, m)
          else Done (AIMAPPER_ERROR_UNSUPPORTED, m)))"

definition setMetadata ::
    "mapper_consts \<Rightarrow> ptr \<Rightarrow> AIMapper_MetadataType \<Rightarrow> bytes \<Rightarrow> 'e mapper \<Rightarrow> (int \<times> 'e mapper) run" where
  "setMetadata C buffer metadataType metadata m =
    (if \<not> isStandardMetadata metadataType then Done (AIMAPPER_ERROR_UNSUPPORTED, m)
     else setStandardMetadata C buffer (mt_value metadataType) metadata m)"

record AIMapper_MetadataTypeDescription =
  desc_type :: AIMapper_MetadataType
  description :: "bytes option"
  isGettable :: bool
  isSettable :: bool

definition describeStandard ::
    "mapper_consts \<Rightarrow> standard_metadata_type \<Rightarrow> bool \<Rightarrow> bool \<Rightarrow> AIMapper_MetadataTypeDescription" where
  "describeStandard C type gettable settable =
     \<lparr>desc_type = \<lparr>mt_name = STANDARD_METADATA_NAME, mt_value = smt_code (mc_smt C) type\<rparr>,
      description = None, isGettable = gettable, isSettable = settable\<rparr>"

definition listSupportedMetadataTypes ::
    "mapper_consts \<Rightarrow> int \<times> AIMapper_MetadataTypeDescription list" where
  "listSupportedMetadataTypes C =
     (AIMAPPER_ERROR_NONE,
      [describeStandard C BUFFER_ID True False, describeStandard C NAME False False,
       describeStandard C WIDTH True False, describeStandard C HEIGHT True False,
       describeStandard C LAYER_COUNT True False,
       describeStandard C PIXEL_FORMAT_REQUESTED True False, describeStandard C USAGE True False,
       describeStandard C ALLOCATION_SIZE True False, describeStandard C STRIDE True False,
       describeStandard C PROTECTED_CONTENT False False])"

section \<open>Import and free\<close>

lemma clone_cases:
  assumes "native_handle_clone P p s = Done (q, t)" and "handle_contract P"
  shows "(q = 0 \<and> (\<exists>e. t = s\<lparr>env := e\<rparr>)) \<or>
    (q \<noteq> 0 \<and> q \<notin> dom (handles s) \<and>
     (\<exists>e h'. t = s\<lparr>env := e, handles := (handles s)(q \<mapsto> h'),
          open_fds := open_fds s \<union> set (filter (\<lambda>fd. \<not> is_neg fd) (handle_fds h'))\<rparr> \<and>
        set (handle_fds h') \<inter> open_fds s = {}))"
proof -
  obtain h where h: "load_native p s = Done h"
    using assms(1) by (auto simp: native_handle_clone_def andThen_eq_Done)
  obtain res e where cl: "p_native_handle_clone P (dom (handles s)) (open_fds s) h (env s) = (res, e)"
    by fastforce
  show ?thesis
  proof (cases res)
    case None
    then show ?thesis
      using assms(1) h cl by (auto simp: native_handle_clone_def)
  next
    case (Some x)
    then obtain q' h' where x: "res = Some (q', h')" by (cases x) auto
    then have "q = q'" and "t = s\<lparr>env := e, handles := (handles s)(q \<mapsto> h'),
        open_fds := open_fds s \<union> set (filter (\<lambda>fd. \<not> is_neg fd) (handle_fds h'))\<rparr>"
      using assms(1) h cl by (auto simp: native_handle_clone_def)
    then show ?thesis
      using handle_contract_clone [OF assms(2) cl [unfolded x]] by blast
  qed
qed

lemma reg_inv_new_handle:
  assumes "reg_inv s" and "q \<notin> dom (handles s)"
  shows "reg_inv (s\<lparr>env := e, handles := (handles s)(q \<mapsto> h), open_fds := F\<rparr>)"
proof -
  have "q \<notin> dom (gbm_bo_handle_map s)"
  proof
    assume "q \<in> dom (gbm_bo_handle_map s)"
    then obtain b where "gbm_bo_handle_map s q = Some b" by auto
    with assms(1) obtain h' where "load_handle q s = Done h'"
      by (rule reg_invD)
    with assms(2) show False
      by (auto simp: load_handle_Done)
  qed
  then show ?thesis
    using assms(1) by (subst reg_inv_cong [of _ s]) auto
qed

text \<open>Closing and deleting a fresh clone undoes the clone.\<close>

lemma close_delete:
  assumes "handles s q = Some h" and "q \<noteq> 0"
  shows "andThen (native_handle_close q s) (\<lambda>s. native_handle_delete q s) =
    Done (s\<lparr>open_fds := open_fds s - set (handle_fds h), handles := erase q (handles s)\<rparr>)"
  using assms by (simp add: native_handle_close_def native_handle_delete_def load_native_def)

lemma undo_clone:
  assumes "q \<notin> dom M" and "set fds \<inter> F = {}"
  shows "erase q (M(q \<mapsto> h)) = M" and "F \<union> set (filter Q fds) - set fds = F"
  using assms by (auto simp: erase_def)

definition same_buffers :: "'e proc \<Rightarrow> 'e proc \<Rightarrow> bool" where
  "same_buffers s t \<longleftrightarrow> gbm_bo_handle_map t = gbm_bo_handle_map s \<and> bos t = bos s \<and>
     handles t = handles s \<and> open_fds t = open_fds s"

text \<open>The state after a successful import: one new handle with its own descriptors, registered.\<close>

definition imported_by_mapper :: "'e proc \<Rightarrow> ptr \<Rightarrow> 'e proc \<Rightarrow> bool" where
  "imported_by_mapper s q t \<longleftrightarrow> reg_inv t \<and> q \<noteq> 0 \<and> q \<notin> dom (handles s) \<and>
     (\<exists>b bo h. b \<notin> dom (bos s) \<and> gbm_bo_handle_map s q = None \<and>
        gbm_bo_handle_map t = (gbm_bo_handle_map s)(q \<mapsto> b) \<and> bos t = (bos s)(b \<mapsto> bo) \<and>
        user_data bo = None \<and> handles t = (handles s)(q \<mapsto> h) \<and> load_handle q t = Done h \<and>
        set (handle_fds h) \<inter> open_fds s = {} \<and>
        open_fds t = open_fds s \<union> set (filter (\<lambda>fd. \<not> is_neg fd) (handle_fds h)))"

lemma importBuffer_runE:
  assumes run: "importBuffer P p m = Done ((r, out), n)"
  obtains (early) "out = None" "r \<in> {AIMAPPER_ERROR_NO_RESOURCES, AIMAPPER_ERROR_BAD_BUFFER}" "n = m"
  | (no_clone) s where "native_handle_clone P p (gm m) = Done (0, s)" "out = None"
      "r = AIMAPPER_ERROR_NO_RESOURCES" "n = m\<lparr>gm := s\<rparr>"
  | (undone) q s ret t u where "native_handle_clone P p (gm m) = Done (q, s)" "q \<noteq> 0"
      "gralloc_gm_buffer_import P q s = Done (ret, t)" "ret \<noteq> 0"
      "andThen (native_handle_close q t) (native_handle_delete q) = Done u"
      "out = None" "r = AIMAPPER_ERROR_NO_RESOURCES" "n = m\<lparr>gm := u\<rparr>"
  | (registered) q s t where "native_handle_clone P p (gm m) = Done (q, s)" "q \<noteq> 0"
      "gralloc_gm_buffer_import P q s = Done (0, t)" "out = Some q" "r = AIMAPPER_ERROR_NONE" "n = m\<lparr>gm := t\<rparr>"
proof -
  have "(out = None \<and> r \<in> {AIMAPPER_ERROR_NO_RESOURCES, AIMAPPER_ERROR_BAD_BUFFER} \<and> n = m) \<or>
    (\<exists>q s. native_handle_clone P p (gm m) = Done (q, s) \<and>
      (if q = 0 then out = None \<and> r = AIMAPPER_ERROR_NO_RESOURCES \<and> n = m\<lparr>gm := s\<rparr>
       else \<exists>ret t. gralloc_gm_buffer_import P q s = Done (ret, t) \<and>
         (if ret = 0 then out = Some q \<and> r = AIMAPPER_ERROR_NONE \<and> n = m\<lparr>gm := t\<rparr>
          else out = None \<and> r = AIMAPPER_ERROR_NO_RESOURCES \<and>
            (\<exists>u. andThen (native_handle_close q t) (native_handle_delete q) = Done u \<and> n = m\<lparr>gm := u\<rparr>))))"
    using run by (force simp: importBuffer_def andThen_eq_Done split: if_splits)
  then show thesis
    using that by (metis (no_types))
qed

lemma clone_someE:
  assumes "native_handle_clone P p s = Done (q, t)" and "handle_contract P" and "q \<noteq> 0"
  obtains e h where "q \<notin> dom (handles s)" and "set (handle_fds h) \<inter> open_fds s = {}"
    and "t = s\<lparr>env := e, handles := (handles s)(q \<mapsto> h),
      open_fds := open_fds s \<union> set (filter (\<lambda>fd. \<not> is_neg fd) (handle_fds h))\<rparr>"
  using clone_cases [OF assms(1,2)] assms(3) that by blast

lemma undo_import:
  assumes q: "q \<notin> dom (handles s)" and new: "set (handle_fds h) \<inter> open_fds s = {}"
    and un: "unchanged_buffers (s\<lparr>env := e, handles := (handles s)(q \<mapsto> h),
      open_fds := open_fds s \<union> set (filter (\<lambda>fd. \<not> is_neg fd) (handle_fds h))\<rparr>) t"
    and u: "andThen (native_handle_close q t) (native_handle_delete q) = Done u" "q \<noteq> 0"
  shows "same_buffers s u"
proof -
  have "handles t q = Some h"
    using un by (simp add: unchanged_buffers_def)
  then have "u = t\<lparr>open_fds := open_fds t - set (handle_fds h), handles := erase q (handles t)\<rparr>"
    using u by (simp add: native_handle_close_def native_handle_delete_def load_native_def)
  then show ?thesis
    using un undo_clone [OF q new] by (auto simp: same_buffers_def unchanged_buffers_def)
qed

lemma importBuffer_cases:
  assumes run: "importBuffer P p m = Done ((r, out), m')" and c: "handle_contract P" "bo_contract P"
    and inv: "reg_inv (gm m)"
  shows "metadata_map m' = metadata_map m \<and> mInitialized m' = mInitialized m \<and>
    ((out = None \<and> r \<in> {AIMAPPER_ERROR_NO_RESOURCES, AIMAPPER_ERROR_BAD_BUFFER} \<and>
      same_buffers (gm m) (gm m')) \<or>
     (\<exists>q. out = Some q \<and> r = AIMAPPER_ERROR_NONE \<and> imported_by_mapper (gm m) q (gm m')))"
  using run
proof (cases rule: importBuffer_runE)
  case early
  then show ?thesis
    by (simp add: same_buffers_def)
next
  case (no_clone s)
  then show ?thesis
    using clone_cases [OF no_clone(1) c(1)] by (auto simp: same_buffers_def)
next
  case (undone q s ret t u)
  obtain e h where new: "q \<notin> dom (handles (gm m))" "set (handle_fds h) \<inter> open_fds (gm m) = {}"
    and s: "s = (gm m)\<lparr>env := e, handles := (handles (gm m))(q \<mapsto> h),
      open_fds := open_fds (gm m) \<union> set (filter (\<lambda>fd. \<not> is_neg fd) (handle_fds h))\<rparr>"
    using clone_someE [OF undone(1) c(1) undone(2)] by metis
  have "unchanged_buffers s t"
    using buffer_import_cases [OF undone(3) c(2)] undone(4) by blast
  then have "same_buffers (gm m) u"
    unfolding s by (rule undo_import [OF new _ undone(5,2)])
  then show ?thesis
    using undone by simp
next
  case (registered q s t)
  obtain e h where q: "q \<notin> dom (handles (gm m))" and new: "set (handle_fds h) \<inter> open_fds (gm m) = {}"
    and s: "s = (gm m)\<lparr>env := e, handles := (handles (gm m))(q \<mapsto> h),
      open_fds := open_fds (gm m) \<union> set (filter (\<lambda>fd. \<not> is_neg fd) (handle_fds h))\<rparr>"
    using clone_someE [OF registered(1) c(1) registered(2)] by metis
  obtain b h' bo where i: "imported s q b h' bo t"
    using buffer_import_cases [OF registered(3) c(2)] by auto
  have "h' = h"
    using i by (simp add: imported_def load_handle_Done s)
  moreover have "load_handle q t = load_handle q s"
    using i by (intro load_handle_cong) (simp add: imported_def)
  moreover have "reg_inv s"
    unfolding s by (rule reg_inv_new_handle [OF inv q])
  ultimately have "imported_by_mapper (gm m) q t"
    using i registered(2) q new imported_reg_inv [of s q b h' bo t]
    by (auto simp: imported_by_mapper_def imported_def s)
  then show ?thesis
    using registered by simp
qed

text \<open>An imported handle carries the words of the handle it was made from.\<close>

lemma importBuffer_words:
  assumes run: "importBuffer P p m = Done ((r, Some q), m')" and c: "handle_contract P" "bo_contract P"
    and h: "load_native p (gm m) = Done h"
  shows "\<exists>h'. load_handle q (gm m') = Done h' \<and> same_words h h' \<and> gbm_bo_handle_map (gm m') q \<noteq> None"
proof -
  have g: "mInitialized m" "p \<noteq> 0" "numFds h \<noteq> 0"
    using run h by (auto simp: importBuffer_def split: if_splits)
  obtain q' s1 where cl: "native_handle_clone P p (gm m) = Done (q', s1)" and "q' \<noteq> 0"
    using run g h by (auto simp: importBuffer_def andThen_eq_Done split: if_splits)
  then obtain ret s2 where im: "gralloc_gm_buffer_import P q' s1 = Done (ret, s2)"
    using run g h by (auto simp: importBuffer_def andThen_eq_Done)
  then have q: "ret = 0" "q' = q" "gm m' = s2"
    using run g h cl \<open>q' \<noteq> 0\<close> by (auto simp: importBuffer_def andThen_eq_Done split: if_splits)
  obtain b h' bo where i: "imported s1 q b h' bo s2"
    using buffer_import_cases [OF im c(2)] q by (auto simp: EINVAL_def)
  obtain h'' e where cr: "p_native_handle_clone P (dom (handles (gm m))) (open_fds (gm m)) h (env (gm m)) = (Some (q, h''), e)"
    and s1: "handles s1 q = Some h''"
    using cl h q(2) \<open>q' \<noteq> 0\<close> by (auto simp: native_handle_clone_def split: prod.splits option.splits)
  have "h' = h''"
    using i s1 by (simp add: imported_def load_handle_Done)
  moreover have "load_handle q s2 = load_handle q s1"
    using i by (intro load_handle_cong) (simp add: imported_def)
  ultimately show ?thesis
    using i handle_contract_clone [OF c(1) cr] by (auto simp: imported_def q(3))
qed

lemma freeBuffer_registered:
  assumes "mInitialized m" and "reg_inv (gm m)" and "gbm_bo_handle_map (gm m) q = Some b"
    and h: "load_handle q (gm m) = Done h"
  shows "freeBuffer P q m = Done (AIMAPPER_ERROR_NONE,
    m\<lparr>metadata_map := erase (prime_fd h) (metadata_map m),
      gm := (gm m)\<lparr>gbm_bo_handle_map := erase q (gbm_bo_handle_map (gm m)),
              bos := erase b (bos (gm m)), open_fds := open_fds (gm m) - set (handle_fds h),
              handles := erase q (handles (gm m))\<rparr>\<rparr>)"
proof -
  let ?k = "prime_fd h"
  have hq: "q \<noteq> 0" "handles (gm m) q = Some h"
    using h by (simp_all add: load_handle_Done)
  have e: "(if metadata_map m ?k \<noteq> None then m\<lparr>metadata_map := erase ?k (metadata_map m)\<rparr> else m) =
      m\<lparr>metadata_map := erase ?k (metadata_map m)\<rparr>"
    by (cases m) auto
  show ?thesis
    unfolding freeBuffer_def h andThen.simps Let_def e
    using assms(1) hq buffer_free_registered [OF assms(2,3)]
    by (simp add: native_handle_close_def native_handle_delete_def load_native_def)
qed

section \<open>A sample mapper\<close>

definition sample_ext :: ExtendableType where
  "sample_ext = \<lparr>ext_name = [65], ext_value = 1\<rparr>"

definition sample_component :: "u64 \<Rightarrow> ExtendableType" where
  "sample_component v = \<lparr>ext_name = [65], ext_value = v\<rparr>"

definition sample_consts :: mapper_consts where
  "sample_consts = \<lparr>mc_smt = android_smt,
     mc_components = \<lparr>Type_Y = sample_component 1, Type_CB = sample_component 2, Type_CR = sample_component 4,
       Type_R = sample_component 0x400, Type_G = sample_component 0x800, Type_B = sample_component 0x1000,
       Type_A = sample_component 0x40000000\<rparr>,
     BufferUsage_PROTECTED = 0x4000, BlendMode_NONE = 1, Dataspace_UNKNOWN = 0,
     Compression_None = sample_ext, Interlaced_None = sample_ext, ChromaSiting_None = sample_ext,
     sizeof_Smpte2086 = 40, load_Smpte2086 = (\<lambda>_. zero_smpte2086),
     sizeof_Cta861_3 = 8, load_Cta861_3 = (\<lambda>_. zero_cta861_3)\<rparr>"

lemma sample_consts_smt [simp]: "mc_smt sample_consts = android_smt"
  by (simp add: sample_consts_def)

definition sample_mapper :: "unit mapper" where
  "sample_mapper = \<lparr>gm = received, mInitialized = True, metadata_map = Map.empty\<rparr>"

definition ready_mapper :: "unit mapper" where
  "ready_mapper = \<lparr>gm = one_buffer, mInitialized = True, metadata_map = Map.empty\<rparr>"

lemma mapper_sel [simp]:
  "gm sample_mapper = received" "mInitialized sample_mapper" "metadata_map sample_mapper = Map.empty"
  "gm ready_mapper = one_buffer" "mInitialized ready_mapper" "metadata_map ready_mapper = Map.empty"
  by (simp_all add: sample_mapper_def ready_mapper_def)

lemma received_native:
  "load_native 0x2000 received = Done ((blank_handle 1 12)\<lparr>prime_fd := 11, h_width := 64,
     h_height := 4, h_format := 1, h_usage := 3, h_stride := 256\<rparr>)"
  by (simp add: received_def store_handle_def load_native_def)

lemma received_env [simp]: "env received = ()"
  by simp

lemma sample_import:
  "\<exists>m'. importBuffer sample_env 0x2000 sample_mapper = Done ((AIMAPPER_ERROR_NONE, Some 0x1000), m')"
proof -
  let ?h = "(blank_handle 1 12)\<lparr>prime_fd := 11, h_width := 64, h_height := 4, h_format := 1,
    h_usage := 3, h_stride := 256\<rparr>"
  let ?h' = "?h\<lparr>prime_fd := 12\<rparr>"
  let ?s = "received\<lparr>env := (), handles := (handles received)(0x1000 \<mapsto> ?h'),
    open_fds := open_fds received \<union> set (filter (\<lambda>fd. \<not> is_neg fd) (handle_fds ?h'))\<rparr>"
  have cl: "native_handle_clone sample_env 0x2000 received = Done (0x1000, ?s)"
    by (simp add: native_handle_clone_def received_native fresh_fd_def sample_lists is_neg_def
        blank_handle_def)
  have lh: "load_handle 0x1000 ?s = Done ?h'"
    by (simp add: load_handle_Done blank_handle_def)
  have "\<exists>s'. gralloc_gm_buffer_import sample_env 0x1000 ?s = Done (0, s')"
    using lh by (simp add: gralloc_gm_buffer_import_def Let_def dev_ready_def is_pos_def
        gralloc_gbm_device_create_def is_neg_def to_gbm_format_zero hal_formats_def sample_lists
        store_bo_def emplace_def)
  then show ?thesis
    using cl by (auto simp: importBuffer_def received_native blank_handle_def)
qed

section \<open>What is provided\<close>

lemma standard_value_kind:
  assumes "standard_value P C handle hnd md s T = Done (Some v)"
  shows "std_kind T = Some (kind_of v)"
  using assms
  by (cases T) (auto simp: standard_value_def andThen_eq_Done Let_def split: if_splits)

lemma getStandardMetadata_eq:
  assumes "mInitialized m" and "buffer \<noteq> 0" and "smt_ok (mc_smt C)" and "T \<noteq> INVALID"
    and "load_handle buffer (gm m) = Done hnd"
  shows "getStandardMetadata P C buffer (smt_code (mc_smt C) T) n m =
    andThen (standard_value P C buffer hnd (fst (createMetadata C hnd m)) (gm m) T) (\<lambda>value.
      Done (case value of None \<Rightarrow> (AIMAPPER_ERROR_UNSUPPORTED, [])
            | Some v \<Rightarrow> metadata_encode (smt_code (mc_smt C) T) v n, snd (createMetadata C hnd m)))"
proof -
  have gm: "gm (snd (createMetadata C hnd m)) = gm m"
    by (simp add: createMetadata_def Let_def split: option.splits)
  have "case_option (Done ((AIMAPPER_ERROR_UNSUPPORTED, []), t)) (\<lambda>v. Done (f v, t)) =
    (\<lambda>x. Done (case x of None \<Rightarrow> (AIMAPPER_ERROR_UNSUPPORTED, []) | Some v \<Rightarrow> f v, t))"
    for f :: "metadata_value \<Rightarrow> int \<times> bytes" and t :: "'a mapper"
    by (rule ext) (simp split: option.splits)
  then show ?thesis
    using assms gm
    by (cases "createMetadata C hnd m")
      (simp add: getStandardMetadata_def provideStandardMetadata_def invoke_code get_standard_def)
qed

lemma createMetadata_set:
  "fst (createMetadata C hnd (update_metadata (prime_fd hnd) f (snd (createMetadata C hnd m)))) =
     f (fst (createMetadata C hnd m))"
  by (auto simp: createMetadata_def update_metadata_def Let_def split: option.splits)

lemma createMetadata_gm [simp]:
  "gm (snd (createMetadata C hnd m)) = gm m"
  "mInitialized (snd (createMetadata C hnd m)) = mInitialized m"
  "gm (update_metadata fd f m) = gm m" "mInitialized (update_metadata fd f m) = mInitialized m"
  by (simp_all add: createMetadata_def update_metadata_def Let_def split: option.splits)

section \<open>Properties\<close>

text \<open>C34: Importing is transactional: a failed \<open>importBuffer\<close> closes and deletes the clone it made,
  so handles, descriptors, registry and objects are as before; a successful one returns a fresh,
  registered handle, and \<open>freeBuffer\<close> of that handle then succeeds and gives back exactly the
  handles, descriptors, registry and objects there were before the import, keeping the metadata of
  every other descriptor.\<close>

theorem import_free_roundtrip:
  assumes run: "importBuffer P p m = Done ((r, out), m')"
    and c: "handle_contract P" "bo_contract P" and inv: "reg_inv (gm m)" and init: "mInitialized m"
  shows "case out of
      None \<Rightarrow> r \<noteq> AIMAPPER_ERROR_NONE \<and> same_buffers (gm m) (gm m') \<and> metadata_map m' = metadata_map m
    | Some q \<Rightarrow> r = AIMAPPER_ERROR_NONE \<and> q \<notin> dom (handles (gm m)) \<and> reg_inv (gm m') \<and>
        gralloc_get_gbm_bo_from_handle q (gm m') \<noteq> None \<and>
        (\<exists>m'' fd. freeBuffer P q m' = Done (AIMAPPER_ERROR_NONE, m'') \<and>
           same_buffers (gm m) (gm m'') \<and> metadata_map m'' = erase fd (metadata_map m))"
proof (cases out)
  case None
  then show ?thesis
    using importBuffer_cases [OF run c inv] by (auto simp: aimapper_errors)
next
  case (Some q)
  then have r: "r = AIMAPPER_ERROR_NONE" and md: "metadata_map m' = metadata_map m"
    and init': "mInitialized m'" and i: "imported_by_mapper (gm m) q (gm m')"
    using importBuffer_cases [OF run c inv] init by auto
  obtain b bo h where q: "q \<noteq> 0" "q \<notin> dom (handles (gm m))" "gbm_bo_handle_map (gm m) q = None"
    and b: "b \<notin> dom (bos (gm m))" and inv': "reg_inv (gm m')"
    and map': "gbm_bo_handle_map (gm m') = (gbm_bo_handle_map (gm m))(q \<mapsto> b)"
    and bos': "bos (gm m') = (bos (gm m))(b \<mapsto> bo)"
    and hs': "handles (gm m') = (handles (gm m))(q \<mapsto> h)" and lh: "load_handle q (gm m') = Done h"
    and new: "set (handle_fds h) \<inter> open_fds (gm m) = {}"
    and fds': "open_fds (gm m') = open_fds (gm m) \<union> set (filter (\<lambda>fd. \<not> is_neg fd) (handle_fds h))"
    using i unfolding imported_by_mapper_def by blast
  have mq: "gbm_bo_handle_map (gm m') q = Some b"
    by (simp add: map')
  let ?m = "m'\<lparr>metadata_map := erase (prime_fd h) (metadata_map m'),
      gm := (gm m')\<lparr>gbm_bo_handle_map := erase q (gbm_bo_handle_map (gm m')),
              bos := erase b (bos (gm m')), open_fds := open_fds (gm m') - set (handle_fds h),
              handles := erase q (handles (gm m'))\<rparr>\<rparr>"
  have fr: "freeBuffer P q m' = Done (AIMAPPER_ERROR_NONE, ?m)"
    by (rule freeBuffer_registered [OF init' inv' mq lh])
  have "same_buffers (gm m) (gm ?m)"
    using undo_clone [OF q(2) new] q(3) b
    by (auto simp: same_buffers_def map' bos' hs' fds' erase_def)
  then have "\<exists>m'' fd. freeBuffer P q m' = Done (AIMAPPER_ERROR_NONE, m'') \<and>
      same_buffers (gm m) (gm m'') \<and> metadata_map m'' = erase fd (metadata_map m)"
    using fr by (intro exI [of _ ?m] exI [of _ "prime_fd h"]) (simp add: md)
  then show ?thesis
    using Some r q(2) inv' mq by (simp add: gralloc_get_gbm_bo_from_handle_def)
qed

theorem import_free_roundtrip_witness:
  "\<exists>m' m''. importBuffer sample_env 0x2000 sample_mapper = Done ((AIMAPPER_ERROR_NONE, Some 0x1000), m') \<and>
     freeBuffer sample_env 0x1000 m' = Done (AIMAPPER_ERROR_NONE, m'') \<and>
     open_fds (gm m'') = {10, 11}"
proof -
  obtain m' where run: "importBuffer sample_env 0x2000 sample_mapper
      = Done ((AIMAPPER_ERROR_NONE, Some 0x1000), m')"
    using sample_import by blast
  show ?thesis
    using import_free_roundtrip [OF run] run by (auto simp: same_buffers_def)
qed

text \<open>C35: A client that reads a standard metadata type gets the value the mapper holds: whenever
  the mapper answers with a size that fits the client's buffer, the client's decoder turns the
  stored bytes back into exactly the value that \<open>getStandardMetadata\<close> provides for that type, and
  the call leaves the buffers untouched.\<close>

theorem client_reads_provided_value:
  assumes run: "getStandardMetadata P C buffer (smt_code (mc_smt C) T) n m = Done ((sz, stored), m')"
    and "mInitialized m" and "buffer \<noteq> 0" and "smt_ok (mc_smt C)" and "T \<noteq> INVALID"
    and h: "load_handle buffer (gm m) = Done hnd"
    and v: "standard_value P C buffer hnd (fst (createMetadata C hnd m)) (gm m) T = Done (Some v)"
    and sz: "0 \<le> sz" "sz \<le> int n" and ok: "value_ok L v"
  shows "gm m' = gm m \<and>
    (\<exists>k. std_kind T = Some k \<and> metadata_decode L (smt_code (mc_smt C) T) stored k = Done (Some v))"
proof -
  have "metadata_encode (smt_code (mc_smt C) T) v n = (sz, stored)" and "gm m' = gm m"
    using run v by (auto simp: getStandardMetadata_eq [OF assms(2-5) h])
  then show ?thesis
    using encode_stored [OF _ sz] decode_stream [OF ok] standard_value_kind [OF v] by metis
qed

theorem client_reads_provided_value_witness:
  "\<exists>stored m'. getStandardMetadata sample_env sample_consts 0x2000 (smt_code android_smt WIDTH) 100
       ready_mapper = Done ((77, stored), m') \<and>
     metadata_decode \<lparr>lim_planes = 1, lim_components = 1, lim_rects = 1\<rparr> (smt_code android_smt WIDTH)
       stored KInt64 = Done (Some (MInt64 64))"
proof -
  let ?c = "smt_code android_smt WIDTH" and ?v = "MInt64 (64 :: u64)"
  obtain sz stored where e: "metadata_encode ?c ?v 100 = (sz, stored)"
    by fastforce
  have sz: "sz = 77"
    using e emit_fresh(1) [of "value_chunks ?c ?v" 100]
    by (simp add: encode_emit finish_def header_chunks_def string_chunks_def int_chunks_def
        header_name_def)
  have v: "standard_value sample_env sample_consts 0x2000 ((blank_handle 1 12)\<lparr>prime_fd := 11,
      h_width := 64, h_height := 4, h_format := 1, h_usage := 3, h_stride := 256\<rparr>) md s WIDTH =
      Done (Some ?v)" for md s
    by (simp add: standard_value_def blank_handle_def)
  have "\<exists>m'. getStandardMetadata sample_env sample_consts 0x2000 ?c 100 ready_mapper
      = Done ((77, stored), m')"
    using getStandardMetadata_eq [of ready_mapper "0x2000" sample_consts WIDTH _ sample_env 100] e sz v
    by simp
  then obtain m' where run: "getStandardMetadata sample_env sample_consts 0x2000
      (smt_code (mc_smt sample_consts) WIDTH) 100 ready_mapper = Done ((77, stored), m')"
    by auto
  then show ?thesis
    using client_reads_provided_value [OF run _ _ _ _ _ v, of
        "\<lparr>lim_planes = 1, lim_components = 1, lim_rects = 1\<rparr>"] by auto
qed

lemma lock_closes:
  assumes run: "lock P buffer cpuUsage fence m = Done (r, m')"
  shows "\<exists>m0. m' = close_fence fence m0"
proof (cases "\<not> mInitialized m \<or> buffer = 0 \<or> cpuUsage = 0")
  case True
  then have "m' = close_fence fence m"
    using run by (cases "mInitialized m"; cases "buffer = 0") (simp_all add: lock_def)
  then show ?thesis
    by blast
next
  case False
  then have eq: "lock P buffer cpuUsage fence m =
      andThen (gralloc_gbm_bo_lock P buffer (ucast cpuUsage) (gm m)) (\<lambda>((ret, outData), s).
        if ret \<noteq> 0
        then Done ((AIMAPPER_ERROR_BAD_VALUE, outData), close_fence fence (m\<lparr>gm := s\<rparr>))
        else Done ((AIMAPPER_ERROR_NONE, outData), close_fence fence (m\<lparr>gm := s\<rparr>)))"
    by (simp add: lock_def)
  show ?thesis
    using run unfolding eq by (elim andThen_eq_DoneE) (auto split: if_splits)
qed

lemma fence_closed: "fence \<noteq> - 1 \<Longrightarrow> fence \<notin> open_fds (gm (close_fence fence m0))"
  by (simp add: close_fence_def close_fd_def)

text \<open>The mapper's \<open>lock\<close> takes the acquire fence but does not wait for it: its outcome is the
  same for every behaviour of \<open>sync_wait\<close>, and however it ends, the fence has been closed.\<close>

theorem lock_ignores_fence:
  "lock (P\<lparr>p_sync_wait := w\<rparr>) buffer cpuUsage fence m = lock P buffer cpuUsage fence m \<and>
   (\<forall>r m'. lock P buffer cpuUsage fence m = Done (r, m') \<longrightarrow> fence \<noteq> - 1 \<longrightarrow>
      fence \<notin> open_fds (gm m'))"
proof
  have sel: "p_gbm_bo_map (P\<lparr>p_sync_wait := w\<rparr>) = p_gbm_bo_map P" "hal_of (P\<lparr>p_sync_wait := w\<rparr>) = hal_of P"
    by simp_all
  have fe: "gralloc_gbm_map (P\<lparr>p_sync_wait := w\<rparr>) = gralloc_gbm_map P"
    by (intro ext) (unfold gralloc_gbm_map_def sel, rule refl)
  have "gralloc_gbm_bo_lock (P\<lparr>p_sync_wait := w\<rparr>) = gralloc_gbm_bo_lock P"
    by (intro ext) (unfold gralloc_gbm_bo_lock_def sel fe, rule refl)
  then show "lock (P\<lparr>p_sync_wait := w\<rparr>) buffer cpuUsage fence m = lock P buffer cpuUsage fence m"
    unfolding lock_def by simp
  show "\<forall>r m'. lock P buffer cpuUsage fence m = Done (r, m') \<longrightarrow> fence \<noteq> - 1 \<longrightarrow>
      fence \<notin> open_fds (gm m')"
    using lock_closes fence_closed by blast
qed

theorem lock_ignores_fence_witness:
  "lock (sample_env\<lparr>p_sync_wait := \<lambda>fd t e. (- 62, e)\<rparr>) 0x2000 3 11 ready_mapper =
   lock sample_env 0x2000 3 11 ready_mapper"
  using lock_ignores_fence [where P = sample_env and w = "\<lambda>fd t e. (- 62, e)" and
    buffer = "0x2000" and cpuUsage = 3 and fence = 11 and m = ready_mapper] by (rule conjunct1)

text \<open>The 64-bit usage is cut to 32 bits before it is used: a usage with only high bits set
  passes the check for a zero usage, and locking a free buffer with it reports success although
  nothing was mapped and no address was stored; the buffer ends up held by one GPU-style holder for
  the empty usage.\<close>

theorem lock_truncates_usage:
  assumes run: "lock P buffer cpuUsage fence m = Done ((r, out), m')"
    and "mInitialized m" and "cpuUsage \<noteq> 0" and low: "(ucast cpuUsage :: c_int) = 0"
    and reg: "gbm_bo_handle_map (gm m) buffer \<noteq> None" and ok: "locks_ok P (gm m)"
    and free: "lock_state_of (hal_of P) buffer (gm m) = Free"
  shows "r = AIMAPPER_ERROR_NONE \<and> out = None \<and>
    lock_state_of (hal_of P) buffer (gm m') = GpuLocked 1 0"
proof -
  have inv: "reg_inv (gm m)" "lock_inv (hal_of P) (gm m)" "map_contract P"
    using ok by (simp_all add: locks_ok_def)
  obtain b where b: "gbm_bo_handle_map (gm m) buffer = Some b"
    using reg by auto
  then obtain h bo where h: "load_handle buffer (gm m) = Done h"
    using reg_invD [OF inv(1)] by blast
  have "buffer \<noteq> 0"
    using h by (simp add: load_handle_Done)
  then obtain ret s where lk: "gralloc_gbm_bo_lock P buffer 0 (gm m) = Done ((ret, out), s)"
    and m': "m' = close_fence fence (m\<lparr>gm := s\<rparr>)"
    and r: "r = (if ret \<noteq> 0 then AIMAPPER_ERROR_BAD_VALUE else AIMAPPER_ERROR_NONE)"
    using run assms(2,3) low by (auto simp: lock_def andThen_eq_Done split: if_splits)
  have res: "lock_result P buffer 0 (gm m) ret out s"
    by (rule lock_refines [OF lk inv])
  have nr: "\<not> lock_refused (hal_of P) h 0"
    by (simp add: lock_refused_def)
  have "ret = 0"
    using res b h nr free by (auto simp: lock_result_def Let_def split: if_splits)
  then have "lock_state_of (hal_of P) buffer s = GpuLocked 1 0" and "out = None"
    using res free by (auto simp: lock_result_def Let_def split: lock_state.splits)
  moreover have "lock_state_of K p (gm (close_fence fence (m\<lparr>gm := s\<rparr>))) = lock_state_of K p s" for K p
    by (simp add: close_fence_def close_fd_def lock_state_of_def split: option.splits)
  ultimately show ?thesis
    using r \<open>ret = 0\<close> m' by simp
qed

lemma ready_empty_lock:
  "\<exists>s. gralloc_gbm_bo_lock sample_env 0x2000 0 one_buffer = Done ((0, None), s)"
  unfolding lock_eq [OF one_buffer_at(1) one_buffer_sel(3) one_buffer_at(2)]
  by (simp add: lock_refused_def sample_bo_def cpu_mask_def inc_int_def set_bd_def)

theorem lock_truncates_usage_witness:
  "\<exists>m'. lock sample_env 0x2000 0x100000000 (- 1) ready_mapper = Done ((AIMAPPER_ERROR_NONE, None), m') \<and>
     lock_state_of android_hal 0x2000 (gm m') = GpuLocked 1 0"
proof -
  obtain s where "gralloc_gbm_bo_lock sample_env 0x2000 0 one_buffer = Done ((0, None), s)"
    using ready_empty_lock by blast
  moreover have cut: "(0x100000000 :: c_int) = 0"
    by simp
  ultimately obtain m' where run: "lock sample_env 0x2000 0x100000000 (- 1) ready_mapper
      = Done ((AIMAPPER_ERROR_NONE, None), m')"
    by (simp add: lock_def cut)
  show ?thesis
    using lock_truncates_usage [OF run] run cut by simp
qed

text \<open>Where the mapper has no value for a standard type it answers with the positive error
  code 7 and stores nothing, which by the interface's convention (a non-negative answer is the size
  of the value) reads as a value of seven bytes; only a number outside the enumeration, or
  \<open>INVALID\<close>, gets the negative error the interface asks for.\<close>

theorem missing_value_reads_as_size:
  assumes "mInitialized m" and "buffer \<noteq> 0" and "smt_ok (mc_smt C)"
    and "load_handle buffer (gm m) = Done hnd"
  shows "(\<forall>T \<in> {NAME, SMPTE2094_10, SMPTE2094_40}.
      \<exists>m'. getStandardMetadata P C buffer (smt_code (mc_smt C) T) n m = Done ((7, []), m')) \<and>
    getStandardMetadata P C buffer (smt_code (mc_smt C) INVALID) n m = Done ((- 7, []), m)"
proof (intro conjI ballI)
  fix T assume "T \<in> {NAME, SMPTE2094_10, SMPTE2094_40}"
  then have "T \<noteq> INVALID"
    and "\<And>md. standard_value P C buffer hnd md (gm m) T = Done None"
    by (auto simp: standard_value_def)
  then show "\<exists>m'. getStandardMetadata P C buffer (smt_code (mc_smt C) T) n m = Done ((7, []), m')"
    using getStandardMetadata_eq [OF assms(1-3) _ assms(4)] by (simp add: aimapper_errors)
next
  show "getStandardMetadata P C buffer (smt_code (mc_smt C) INVALID) n m = Done ((- 7, []), m)"
    using assms by (simp add: getStandardMetadata_def provideStandardMetadata_def invoke_code
        aimapper_errors)
qed

theorem missing_value_reads_as_size_witness:
  "\<exists>m'. getStandardMetadata sample_env sample_consts 0x2000 (smt_code android_smt NAME) 0 ready_mapper
     = Done ((7, []), m')"
  using missing_value_reads_as_size [where m = ready_mapper and buffer = "0x2000" and
    C = sample_consts and P = sample_env and n = 0] by simp

text \<open>Setting the dataspace takes the raw four bytes of the enum, and a later read gives back
  exactly what was set; but metadata in the interface's own encoding, as every encoder of the
  metadata header produces it, is always refused as a bad value.\<close>

theorem set_dataspace:
  assumes "mInitialized m" and "buffer \<noteq> 0" and S: "smt_ok (mc_smt C)"
    and h: "load_handle buffer (gm m) = Done hnd"
    and sz: "metadata_encode (smt_code (mc_smt C) DATASPACE) (MEnum32 x) n = (sz, stored)"
      "0 \<le> sz" "sz \<le> int n"
  shows "(\<exists>m'. setStandardMetadata C buffer (smt_code (mc_smt C) DATASPACE) (to_le v) m =
        Done (AIMAPPER_ERROR_NONE, m') \<and>
      standard_value P C buffer hnd (fst (createMetadata C hnd m')) (gm m') DATASPACE =
        Done (Some (MEnum32 v))) \<and>
    (\<exists>m'. setStandardMetadata C buffer (smt_code (mc_smt C) DATASPACE) stored m =
        Done (AIMAPPER_ERROR_BAD_VALUE, m'))"
proof
  obtain md m1 where cm: "createMetadata C hnd m = (md, m1)"
    by fastforce
  have le: "of_le (to_le v) = (v :: u32)"
    by (rule of_le_to_le) simp
  have "setStandardMetadata C buffer (smt_code (mc_smt C) DATASPACE) (to_le v) m =
      Done (AIMAPPER_ERROR_NONE, update_metadata (prime_fd hnd) (\<lambda>md. md\<lparr>dataspace := v\<rparr>) m1)"
    using assms(1,2) h cm by (simp add: setStandardMetadata_def le)
  moreover have "dataspace (fst (createMetadata C hnd
      (update_metadata (prime_fd hnd) (\<lambda>md. md\<lparr>dataspace := v\<rparr>) m1))) = v"
    using createMetadata_set [of C hnd "\<lambda>md. md\<lparr>dataspace := v\<rparr>" m] by (simp add: cm)
  ultimately show "\<exists>m'. setStandardMetadata C buffer (smt_code (mc_smt C) DATASPACE) (to_le v) m =
        Done (AIMAPPER_ERROR_NONE, m') \<and>
      standard_value P C buffer hnd (fst (createMetadata C hnd m')) (gm m') DATASPACE =
        Done (Some (MEnum32 v))"
    by (auto simp: standard_value_def)
  have "stored = concat (value_chunks (smt_code (mc_smt C) DATASPACE) (MEnum32 x))"
    by (rule encode_stored [OF sz])
  then have "length stored = 73"
    using length_header_chunks [of "smt_code (mc_smt C) DATASPACE"] by (simp add: int_chunks_def)
  then show "\<exists>m'. setStandardMetadata C buffer (smt_code (mc_smt C) DATASPACE) stored m =
        Done (AIMAPPER_ERROR_BAD_VALUE, m')"
    using assms(1,2) h cm by (simp add: setStandardMetadata_def)
qed

theorem set_dataspace_witness:
  "\<exists>stored m'. length stored = 73 \<and>
     setStandardMetadata sample_consts 0x2000 (smt_code android_smt DATASPACE) stored ready_mapper =
       Done (AIMAPPER_ERROR_BAD_VALUE, m')"
proof -
  let ?c = "smt_code android_smt DATASPACE" and ?v = "MEnum32 (5 :: u32)"
  obtain sz stored where e: "metadata_encode (smt_code (mc_smt sample_consts) DATASPACE) ?v 100 = (sz, stored)"
    by fastforce
  have sz: "sz = 73"
    using e emit_fresh(1) [of "value_chunks ?c ?v" 100]
    by (simp add: encode_emit finish_def header_chunks_def string_chunks_def int_chunks_def
        header_name_def)
  have "length stored = 73"
    using encode_stored [OF e] sz length_header_chunks [of ?c] by (simp add: int_chunks_def)
  then show ?thesis
    using set_dataspace [OF _ _ _ _ e, where m = ready_mapper and buffer = "0x2000" and
        P = sample_env and v = 7] sz by auto
qed

text \<open>The plane layouts a client sees, format by format: one plane for RGBA, RGBX, RGB, BGRA,
  RAW16, Y8, Y16, FP16, 1010102 and BLOB, and no plane at all, without an error, for RGB_565 and
  for every YUV format and the implementation-defined format.  Every reported plane starts at
  offset 0 and has the stride of the handle.\<close>

theorem plane_layout_coverage:
  fixes K C hnd
  defines "planes f \<equiv> handle_plane_layouts K C (hnd\<lparr>h_format := f\<rparr>)"
  assumes "hal_ok K"
  shows "map (\<lambda>f. length (planes f)) (hal_formats K) = [1, 1, 1, 0, 1, 1, 0, 1, 1, 1, 1, 0, 0, 0, 0, 1, 0] \<and>
    (\<forall>f. \<forall>p \<in> set (planes f). offsetInBytes p = 0 \<and> strideInBytes p = ucast (h_stride hnd))"
proof
  let ?n = "\<lambda>c. (case snd (getPlaneLayouts (mc_components C) c) of None \<Rightarrow> 0 | Some ps \<Rightarrow> length ps)"
  have len: "length (planes f) = ?n (gralloc_gm_android_format_to_gbm_format K f)" for f
    by (auto simp: planes_def handle_plane_layouts_def split: prod.splits option.splits)
  have "map (\<lambda>f. length (planes f)) (hal_formats K) = map ?n gbm_codes"
    unfolding len to_gbm_format_table [OF assms(2), symmetric] by simp
  also have "\<dots> = [1, 1, 1, 0, 1, 1, 0, 1, 1, 1, 1, 0, 0, 0, 0, 1, 0]"
    by (simp add: gbm_codes_def getPlaneLayouts_def GetPlaneLayoutsMap_def gbm_values
        layout_ABGR8888_def layout_XBGR8888_def layout_BGR888_def layout_ARGB8888_def
        layout_R16_def layout_R8_def layout_ABGR16161616F_def layout_ABGR2101010_def)
  finally show "map (\<lambda>f. length (planes f)) (hal_formats K) =
      [1, 1, 1, 0, 1, 1, 0, 1, 1, 1, 1, 0, 0, 0, 0, 1, 0]" .
  show "\<forall>f. \<forall>p \<in> set (planes f). offsetInBytes p = 0 \<and> strideInBytes p = ucast (h_stride hnd)"
    by (auto simp: planes_def handle_plane_layouts_def fill_plane_def split: prod.splits option.splits)
qed

theorem plane_layout_coverage_witness:
  "hal_ok android_hal \<and>
   length (handle_plane_layouts android_hal sample_consts ((blank_handle 1 12)\<lparr>h_format := 4\<rparr>)) = 0"
  using plane_layout_coverage [OF android_hal_ok, of sample_consts "blank_handle 1 12"]
  by (simp add: hal_formats_def)

text \<open>Freeing a live handle that was never imported: when \<open>errno\<close> happens to be 0 the mapper
  reports success, and closes the descriptors of that foreign handle and deletes it; otherwise it
  reports a bad buffer, but has already destroyed the metadata kept for its descriptor.\<close>

theorem free_foreign_handle:
  assumes "mInitialized m" and "gbm_bo_handle_map (gm m) p = None"
    and h: "load_handle p (gm m) = Done hnd"
  shows "if p_errno P (env (gm m)) = 0
    then \<exists>m'. freeBuffer P p m = Done (AIMAPPER_ERROR_NONE, m') \<and> handles (gm m') p = None \<and>
           open_fds (gm m') = open_fds (gm m) - set (handle_fds hnd)
    else freeBuffer P p m =
           Done (AIMAPPER_ERROR_BAD_BUFFER, m\<lparr>metadata_map := erase (prime_fd hnd) (metadata_map m)\<rparr>)"
proof -
  let ?k = "prime_fd hnd"
  let ?m = "m\<lparr>metadata_map := erase ?k (metadata_map m)\<rparr>"
  have p: "p \<noteq> 0" "handles (gm m) p = Some hnd"
    using h by (simp_all add: load_handle_Done)
  have e: "(if metadata_map m ?k \<noteq> None then ?m else m) = ?m"
    by (cases m) auto
  have fr: "gralloc_gm_buffer_free P p (gm m) = Done (- p_errno P (env (gm m)), gm m)"
    by (rule buffer_free_unregistered) (simp add: assms(2))
  have "freeBuffer P p m = (if - p_errno P (env (gm m)) \<noteq> 0
      then Done (AIMAPPER_ERROR_BAD_BUFFER, ?m\<lparr>gm := gm m\<rparr>)
      else andThen (native_handle_close p (gm m)) (\<lambda>s. andThen (native_handle_delete p s) (\<lambda>s.
             Done (AIMAPPER_ERROR_NONE, ?m\<lparr>gm := s\<rparr>))))"
    unfolding freeBuffer_def h andThen.simps Let_def e using assms(1) p fr by simp
  moreover have "?m\<lparr>gm := gm m\<rparr> = ?m"
    by (cases m) simp
  ultimately show ?thesis
    using p by (simp add: native_handle_close_def native_handle_delete_def load_native_def)
qed

theorem free_foreign_handle_witness:
  "\<exists>m'. freeBuffer (sample_env\<lparr>p_errno := \<lambda>e. 0\<rparr>) 0x2000 sample_mapper = Done (AIMAPPER_ERROR_NONE, m') \<and>
     handles (gm m') 0x2000 = None"
proof -
  have "load_handle 0x2000 received = Done ((blank_handle 1 12)\<lparr>prime_fd := 11, h_width := 64,
     h_height := 4, h_format := 1, h_usage := 3, h_stride := 256\<rparr>)"
    by (simp add: received_def store_handle_def load_handle_Done blank_handle_def)
  then show ?thesis
    using free_foreign_handle [where m = sample_mapper and p = "0x2000" and
      P = "sample_env\<lparr>p_errno := \<lambda>e. 0\<rparr>"] by auto
qed

end
