(* ===== verification/Gm_Machine.thy ===== *)
theory Gm_Machine
  imports Gm_Lock
begin

text \<open>
  The library as a state machine: every entry point of src/src/include/gralloc_gbm_mesa.h as one
  call, the client's own handling of native handles, and the world around them.  Reachable states
  keep the registry, the locks and the device consistent, and the faults a call can hit in one are
  listed exactly.
\<close>

section \<open>Calls and steps\<close>

datatype gm_call =
    DeviceInit
  | DeviceCreate c_int bool
  | Allocate gralloc_buffer_desc
  | Import ptr
  | Free ptr
  | Lock ptr c_int
  | LockYcbcr ptr c_int android_ycbcr
  | LockAsync ptr c_int c_int
  | LockAsyncYcbcr ptr c_int android_ycbcr c_int
  | Unlock ptr
  | UnlockAsync ptr bool

text \<open>The result code of a call and the state after it; out parameters are dropped.\<close>

definition code_of :: "((c_int \<times> 'o) \<times> 's) run \<Rightarrow> (c_int \<times> 's) run" where
  "code_of m = andThen m (\<lambda>((r, out), s). Done (r, s))"

primrec gm_exec :: "'e gbm_env \<Rightarrow> gm_call \<Rightarrow> 'e proc \<Rightarrow> (c_int \<times> 'e proc) run" where
  "gm_exec P DeviceInit s = Done (gralloc_gbm_device_init P s)"
| "gm_exec P (DeviceCreate fd ok) s = code_of (Done (gralloc_gbm_device_create P fd ok s))"
| "gm_exec P (Allocate desc) s = code_of (gralloc_allocate P desc s)"
| "gm_exec P (Import p) s = gralloc_gm_buffer_import P p s"
| "gm_exec P (Free p) s = gralloc_gm_buffer_free P p s"
| "gm_exec P (Lock p usage) s = code_of (gralloc_gbm_bo_lock P p usage s)"
| "gm_exec P (LockYcbcr p usage yc) s = code_of (gralloc_gbm_bo_lock_ycbcr P p usage yc s)"
| "gm_exec P (LockAsync p usage fd) s = code_of (gralloc_gbm_bo_lock_async P p usage fd s)"
| "gm_exec P (LockAsyncYcbcr p usage yc fd) s =
     code_of (gralloc_gbm_bo_lock_async_ycbcr P p usage yc fd s)"
| "gm_exec P (Unlock p) s = gralloc_gbm_bo_unlock P p s"
| "gm_exec P (UnlockAsync p b) s = code_of (gralloc_gbm_bo_unlock_async P p b s)"

text \<open>
  Beside the calls: a handle arrives from another process, the client disposes of a handle that
  is not registered, and the rest of the process changes descriptors and world as it likes.
\<close>

inductive gm_step :: "'e gbm_env \<Rightarrow> 'e proc \<Rightarrow> 'e proc \<Rightarrow> bool" for P where
  gm_call: "gm_exec P c s = Done (r, t) \<Longrightarrow> gm_step P s t"
| gm_receive: "p \<noteq> 0 \<Longrightarrow> p \<notin> dom (handles s) \<Longrightarrow> gm_step P s (s\<lparr>handles := (handles s)(p \<mapsto> h)\<rparr>)"
| gm_dispose: "gbm_bo_handle_map s p = None \<Longrightarrow> gm_step P s (s\<lparr>handles := erase p (handles s)\<rparr>)"
| gm_world: "gm_step P s (s\<lparr>env := e, open_fds := F\<rparr>)"

inductive gm_reachable :: "'e gbm_env \<Rightarrow> 'e proc \<Rightarrow> bool" for P where
  gm_start: "gm_reachable P (init_proc e F)"
| gm_next: "gm_reachable P s \<Longrightarrow> gm_step P s t \<Longrightarrow> gm_reachable P t"

inductive_cases gm_stepE: "gm_step P s t"

section \<open>The invariant\<close>

definition world_ok :: "'e gbm_env \<Rightarrow> bool" where
  "world_ok P \<longleftrightarrow> handle_contract P \<and> bo_contract P \<and> fd_contract P \<and> map_contract P"

definition gm_inv :: "'e gbm_env \<Rightarrow> 'e proc \<Rightarrow> bool" where
  "gm_inv P s \<longleftrightarrow> reg_inv s \<and> lock_inv (hal_of P) s \<and> dev_inv s \<and> finite (dom (gbm_bo_handle_map s))"

lemma gm_invD:
  assumes "gm_inv P s"
  shows "reg_inv s" and "lock_inv (hal_of P) s" and "dev_inv s" and "finite (dom (gbm_bo_handle_map s))"
  using assms by (simp_all add: gm_inv_def)

lemma gm_inv_init [simp]: "gm_inv P (init_proc e F)"
  by (auto simp: gm_inv_def init_proc_def reg_inv_def lock_inv_def dev_inv_def)

text \<open>What depends on the device alone, and what does not depend on it.\<close>

lemma dev_inv_cong: "gbm_dev t = gbm_dev s \<Longrightarrow> devs t = devs s \<Longrightarrow> dev_inv t \<longleftrightarrow> dev_inv s"
  by (simp add: dev_inv_def)

lemma lock_inv_new:
  assumes "lock_inv K s" and "bos t = (bos s)(b \<mapsto> bo)" and "user_data bo = None"
  shows "lock_inv K t"
  using assms by (auto simp: lock_inv_def)

lemma lock_inv_erase:
  assumes "lock_inv K s" and "bos t = erase b (bos s)"
  shows "lock_inv K t"
  using assms by (auto simp: lock_inv_def erase_def split: if_splits)

lemma gm_inv_unchanged:
  assumes "gm_inv P s" and "unchanged_buffers s t" and "dev_inv t"
  shows "gm_inv P t"
  using assms unchanged_buffers_reg_inv [OF assms(2)] lock_inv_cong [of t s]
  by (simp add: gm_inv_def) (simp add: unchanged_buffers_def)

lemma only_lock_data_gm_inv:
  assumes "gm_inv P s" and "only_lock_data s t" and "lock_inv (hal_of P) t"
  shows "gm_inv P t"
  using assms only_lock_data_reg_inv [OF assms(2)] dev_inv_cong [of t s]
  by (simp add: gm_inv_def) (simp add: only_lock_data_def)

lemma device_create_gm_inv:
  assumes "gralloc_gbm_device_create P fd ok s = (r, t)" and "gm_inv P s"
  shows "gm_inv P t"
  using gm_inv_unchanged [OF assms(2) device_create_unchanged [OF assms(1)]]
    device_create_dev_inv [OF assms(1)] gm_invD(3) [OF assms(2)] by blast

lemma device_init_gm_inv:
  assumes "gralloc_gbm_device_init P s = (r, t)" and inv: "gm_inv P s"
  shows "gm_inv P t"
proof -
  have f: "gbm_bo_handle_map t = gbm_bo_handle_map s" "handles t = handles s" "bos t = bos s"
    using device_init_frame [OF assms(1)] by simp_all
  have "dev_inv t"
    by (rule device_init_dev_inv [OF assms(1) gm_invD(3) [OF inv]])
  moreover have "reg_inv t"
    using gm_invD(1) [OF inv] by (subst reg_inv_cong [of _ s]) (simp_all add: f)
  ultimately show ?thesis
    using gm_invD [OF inv] lock_inv_cong [OF f(3)] by (simp add: gm_inv_def f)
qed

text \<open>The operations leave the device alone, except that they may create it.\<close>

lemma handle_create_dev_inv:
  assumes "gralloc_handle_create P w h f u s = (p, t)" and "dev_inv s"
  shows "dev_inv t"
  using gralloc_handle_create_frame [OF assms(1)] assms(2) by (simp add: dev_inv_def)

lemma dev_inv_sel [simp]:
  "dev_inv (s\<lparr>env := e\<rparr>) = dev_inv s" "dev_inv (s\<lparr>handles := H\<rparr>) = dev_inv s"
  "dev_inv (s\<lparr>bos := B\<rparr>) = dev_inv s" "dev_inv (s\<lparr>gbm_bo_handle_map := M\<rparr>) = dev_inv s"
  "dev_inv (s\<lparr>open_fds := F\<rparr>) = dev_inv s" "dev_inv (store_bo b bo s) = dev_inv s"
  "dev_inv (store_handle p h s) = dev_inv s" "dev_inv (add_fd fd s) = dev_inv s"
  by (simp_all add: dev_inv_def store_bo_def store_handle_def add_fd_def)

lemma native_handle_delete_dev_inv:
  "native_handle_delete p s = Done t \<Longrightarrow> dev_inv t = dev_inv s"
  by (auto simp: native_handle_delete_def andThen_eq_Done)

lemma allocate_finish_dev_inv:
  "gralloc_allocate_finish P p h b bo s = (r, t) \<Longrightarrow> dev_inv t = dev_inv s"
  by (auto simp: gralloc_allocate_finish_def Let_def split: prod.splits)

lemma allocate_dev_inv:
  assumes run: "gralloc_allocate P desc s = Done (r, t)" and inv: "dev_inv s"
  shows "dev_inv t"
proof -
  obtain ret dev s1 where dc: "gralloc_gbm_device_create P (gbm_dev_fd s) True s = ((ret, dev), s1)"
    by (metis prod.exhaust)
  obtain p s2 where hc: "gralloc_handle_create P (d_width desc) (d_height desc)
      (d_android_format desc) (d_android_usage desc) s1 = (p, s2)"
    by fastforce
  have s2: "dev_inv s2"
    using handle_create_dev_inv [OF hc device_create_dev_inv [OF dc inv]] .
  obtain d where d: "dev = Some d"
    using run dc by (auto simp: gralloc_allocate_def split: option.splits)
  show ?thesis
  proof (cases "p = 0")
    case True
    then show ?thesis
      using run dc d hc s2 by (auto simp: gralloc_allocate_def)
  next
    case False
    then obtain h where h: "load_handle p s2 = Done h"
      using run dc d hc by (auto simp: gralloc_allocate_def andThen_eq_Done)
    let ?f = "gralloc_gm_android_format_to_gbm_format (hal_of P) (h_format h)"
    let ?fl = "gralloc_gm_get_gbm_flags_from_android_usage (hal_of P) (h_usage h) (h_format h)"
    obtain w ht where wh: "alloc_dims (hal_of P) h ?fl = (w, ht)"
      by fastforce
    obtain res e where bc: "p_gbm_bo_create P (dom (bos s2)) d w ht ?f ?fl (env s2) = (res, e)"
      by fastforce
    show ?thesis
    proof (cases res)
      case None
      then show ?thesis
        using run dc d hc False h wh bc s2
        by (auto simp: gralloc_allocate_def Let_def andThen_eq_Done dest: native_handle_delete_dev_inv)
    next
      case (Some x)
      then obtain b bo where "res = Some (b, bo)" by (cases x) auto
      then show ?thesis
        using run dc d hc False h wh bc s2
        by (auto simp: gralloc_allocate_def Let_def dest: allocate_finish_dev_inv)
    qed
  qed
qed

lemma import_dev_inv:
  assumes run: "gralloc_gm_buffer_import P p s = Done (r, t)" and inv: "dev_inv s"
  shows "dev_inv t"
proof -
  obtain ret dev s1 where dc: "gralloc_gbm_device_create P (gbm_dev_fd s) True s = ((ret, dev), s1)"
    by (metis prod.exhaust)
  have s1: "dev_inv s1"
    by (rule device_create_dev_inv [OF dc inv])
  show ?thesis
    using run s1 inv dc
    by (auto simp: gralloc_gm_buffer_import_def andThen_eq_Done Let_def
        split: if_splits option.splits prod.splits)
qed

lemma allocate_gm_inv:
  assumes run: "gralloc_allocate P desc s = Done ((r, out), t)" and w: "world_ok P" and inv: "gm_inv P s"
  shows "gm_inv P t"
proof -
  have dv: "dev_inv t"
    using allocate_dev_inv run gm_invD(3) [OF inv] by blast
  have c: "handle_contract P" "bo_contract P" "fd_contract P"
    using w by (simp_all add: world_ok_def)
  show ?thesis
    using gralloc_allocate_cases [OF run c]
  proof (elim disjE conjE exE)
    assume "unchanged_buffers s t"
    then show ?thesis
      by (rule gm_inv_unchanged [OF inv _ dv])
  next
    fix p b h bo assume a: "allocated s desc p b h bo t"
    have "lock_inv (hal_of P) t"
      using a by (intro lock_inv_new [OF gm_invD(2) [OF inv]]) (auto simp: allocated_def)
    then show ?thesis
      using allocated_reg_inv [OF gm_invD(1) [OF inv] a] gm_invD(4) [OF inv] dv by (simp add: gm_inv_def)
  qed
qed

lemma import_gm_inv:
  assumes run: "gralloc_gm_buffer_import P p s = Done (r, t)" and w: "world_ok P" and inv: "gm_inv P s"
  shows "gm_inv P t"
proof -
  have dv: "dev_inv t"
    by (rule import_dev_inv [OF run gm_invD(3) [OF inv]])
  have "bo_contract P"
    using w by (simp add: world_ok_def)
  from buffer_import_cases [OF run this] show ?thesis
  proof (elim disjE conjE exE)
    assume "unchanged_buffers s t"
    then show ?thesis
      by (rule gm_inv_unchanged [OF inv _ dv])
  next
    fix b h bo assume i: "imported s p b h bo t"
    have "lock_inv (hal_of P) t"
      using i by (intro lock_inv_new [OF gm_invD(2) [OF inv]]) (auto simp: imported_def)
    moreover have "finite (dom (gbm_bo_handle_map t))"
      using i gm_invD(4) [OF inv] by (simp add: imported_def)
    ultimately show ?thesis
      using imported_reg_inv [OF gm_invD(1) [OF inv] i] dv by (simp add: gm_inv_def)
  qed
qed

lemma free_gm_inv:
  assumes run: "gralloc_gm_buffer_free P p s = Done (r, t)" and inv: "gm_inv P s"
  shows "gm_inv P t"
proof (cases "gbm_bo_handle_map s p")
  case None
  then show ?thesis
    using run inv buffer_free_unregistered [of s p P] by simp
next
  case (Some b)
  have t: "t = s\<lparr>gbm_bo_handle_map := erase p (gbm_bo_handle_map s), bos := erase b (bos s)\<rparr>"
    using run buffer_free_registered [OF gm_invD(1) [OF inv] Some] by simp
  have "reg_inv t"
    by (rule reg_inv_unregister [OF gm_invD(1) [OF inv] Some]) (simp_all add: t)
  moreover have "lock_inv (hal_of P) t"
    by (rule lock_inv_erase [OF gm_invD(2) [OF inv], where b = b]) (simp add: t)
  ultimately show ?thesis
    using gm_invD(3,4) [OF inv] by (simp add: gm_inv_def t)
qed

lemma lock_gm_inv:
  assumes run: "gralloc_gbm_bo_lock P p usage s = Done ((r, out), t)" and w: "world_ok P"
    and inv: "gm_inv P s"
  shows "gm_inv P t"
proof -
  have "lock_result P p usage s r out t"
    using lock_refines [OF run] gm_invD [OF inv] w by (simp add: world_ok_def)
  then show ?thesis
    using only_lock_data_gm_inv [OF inv] by (simp add: lock_result_def Let_def)
qed

lemma unlock_gm_inv:
  assumes "gralloc_gbm_bo_unlock P p s = Done (r, t)" and inv: "gm_inv P s"
  shows "gm_inv P t"
  using unlock_refines [OF assms(1)] gm_invD [OF inv] only_lock_data_gm_inv [OF inv] by blast

lemma ycbcr_state:
  assumes "gralloc_gbm_bo_lock_ycbcr P p usage yc s = Done (x, t)"
  shows "\<exists>r out. gralloc_gbm_bo_lock P p usage s = Done ((r, out), t)"
  using assms
  by (auto simp: gralloc_gbm_bo_lock_ycbcr_def andThen_eq_Done Let_def split: if_splits option.splits)

text \<open>Changes of the world and of the descriptors do not matter.\<close>

lemma gm_inv_world: "gm_inv P (s\<lparr>env := e, open_fds := F\<rparr>) = gm_inv P s"
proof -
  have "reg_inv (s\<lparr>env := e, open_fds := F\<rparr>) = reg_inv s"
    by (rule reg_inv_cong) simp_all
  then show ?thesis
    using lock_inv_cong [of "s\<lparr>env := e, open_fds := F\<rparr>" s] by (simp add: gm_inv_def)
qed

lemma await_fence_world:
  assumes "await_fence P fd s = (x, t)"
  shows "\<exists>e F. t = s\<lparr>env := e, open_fds := F\<rparr>"
proof (cases "is_neg fd")
  case True
  then have "t = s\<lparr>env := env s, open_fds := open_fds s\<rparr>"
    using assms by (simp add: await_fence_def)
  then show ?thesis by blast
next
  case False
  then have "t = s\<lparr>env := env t, open_fds := open_fds t\<rparr>"
    using assms by (auto simp: await_fence_def Let_def close_fd_def split: prod.splits if_splits)
  then show ?thesis by blast
qed

lemma await_fence_gm_inv:
  assumes "await_fence P fd s = (x, t)" and "gm_inv P s"
  shows "gm_inv P t"
proof -
  obtain e F where "t = s\<lparr>env := e, open_fds := F\<rparr>"
    using await_fence_world [OF assms(1)] by blast
  then show ?thesis
    using assms(2) by (simp only: gm_inv_world)
qed

lemma gm_exec_inv:
  assumes run: "gm_exec P c s = Done (r, t)" and w: "world_ok P" and inv: "gm_inv P s"
  shows "gm_inv P t"
proof (cases c)
  case (DeviceCreate fd ok)
  then show ?thesis
    using run device_create_gm_inv [OF _ inv]
    by (cases "gralloc_gbm_device_create P fd ok s") (auto simp: code_of_def)
next
  case (LockYcbcr p usage yc)
  then show ?thesis
    using run lock_gm_inv [OF _ w inv] ycbcr_state by (auto simp: code_of_def andThen_eq_Done) blast
next
  case (LockAsync p usage fd)
  obtain x s1 where a: "await_fence P fd s = (x, s1)"
    by fastforce
  show ?thesis
    using run LockAsync a lock_gm_inv [OF _ w await_fence_gm_inv [OF a inv]] await_fence_gm_inv [OF a inv]
    by (cases x) (auto simp: code_of_def andThen_eq_Done gralloc_gbm_bo_lock_async_def)
next
  case (LockAsyncYcbcr p usage yc fd)
  obtain x s1 where a: "await_fence P fd s = (x, s1)"
    by fastforce
  show ?thesis
  proof (cases x)
    case (Inl err)
    then show ?thesis
      using run LockAsyncYcbcr a await_fence_gm_inv [OF a inv]
      by (auto simp: code_of_def gralloc_gbm_bo_lock_async_ycbcr_def)
  next
    case (Inr u)
    then obtain y where "gralloc_gbm_bo_lock_ycbcr P p usage yc s1 = Done (y, t)"
      using run LockAsyncYcbcr a
      by (auto simp: code_of_def andThen_eq_Done gralloc_gbm_bo_lock_async_ycbcr_def)
    then show ?thesis
      using ycbcr_state lock_gm_inv [OF _ w await_fence_gm_inv [OF a inv]] by blast
  qed
next
  case (UnlockAsync p b)
  then show ?thesis
    using run unlock_gm_inv [OF _ inv]
    by (auto simp: code_of_def andThen_eq_Done gralloc_gbm_bo_unlock_async_def split: if_splits)
qed (use run inv w in \<open>auto simp: code_of_def andThen_eq_Done
  dest: device_init_gm_inv device_create_gm_inv allocate_gm_inv import_gm_inv free_gm_inv lock_gm_inv
    unlock_gm_inv\<close>)

lemma reg_inv_unregistered_handle:
  assumes "reg_inv s" and "gbm_bo_handle_map s p = None"
  shows "reg_inv (s\<lparr>handles := (handles s)(p := x)\<rparr>)"
  using assms by (subst reg_inv_cong [of _ s]) auto

lemma gm_step_inv:
  assumes "gm_step P s t" and w: "world_ok P" and inv: "gm_inv P s"
  shows "gm_inv P t"
  using assms(1)
proof (cases rule: gm_step.cases)
  case (gm_call c r)
  then show ?thesis
    by (rule gm_exec_inv [OF _ w inv])
next
  case (gm_receive p h)
  have "gbm_bo_handle_map s p = None"
  proof (rule ccontr)
    assume "gbm_bo_handle_map s p \<noteq> None"
    then obtain b where "gbm_bo_handle_map s p = Some b" by auto
    with gm_invD(1) [OF inv] obtain h' where "load_handle p s = Done h'"
      by (rule reg_invD)
    then show False
      using gm_receive by (auto simp: load_handle_Done)
  qed
  then show ?thesis
    using gm_receive inv reg_inv_unregistered_handle [of s p "Some h"] lock_inv_cong [of t s]
    by (simp add: gm_inv_def)
next
  case (gm_dispose p)
  then show ?thesis
    using inv reg_inv_unregistered_handle [of s p None] lock_inv_cong [of t s]
    by (simp add: gm_inv_def erase_def)
next
  case (gm_world e F)
  then show ?thesis
    using inv by (simp only: gm_inv_world)
qed

lemma gm_reachable_inv:
  assumes "gm_reachable P s" and "world_ok P"
  shows "gm_inv P s"
  using assms by (induction rule: gm_reachable.induct) (auto intro: gm_step_inv)

section \<open>The device stays\<close>

definition same_dev :: "'e proc \<Rightarrow> 'e proc \<Rightarrow> bool" where
  "same_dev s t \<longleftrightarrow> gbm_dev t = gbm_dev s \<and> gbm_dev_fd t = gbm_dev_fd s \<and> devs t = devs s"

lemma same_dev_refl [simp]: "same_dev s s"
  by (simp add: same_dev_def)

lemma same_dev_trans: "same_dev s t \<Longrightarrow> same_dev t u \<Longrightarrow> same_dev s u"
  by (simp add: same_dev_def)

lemma same_dev_upd [simp]:
  "same_dev s (t\<lparr>env := e\<rparr>) = same_dev s t" "same_dev s (t\<lparr>handles := H\<rparr>) = same_dev s t"
  "same_dev s (t\<lparr>bos := B\<rparr>) = same_dev s t" "same_dev s (t\<lparr>gbm_bo_handle_map := M\<rparr>) = same_dev s t"
  "same_dev s (t\<lparr>open_fds := F\<rparr>) = same_dev s t" "same_dev s (store_bo b bo t) = same_dev s t"
  "same_dev s (store_handle p h t) = same_dev s t" "same_dev s (add_fd fd t) = same_dev s t"
  "same_dev s (close_fd fd t) = same_dev s t"
  by (simp_all add: same_dev_def store_bo_def store_handle_def add_fd_def close_fd_def)

lemma same_dev_ready: "same_dev s t \<Longrightarrow> dev_ready t = dev_ready s"
  by (simp add: same_dev_def dev_ready_def)

lemma handle_create_same_dev:
  "gralloc_handle_create P w h f u s = (p, t) \<Longrightarrow> same_dev s t"
  by (drule gralloc_handle_create_frame) (simp add: same_dev_def)

lemma allocate_finish_same_dev:
  "gralloc_allocate_finish P p h b bo s = (r, t) \<Longrightarrow> same_dev s t"
  by (auto simp: gralloc_allocate_finish_def Let_def split: prod.splits)

lemma handle_delete_same_dev: "native_handle_delete p s = Done t \<Longrightarrow> same_dev s t"
  by (auto simp: native_handle_delete_def andThen_eq_Done)

lemma device_init_same_dev:
  assumes "dev_ready s" and "gralloc_gbm_device_init P s = (r, t)"
  shows "same_dev s t"
proof -
  have "dev_ready (add_fd fd (s\<lparr>env := e\<rparr>))" for fd e
    using assms(1) by (simp add: dev_ready_def add_fd_def)
  then show ?thesis
    using assms(2) by (auto simp: gralloc_gbm_device_init_def Let_def split: prod.splits if_splits)
qed

lemma allocate_same_dev:
  assumes ready: "dev_ready s" and run: "gralloc_allocate P desc s = Done (r, t)"
  shows "same_dev s t"
proof -
  obtain d where d: "gbm_dev s = Some d"
    using ready by (auto simp: dev_ready_def)
  obtain p s2 where hc: "gralloc_handle_create P (d_width desc) (d_height desc)
      (d_android_format desc) (d_android_usage desc) s = (p, s2)"
    by fastforce
  note s2 = handle_create_same_dev [OF hc]
  show ?thesis
  proof (cases "p = 0")
    case True
    then show ?thesis
      using run ready d hc s2 by (auto simp: gralloc_allocate_def)
  next
    case False
    then obtain h where h: "load_handle p s2 = Done h"
      using run ready d hc by (auto simp: gralloc_allocate_def andThen_eq_Done)
    let ?f = "gralloc_gm_android_format_to_gbm_format (hal_of P) (h_format h)"
    let ?fl = "gralloc_gm_get_gbm_flags_from_android_usage (hal_of P) (h_usage h) (h_format h)"
    obtain w ht where wh: "alloc_dims (hal_of P) h ?fl = (w, ht)"
      by fastforce
    obtain res e where bc: "p_gbm_bo_create P (dom (bos s2)) d w ht ?f ?fl (env s2) = (res, e)"
      by fastforce
    show ?thesis
    proof (cases res)
      case None
      then obtain u where "native_handle_delete p (s2\<lparr>env := e\<rparr>) = Done u" and "same_dev u t"
        using run ready d hc False h wh bc by (auto simp: gralloc_allocate_def Let_def andThen_eq_Done)
      then show ?thesis
        using handle_delete_same_dev same_dev_trans s2 same_dev_upd(1) by metis
    next
      case (Some x)
      then obtain b bo where "res = Some (b, bo)" by (cases x) auto
      then have "gralloc_allocate_finish P p h b bo (store_bo b bo (s2\<lparr>env := e\<rparr>)) = (r, t)"
        using run ready d hc False h wh bc by (auto simp: gralloc_allocate_def Let_def)
      then show ?thesis
        using allocate_finish_same_dev same_dev_trans s2 same_dev_upd(1,6) by metis
    qed
  qed
qed

lemma import_same_dev:
  assumes ready: "dev_ready s" and run: "gralloc_gm_buffer_import P p s = Done (r, t)"
  shows "same_dev s t"
  using assms
  by (auto simp: gralloc_gm_buffer_import_def andThen_eq_Done Let_def
      split: if_splits option.splits prod.splits)

lemma only_lock_data_same_dev: "only_lock_data s t \<Longrightarrow> same_dev s t"
  by (simp add: only_lock_data_def same_dev_def)

lemma lock_same_dev:
  assumes "gralloc_gbm_bo_lock P p usage s = Done ((r, out), t)" and "world_ok P" and "gm_inv P s"
  shows "same_dev s t"
proof -
  have "lock_result P p usage s r out t"
    using lock_refines [OF assms(1)] gm_invD [OF assms(3)] assms(2) by (simp add: world_ok_def)
  then show ?thesis
    by (intro only_lock_data_same_dev) (simp add: lock_result_def Let_def)
qed

lemma unlock_same_dev:
  assumes "gralloc_gbm_bo_unlock P p s = Done (r, t)" and "gm_inv P s"
  shows "same_dev s t"
  using unlock_refines [OF assms(1) gm_invD(1,2) [OF assms(2)]]
  by (intro only_lock_data_same_dev) (rule conjunct1)

lemma await_fence_same_dev:
  assumes "await_fence P fd s = (x, t)"
  shows "same_dev s t"
  using await_fence_world [OF assms] by auto

text \<open>Once the device is ready, no call replaces it.\<close>

lemma ycbcr_same_dev:
  assumes "gralloc_gbm_bo_lock_ycbcr P p usage yc s = Done (x, t)" and "world_ok P" and "gm_inv P s"
  shows "same_dev s t"
  using ycbcr_state lock_same_dev assms by blast

lemma lock_async_same_dev:
  assumes run: "gralloc_gbm_bo_lock_async P p usage fd s = Done (x, t)" and w: "world_ok P" and inv: "gm_inv P s"
  shows "same_dev s t"
proof -
  obtain y s1 where a: "await_fence P fd s = (y, s1)"
    by fastforce
  show ?thesis
    using run a await_fence_same_dev [OF a] same_dev_trans [OF await_fence_same_dev [OF a]]
      lock_same_dev [OF _ w await_fence_gm_inv [OF a inv]]
    by (cases y; cases x) (auto simp: gralloc_gbm_bo_lock_async_def)
qed

lemma lock_async_ycbcr_same_dev:
  assumes run: "gralloc_gbm_bo_lock_async_ycbcr P p usage yc fd s = Done (x, t)" and w: "world_ok P" and inv: "gm_inv P s"
  shows "same_dev s t"
proof -
  obtain y s1 where a: "await_fence P fd s = (y, s1)"
    by fastforce
  show ?thesis
    using run a await_fence_same_dev [OF a] same_dev_trans [OF await_fence_same_dev [OF a]]
      ycbcr_same_dev [OF _ w await_fence_gm_inv [OF a inv]]
    by (cases y) (auto simp: gralloc_gbm_bo_lock_async_ycbcr_def)
qed

lemma gm_exec_same_dev:
  assumes run: "gm_exec P c s = Done (r, t)" and w: "world_ok P" and inv: "gm_inv P s"
    and ready: "dev_ready s"
  shows "same_dev s t"
proof (cases c)
  case DeviceInit
  then show ?thesis
    using run device_init_same_dev [OF ready] by simp
next
  case (DeviceCreate fd ok)
  then show ?thesis
    using run ready
    by (cases ok) (auto simp: code_of_def gralloc_gbm_device_create_def dev_ready_def)
next
  case (Import p)
  then show ?thesis
    using run import_same_dev [OF ready] by simp
next
  case (Free p)
  then show ?thesis
    using run buffer_free_registered [OF gm_invD(1) [OF inv], of p _ P] buffer_free_unregistered [of s p P]
    by (cases "gbm_bo_handle_map s p") auto
next
  case (UnlockAsync p b)
  then have "\<exists>r. gralloc_gbm_bo_unlock P p s = Done (r, t)"
    using run by (auto simp: code_of_def andThen_eq_Done gralloc_gbm_bo_unlock_async_def split: if_splits)
  then show ?thesis
    using unlock_same_dev [OF _ inv] by blast
qed (use run allocate_same_dev [OF ready] lock_same_dev [OF _ w inv] ycbcr_same_dev [OF _ w inv]
    lock_async_same_dev [OF _ w inv] lock_async_ycbcr_same_dev [OF _ w inv] unlock_same_dev [OF _ inv]
    in \<open>auto simp: code_of_def andThen_eq_Done\<close>)

section \<open>Runs of the library\<close>

text \<open>What its clients do to a process: steps of the machine that keep a ready device.\<close>

definition lib_steps :: "'e gbm_env \<Rightarrow> 'e proc \<Rightarrow> 'e proc \<Rightarrow> bool" where
  "lib_steps P s t \<longleftrightarrow> (gm_step P)\<^sup>*\<^sup>* s t \<and> gm_inv P t \<and> (dev_ready s \<longrightarrow> same_dev s t)"

lemma lib_steps_refl: "gm_inv P s \<Longrightarrow> lib_steps P s s"
  by (simp add: lib_steps_def)

lemma lib_steps_trans: "lib_steps P s t \<Longrightarrow> lib_steps P t u \<Longrightarrow> lib_steps P s u"
  unfolding lib_steps_def using rtranclp_trans same_dev_ready same_dev_trans by metis

lemma lib_steps_inv: "lib_steps P s t \<Longrightarrow> gm_inv P t"
  by (simp add: lib_steps_def)

lemma lib_steps_ready: "lib_steps P s t \<Longrightarrow> dev_ready s \<Longrightarrow> dev_ready t"
  using same_dev_ready by (auto simp: lib_steps_def)

lemma lib_steps_call:
  assumes "gm_exec P c s = Done (r, t)" and "world_ok P" and "gm_inv P s"
  shows "lib_steps P s t"
  using gm_exec_inv [OF assms] gm_exec_same_dev [OF assms] gm_call [OF assms(1)]
  by (auto simp: lib_steps_def)

lemma lib_steps_step:
  assumes s: "gm_step P s t" and w: "world_ok P" and inv: "gm_inv P s"
  shows "lib_steps P s t"
proof -
  have "same_dev s t" if "dev_ready s"
    using s
  proof (cases rule: gm_step.cases)
    case (gm_call c r)
    then show ?thesis
      using gm_exec_same_dev [OF _ w inv that] by blast
  qed (simp_all add: same_dev_def)
  then show ?thesis
    using s gm_step_inv [OF assms] by (auto simp: lib_steps_def)
qed

lemma lib_steps_reachable: "lib_steps P s t \<Longrightarrow> gm_reachable P s \<Longrightarrow> gm_reachable P t"
proof -
  have "(gm_step P)\<^sup>*\<^sup>* s t \<Longrightarrow> gm_reachable P s \<Longrightarrow> gm_reachable P t"
    by (induction rule: rtranclp_induct) (auto intro: gm_next)
  then show "lib_steps P s t \<Longrightarrow> gm_reachable P s \<Longrightarrow> gm_reachable P t"
    by (simp add: lib_steps_def)
qed

text \<open>
  The interface between the library and a component that uses it: every move of the component runs
  the library on the component's process and keeps the component's own invariant.
\<close>

locale library_client =
  fixes P :: "'e gbm_env" and proc_of :: "'s \<Rightarrow> 'e proc" and good :: "'s \<Rightarrow> bool"
    and moves :: "'s \<Rightarrow> 's \<Rightarrow> bool"
  assumes moves_lib: "moves s t \<Longrightarrow> lib_steps P (proc_of s) (proc_of t)"
    and moves_good: "moves s t \<Longrightarrow> good s \<Longrightarrow> good t"
begin

lemma session:
  assumes "moves\<^sup>*\<^sup>* s t" and "good s" and "gm_reachable P (proc_of s)"
  shows "good t \<and> gm_reachable P (proc_of t)"
  using assms
proof (induction rule: rtranclp_induct)
  case (step t u)
  then show ?case
    using moves_lib [OF step.hyps(2)] moves_good [OF step.hyps(2)] lib_steps_reachable by blast
qed simp

lemma session_device:
  assumes "moves\<^sup>*\<^sup>* s t" and "dev_ready (proc_of s)"
  shows "same_dev (proc_of s) (proc_of t)"
  using assms
proof (induction rule: rtranclp_induct)
  case (step t u)
  then have "same_dev (proc_of s) (proc_of t)" and "dev_ready (proc_of t)"
    using same_dev_ready by auto
  then show ?case
    using moves_lib [OF step.hyps(2)] same_dev_trans by (auto simp: lib_steps_def)
qed simp

end

section \<open>Faults\<close>

lemma code_of_Fault: "code_of m = Fault f \<longleftrightarrow> m = Fault f"
  by (cases m) (auto simp: code_of_def)

lemma import_fault:
  assumes "gralloc_gm_buffer_import P p s = Fault f"
  shows "p \<noteq> 0 \<and> (handles s p = None \<and> f = DanglingDeref \<or>
    (\<exists>h. handles s p = Some h \<and> numFds h + numInts h < 13 \<and> f = OutOfBounds))"
proof -
  obtain ret dev s1 where dc: "gralloc_gbm_device_create P (gbm_dev_fd s) True s = ((ret, dev), s1)"
    by (metis prod.exhaust)
  have h1: "handles s1 = handles s"
    using device_create_unchanged [OF dc] by (simp add: unchanged_buffers_def)
  have p: "p \<noteq> 0"
    using assms by (auto simp: gralloc_gm_buffer_import_def)
  have "load_handle p s1 = Fault f"
    using assms dc by (auto simp: gralloc_gm_buffer_import_def andThen_eq_Fault Let_def
        split: if_splits option.splits prod.splits)
  then show ?thesis
    using p h1 by (auto simp: load_handle_def load_native_def GRALLOC_HANDLE_NUM_INTS_eq
        GRALLOC_HANDLE_NUM_FDS_def andThen_eq_Fault split: option.splits if_splits)
qed

lemma ycbcr_fault:
  assumes f: "gralloc_gbm_bo_lock_ycbcr P p usage yc s = Fault f" and w: "world_ok P"
    and inv: "gm_inv P s"
  shows "f = AssertFail \<or> f = SignedOverflow"
proof (cases "gralloc_gbm_bo_lock P p usage s")
  case (Fault g)
  then show ?thesis
    using f lock_faults [OF gm_invD(1) [OF inv] Fault]
    by (auto simp: gralloc_gbm_bo_lock_ycbcr_def)
next
  case (Done x)
  then obtain r out t where d: "gralloc_gbm_bo_lock P p usage s = Done ((r, out), t)"
    by (cases x) auto
  have l: "lock_result P p usage s r out t"
    using lock_refines [OF d] gm_invD [OF inv] w by (simp add: world_ok_def)
  have "load_handle p t = load_handle p s"
    using lock_result_keeps(4) [OF l gm_invD(1) [OF inv]] by (intro load_handle_cong) simp
  moreover have "\<exists>h. load_handle p s = Done h" if "r = 0"
    using l that by (auto simp: lock_result_def Let_def)
  ultimately show ?thesis
    using f d by (auto simp: gralloc_gbm_bo_lock_ycbcr_def andThen_eq_Fault Let_def
        split: if_splits option.splits)
qed

lemma allocate_fault:
  assumes "gralloc_allocate P desc s = Fault f" and "world_ok P"
  shows "f = UninitRead \<and> \<not> dev_ready s"
proof -
  have c: "handle_contract P"
    using assms(2) by (simp add: world_ok_def)
  have n: "snd (fst (gralloc_gbm_device_create P (gbm_dev_fd s) True s)) = None"
  proof (rule ccontr)
    assume "snd (fst (gralloc_gbm_device_create P (gbm_dev_fd s) True s)) \<noteq> None"
    from allocate_done [OF c this, of desc] assms(1) show False
      by (simp add: is_done_iff)
  qed
  then have "\<not> dev_ready s"
    by (metis dev_ready_def device_create_ready fst_conv snd_conv)
  then show ?thesis
    using assms(1) n by (auto simp: gralloc_allocate_def split: prod.splits)
qed

lemma free_never_faults:
  assumes "gm_inv P s"
  shows "gralloc_gm_buffer_free P p s \<noteq> Fault f"
  using buffer_free_registered [OF gm_invD(1) [OF assms], of p _ P] buffer_free_unregistered [of s p P]
  by (cases "gbm_bo_handle_map s p") auto

text \<open>The faults the calls can have when the invariant holds.\<close>

primrec possible_fault :: "gm_call \<Rightarrow> 'e proc \<Rightarrow> fault \<Rightarrow> bool" where
  "possible_fault DeviceInit s f \<longleftrightarrow> False"
| "possible_fault (DeviceCreate fd ok) s f \<longleftrightarrow> False"
| "possible_fault (Allocate desc) s f \<longleftrightarrow> f = UninitRead \<and> \<not> dev_ready s"
| "possible_fault (Import p) s f \<longleftrightarrow> p \<noteq> 0 \<and> (handles s p = None \<and> f = DanglingDeref \<or>
     (\<exists>h. handles s p = Some h \<and> numFds h + numInts h < 13 \<and> f = OutOfBounds))"
| "possible_fault (Free p) s f \<longleftrightarrow> False"
| "possible_fault (Lock p usage) s f \<longleftrightarrow> f = AssertFail \<or> f = SignedOverflow"
| "possible_fault (LockYcbcr p usage yc) s f \<longleftrightarrow> f = AssertFail \<or> f = SignedOverflow"
| "possible_fault (LockAsync p usage fd) s f \<longleftrightarrow> f = AssertFail \<or> f = SignedOverflow"
| "possible_fault (LockAsyncYcbcr p usage yc fd) s f \<longleftrightarrow> f = AssertFail \<or> f = SignedOverflow"
| "possible_fault (Unlock p) s f \<longleftrightarrow> f = NullDeref \<and>
     (\<exists>b bo. gbm_bo_handle_map s p = Some b \<and> bos s b = Some bo \<and> user_data bo = None)"
| "possible_fault (UnlockAsync p b) s f \<longleftrightarrow> f = NullDeref \<and>
     (\<exists>b bo. gbm_bo_handle_map s p = Some b \<and> bos s b = Some bo \<and> user_data bo = None)"

lemma gm_exec_faults:
  assumes f: "gm_exec P c s = Fault f" and w: "world_ok P" and inv: "gm_inv P s"
  shows "possible_fault c s f"
proof (cases c)
  case (LockAsync p usage fd)
  obtain x s1 where a: "await_fence P fd s = (x, s1)"
    by fastforce
  have "reg_inv s1"
    using await_fence_gm_inv [OF a inv] by (rule gm_invD)
  then show ?thesis
    using f LockAsync a lock_faults [of s1]
    by (cases x) (auto simp: code_of_Fault gralloc_gbm_bo_lock_async_def)
next
  case (LockAsyncYcbcr p usage yc fd)
  obtain x s1 where a: "await_fence P fd s = (x, s1)"
    by fastforce
  then show ?thesis
    using f LockAsyncYcbcr ycbcr_fault [OF _ w await_fence_gm_inv [OF a inv]]
    by (cases x) (auto simp: code_of_Fault gralloc_gbm_bo_lock_async_ycbcr_def)
next
  case (UnlockAsync p b)
  have "gralloc_gbm_bo_unlock P p s = Fault f"
    using f UnlockAsync
    by (auto simp: code_of_Fault gralloc_gbm_bo_unlock_async_def andThen_eq_Fault split: if_splits)
  then show ?thesis
    using UnlockAsync unlock_faults [OF gm_invD(1,2) [OF inv]] by simp
next
  case (Unlock p)
  then show ?thesis
    using f unlock_faults [OF gm_invD(1,2) [OF inv]] by simp
next
  case (LockYcbcr p usage yc)
  then show ?thesis
    using f ycbcr_fault [OF _ w inv] by (auto simp: code_of_Fault)
next
  case (Lock p usage)
  then show ?thesis
    using f lock_faults [OF gm_invD(1) [OF inv]] by (auto simp: code_of_Fault)
next
  case (Import p)
  then show ?thesis
    using f import_fault by auto
next
  case (Allocate desc)
  then show ?thesis
    using f allocate_fault [OF _ w] by (auto simp: code_of_Fault)
qed (use f free_never_faults [OF inv] in \<open>auto simp: code_of_Fault\<close>)

section \<open>Draining the registry\<close>

definition frees :: "'e gbm_env \<Rightarrow> ptr \<Rightarrow> 'e proc \<Rightarrow> 'e proc \<Rightarrow> bool" where
  "frees P p s t \<longleftrightarrow> gralloc_gm_buffer_free P p s = Done (0, t)"

lemma frees_all:
  assumes "gm_inv P s" and "distinct ps" and "set ps \<subseteq> dom (gbm_bo_handle_map s)"
  shows "\<exists>t. chain (frees P) ps s t \<and> chain unregisters ps s t \<and> gm_inv P t \<and>
    handles t = handles s \<and> open_fds t = open_fds s \<and>
    dom (gbm_bo_handle_map t) = dom (gbm_bo_handle_map s) - set ps"
  using assms
proof (induction ps arbitrary: s)
  case (Cons p ps)
  then have "gbm_bo_handle_map s p \<noteq> None"
    by auto
  then obtain u where u: "gralloc_gm_buffer_free P p s = Done (0, u)" "unregisters p s u"
    "handles u = handles s" "open_fds u = open_fds s"
    using buffer_free_unregisters [OF gm_invD(1) [OF Cons.prems(1)]] by blast
  have inv: "gm_inv P u"
    by (rule free_gm_inv [OF u(1) Cons.prems(1)])
  have d: "dom (gbm_bo_handle_map u) = dom (gbm_bo_handle_map s) - {p}"
    using u(2) by (simp add: unregisters_def)
  have "set ps \<subseteq> dom (gbm_bo_handle_map u)"
    using Cons.prems(2,3) unfolding d by auto
  then obtain t where "chain (frees P) ps u t \<and> chain unregisters ps u t \<and> gm_inv P t \<and>
      handles t = handles u \<and> open_fds t = open_fds u \<and>
      dom (gbm_bo_handle_map t) = dom (gbm_bo_handle_map u) - set ps"
    using Cons.IH [OF inv] Cons.prems(2) by auto
  then show ?case
    using u d by (intro exI [of _ t]) (auto simp: frees_def [of P p])
qed simp

section \<open>Properties\<close>


lemma sample_ready_reachable: "gm_reachable sample_env sample_ready"
proof -
  have "gm_exec sample_env DeviceInit (init_proc () {}) = Done (10, sample_ready)"
    by (simp add: gralloc_gbm_device_init_def gralloc_gbm_device_create_def Let_def sample_ready_def
        init_proc_def fresh_fd_def sample_lists add_fd_def is_neg_def is_pos_def)
  then show ?thesis
    using gm_call gm_next gm_start by metis
qed

lemma sample_buffer_reachable:
  "\<exists>s. gm_reachable sample_env s \<and> dom (gbm_bo_handle_map s) = {0x1000}"
proof -
  obtain desc r s where run: "gralloc_allocate sample_env desc sample_ready = Done ((r, Some (256, 0x1000)), s)"
    using sample_allocate by blast
  have "gm_exec sample_env (Allocate desc) sample_ready = Done (r, s)"
    by (simp add: run code_of_def)
  then have "gm_reachable sample_env s"
    using gm_call gm_next sample_ready_reachable by metis
  moreover have "gbm_bo_handle_map s = [0x1000 \<mapsto> the (gbm_bo_handle_map s 0x1000)]"
    using gralloc_allocate_cases [OF run]
    by (auto simp: allocated_def emplace_def)
  ultimately show ?thesis
    by (metis dom_empty dom_fun_upd option.distinct(1))
qed

lemma sample_world_ok [simp]: "world_ok sample_env"
  by (simp add: world_ok_def)


text \<open>C2: In a reachable state no call can destroy an object twice, and freeing or initialising
  never faults at all.  The only faults are the caller's import of a handle that is dead or too
  short, an allocation before the device is ready, an unlock of a buffer that was never locked, and
  in a lock the assertion on Mesa's stride or the overflow of the lock count.\<close>

theorem reachable_faults:
  assumes "gm_reachable P s" and "world_ok P" and "gm_exec P c s = Fault f"
  shows "possible_fault c s f \<and> f \<noteq> DoubleDestroy \<and>
    (\<exists>t. cleanup_all s = Done t \<and> gbm_dev t = None)"
proof -
  have inv: "gm_inv P s"
    by (rule gm_reachable_inv [OF assms(1,2)])
  have "possible_fault c s f"
    by (rule gm_exec_faults [OF assms(3,2) inv])
  then show ?thesis
    using cleanup_all_idle [OF gm_invD(3) [OF inv]] by (cases c) auto
qed

theorem reachable_faults_witness:
  "gm_exec sample_env (Import 0x5000) sample_ready = Fault DanglingDeref \<and>
   possible_fault (Import 0x5000) sample_ready DanglingDeref"
proof -
  have "gm_exec sample_env (Import 0x5000) sample_ready = Fault DanglingDeref"
    by (simp add: gralloc_gm_buffer_import_def dev_ready_def is_pos_def load_handle_def load_native_def)
  then show ?thesis
    using reachable_faults [OF sample_ready_reachable sample_world_ok] by blast
qed

text \<open>C22: From every reachable state, freeing each registered handle once, in any order, succeeds
  every time and ends with an empty registry and no buffer object left, locked ones included; the
  native handles and their descriptors all remain.\<close>

theorem registry_drains:
  assumes "gm_reachable P s" and "world_ok P" and "distinct ps" and "set ps = dom (gbm_bo_handle_map s)"
  shows "\<exists>t. chain (\<lambda>p s t. gralloc_gm_buffer_free P p s = Done (0, t)) ps s t \<and>
    gbm_bo_handle_map t = Map.empty \<and> bos t = Map.empty \<and>
    handles t = handles s \<and> open_fds t = open_fds s"
proof -
  have inv: "gm_inv P s"
    by (rule gm_reachable_inv [OF assms(1,2)])
  obtain t where t: "chain (frees P) ps s t" "chain unregisters ps s t" "gm_inv P t"
    "handles t = handles s" "open_fds t = open_fds s"
    using frees_all [OF inv assms(3)] assms(4) by blast
  have l: "gralloc_get_gbm_bo_from_handle p t = None" for p
    using reg.chain_release(2) [OF t(2) gm_invD(1) [OF inv], of p] assms(4)
    by (auto simp: gralloc_get_gbm_bo_from_handle_def)
  then have "dom (bos t) = {}"
    using reg.live_iff [OF gm_invD(1) [OF t(3)]] by auto
  then show ?thesis
    using t l unfolding frees_def gralloc_get_gbm_bo_from_handle_def by auto
qed

theorem registry_drains_witness:
  "\<exists>s t. gm_reachable sample_env s \<and> gralloc_gm_buffer_free sample_env 0x1000 s = Done (0, t) \<and>
     bos t = Map.empty"
proof -
  obtain s where s: "gm_reachable sample_env s" "dom (gbm_bo_handle_map s) = {0x1000}"
    using sample_buffer_reachable by blast
  then show ?thesis
    using registry_drains [OF s(1) sample_world_ok, of "[0x1000]"] by auto
qed

end
