(* ===== verification/Mapper_Service.thy ===== *)
theory Mapper_Service
  imports Stablec_Mapper Gm_Machine
begin

text \<open>
  The mapper as a client sees it: the function table that \<open>IMapperProvider::bindV5\<close> fills
  (IMapperProvider.h), and the mapper over the library's state machine.
\<close>

section \<open>The function table\<close>

text \<open>The methods of \<open>IMapperV5Impl\<close> with their arguments; the unused access region is left out.\<close>

datatype IMapperV5_call =
    ImportBuffer ptr
  | FreeBuffer ptr
  | GetTransportSize ptr
  | LockBuffer ptr u64 c_int
  | UnlockBuffer ptr
  | FlushLockedBuffer ptr
  | RereadLockedBuffer ptr
  | GetMetadata ptr AIMapper_MetadataType nat
  | GetStandardMetadata ptr u64 nat
  | SetMetadata ptr AIMapper_MetadataType bytes
  | SetStandardMetadata ptr u64 bytes
  | ListSupportedMetadataTypes
  | DumpBuffer ptr
  | DumpAllBuffers
  | GetReservedRegion ptr

text \<open>The code returned and what was stored through the out pointers.\<close>

datatype IMapperV5_answer =
    Code int
  | Imported int "ptr option"
  | TransportSize int "(nat \<times> nat) option"
  | LockedData int "u64 option"
  | ReleaseFence int "c_int option"
  | MetadataBytes int bytes
  | Descriptions int "AIMapper_MetadataTypeDescription list"
  | ReservedRegion int "(ptr \<times> u64) option"

primrec bindV5 ::
    "'e gbm_env \<Rightarrow> mapper_consts \<Rightarrow> IMapperV5_call \<Rightarrow> 'e mapper \<Rightarrow> (IMapperV5_answer \<times> 'e mapper) run" where
  "bindV5 P C (ImportBuffer handle) m =
     andThen (importBuffer P handle m) (\<lambda>((r, out), m). Done (Imported r out, m))"
| "bindV5 P C (FreeBuffer buffer) m = andThen (freeBuffer P buffer m) (\<lambda>(r, m). Done (Code r, m))"
| "bindV5 P C (GetTransportSize buffer) m =
     andThen (getTransportSize buffer m) (\<lambda>((r, out), m). Done (TransportSize r out, m))"
| "bindV5 P C (LockBuffer buffer cpuUsage acquireFence) m =
     andThen (lock P buffer cpuUsage acquireFence m) (\<lambda>((r, out), m). Done (LockedData r out, m))"
| "bindV5 P C (UnlockBuffer buffer) m =
     andThen (unlock P buffer m) (\<lambda>((r, out), m). Done (ReleaseFence r out, m))"
| "bindV5 P C (FlushLockedBuffer buffer) m = (let (r, m) = flushLockedBuffer buffer m in Done (Code r, m))"
| "bindV5 P C (RereadLockedBuffer buffer) m = (let (r, m) = rereadLockedBuffer buffer m in Done (Code r, m))"
| "bindV5 P C (GetMetadata buffer metadataType n) m =
     andThen (getMetadata P C buffer metadataType n m) (\<lambda>((r, out), m). Done (MetadataBytes r out, m))"
| "bindV5 P C (GetStandardMetadata buffer standardType n) m =
     andThen (getStandardMetadata P C buffer standardType n m) (\<lambda>((r, out), m). Done (MetadataBytes r out, m))"
| "bindV5 P C (SetMetadata buffer metadataType metadata) m =
     andThen (setMetadata C buffer metadataType metadata m) (\<lambda>(r, m). Done (Code r, m))"
| "bindV5 P C (SetStandardMetadata buffer standardType metadata) m =
     andThen (setStandardMetadata C buffer standardType metadata m) (\<lambda>(r, m). Done (Code r, m))"
| "bindV5 P C ListSupportedMetadataTypes m =
     (let (r, out) = listSupportedMetadataTypes C in Done (Descriptions r out, m))"
| "bindV5 P C (DumpBuffer buffer) m = (let (r, m) = dumpBuffer buffer m in Done (Code r, m))"
| "bindV5 P C DumpAllBuffers m = (let (r, m) = dumpAllBuffers m in Done (Code r, m))"
| "bindV5 P C (GetReservedRegion buffer) m =
     (let ((r, out), m) = getReservedRegion buffer m in Done (ReservedRegion r out, m))"

text \<open>\<open>impl()\<close>: the table's functions run on the implementation of the instance pointer.\<close>

definition impl_call ::
    "'e gbm_env \<Rightarrow> mapper_consts \<Rightarrow> IMapperV5_call \<Rightarrow> 'e provider \<Rightarrow> (IMapperV5_answer \<times> 'e provider) run" where
  "impl_call P C c p =
    (case mImpl p of
       None \<Rightarrow> Fault NullDeref
     | Some m \<Rightarrow> andThen (bindV5 P C c m) (\<lambda>(r, m). Done (r, p\<lparr>mImpl := Some m\<rparr>)))"

section \<open>The mapper over the library's machine\<close>

text \<open>Every metadata object sits under the descriptor it was made for.\<close>

definition md_inv :: "'e mapper \<Rightarrow> bool" where
  "md_inv m \<longleftrightarrow> (\<forall>fd md. metadata_map m fd = Some md \<longrightarrow> md_prime_fd md = fd)"

definition mapper_inv :: "'e gbm_env \<Rightarrow> 'e mapper \<Rightarrow> bool" where
  "mapper_inv P m \<longleftrightarrow> gm_inv P (gm m) \<and> (mInitialized m \<longrightarrow> dev_ready (gm m)) \<and> md_inv m"

definition mapper_step :: "'e gbm_env \<Rightarrow> 'e mapper \<Rightarrow> 'e mapper \<Rightarrow> bool" where
  "mapper_step P m n \<longleftrightarrow> lib_steps P (gm m) (gm n) \<and> mInitialized n = mInitialized m \<and> (md_inv m \<longrightarrow> md_inv n)"

lemma mapper_step_refl: "gm_inv P (gm m) \<Longrightarrow> mapper_step P m m"
  by (simp add: mapper_step_def lib_steps_refl)

lemma mapper_step_lift: "lib_steps P (gm m) s \<Longrightarrow> mapper_step P m (m\<lparr>gm := s\<rparr>)"
  by (simp add: mapper_step_def md_inv_def)

lemma mapper_step_trans: "mapper_step P m n \<Longrightarrow> mapper_step P n k \<Longrightarrow> mapper_step P m k"
  unfolding mapper_step_def using lib_steps_trans by metis

lemma mapper_step_inv: "mapper_step P m n \<Longrightarrow> mapper_inv P m \<Longrightarrow> mapper_inv P n"
  using lib_steps_inv lib_steps_ready by (auto simp: mapper_step_def mapper_inv_def)

interpretation mp: library_client P gm "mapper_inv P" "mapper_step P" for P
  by unfold_locales (simp add: mapper_step_def, rule mapper_step_inv)

lemma lib_steps_world:
  assumes "world_ok P" and "gm_inv P s"
  shows "lib_steps P s (s\<lparr>open_fds := F\<rparr>)" and "lib_steps P s (s\<lparr>env := e\<rparr>)"
proof -
  have "gm_step P s (s\<lparr>env := env s, open_fds := F\<rparr>)" and "gm_step P s (s\<lparr>env := e, open_fds := open_fds s\<rparr>)"
    by (rule gm_world)+
  moreover have "s\<lparr>env := env s, open_fds := F\<rparr> = s\<lparr>open_fds := F\<rparr>" and "s\<lparr>env := e, open_fds := open_fds s\<rparr> = s\<lparr>env := e\<rparr>"
    by simp_all
  ultimately show "lib_steps P s (s\<lparr>open_fds := F\<rparr>)" and "lib_steps P s (s\<lparr>env := e\<rparr>)"
    using lib_steps_step [OF _ assms] by metis+
qed

lemma clone_steps:
  assumes cl: "native_handle_clone P p s = Done (q, t)" and w: "world_ok P" and inv: "gm_inv P s"
  shows "lib_steps P s t \<and> (q \<noteq> 0 \<longrightarrow> gbm_bo_handle_map t q = None)"
proof -
  have "handle_contract P"
    using w by (simp add: world_ok_def)
  from clone_cases [OF cl this] show ?thesis
  proof (elim disjE conjE exE)
    fix e assume "q = 0" "t = s\<lparr>env := e\<rparr>"
    then show ?thesis
      using lib_steps_world [OF w inv] by simp
  next
    fix e h' assume q: "q \<noteq> 0" "q \<notin> dom (handles s)"
      and t: "t = s\<lparr>env := e, handles := (handles s)(q \<mapsto> h'),
          open_fds := open_fds s \<union> set (filter (\<lambda>fd. \<not> is_neg fd) (handle_fds h'))\<rparr>"
    let ?u = "s\<lparr>handles := (handles s)(q \<mapsto> h')\<rparr>"
    have u: "lib_steps P s ?u"
      by (rule lib_steps_step [OF gm_receive [OF q] w inv])
    have "gm_step P ?u (?u\<lparr>env := e, open_fds := open_fds s \<union> set (filter (\<lambda>fd. \<not> is_neg fd) (handle_fds h'))\<rparr>)"
      by (rule gm_world)
    moreover have "?u\<lparr>env := e, open_fds := open_fds s \<union> set (filter (\<lambda>fd. \<not> is_neg fd) (handle_fds h'))\<rparr> = t"
      unfolding t by simp
    ultimately have "lib_steps P ?u t"
      using lib_steps_step [OF _ w lib_steps_inv [OF u]] by metis
    moreover have "gbm_bo_handle_map s q = None"
      using gm_invD(1) [OF inv] q(2) reg_invD [of s q] by (cases "gbm_bo_handle_map s q") (auto simp: load_handle_Done)
    ultimately show ?thesis
      using lib_steps_trans [OF u] by (simp add: t)
  qed
qed

lemma release_steps:
  assumes run: "andThen (native_handle_close p s) (\<lambda>s. native_handle_delete p s) = Done t"
    and p: "gbm_bo_handle_map s p = None" and w: "world_ok P" and inv: "gm_inv P s"
  shows "lib_steps P s t"
proof -
  obtain F where t: "t = (s\<lparr>open_fds := F\<rparr>)\<lparr>handles := erase p (handles (s\<lparr>open_fds := F\<rparr>))\<rparr>"
    using run by (auto simp: native_handle_close_def native_handle_delete_def andThen_eq_Done)
  note a = lib_steps_world(1) [OF w inv, of F]
  have "lib_steps P (s\<lparr>open_fds := F\<rparr>) t"
    unfolding t by (rule lib_steps_step [OF gm_dispose w lib_steps_inv [OF a]]) (simp add: p)
  then show ?thesis
    by (rule lib_steps_trans [OF a])
qed

section \<open>The methods\<close>

lemma import_steps:
  assumes cl: "native_handle_clone P p s = Done (q, s1)" and w: "world_ok P" and inv: "gm_inv P s"
    and im: "gralloc_gm_buffer_import P q s1 = Done (ret, s2)"
  shows "lib_steps P s s2" and "q \<noteq> 0 \<Longrightarrow> ret \<noteq> 0 \<Longrightarrow> gbm_bo_handle_map s2 q = None"
proof -
  note st = clone_steps [OF cl w inv]
  have "gm_exec P (Import q) s1 = Done (ret, s2)"
    using im by simp
  from lib_steps_call [OF this w] have "lib_steps P s1 s2"
    using st lib_steps_inv by blast
  then show "lib_steps P s s2"
    using lib_steps_trans st by blast
  show "gbm_bo_handle_map s2 q = None" if "q \<noteq> 0" "ret \<noteq> 0"
    using buffer_import_cases [OF im] w st that by (auto simp: world_ok_def unchanged_buffers_def)
qed

lemma importBuffer_step:
  assumes run: "importBuffer P p m = Done ((r, out), n)" and w: "world_ok P" and inv: "gm_inv P (gm m)"
  shows "mapper_step P m n"
  using run
proof (cases rule: importBuffer_runE)
  case early
  then show ?thesis
    using mapper_step_refl [OF inv] by simp
next
  case (no_clone s)
  then show ?thesis
    using clone_steps [OF no_clone(1) w inv] mapper_step_lift by blast
next
  case (undone q s ret t u)
  note st = import_steps [OF undone(1) w inv undone(3)]
  have "lib_steps P t u"
    using release_steps undone(2,4,5) st w lib_steps_inv by blast
  then show ?thesis
    unfolding undone(8) using lib_steps_trans st(1) mapper_step_lift by blast
next
  case (registered q s t)
  then show ?thesis
    using import_steps(1) [OF registered(1) w inv registered(3)] mapper_step_lift by blast
qed

lemma free_unregisters_handle:
  assumes "gralloc_gm_buffer_free P p s = Done (r, t)" and "reg_inv s"
  shows "gbm_bo_handle_map t p = None"
proof (cases "gbm_bo_handle_map s p")
  case None
  then show ?thesis
    using assms(1) buffer_free_unregistered [of s p P] by simp
next
  case (Some b)
  then show ?thesis
    using assms(1) buffer_free_registered [OF assms(2) Some, of P] by auto
qed

lemma md_inv_erase [simp]: "md_inv m \<Longrightarrow> md_inv (m\<lparr>metadata_map := erase k (metadata_map m)\<rparr>)"
  by (auto simp: md_inv_def erase_def split: if_splits)

lemma freeBuffer_step:
  assumes run: "freeBuffer P p m = Done (r, n)" and w: "world_ok P" and inv: "gm_inv P (gm m)"
  shows "mapper_step P m n"
proof (cases "\<not> mInitialized m \<or> p = 0")
  case True
  then show ?thesis
    using run mapper_step_refl [OF inv] by (auto simp: freeBuffer_def split: if_splits)
next
  case False
  obtain hnd where h: "load_handle p (gm m) = Done hnd"
    using run False by (auto simp: freeBuffer_def andThen_eq_Done)
  obtain k where k: "gm k = gm m" "mInitialized k = mInitialized m" "md_inv m \<longrightarrow> md_inv k"
    and rest: "andThen (gralloc_gm_buffer_free P p (gm k)) (\<lambda>(ret, s).
            if ret \<noteq> 0 then Done (AIMAPPER_ERROR_BAD_BUFFER, k\<lparr>gm := s\<rparr>)
            else andThen (native_handle_close p s) (\<lambda>s.
                 andThen (native_handle_delete p s) (\<lambda>s. Done (AIMAPPER_ERROR_NONE, k\<lparr>gm := s\<rparr>)))) = Done (r, n)"
  proof
    let ?k = "if metadata_map m (prime_fd hnd) \<noteq> None
              then m\<lparr>metadata_map := erase (prime_fd hnd) (metadata_map m)\<rparr> else m"
    show "gm ?k = gm m" "mInitialized ?k = mInitialized m" "md_inv m \<longrightarrow> md_inv ?k"
      by simp_all
    show "andThen (gralloc_gm_buffer_free P p (gm ?k)) (\<lambda>(ret, s).
            if ret \<noteq> 0 then Done (AIMAPPER_ERROR_BAD_BUFFER, ?k\<lparr>gm := s\<rparr>)
            else andThen (native_handle_close p s) (\<lambda>s.
                 andThen (native_handle_delete p s) (\<lambda>s. Done (AIMAPPER_ERROR_NONE, ?k\<lparr>gm := s\<rparr>)))) = Done (r, n)"
      using run False unfolding freeBuffer_def h andThen.simps Let_def by simp
  qed
  obtain ret s where f: "gralloc_gm_buffer_free P p (gm m) = Done (ret, s)"
    using rest k(1) by (auto simp: andThen_eq_Done)
  have "gm_exec P (Free p) (gm m) = Done (ret, s)"
    using f by simp
  note gs = lib_steps_call [OF this w inv]
  obtain t where t: "lib_steps P s t" "n = k\<lparr>gm := t\<rparr>"
  proof (cases "ret = 0")
    case True
    then obtain t where "andThen (native_handle_close p s) (\<lambda>s. native_handle_delete p s) = Done t" and "n = k\<lparr>gm := t\<rparr>"
      using rest k(1) f by (auto simp: andThen_eq_Done)
    then show ?thesis
      using that release_steps [OF _ free_unregisters_handle [OF f gm_invD(1) [OF inv]] w lib_steps_inv [OF gs]] by blast
  next
    case False
    then show ?thesis
      using that [OF lib_steps_refl [OF lib_steps_inv [OF gs]]] rest k(1) f by simp
  qed
  have "mapper_step P k n"
    unfolding t(2) by (rule mapper_step_lift) (use lib_steps_trans [OF gs t(1)] k(1) in simp)
  then show ?thesis
    using k by (simp add: mapper_step_def)
qed

lemma lock_step:
  assumes run: "lock P p usage fence m = Done ((r, out), n)" and w: "world_ok P" and inv: "gm_inv P (gm m)"
  shows "mapper_step P m n"
proof -
  have fence: "mapper_step P k (close_fence fence k)" if "gm_inv P (gm k)" for k
    using lib_steps_world(1) [OF w that] mapper_step_refl [OF that]
    by (auto simp: close_fence_def close_fd_def intro: mapper_step_lift)
  show ?thesis
  proof (cases "\<not> mInitialized m \<or> p = 0 \<or> usage = 0")
    case True
    then have "n = close_fence fence m"
      using run by (cases "mInitialized m"; cases "p = 0") (simp_all add: lock_def)
    then show ?thesis
      using fence [OF inv] by simp
  next
    case False
    then obtain ret o' s where l: "gralloc_gbm_bo_lock P p (ucast usage) (gm m) = Done ((ret, o'), s)"
      and n: "n = close_fence fence (m\<lparr>gm := s\<rparr>)"
      using run by (auto simp: lock_def andThen_eq_Done split: if_splits)
    have "gm_exec P (Lock p (ucast usage)) (gm m) = Done (ret, s)"
      using l by (simp add: code_of_def)
    note gs = lib_steps_call [OF this w inv]
    show ?thesis
      unfolding n using mapper_step_trans [OF mapper_step_lift [OF gs] fence] lib_steps_inv [OF gs] by simp
  qed
qed

lemma unlock_step:
  assumes run: "unlock P p m = Done ((r, out), n)" and w: "world_ok P" and inv: "gm_inv P (gm m)"
  shows "mapper_step P m n"
proof (cases "\<not> mInitialized m \<or> p = 0")
  case True
  then show ?thesis
    using run mapper_step_refl [OF inv] by (auto simp: unlock_def split: if_splits)
next
  case False
  then obtain ret s where l: "gm_exec P (Unlock p) (gm m) = Done (ret, s)" and n: "n = m\<lparr>gm := s\<rparr>"
    using run by (auto simp: unlock_def andThen_eq_Done split: if_splits)
  show ?thesis
    unfolding n by (rule mapper_step_lift [OF lib_steps_call [OF l w inv]])
qed

text \<open>The metadata methods leave the process alone.\<close>

lemma mapper_step_metadata:
  assumes "gm n = gm m" and "mInitialized n = mInitialized m" and "md_inv m \<Longrightarrow> md_inv n" and "gm_inv P (gm m)"
  shows "mapper_step P m n"
  using assms by (simp add: mapper_step_def lib_steps_refl)

lemma md_inv_create: "md_inv m \<Longrightarrow> md_inv (snd (createMetadata C hnd m))"
  by (auto simp: md_inv_def createMetadata_def Let_def split: option.splits if_splits)

lemma md_inv_update:
  assumes "md_inv m" and "\<And>md. md_prime_fd (f md) = md_prime_fd md"
  shows "md_inv (update_metadata fd f m)"
  using assms by (auto simp: md_inv_def update_metadata_def split: if_splits)

lemma getStandardMetadata_step:
  assumes run: "getStandardMetadata P C p T k m = Done (r, n)" and inv: "gm_inv P (gm m)"
  shows "mapper_step P m n"
proof -
  have "n = m \<or> (\<exists>hnd. n = snd (createMetadata C hnd m))"
  proof (cases "\<not> mInitialized m \<or> p = 0 \<or> invokeWithStandardMetadata (mc_smt C) T = None")
    case True
    then show ?thesis
      using run by (auto simp: getStandardMetadata_def provideStandardMetadata_def split: if_splits)
  next
    case False
    then obtain U where "get_standard P C p U (\<lambda>value. metadata_encode (smt_code (mc_smt C) U) value k) m = Done (r, n)"
      using run by (auto simp: getStandardMetadata_def provideStandardMetadata_def)
    then show ?thesis
      unfolding get_standard_def Let_def case_prod_beta andThen_eq_Done
      by (elim exE conjE) (auto split: option.splits)
  qed
  then show ?thesis
    using mapper_step_metadata [OF _ _ md_inv_create inv] mapper_step_refl [OF inv] by auto
qed

lemma setStandardMetadata_state:
  assumes run: "setStandardMetadata C p T bs m = Done (r, n)"
  shows "n = m \<or> (\<exists>hnd f. (\<forall>md. md_prime_fd (f md) = md_prime_fd md) \<and>
    (n = snd (createMetadata C hnd m) \<or> n = update_metadata (prime_fd hnd) f (snd (createMetadata C hnd m))))"
proof (cases "\<not> mInitialized m \<or> p = 0")
  case True
  then show ?thesis
    using run by (auto simp: setStandardMetadata_def split: if_splits)
next
  case False
  then obtain hnd where h: "load_handle p (gm m) = Done hnd"
    using run by (auto simp: setStandardMetadata_def andThen_eq_Done)
  let ?c = "snd (createMetadata C hnd m)"
  have "n = ?c \<or> n = update_metadata (prime_fd hnd) (\<lambda>md. md\<lparr>dataspace := of_le bs\<rparr>) ?c \<or>
      n = update_metadata (prime_fd hnd) (\<lambda>md. md\<lparr>blend_mode := of_le bs\<rparr>) ?c \<or>
      n = update_metadata (prime_fd hnd) (\<lambda>md. md\<lparr>md_smpte2086 := load_Smpte2086 C bs\<rparr>) ?c \<or>
      n = update_metadata (prime_fd hnd) (\<lambda>md. md\<lparr>md_cta861_3 := load_Cta861_3 C bs\<rparr>) ?c"
    using run False h
    by (cases "createMetadata C hnd m") (auto simp: setStandardMetadata_def Let_def split: if_splits)
  then show ?thesis
  proof (elim disjE)
    assume "n = ?c"
    then show ?thesis
      by (intro disjI2 exI [of _ hnd] exI [of _ id]) simp
  qed (rule disjI2, rule exI [of _ hnd], rule exI, rule conjI [rotated], erule disjI2, simp)+
qed

lemma setStandardMetadata_step:
  assumes run: "setStandardMetadata C p T bs m = Done (r, n)" and inv: "gm_inv P (gm m)"
  shows "mapper_step P m n"
  using setStandardMetadata_state [OF run]
proof (elim disjE exE conjE)
  assume "n = m"
  then show ?thesis
    using mapper_step_refl [OF inv] by simp
next
  fix hnd assume "n = snd (createMetadata C hnd m)"
  then show ?thesis
    by (intro mapper_step_metadata [OF _ _ _ inv]) (simp_all add: md_inv_create)
next
  fix hnd f assume "\<forall>md. md_prime_fd (f md) = md_prime_fd md"
    and "n = update_metadata (prime_fd hnd) f (snd (createMetadata C hnd m))"
  then show ?thesis
    by (intro mapper_step_metadata [OF _ _ _ inv]) (simp_all add: md_inv_create md_inv_update)
qed

lemma bindV5_step:
  assumes run: "bindV5 P C c m = Done (r, n)" and w: "world_ok P" and inv: "gm_inv P (gm m)"
  shows "mapper_step P m n"
proof (cases c)
  case (ImportBuffer p)
  then show ?thesis
    using run importBuffer_step [OF _ w inv] by (auto simp: andThen_eq_Done)
next
  case (FreeBuffer p)
  then show ?thesis
    using run freeBuffer_step [OF _ w inv] by (auto simp: andThen_eq_Done)
next
  case (LockBuffer p u f)
  then show ?thesis
    using run lock_step [OF _ w inv] by (auto simp: andThen_eq_Done)
next
  case (UnlockBuffer p)
  then show ?thesis
    using run unlock_step [OF _ w inv] by (auto simp: andThen_eq_Done)
next
  case (GetMetadata p T k)
  then show ?thesis
    using run getStandardMetadata_step [OF _ inv] mapper_step_refl [OF inv]
    by (auto simp: andThen_eq_Done getMetadata_def split: if_splits)
next
  case (GetStandardMetadata p T k)
  then show ?thesis
    using run getStandardMetadata_step [OF _ inv] by (auto simp: andThen_eq_Done)
next
  case (SetMetadata p T bs)
  then show ?thesis
    using run setStandardMetadata_step [OF _ inv] mapper_step_refl [OF inv]
    by (auto simp: andThen_eq_Done setMetadata_def split: if_splits)
next
  case (SetStandardMetadata p T bs)
  then show ?thesis
    using run setStandardMetadata_step [OF _ inv] by (auto simp: andThen_eq_Done)
qed (use run mapper_step_refl [OF inv] in
  \<open>auto simp: andThen_eq_Done getTransportSize_def flushLockedBuffer_def rereadLockedBuffer_def
    listSupportedMetadataTypes_def dumpBuffer_def dumpAllBuffers_def getReservedRegion_def
    split: if_splits\<close>)

section \<open>Properties\<close>

text \<open>
  A process with a mapper: the mapper is created in a process that any use of the library may have
  led to, its methods are called, and the rest of the process goes on using the library and
  receiving handles.
\<close>

inductive mapper_reachable :: "'e gbm_env \<Rightarrow> mapper_consts \<Rightarrow> 'e mapper \<Rightarrow> bool" for P C where
  loaded: "gm_reachable P s \<Longrightarrow> mapper_reachable P C (GbmMesaMapperV5 P s)"
| called: "mapper_reachable P C m \<Longrightarrow> bindV5 P C c m = Done (r, n) \<Longrightarrow> mapper_reachable P C n"
| elsewhere: "mapper_reachable P C m \<Longrightarrow> gm_step P (gm m) s \<Longrightarrow> mapper_reachable P C (m\<lparr>gm := s\<rparr>)"

text \<open>C4: Whatever calls a client makes through the mapper's function table, in any order and mixed
  with any other use of the library in the process, the process stays within the library's state
  machine, so that its registry, lock and device invariants hold; a mapper that came up initialised
  keeps its device ready; and every metadata object stays filed under the descriptor it describes.\<close>

theorem mapper_stays_consistent:
  assumes "mapper_reachable P C m" and w: "world_ok P"
  shows "gm_reachable P (gm m) \<and> mapper_inv P m"
  using assms(1)
proof induction
  case (loaded s)
  obtain fd t where i: "gralloc_gbm_device_init P s = (fd, t)"
    by fastforce
  have "gm_exec P DeviceInit s = Done (fd, t)"
    using i by simp
  then have "gm_reachable P t"
    using loaded gm_next gm_call by blast
  moreover have "is_pos fd \<longrightarrow> dev_ready t"
    using device_init_pos_ready [OF i] by blast
  ultimately show ?case
    using gm_reachable_inv [OF _ w] i by (simp add: GbmMesaMapperV5_def mapper_inv_def md_inv_def)
next
  case (called m c r n)
  have "gm_inv P (gm m)"
    using called.IH by (simp add: mapper_inv_def)
  from bindV5_step [OF called.hyps(2) w this] have "mapper_step P m n" .
  then show ?case
    using called.IH mp.session [of P m n] by blast
next
  case (elsewhere m s)
  have "lib_steps P (gm m) s"
    using lib_steps_step [OF elsewhere.hyps(2) w] elsewhere.IH by (simp add: mapper_inv_def)
  then have "mapper_step P m (m\<lparr>gm := s\<rparr>)"
    by (rule mapper_step_lift)
  then show ?case
    using elsewhere.IH mp.session [of P m "m\<lparr>gm := s\<rparr>"] by blast
qed

theorem mapper_stays_consistent_witness:
  "\<exists>m. mapper_reachable sample_env sample_consts m \<and> mInitialized m \<and> dev_ready (gm m) \<and>
     handles (gm m) 0x2000 = Some (blank_handle 1 12)"
proof -
  obtain fd t where i: "gralloc_gbm_device_init sample_env (init_proc () {}) = (fd, t)" "is_pos fd"
    using device_init_sample by blast
  let ?m = "GbmMesaMapperV5 sample_env (init_proc () {})"
  have h: "handles (gm ?m) = Map.empty" and mi: "mInitialized ?m"
    using device_init_frame [OF i(1)] i by (simp_all add: GbmMesaMapperV5_def init_proc_def)
  let ?n = "?m\<lparr>gm := (gm ?m)\<lparr>handles := (handles (gm ?m))(0x2000 \<mapsto> blank_handle 1 12)\<rparr>\<rparr>"
  have r: "mapper_reachable sample_env sample_consts ?n"
    by (rule elsewhere [OF loaded [OF gm_start] gm_receive]) (simp_all add: h)
  show ?thesis
    using mapper_stays_consistent [OF r sample_world_ok] r mi
    by (intro exI [of _ ?n]) (simp add: mapper_inv_def)
qed

end
