(* ===== verification/Gralloc4_Module.thy ===== *)
theory Gralloc4_Module
  imports Gm_Machine
begin

text \<open>
  The legacy HAL module of src/src/gralloc4/Gralloc.cpp: \<open>struct gralloc_gbm_module_t\<close>, its lazy
  initialisation, the module methods and the \<open>gpu0\<close> allocation device.
\<close>

section \<open>State\<close>

text \<open>
  The module object over the process it is loaded in: the mutex, the flag, the shared pointer, and
  the live \<open>gralloc_gbm_alloc_device_t\<close> objects.  All of these point to the one module.
\<close>

record 'e gralloc_gbm_module =
  m_proc :: "'e proc"
  m_mutex :: bool
  m_initialized :: bool
  m_gbm_dev :: "dev_ptr option"
  alloc_devs :: "ptr set"

text \<open>The static initialiser of the module, in a process in state \<open>s\<close>.\<close>

definition HAL_MODULE_INFO_SYM :: "'e proc \<Rightarrow> 'e gralloc_gbm_module" where
  "HAL_MODULE_INFO_SYM s =
     \<lparr>m_proc = s, m_mutex = False, m_initialized = False, m_gbm_dev = None, alloc_devs = {}\<rparr>"

definition pthread_mutex_lock :: "'e gralloc_gbm_module \<Rightarrow> 'e gralloc_gbm_module run" where
  "pthread_mutex_lock m = (if m_mutex m then Fault Deadlock else Done (m\<lparr>m_mutex := True\<rparr>))"

definition pthread_mutex_unlock :: "'e gralloc_gbm_module \<Rightarrow> 'e gralloc_gbm_module" where
  "pthread_mutex_unlock m = m\<lparr>m_mutex := False\<rparr>"

text \<open>The deleter of the shared pointer, and assigning it a new pointer.\<close>

definition gbm_dev_deleter :: "dev_ptr option \<Rightarrow> 'e proc \<Rightarrow> 'e proc run" where
  "gbm_dev_deleter d s = (case d of None \<Rightarrow> Done s | Some d \<Rightarrow> gbm_device_destroy d s)"

definition assign_gbm_dev ::
    "dev_ptr option \<Rightarrow> 'e gralloc_gbm_module \<Rightarrow> 'e gralloc_gbm_module run" where
  "assign_gbm_dev dev m =
     andThen (gbm_dev_deleter (m_gbm_dev m) (m_proc m)) (\<lambda>s.
       Done (m\<lparr>m_proc := s, m_gbm_dev := dev\<rparr>))"

section \<open>Initialisation and perform\<close>

definition gralloc_mod_gbm_init ::
    "'e gbm_env \<Rightarrow> 'e gralloc_gbm_module \<Rightarrow> (c_int \<times> 'e gralloc_gbm_module) run" where
  "gralloc_mod_gbm_init P m =
     andThen (pthread_mutex_lock m) (\<lambda>m.
       if m_initialized m then Done (0, pthread_mutex_unlock m)
       else
         let (fd, s) = gralloc_gbm_device_init P (m_proc m); m = m\<lparr>m_proc := s\<rparr>
         in if is_neg fd then Done (- EINVAL, pthread_mutex_unlock m)
            else
              let ((err, dev), s) = gralloc_gbm_device_create P fd True (m_proc m); m = m\<lparr>m_proc := s\<rparr>
              in if err \<noteq> 0 then Done (- EINVAL, pthread_mutex_unlock m)
                 else andThen (assign_gbm_dev dev m) (\<lambda>m.
                        Done (0, pthread_mutex_unlock (m\<lparr>m_initialized := True\<rparr>))))"

text \<open>\<open>if (err) return err\<close> after the initialisation, the head of three methods.\<close>

definition with_init ::
    "'e gbm_env \<Rightarrow> 'r \<Rightarrow> ('e gralloc_gbm_module \<Rightarrow> ((c_int \<times> 'r) \<times> 'e gralloc_gbm_module) run)
      \<Rightarrow> 'e gralloc_gbm_module \<Rightarrow> ((c_int \<times> 'r) \<times> 'e gralloc_gbm_module) run" where
  "with_init P none k m =
     andThen (gralloc_mod_gbm_init P m) (\<lambda>(err, m). if err \<noteq> 0 then Done ((err, none), m) else k m)"

definition GRALLOC_MODULE_PERFORM_GET_DRM_FD :: c_int where
  "GRALLOC_MODULE_PERFORM_GET_DRM_FD = 0x40000002"

definition gralloc_mod_gbm_perform ::
    "'e gbm_env \<Rightarrow> c_int \<Rightarrow> 'e gralloc_gbm_module
      \<Rightarrow> ((c_int \<times> c_int option) \<times> 'e gralloc_gbm_module) run" where
  "gralloc_mod_gbm_perform P op =
     with_init P None (\<lambda>m.
       if op = GRALLOC_MODULE_PERFORM_GET_DRM_FD
       then (case m_gbm_dev m of
               None \<Rightarrow> Fault NullDeref
             | Some d \<Rightarrow> if d \<in> devs (m_proc m) then Done ((0, Some (p_gbm_device_get_fd P d)), m)
                         else Fault DanglingDeref)
       else Done ((- EINVAL, None), m))"

section \<open>Buffer methods\<close>

text \<open>A call of the library from a module method.\<close>

definition lift_proc ::
    "('e proc \<Rightarrow> ('r \<times> 'e proc) run) \<Rightarrow> 'e gralloc_gbm_module \<Rightarrow> ('r \<times> 'e gralloc_gbm_module) run" where
  "lift_proc f m = andThen (f (m_proc m)) (\<lambda>(r, s). Done (r, m\<lparr>m_proc := s\<rparr>))"

definition gralloc_mod_register_buffer ::
    "'e gbm_env \<Rightarrow> ptr \<Rightarrow> 'e gralloc_gbm_module \<Rightarrow> (c_int \<times> 'e gralloc_gbm_module) run" where
  "gralloc_mod_register_buffer P handle m =
     andThen (gralloc_mod_gbm_init P m) (\<lambda>(err, m).
       if err \<noteq> 0 then Done (err, m) else lift_proc (gralloc_gm_buffer_import P handle) m)"

definition gralloc_mod_unregister_buffer ::
    "'e gbm_env \<Rightarrow> ptr \<Rightarrow> 'e gralloc_gbm_module \<Rightarrow> (c_int \<times> 'e gralloc_gbm_module) run" where
  "gralloc_mod_unregister_buffer P handle = lift_proc (gralloc_gm_buffer_free P handle)"

definition gralloc_mod_lock_async ::
    "'e gbm_env \<Rightarrow> ptr \<Rightarrow> c_int \<Rightarrow> c_int \<Rightarrow> 'e gralloc_gbm_module
      \<Rightarrow> ((c_int \<times> u64 option) \<times> 'e gralloc_gbm_module) run" where
  "gralloc_mod_lock_async P handle usage fence_fd =
     lift_proc (gralloc_gbm_bo_lock_async P handle usage fence_fd)"

definition gralloc_mod_unlock_async ::
    "'e gbm_env \<Rightarrow> ptr \<Rightarrow> bool \<Rightarrow> 'e gralloc_gbm_module
      \<Rightarrow> ((c_int \<times> c_int option) \<times> 'e gralloc_gbm_module) run" where
  "gralloc_mod_unlock_async P handle fence_ptr = lift_proc (gralloc_gbm_bo_unlock_async P handle fence_ptr)"

definition gralloc_mod_lock_async_ycbcr ::
    "'e gbm_env \<Rightarrow> ptr \<Rightarrow> c_int \<Rightarrow> android_ycbcr \<Rightarrow> c_int \<Rightarrow> 'e gralloc_gbm_module
      \<Rightarrow> ((c_int \<times> android_ycbcr) \<times> 'e gralloc_gbm_module) run" where
  "gralloc_mod_lock_async_ycbcr P handle usage ycbcr fence_fd =
     lift_proc (gralloc_gbm_bo_lock_async_ycbcr P handle usage ycbcr fence_fd)"

definition gralloc_mod_lock ::
    "'e gbm_env \<Rightarrow> ptr \<Rightarrow> c_int \<Rightarrow> 'e gralloc_gbm_module
      \<Rightarrow> ((c_int \<times> u64 option) \<times> 'e gralloc_gbm_module) run" where
  "gralloc_mod_lock P handle usage = gralloc_mod_lock_async P handle usage (- 1)"

definition gralloc_mod_unlock ::
    "'e gbm_env \<Rightarrow> ptr \<Rightarrow> 'e gralloc_gbm_module \<Rightarrow> (c_int \<times> 'e gralloc_gbm_module) run" where
  "gralloc_mod_unlock P handle = lift_proc (gralloc_gbm_bo_unlock P handle)"

definition gralloc_mod_lock_ycbcr ::
    "'e gbm_env \<Rightarrow> ptr \<Rightarrow> c_int \<Rightarrow> android_ycbcr \<Rightarrow> 'e gralloc_gbm_module
      \<Rightarrow> ((c_int \<times> android_ycbcr) \<times> 'e gralloc_gbm_module) run" where
  "gralloc_mod_lock_ycbcr P handle usage ycbcr = gralloc_mod_lock_async_ycbcr P handle usage ycbcr (- 1)"

section \<open>The allocation device\<close>

text \<open>\<open>delete\<close> of a null device is a no-op.\<close>

definition gralloc_mod_alloc_close ::
    "ptr \<Rightarrow> 'e gralloc_gbm_module \<Rightarrow> (c_int \<times> 'e gralloc_gbm_module) run" where
  "gralloc_mod_alloc_close dev m =
     (if dev = 0 then Done (0, m)
      else if dev \<in> alloc_devs m then Done (0, m\<lparr>alloc_devs := alloc_devs m - {dev}\<rparr>)
      else Fault DoubleDestroy)"

definition gralloc_mod_alloc_free ::
    "'e gbm_env \<Rightarrow> ptr \<Rightarrow> ptr \<Rightarrow> 'e gralloc_gbm_module \<Rightarrow> (c_int \<times> 'e gralloc_gbm_module) run" where
  "gralloc_mod_alloc_free P dev handle = lift_proc (gralloc_gm_buffer_free P handle)"

text \<open>
  \<open>alloc\<close>: the stride is stored by \<open>gralloc_allocate\<close>; the handle pointer, null so far, is stored
  whenever the code returned is 0.
\<close>

definition gralloc_mod_alloc_alloc ::
    "'e gbm_env \<Rightarrow> ptr \<Rightarrow> c_int \<Rightarrow> c_int \<Rightarrow> c_int \<Rightarrow> c_int \<Rightarrow> 'e gralloc_gbm_module
      \<Rightarrow> ((c_int \<times> (ptr option \<times> c_int option)) \<times> 'e gralloc_gbm_module) run" where
  "gralloc_mod_alloc_alloc P dev w h format usage m =
     (if dev = 0 then Fault NullDeref
      else if dev \<notin> alloc_devs m then Fault DanglingDeref
      else with_init P (None, None) (\<lambda>m.
        let desc = \<lparr>d_width = w, d_height = h, d_android_format = format, d_android_usage = usage,
                    d_android_reserved_size = 0,
                    d_gbm_format = gralloc_gm_android_format_to_gbm_format (hal_of P) format,
                    d_flags = gralloc_gm_get_gbm_flags_from_android_usage (hal_of P) usage format,
                    d_layer_count = 0\<rparr>
        in andThen (lift_proc (gralloc_allocate P desc) m) (\<lambda>((err, out), m).
             let hnd = (case out of None \<Rightarrow> 0 | Some (stride, p) \<Rightarrow> p);
                 handle = (if err = 0 then Some hnd else None)
             in Done ((err, (handle, map_option fst out)), m))) m)"

text \<open>\<open>new\<close> never returns null; the address it returns is an argument.\<close>

definition gralloc_mod_alloc_open ::
    "ptr \<Rightarrow> 'e gralloc_gbm_module \<Rightarrow> (c_int \<times> ptr option) \<times> 'e gralloc_gbm_module" where
  "gralloc_mod_alloc_open new m = ((0, Some new), m\<lparr>alloc_devs := insert new (alloc_devs m)\<rparr>)"

text \<open>The name \<open>GRALLOC_HARDWARE_GPU0\<close> comes from hardware/gralloc.h.\<close>

definition gralloc_mod_open ::
    "string \<Rightarrow> ptr \<Rightarrow> string \<Rightarrow> 'e gralloc_gbm_module \<Rightarrow> (c_int \<times> ptr option) \<times> 'e gralloc_gbm_module" where
  "gralloc_mod_open GRALLOC_HARDWARE_GPU0 new name m =
     (if name = GRALLOC_HARDWARE_GPU0 then gralloc_mod_alloc_open new m else ((- EINVAL, None), m))"

text \<open>
  The end of the process: the module's static destructor runs the deleter, the library's destructor
  function runs \<open>_cleanup_all\<close>; \<open>module_first\<close> is the order of the two.
\<close>

definition process_exit :: "bool \<Rightarrow> 'e gralloc_gbm_module \<Rightarrow> 'e proc run" where
  "process_exit module_first m =
     (if module_first then andThen (gbm_dev_deleter (m_gbm_dev m) (m_proc m)) cleanup_all
      else andThen (cleanup_all (m_proc m)) (gbm_dev_deleter (m_gbm_dev m)))"

section \<open>The module as an interface\<close>

text \<open>
  The methods of \<open>gralloc_module_t\<close> and \<open>alloc_device_t\<close> as the static tables wire them; the
  result is the returned code.
\<close>

datatype hal_call =
    HalRegister ptr
  | HalUnregister ptr
  | HalLock ptr c_int
  | HalUnlock ptr
  | HalLockYcbcr ptr c_int android_ycbcr
  | HalPerform c_int
  | HalLockAsync ptr c_int c_int
  | HalUnlockAsync ptr bool
  | HalLockAsyncYcbcr ptr c_int android_ycbcr c_int
  | DevAlloc ptr c_int c_int c_int c_int
  | DevFree ptr ptr
  | DevClose ptr

primrec hal_exec ::
    "'e gbm_env \<Rightarrow> hal_call \<Rightarrow> 'e gralloc_gbm_module \<Rightarrow> (c_int \<times> 'e gralloc_gbm_module) run" where
  "hal_exec P (HalRegister p) m = gralloc_mod_register_buffer P p m"
| "hal_exec P (HalUnregister p) m = gralloc_mod_unregister_buffer P p m"
| "hal_exec P (HalLock p usage) m = code_of (gralloc_mod_lock P p usage m)"
| "hal_exec P (HalUnlock p) m = gralloc_mod_unlock P p m"
| "hal_exec P (HalLockYcbcr p usage yc) m = code_of (gralloc_mod_lock_ycbcr P p usage yc m)"
| "hal_exec P (HalPerform op) m = code_of (gralloc_mod_gbm_perform P op m)"
| "hal_exec P (HalLockAsync p usage fd) m = code_of (gralloc_mod_lock_async P p usage fd m)"
| "hal_exec P (HalUnlockAsync p b) m = code_of (gralloc_mod_unlock_async P p b m)"
| "hal_exec P (HalLockAsyncYcbcr p usage yc fd) m =
     code_of (gralloc_mod_lock_async_ycbcr P p usage yc fd m)"
| "hal_exec P (DevAlloc dev w h format usage) m =
     code_of (gralloc_mod_alloc_alloc P dev w h format usage m)"
| "hal_exec P (DevFree dev p) m = gralloc_mod_alloc_free P dev p m"
| "hal_exec P (DevClose dev) m = gralloc_mod_alloc_close dev m"

section \<open>The module invariant\<close>

text \<open>
  Between calls the mutex is free; an initialised module shares the library's device, which is
  ready.  What the module relies on: no device has descriptor 0.
\<close>

definition mod_inv :: "'e gbm_env \<Rightarrow> 'e gralloc_gbm_module \<Rightarrow> bool" where
  "mod_inv P m \<longleftrightarrow> gm_inv P (m_proc m) \<and> \<not> m_mutex m \<and>
     (if m_initialized m then dev_ready (m_proc m) \<and> m_gbm_dev m = gbm_dev (m_proc m)
      else m_gbm_dev m = None)"

definition device_fd_contract :: "'e gbm_env \<Rightarrow> bool" where
  "device_fd_contract P \<longleftrightarrow> (\<forall>d. is_pos (p_gbm_device_get_fd P d))"

text \<open>What one method does to the module.\<close>

definition mod_step :: "'e gbm_env \<Rightarrow> 'e gralloc_gbm_module \<Rightarrow> 'e gralloc_gbm_module \<Rightarrow> bool" where
  "mod_step P m n \<longleftrightarrow> mod_inv P n \<and> lib_steps P (m_proc m) (m_proc n) \<and>
     (m_initialized m \<longrightarrow> m_initialized n \<and> m_gbm_dev n = m_gbm_dev m)"

lemma mod_step_refl: "mod_inv P m \<Longrightarrow> mod_step P m m"
  by (simp add: mod_step_def lib_steps_refl mod_inv_def)

lemma mod_step_trans: "mod_step P m n \<Longrightarrow> mod_step P n k \<Longrightarrow> mod_step P m k"
  unfolding mod_step_def using lib_steps_trans by metis

lemma mod_step_lift:
  assumes m: "mod_inv P m" and s: "lib_steps P (m_proc m) s"
  shows "mod_step P m (m\<lparr>m_proc := s\<rparr>)"
proof -
  have "m_initialized m \<Longrightarrow> dev_ready s \<and> m_gbm_dev m = gbm_dev s"
    using m s same_dev_ready [of "m_proc m" s] by (auto simp: mod_inv_def lib_steps_def same_dev_def)
  then show ?thesis
    using m s by (auto simp: mod_step_def mod_inv_def lib_steps_def)
qed

lemma lift_proc_step:
  assumes run: "code_of (lift_proc f m) = Done (r, n)"
    and f: "\<And>s. gm_exec P c s = code_of (f s)" and w: "world_ok P" and m: "mod_inv P m"
  shows "mod_step P m n"
proof -
  obtain x s where "f (m_proc m) = Done (x, s)" and n: "n = m\<lparr>m_proc := s\<rparr>"
    using run by (auto simp: code_of_def lift_proc_def andThen_eq_Done)
  then have "gm_exec P c (m_proc m) = Done (fst x, s)"
    by (simp add: f code_of_def case_prod_beta)
  then show ?thesis
    using mod_step_lift [OF m lib_steps_call [OF _ w]] m n by (auto simp: mod_inv_def)
qed

lemma lift_proc_step':
  assumes run: "lift_proc f m = Done (r, n)"
    and f: "\<And>s. gm_exec P c s = f s" and w: "world_ok P" and m: "mod_inv P m"
  shows "mod_step P m n"
proof -
  obtain s where "gm_exec P c (m_proc m) = Done (r, s)" and n: "n = m\<lparr>m_proc := s\<rparr>"
    using run by (auto simp: f lift_proc_def andThen_eq_Done)
  then show ?thesis
    using mod_step_lift [OF m lib_steps_call [OF _ w]] m by (auto simp: mod_inv_def)
qed

interpretation hal: library_client P m_proc "mod_inv P" "mod_step P" for P
  by unfold_locales (simp_all add: mod_step_def)

section \<open>Initialisation\<close>

lemma device_created_ready:
  assumes c: "gralloc_gbm_device_create P fd True s = ((0, dev), t)" and d: "device_fd_contract P"
  shows "\<exists>x. dev = Some x \<and> gbm_dev t = Some x \<and> dev_ready t"
proof -
  have "\<exists>x. dev = Some x \<and> dev = gbm_dev t"
    using device_create_result [OF c] by auto
  then obtain x where x: "dev = Some x" "gbm_dev t = Some x"
    by auto
  have "dev_ready t"
  proof (cases "dev_ready s")
    case True
    then show ?thesis
      using c by simp
  next
    case False
    then have "gbm_dev_fd t = p_gbm_device_get_fd P x"
      using c x by (auto simp: gralloc_gbm_device_create_def dev_ready_def
          split: if_splits option.splits prod.splits)
    then show ?thesis
      using d x by (simp add: dev_ready_def device_fd_contract_def)
  qed
  with x show ?thesis
    by blast
qed

lemma mod_init_step:
  assumes run: "gralloc_mod_gbm_init P m = Done (r, n)" and w: "world_ok P" and d: "device_fd_contract P"
    and m: "mod_inv P m"
  shows "mod_step P m n \<and> (if r = 0 then m_initialized n else r = - EINVAL \<and> \<not> m_initialized n)"
proof (cases "m_initialized m")
  case True
  then have "r = 0 \<and> n = m"
    using run m by (cases m) (auto simp: gralloc_mod_gbm_init_def pthread_mutex_lock_def
        pthread_mutex_unlock_def mod_inv_def)
  then show ?thesis
    using True m mod_step_refl by simp
next
  case False
  note mi = m [unfolded mod_inv_def]
  obtain fd s1 where i: "gralloc_gbm_device_init P (m_proc m) = (fd, s1)"
    by fastforce
  have st1: "lib_steps P (m_proc m) s1"
    using lib_steps_call [of P DeviceInit "m_proc m" fd s1] i w mi by simp
  obtain err dev s2 where c: "gralloc_gbm_device_create P fd True s1 = ((err, dev), s2)"
    by (metis prod.exhaust)
  have st2: "lib_steps P (m_proc m) s2"
    using lib_steps_trans [OF st1] lib_steps_call [of P "DeviceCreate fd True" s1 err s2] c w
      lib_steps_inv [OF st1] by (simp add: code_of_def)
  have lock: "pthread_mutex_lock m = Done (m\<lparr>m_mutex := True\<rparr>)"
    using mi by (simp add: pthread_mutex_lock_def)
  show ?thesis
  proof (cases "is_neg fd \<or> err \<noteq> 0")
    case True
    then have "r = - EINVAL" and "n = m\<lparr>m_mutex := False, m_proc := s1\<rparr> \<or>
        n = m\<lparr>m_mutex := False, m_proc := s2\<rparr>"
      using run lock i c False
      by (auto simp: gralloc_mod_gbm_init_def pthread_mutex_unlock_def Let_def split: if_splits)
    moreover have "m\<lparr>m_mutex := False, m_proc := s\<rparr> = m\<lparr>m_proc := s\<rparr>" for s
      using mi by (cases m) simp
    ultimately show ?thesis
      using mod_step_lift [OF m st1] mod_step_lift [OF m st2] False by auto
  next
    case ok: False
    then obtain x where x: "dev = Some x" "gbm_dev s2 = Some x" "dev_ready s2"
      using device_created_ready [OF _ d] c by blast
    then have "r = 0" and "n = m\<lparr>m_proc := s2, m_mutex := False, m_gbm_dev := dev, m_initialized := True\<rparr>"
      using run lock i c False ok mi
      by (auto simp: gralloc_mod_gbm_init_def pthread_mutex_unlock_def assign_gbm_dev_def
          gbm_dev_deleter_def Let_def)
    then show ?thesis
      using st2 False x by (auto simp: mod_step_def mod_inv_def lib_steps_def)
  qed
qed

lemma with_init_step:
  assumes run: "with_init P none k m = Done (x, n)" and w: "world_ok P" and d: "device_fd_contract P"
    and m: "mod_inv P m"
    and k: "\<And>m1. mod_inv P m1 \<Longrightarrow> m_initialized m1 \<Longrightarrow> k m1 = Done (x, n) \<Longrightarrow> mod_step P m1 n"
  shows "mod_step P m n"
proof -
  obtain err m1 where i: "gralloc_mod_gbm_init P m = Done (err, m1)"
    and r: "(if err \<noteq> 0 then Done ((err, none), m1) else k m1) = Done (x, n)"
    using run by (auto simp: with_init_def andThen_eq_Done)
  note st = mod_init_step [OF i w d m]
  show ?thesis
  proof (cases "err = 0")
    case True
    then show ?thesis
      using st r k mod_step_trans [of P m m1 n] by (auto simp: mod_step_def)
  qed (use st r in auto)
qed

section \<open>Every method keeps the invariant\<close>

lemma register_step:
  assumes run: "gralloc_mod_register_buffer P p m = Done (r, n)" and w: "world_ok P"
    and d: "device_fd_contract P" and m: "mod_inv P m"
  shows "mod_step P m n"
proof -
  obtain err m1 where i: "gralloc_mod_gbm_init P m = Done (err, m1)"
    and r: "(if err \<noteq> 0 then Done (err, m1) else lift_proc (gralloc_gm_buffer_import P p) m1) = Done (r, n)"
    using run by (auto simp: gralloc_mod_register_buffer_def andThen_eq_Done)
  note st = mod_init_step [OF i w d m]
  show ?thesis
  proof (cases "err = 0")
    case True
    then have "mod_step P m1 n"
      using r st by (intro lift_proc_step' [where c = "Import p", OF _ _ w]) (auto simp: mod_step_def)
    then show ?thesis
      using st mod_step_trans by blast
  qed (use st r in auto)
qed

lemma perform_step:
  assumes run: "gralloc_mod_gbm_perform P op m = Done (x, n)" and w: "world_ok P"
    and d: "device_fd_contract P" and m: "mod_inv P m"
  shows "mod_step P m n"
  using run unfolding gralloc_mod_gbm_perform_def
  by (rule with_init_step [OF _ w d m]) (auto split: if_splits option.splits intro: mod_step_refl)

lemma alloc_step:
  assumes run: "gralloc_mod_alloc_alloc P dev w h f u m = Done (x, n)" and wo: "world_ok P"
    and d: "device_fd_contract P" and m: "mod_inv P m"
  shows "mod_step P m n"
proof -
  let ?desc = "\<lparr>d_width = w, d_height = h, d_android_format = f, d_android_usage = u,
     d_android_reserved_size = 0,
     d_gbm_format = gralloc_gm_android_format_to_gbm_format (hal_of P) f,
     d_flags = gralloc_gm_get_gbm_flags_from_android_usage (hal_of P) u f, d_layer_count = 0\<rparr>"
  have "with_init P (None, None) (\<lambda>m. andThen (lift_proc (gralloc_allocate P ?desc) m) (\<lambda>((err, out), m).
      let hnd = (case out of None \<Rightarrow> 0 | Some (stride, p) \<Rightarrow> p);
          handle = (if err = 0 then Some hnd else None)
      in Done ((err, (handle, map_option fst out)), m))) m = Done (x, n)"
    using run by (simp add: gralloc_mod_alloc_alloc_def split: if_splits)
  then show ?thesis
  proof (rule with_init_step [OF _ wo d m])
    fix m1 assume m1: "mod_inv P m1" and r: "andThen (lift_proc (gralloc_allocate P ?desc) m1)
      (\<lambda>((err, out), m). let hnd = (case out of None \<Rightarrow> 0 | Some (stride, p) \<Rightarrow> p);
          handle = (if err = 0 then Some hnd else None)
        in Done ((err, (handle, map_option fst out)), m)) = Done (x, n)"
    then obtain e out where "lift_proc (gralloc_allocate P ?desc) m1 = Done ((e, out), n)"
      by (auto simp: andThen_eq_Done Let_def)
    then have "code_of (lift_proc (gralloc_allocate P ?desc) m1) = Done (e, n)"
      by (simp add: code_of_def)
    then show "mod_step P m1 n"
      by (rule lift_proc_step [where c = "Allocate ?desc", OF _ _ wo m1]) simp
  qed
qed

lemma lock_async_step:
  assumes "code_of (gralloc_mod_lock_async P p usage fd m) = Done (r, n)" and "world_ok P" and "mod_inv P m"
  shows "mod_step P m n"
  using lift_proc_step [of "gralloc_gbm_bo_lock_async P p usage fd" m r n P "LockAsync p usage fd"] assms by (simp add: gralloc_mod_lock_async_def)

lemma lock_async_ycbcr_step:
  assumes "code_of (gralloc_mod_lock_async_ycbcr P p usage yc fd m) = Done (r, n)" and "world_ok P" and "mod_inv P m"
  shows "mod_step P m n"
  using lift_proc_step [of "gralloc_gbm_bo_lock_async_ycbcr P p usage yc fd" m r n P "LockAsyncYcbcr p usage yc fd"] assms
  by (simp add: gralloc_mod_lock_async_ycbcr_def)

lemma unlock_async_step:
  assumes "code_of (gralloc_mod_unlock_async P p b m) = Done (r, n)" and "world_ok P" and "mod_inv P m"
  shows "mod_step P m n"
  using lift_proc_step [of "gralloc_gbm_bo_unlock_async P p b" m r n P "UnlockAsync p b"] assms by (simp add: gralloc_mod_unlock_async_def)

lemma buffer_free_step:
  assumes "lift_proc (gralloc_gm_buffer_free P p) m = Done (r, n)" and "world_ok P" and "mod_inv P m"
  shows "mod_step P m n"
  using lift_proc_step' [of _ m r n P "Free p"] assms by simp

lemma hal_unlock_step:
  assumes "gralloc_mod_unlock P p m = Done (r, n)" and "world_ok P" and "mod_inv P m"
  shows "mod_step P m n"
  using lift_proc_step' [of _ m r n P "Unlock p"] assms by (simp add: gralloc_mod_unlock_def)

lemma alloc_close_step:
  assumes "gralloc_mod_alloc_close dev m = Done (r, n)" and m: "mod_inv P m"
  shows "mod_step P m n"
proof -
  have "m_proc n = m_proc m \<and> m_mutex n = m_mutex m \<and> m_initialized n = m_initialized m \<and>
      m_gbm_dev n = m_gbm_dev m"
    using assms(1) by (auto simp: gralloc_mod_alloc_close_def split: if_splits)
  then show ?thesis
    using m by (simp add: mod_step_def mod_inv_def lib_steps_refl)
qed

lemma hal_exec_step:
  assumes run: "hal_exec P c m = Done (r, n)" and w: "world_ok P" and d: "device_fd_contract P"
    and m: "mod_inv P m"
  shows "mod_step P m n"
proof (cases c)
  case (HalPerform op)
  then show ?thesis
    using run perform_step [OF _ w d m] by (auto simp: code_of_def andThen_eq_Done)
next
  case (DevAlloc dev wd h f u)
  then show ?thesis
    using run alloc_step [OF _ w d m] by (auto simp: code_of_def andThen_eq_Done)
next
  case (DevClose dev)
  then show ?thesis
    using run alloc_close_step m by simp
qed (use run register_step [OF _ w d m] lock_async_step [OF _ w m] lock_async_ycbcr_step [OF _ w m]
    unlock_async_step [OF _ w m] buffer_free_step [OF _ w m] hal_unlock_step [OF _ w m]
    in \<open>simp_all add: gralloc_mod_unregister_buffer_def gralloc_mod_lock_def
      gralloc_mod_lock_ycbcr_def gralloc_mod_alloc_free_def\<close>)

text \<open>Whole sessions of the module.\<close>

definition hal_moves :: "'e gbm_env \<Rightarrow> 'e gralloc_gbm_module \<Rightarrow> 'e gralloc_gbm_module \<Rightarrow> bool" where
  "hal_moves P m n \<longleftrightarrow> mod_inv P m \<and> (\<exists>c r. hal_exec P c m = Done (r, n))"

lemma hal_session:
  assumes w: "world_ok P" and d: "device_fd_contract P" and s: "(hal_moves P)\<^sup>*\<^sup>* m n"
    and m: "mod_inv P m" "gm_reachable P (m_proc m)"
  shows "mod_inv P n \<and> gm_reachable P (m_proc n)"
proof -
  have "hal_moves P x y \<Longrightarrow> mod_step P x y" for x y
    using hal_exec_step [OF _ w d] by (auto simp: hal_moves_def)
  then have "(mod_step P)\<^sup>*\<^sup>* m n"
    using s by (metis rtranclp_mono predicate2I predicate2D)
  then show ?thesis
    by (rule hal.session [OF _ m])
qed

section \<open>Properties\<close>

text \<open>C23: The legacy HAL module refines the library: whatever method is called, in whatever state
  the invariant describes, what happens to the process is a sequence of steps of the library's
  state machine; the mutex is free again on every way out; and once a module is initialised it
  stays so, with the same device, which is the library's own.\<close>

theorem hal_module_refines:
  assumes "hal_exec P c m = Done (r, n)" and "world_ok P" and "device_fd_contract P" and "mod_inv P m"
  shows "(gm_step P)\<^sup>*\<^sup>* (m_proc m) (m_proc n) \<and> mod_inv P n \<and> \<not> m_mutex n \<and>
    (m_initialized m \<longrightarrow> m_initialized n \<and> m_gbm_dev n = m_gbm_dev m \<and>
       gbm_dev (m_proc n) = gbm_dev (m_proc m))"
  using hal_exec_step [OF assms] assms(4)
  by (auto simp: mod_step_def lib_steps_def mod_inv_def same_dev_def)

lemma sample_device_fd [simp]: "device_fd_contract sample_env"
  by (simp add: device_fd_contract_def is_pos_def)

lemma sample_mod_inv [simp]: "mod_inv sample_env (HAL_MODULE_INFO_SYM (init_proc () {}))"
  by (simp add: mod_inv_def HAL_MODULE_INFO_SYM_def)

lemma sample_mod_init:
  "gralloc_mod_gbm_init sample_env (HAL_MODULE_INFO_SYM (init_proc () {})) =
     Done (0, \<lparr>m_proc = sample_ready, m_mutex = False, m_initialized = True, m_gbm_dev = Some 1,
              alloc_devs = {}\<rparr>)"
proof -
  have "gralloc_gbm_device_init sample_env (init_proc () {}) = (10, sample_ready)"
    by (simp add: gralloc_gbm_device_init_def gralloc_gbm_device_create_def Let_def sample_ready_def
        init_proc_def fresh_fd_def sample_lists add_fd_def is_neg_def is_pos_def)
  then show ?thesis
    by (simp add: gralloc_mod_gbm_init_def pthread_mutex_lock_def pthread_mutex_unlock_def
        HAL_MODULE_INFO_SYM_def assign_gbm_dev_def gbm_dev_deleter_def is_neg_def
        dev_ready_def is_pos_def)
qed

lemma sample_perform:
  "\<exists>n. hal_exec sample_env (HalPerform GRALLOC_MODULE_PERFORM_GET_DRM_FD)
     (HAL_MODULE_INFO_SYM (init_proc () {})) = Done (0, n) \<and> m_initialized n"
  by (simp add: gralloc_mod_gbm_perform_def with_init_def sample_mod_init code_of_def)

theorem hal_module_refines_witness:
  "\<exists>n. hal_exec sample_env (HalPerform GRALLOC_MODULE_PERFORM_GET_DRM_FD)
       (HAL_MODULE_INFO_SYM (init_proc () {})) = Done (0, n) \<and> mod_inv sample_env n \<and> \<not> m_mutex n"
  using sample_perform hal_module_refines [OF _ sample_world_ok sample_device_fd sample_mod_inv] by blast

text \<open>C24: A process that has initialised the legacy module cannot exit cleanly: the module's shared
  pointer and the library's destructor both own the one device, and whichever runs second destroys
  it again.  A process that never initialised the module exits without a fault.\<close>

theorem exit_destroys_device_twice:
  assumes "mod_inv P m"
  shows "if m_initialized m then process_exit module_first m = Fault DoubleDestroy
    else \<exists>s. process_exit module_first m = Done s \<and> gbm_dev s = None"
proof -
  have inv: "dev_inv (m_proc m)"
    using assms gm_invD(3) by (auto simp: mod_inv_def)
  show ?thesis
  proof (cases "m_initialized m")
    case True
    then obtain d where "gbm_dev (m_proc m) = Some d" "m_gbm_dev m = Some d" "d \<in> devs (m_proc m)"
      using assms inv by (auto simp: mod_inv_def dev_ready_def dev_inv_def)
    then show ?thesis
      using True by (simp add: process_exit_def gbm_dev_deleter_def cleanup_all_def
          gbm_device_destroy_def)
  next
    case False
    then have "m_gbm_dev m = None"
      using assms by (simp add: mod_inv_def)
    then show ?thesis
      using cleanup_all_idle [OF inv] False by (auto simp: process_exit_def gbm_dev_deleter_def)
  qed
qed

theorem exit_destroys_device_twice_witness:
  "\<exists>n. gralloc_mod_gbm_init sample_env (HAL_MODULE_INFO_SYM (init_proc () {})) = Done (0, n) \<and>
     process_exit True n = Fault DoubleDestroy \<and> process_exit False n = Fault DoubleDestroy"
proof -
  let ?n = "\<lparr>m_proc = sample_ready, m_mutex = False, m_initialized = True, m_gbm_dev = Some 1,
              alloc_devs = {}\<rparr>"
  have "mod_inv sample_env ?n"
    using mod_init_step [OF sample_mod_init sample_world_ok sample_device_fd sample_mod_inv]
    by (simp add: mod_step_def)
  from exit_destroys_device_twice [OF this] sample_mod_init show ?thesis
    by simp
qed


text \<open>An environment that has run out of buffer objects before any call failed.\<close>

definition exhausted_env :: "unit gbm_env" where
  "exhausted_env = sample_env\<lparr>p_errno := \<lambda>e. 0, p_gbm_bo_create := \<lambda>L d w h f u e. (None, e)\<rparr>"



lemma exhausted_sel [simp]:
  "p_errno exhausted_env e = 0" "p_gbm_bo_create exhausted_env L d w h f u e = (None, e)"
  "p_native_handle_create exhausted_env = p_native_handle_create sample_env"
  "hal_of exhausted_env = android_hal"
  by (simp_all add: exhausted_env_def)





end
