(* ===== verification/Aidl_NativeHandle.thy ===== *)
theory Aidl_NativeHandle
  imports Gm_Buffer
begin

text \<open>
  Conversion between libcutils handles and the AIDL \<open>NativeHandle\<close>:
  src/src/aidl/aidlcommonsupport/NativeHandle.cpp.
\<close>

section \<open>Handles as words\<close>

text \<open>
  \<open>NativeHandle\<close> owns its descriptors (\<open>ScopedFileDescriptor\<close>); \<open>-1\<close> stands for none.
\<close>

record NativeHandle =
  nh_fds :: "c_int list"
  nh_ints :: "c_int list"

definition isAidlNativeHandleEmpty :: "NativeHandle \<Rightarrow> bool" where
  "isAidlNativeHandleEmpty handle \<longleftrightarrow> nh_fds handle = [] \<and> nh_ints handle = []"

text \<open>Writing words over the memory of a handle, from \<open>data[0]\<close> on.\<close>

definition store_words :: "c_int list \<Rightarrow> gralloc_handle_t \<Rightarrow> gralloc_handle_t" where
  "store_words ws h =
    (let ds = ws @ drop (length ws) (handle_data h)
     in h\<lparr>prime_fd := ds ! 0, h_magic := ds ! 1, h_version := ds ! 2, h_width := ds ! 3,
          h_height := ds ! 4, h_format := ds ! 5, h_usage := ds ! 6, h_stride := ds ! 7,
          h_data_owner := ds ! 8, h_modifier := join32 (ds ! 9) (ds ! 10),
          h_reserved := join32 (ds ! 11) (ds ! 12), h_rest := drop 13 ds\<rparr>)"

lemma list_of_13:
  assumes "13 \<le> length ds"
  shows "ds = [ds ! 0, ds ! 1, ds ! 2, ds ! 3, ds ! 4, ds ! 5, ds ! 6, ds ! 7, ds ! 8, ds ! 9,
    ds ! 10, ds ! 11, ds ! 12] @ drop 13 ds"
proof -
  have "take 13 ds = map (\<lambda>i. ds ! i) [0..<13]"
    using assms by (intro nth_equalityI) simp_all
  also have "[0..<13] = [0, 1, 2, 3, 4, 5, 6, 7, 8, 9, 10, 11, 12]"
    by (simp add: upt_rec)
  finally have "take 13 ds = [ds ! 0, ds ! 1, ds ! 2, ds ! 3, ds ! 4, ds ! 5, ds ! 6, ds ! 7, ds ! 8,
      ds ! 9, ds ! 10, ds ! 11, ds ! 12]"
    by simp
  then show ?thesis
    by (metis append_take_drop_id)
qed

lemma store_words_data [simp]:
  "handle_data (store_words ws h) = ws @ drop (length ws) (handle_data h)"
  "numFds (store_words ws h) = numFds h" "numInts (store_words ws h) = numInts h"
proof -
  let ?ds = "ws @ drop (length ws) (handle_data h)"
  have "13 \<le> length ?ds"
    by (simp add: length_handle_data)
  from list_of_13 [OF this] show "handle_data (store_words ws h) = ?ds"
    by (simp add: handle_data_def store_words_def Let_def)
qed (simp_all add: store_words_def Let_def)

section \<open>Conversion\<close>

text \<open>\<open>fcntl(fd, F_DUPFD_CLOEXEC, 0)\<close>, whose failure is not looked at, or the descriptor itself.\<close>

primrec take_fds :: "'e gbm_env \<Rightarrow> bool \<Rightarrow> c_int list \<Rightarrow> 'e proc \<Rightarrow> c_int list \<times> 'e proc" where
  "take_fds P doDup [] s = ([], s)"
| "take_fds P doDup (fd # fds) s =
    (let (fd', s) = (if doDup
                     then let (r, e) = p_dup P (open_fds s) fd (env s) in (r, add_fd r (s\<lparr>env := e\<rparr>))
                     else (fd, s));
         (fds', s) = take_fds P doDup fds s
     in (fd' # fds', s))"

definition fromAidl :: "'e gbm_env \<Rightarrow> NativeHandle \<Rightarrow> bool \<Rightarrow> 'e proc \<Rightarrow> ptr \<times> 'e proc" where
  "fromAidl P handle doDup s =
    (case p_native_handle_create P (dom (handles s)) (length (nh_fds handle)) (length (nh_ints handle))
            (env s) of
       (None, e) \<Rightarrow> (0, s\<lparr>env := e\<rparr>)
     | (Some (p, h), e) \<Rightarrow>
         let (fds, s) = take_fds P doDup (nh_fds handle) (s\<lparr>env := e\<rparr>)
         in (p, store_handle p (store_words (fds @ nh_ints handle) h) s))"

definition makeFromAidl :: "'e gbm_env \<Rightarrow> NativeHandle \<Rightarrow> 'e proc \<Rightarrow> ptr \<times> 'e proc" where
  "makeFromAidl P handle = fromAidl P handle False"

definition dupFromAidl :: "'e gbm_env \<Rightarrow> NativeHandle \<Rightarrow> 'e proc \<Rightarrow> ptr \<times> 'e proc" where
  "dupFromAidl P handle = fromAidl P handle True"

text \<open>
  Reading past the words of the handle is out of bounds; a live handle has as many words as its
  header says.
\<close>

definition toAidl :: "'e gbm_env \<Rightarrow> ptr \<Rightarrow> bool \<Rightarrow> 'e proc \<Rightarrow> (NativeHandle \<times> 'e proc) run" where
  "toAidl P handle doDup s =
     andThen (load_native handle s) (\<lambda>h.
       if length (handle_data h) < numFds h + numInts h then Fault OutOfBounds
       else let (fds, s) = take_fds P doDup (take (numFds h) (handle_data h)) s
            in Done (\<lparr>nh_fds = fds, nh_ints = take (numInts h) (drop (numFds h) (handle_data h))\<rparr>, s))"

definition makeToAidl :: "'e gbm_env \<Rightarrow> ptr \<Rightarrow> 'e proc \<Rightarrow> (NativeHandle \<times> 'e proc) run" where
  "makeToAidl P handle = toAidl P handle False"

definition dupToAidl :: "'e gbm_env \<Rightarrow> ptr \<Rightarrow> 'e proc \<Rightarrow> (NativeHandle \<times> 'e proc) run" where
  "dupToAidl P handle = toAidl P handle True"

section \<open>Descriptors\<close>

lemma take_fds_same [simp]: "take_fds P False fds s = (fds, s)"
  by (induction fds) simp_all

definition live_fds :: "c_int list \<Rightarrow> c_int set" where
  "live_fds fds = set (filter (\<lambda>fd. \<not> is_neg fd) fds)"

lemma live_fds_simps [simp]:
  "live_fds [] = {}" "live_fds (fd # fds) = (if is_neg fd then {} else {fd}) \<union> live_fds fds"
  "live_fds (fds @ gds) = live_fds fds \<union> live_fds gds"
  by (auto simp: live_fds_def)

text \<open>Duplicates are new, and different from each other, as far as duplicating succeeded.\<close>

lemma take_fds_dup:
  assumes "take_fds P True fds s = (fds', t)" and "fd_contract P"
  shows "length fds' = length fds \<and> live_fds fds' \<inter> open_fds s = {} \<and>
    distinct (filter (\<lambda>fd. \<not> is_neg fd) fds') \<and>
    (\<exists>e. t = s\<lparr>env := e, open_fds := open_fds s \<union> live_fds fds'\<rparr>)"
  using assms(1)
proof (induction fds arbitrary: s fds')
  case Nil
  moreover have "s = s\<lparr>env := env s\<rparr>"
    by simp
  ultimately show ?case
    by (auto intro: exI [of _ "env s"])
next
  case (Cons fd fds)
  obtain r e where d: "p_dup P (open_fds s) fd (env s) = (r, e)"
    by fastforce
  let ?u = "add_fd r (s\<lparr>env := e\<rparr>)"
  obtain gs where g: "take_fds P True fds ?u = (gs, t)" and fds': "fds' = r # gs"
    using Cons.prems d by (auto simp: Let_def split: prod.splits)
  have new: "is_neg r \<or> r \<notin> open_fds s"
    using assms(2) d unfolding fd_contract_def by metis
  note ih = Cons.IH [OF g]
  have u: "open_fds ?u = open_fds s \<union> (if is_neg r then {} else {r})"
    by (simp add: add_fd_def)
  obtain e' where t: "t = ?u\<lparr>env := e', open_fds := open_fds ?u \<union> live_fds gs\<rparr>"
    using ih by blast
  have "t = s\<lparr>env := e', open_fds := open_fds s \<union> live_fds fds'\<rparr>"
    unfolding t fds' u by (simp add: add_fd_def Un_assoc)
  moreover have "live_fds fds' \<inter> open_fds s = {}"
    using ih u new unfolding fds' by auto
  moreover have "is_neg r \<or> r \<notin> live_fds gs"
    using ih u by auto
  ultimately show ?case
    using ih unfolding fds' by (auto simp: live_fds_def)
qed

lemma take_fds_either:
  assumes "take_fds P doDup fds s = (fds', t)" and "fd_contract P"
  shows "length fds' = length fds" and "handles t = handles s"
    and "if doDup then live_fds fds' \<inter> open_fds s = {} \<and> open_fds t = open_fds s \<union> live_fds fds'
      else fds' = fds \<and> open_fds t = open_fds s"
proof -
  consider "doDup" | "\<not> doDup" "fds' = fds" "t = s"
    using assms(1) by (cases doDup) auto
  then have "length fds' = length fds \<and> handles t = handles s \<and>
    (if doDup then live_fds fds' \<inter> open_fds s = {} \<and> open_fds t = open_fds s \<union> live_fds fds'
     else fds' = fds \<and> open_fds t = open_fds s)"
  proof cases
    case 1
    then have "take_fds P True fds s = (fds', t)"
      using assms(1) by simp
    from take_fds_dup [OF this assms(2)] 1 show ?thesis
      by auto
  qed simp
  then show "length fds' = length fds" and "handles t = handles s"
    and "if doDup then live_fds fds' \<inter> open_fds s = {} \<and> open_fds t = open_fds s \<union> live_fds fds'
      else fds' = fds \<and> open_fds t = open_fds s"
    by blast+
qed

section \<open>Properties\<close>

text \<open>C29: An AIDL handle made from a libcutils handle and turned back into one carries the same
  words in the same places: the same descriptors without duplication, and new ones with it, as long
  as duplicating succeeds; the number of descriptors and of integers is kept either way.\<close>

theorem aidl_handle_roundtrip:
  assumes h: "load_native p s = Done h" and wf: "numFds h + numInts h \<le> length (handle_data h)"
    and conv: "toAidl P p doDup s = Done (nh, s1)" and again: "fromAidl P nh False s1 = (q, s2)"
    and q: "q \<noteq> 0" and c: "handle_contract P" "fd_contract P"
  shows "\<exists>h'. load_native q s2 = Done h' \<and> q \<notin> dom (handles s) \<and>
    numFds h' = numFds h \<and> numInts h' = numInts h \<and>
    take (numInts h) (drop (numFds h) (handle_data h')) = take (numInts h) (drop (numFds h) (handle_data h)) \<and>
    (if doDup then live_fds (handle_fds h') \<inter> open_fds s = {} \<and> open_fds s2 = open_fds s \<union> live_fds (handle_fds h')
     else handle_fds h' = handle_fds h \<and> open_fds s2 = open_fds s)"
proof -
  obtain fds where t: "take_fds P doDup (take (numFds h) (handle_data h)) s = (fds, s1)"
    and nh: "nh = \<lparr>nh_fds = fds, nh_ints = take (numInts h) (drop (numFds h) (handle_data h))\<rparr>"
    using conv h wf by (auto simp: toAidl_def Let_def split: prod.splits)
  note tf = take_fds_either [OF t c(2)]
  have len: "length fds = numFds h"
    using tf(1) wf by simp
  have li: "length (nh_ints nh) = numInts h"
    using wf by (simp add: nh)
  obtain e res where cr: "p_native_handle_create P (dom (handles s1)) (length (nh_fds nh))
      (length (nh_ints nh)) (env s1) = (res, e)"
    by fastforce
  then obtain to' where r: "res = Some (q, to')"
    and s2: "s2 = store_handle q (store_words (fds @ nh_ints nh) to') (s1\<lparr>env := e\<rparr>)"
    using again q by (auto simp: fromAidl_def nh split: option.splits prod.splits)
  note cc = handle_contract_create [OF c(1) cr [unfolded r]]
  let ?h' = "store_words (fds @ nh_ints nh) to'"
  have "load_native q s2 = Done ?h'" and "q \<notin> dom (handles s)"
    using cc(1,2) by (simp_all add: s2 load_native_def store_handle_def tf(2))
  moreover have "numFds ?h' = numFds h" "numInts ?h' = numInts h"
    using cc(3,4) len li by (simp_all add: nh)
  moreover from this have "handle_fds ?h' = fds"
    and "take (numInts h) (drop (numFds h) (handle_data ?h')) = nh_ints nh"
    using len li by (simp_all add: handle_fds_def)
  ultimately show ?thesis
    using tf(3) by (auto simp: nh s2 store_handle_def handle_fds_def)
qed

definition received_handle :: gralloc_handle_t where
  "received_handle = (blank_handle 1 12)\<lparr>prime_fd := 11, h_width := 64, h_height := 4, h_format := 1,
     h_usage := 3, h_stride := 256\<rparr>"

lemma received_handle_sel [simp]:
  "load_native 0x2000 received = Done received_handle" "numFds received_handle = 1"
  "numInts received_handle = 12" "handle_fds received_handle = [11]"
  by (simp_all add: received_def store_handle_def load_native_def received_handle_def blank_handle_def
      handle_fds_def handle_data_def)

lemma received_dup:
  "\<exists>nh s1 s2. toAidl sample_env 0x2000 True received = Done (nh, s1) \<and> nh_fds nh = [12] \<and>
     fromAidl sample_env nh False s1 = (0x1000, s2)"
proof -
  have ds: "take 1 (handle_data received_handle) = [11]" "13 \<le> length (handle_data received_handle)"
    by (simp_all add: handle_data_def received_handle_def)
  have dup: "take_fds sample_env True [11] received = ([12], add_fd 12 (received\<lparr>env := ()\<rparr>))"
    by (simp add: fresh_fd_def sample_lists)
  have "dom (handles (add_fd 12 (received\<lparr>env := ()\<rparr>))) = {0x2000}"
    by (simp add: add_fd_def)
  then show ?thesis
    using ds dup by (auto simp: toAidl_def Let_def fromAidl_def sample_lists)
qed

theorem aidl_handle_roundtrip_witness:
  "\<exists>nh s1 s2 h'. toAidl sample_env 0x2000 True received = Done (nh, s1) \<and>
     fromAidl sample_env nh False s1 = (0x1000, s2) \<and> load_native 0x1000 s2 = Done h' \<and>
     numInts h' = 12 \<and> live_fds (handle_fds h') \<inter> {10, 11} = {}"
proof -
  obtain nh s1 s2 where r: "toAidl sample_env 0x2000 True received = Done (nh, s1)"
    "fromAidl sample_env nh False s1 = (0x1000, s2)"
    using received_dup by blast
  show ?thesis
    using aidl_handle_roundtrip [OF received_handle_sel(1) _ r] r by (auto simp: length_handle_data)
qed

end
