(* ===== verification/Aidl_Allocator.thy ===== *)
theory Aidl_Allocator
  imports Aidl_NativeHandle Metadata_Codec Gm_Machine
begin

text \<open>
  The AIDL allocator service \<open>GbmMesaAllocator\<close>: src/src/aidl/Allocator.cpp and Allocator.h.
\<close>

section \<open>Data\<close>

text \<open>
  The structs of the AIDL interface.  \<open>ScopedAStatus\<close> is a service-specific error, a binder status,
  or success; the binder statuses that the sources name have a constructor each, with the numbers of
  the NDK left open.
\<close>

datatype binder_status_t =
    STATUS_OK | STATUS_BAD_VALUE | STATUS_UNKNOWN_TRANSACTION | STATUS_OTHER c_int

datatype AllocationError = BAD_DESCRIPTOR | NO_RESOURCES | UNSUPPORTED

datatype ScopedAStatus = StatusOk | ServiceSpecific AllocationError | FromStatus binder_status_t

definition isOk :: "ScopedAStatus \<Rightarrow> bool" where
  "isOk st \<longleftrightarrow> st = StatusOk"

definition ToBinderStatus :: "AllocationError \<Rightarrow> ScopedAStatus" where
  "ToBinderStatus e = ServiceSpecific e"

record BufferDescriptorInfo =
  bdi_name :: bytes
  bdi_width :: c_int
  bdi_height :: c_int
  bdi_layerCount :: c_int
  bdi_format :: c_int
  bdi_usage :: u64
  bdi_reservedSize :: u64
  additionalOptions :: "ExtendableType list"

record AllocationResult =
  ar_stride :: c_int
  ar_buffers :: "NativeHandle list"

text \<open>
  \<open>IMapper::BufferDescriptorInfo\<close> of the version 4 interface and
  \<open>gralloc4::decodeBufferDescriptorInfo\<close> come from outside the repository.
\<close>

record BufferDescriptorInfoV4 =
  v4_width :: u32
  v4_height :: u32
  v4_layerCount :: u32
  v4_format :: c_int
  v4_usage :: u64
  v4_reservedSize :: u64

text \<open>The service object over the process that runs it.\<close>

record 'e allocator =
  al_proc :: "'e proc"
  gbmDevFd :: c_int

definition GbmMesaAllocator :: "'e proc \<Rightarrow> 'e allocator" where
  "GbmMesaAllocator s = \<lparr>al_proc = s, gbmDevFd = - 1\<rparr>"

definition isInitialized :: "'e allocator \<Rightarrow> bool" where
  "isInitialized a \<longleftrightarrow> is_pos (gbmDevFd a)"

definition allocator_init :: "'e gbm_env \<Rightarrow> 'e allocator \<Rightarrow> bool \<times> 'e allocator" where
  "allocator_init P a =
    (let (fd, s) = gralloc_gbm_device_init P (al_proc a)
     in (is_pos fd, a\<lparr>al_proc := s, gbmDevFd := fd\<rparr>))"

definition allocator_dtor :: "'e allocator \<Rightarrow> 'e allocator" where
  "allocator_dtor a =
    (if is_pos (gbmDevFd a)
     then a\<lparr>al_proc := close_fd (gbmDevFd a) (al_proc a), gbmDevFd := - 1\<rparr> else a)"

section \<open>Converting the descriptor\<close>

definition convertToGBMDesc ::
    "BufferDescriptorInfo \<Rightarrow> gralloc_buffer_desc \<Rightarrow> ScopedAStatus \<times> gralloc_buffer_desc" where
  "convertToGBMDesc info outResult =
    (if bdi_width info = 0 \<or> bdi_height info = 0 then (ToBinderStatus BAD_DESCRIPTOR, outResult)
     else
       let outResult = outResult\<lparr>d_width := bdi_width info, d_height := bdi_height info\<rparr>
       in if sint (bdi_layerCount info) > 1 then (ToBinderStatus UNSUPPORTED, outResult)
          else (StatusOk,
                outResult\<lparr>d_android_format := bdi_format info, d_android_usage := ucast (bdi_usage info),
                  d_android_reserved_size := ucast (bdi_reservedSize info),
                  d_layer_count := bdi_layerCount info, d_gbm_format := - 1\<rparr>))"

definition zero_desc :: gralloc_buffer_desc where
  "zero_desc = \<lparr>d_width = 0, d_height = 0, d_android_format = 0, d_android_usage = 0,
     d_android_reserved_size = 0, d_gbm_format = 0, d_flags = 0, d_layer_count = 0\<rparr>"

section \<open>Allocating\<close>

text \<open>
  One buffer.  When \<open>gralloc_allocate\<close> returns 0 without storing a handle, the local \<open>handle\<close> is
  copied out uninitialised.
\<close>

definition gbmAllocateBuffer ::
    "'e gbm_env \<Rightarrow> gralloc_buffer_desc \<Rightarrow> 'e allocator
      \<Rightarrow> ((ScopedAStatus \<times> (c_int \<times> ptr) option) \<times> 'e allocator) run" where
  "gbmAllocateBuffer P desc a =
    (if \<not> isInitialized a then Done ((ToBinderStatus NO_RESOURCES, None), a)
     else if \<not> gralloc_is_desc_support desc then Done ((ToBinderStatus UNSUPPORTED, None), a)
     else andThen (gralloc_allocate P desc (al_proc a)) (\<lambda>((ret, out), s).
       let a = a\<lparr>al_proc := s\<rparr>
       in if ret \<noteq> 0 then Done ((ToBinderStatus NO_RESOURCES, None), a)
          else case out of
                 None \<Rightarrow> Fault UninitRead
               | Some (stride, handle) \<Rightarrow>
                   Done ((StatusOk,
                          Some (gralloc_gm_android_caculate_pixel_stride (hal_of P)
                                  (d_android_format desc) stride, handle)), a)))"

definition release_buffer :: "'e gbm_env \<Rightarrow> ptr \<Rightarrow> 'e proc \<Rightarrow> 'e proc run" where
  "release_buffer P p s =
     andThen (gralloc_gm_buffer_free P p s) (\<lambda>(_, s).
     andThen (native_handle_close p s) (\<lambda>s. native_handle_delete p s))"

primrec release_buffers :: "'e gbm_env \<Rightarrow> ptr list \<Rightarrow> 'e proc \<Rightarrow> 'e proc run" where
  "release_buffers P [] s = Done s"
| "release_buffers P (p # ps) s =
    (if p = 0 then release_buffers P ps s
     else andThen (release_buffer P p s) (\<lambda>s. release_buffers P ps s))"

text \<open>The first loop of \<open>doAllocate\<close>: \<open>n\<close> buffers are left to allocate, \<open>hs\<close> holds those allocated.\<close>

primrec allocate_loop ::
    "'e gbm_env \<Rightarrow> gralloc_buffer_desc \<Rightarrow> nat \<Rightarrow> ptr list \<Rightarrow> AllocationResult \<Rightarrow> 'e allocator
      \<Rightarrow> ((ScopedAStatus \<times> ptr list \<times> AllocationResult) \<times> 'e allocator) run" where
  "allocate_loop P desc 0 hs res a = Done ((StatusOk, hs, res), a)"
| "allocate_loop P desc (Suc n) hs res a =
     andThen (gbmAllocateBuffer P desc a) (\<lambda>((status, out), a).
       let res = (case out of None \<Rightarrow> res | Some (stride, p) \<Rightarrow> res\<lparr>ar_stride := stride\<rparr>);
           p = (case out of None \<Rightarrow> 0 | Some (stride, p) \<Rightarrow> p)
       in if \<not> isOk status
          then andThen (release_buffers P hs (al_proc a)) (\<lambda>s.
                 Done ((status, hs, res), a\<lparr>al_proc := s\<rparr>))
          else allocate_loop P desc n (hs @ [p]) res a)"

text \<open>
  The second loop: duplicate each handle into the result, then release it.  Assigning to an element
  closes the descriptors it owned; so does cutting the vector.
\<close>

definition close_scoped :: "c_int list \<Rightarrow> 'e proc \<Rightarrow> 'e proc" where
  "close_scoped fds s = s\<lparr>open_fds := open_fds s - live_fds fds\<rparr>"

primrec export_loop ::
    "'e gbm_env \<Rightarrow> nat \<Rightarrow> ptr list \<Rightarrow> NativeHandle list \<Rightarrow> 'e proc
      \<Rightarrow> (NativeHandle list \<times> 'e proc) run" where
  "export_loop P i [] bufs s = Done (bufs, s)"
| "export_loop P i (p # ps) bufs s =
    (if p = 0 then export_loop P (Suc i) ps bufs s
     else andThen (dupToAidl P p s) (\<lambda>(nh, s).
            let s = close_scoped (nh_fds (bufs ! i)) s
            in andThen (release_buffer P p s) (\<lambda>s.
                 export_loop P (Suc i) ps (bufs[i := nh]) s)))"

definition resize_buffers ::
    "nat \<Rightarrow> NativeHandle list \<Rightarrow> 'e proc \<Rightarrow> NativeHandle list \<times> 'e proc" where
  "resize_buffers n bufs s =
    (take n bufs @ replicate (n - length bufs) \<lparr>nh_fds = [], nh_ints = []\<rparr>,
     close_scoped (concat (map nh_fds (drop n bufs))) s)"

text \<open>
  \<open>handles.resize(count)\<close> converts \<open>count\<close>, here \<open>cnt\<close>, to \<open>size_t\<close> and throws when that is more than a vector
  can hold, which every negative count is; \<open>lim\<close> is that limit.
\<close>

definition doAllocate ::
    "'e gbm_env \<Rightarrow> nat \<Rightarrow> gralloc_buffer_desc \<Rightarrow> c_int \<Rightarrow> AllocationResult \<Rightarrow> 'e allocator
      \<Rightarrow> ((ScopedAStatus \<times> AllocationResult) \<times> 'e allocator) run" where
  "doAllocate P lim desc cnt outResult a =
    (if \<not> isInitialized a then Done ((ToBinderStatus NO_RESOURCES, outResult), a)
     else if is_neg cnt \<or> lim < unat cnt then Fault UncaughtException
     else andThen (allocate_loop P desc (unat cnt) [] outResult a) (\<lambda>((status, hs, res), a).
       if \<not> isOk status then Done ((status, res), a)
       else let (bufs, s) = resize_buffers (unat cnt) (ar_buffers res) (al_proc a)
            in andThen (export_loop P 0 hs bufs s) (\<lambda>(bufs, s).
                 Done ((StatusOk, res\<lparr>ar_buffers := bufs\<rparr>), a\<lparr>al_proc := s\<rparr>))))"

section \<open>The service methods\<close>

definition allocator_allocate ::
    "'e gbm_env \<Rightarrow> nat \<Rightarrow> (bytes \<Rightarrow> c_int \<times> BufferDescriptorInfoV4) \<Rightarrow> bytes \<Rightarrow> c_int \<Rightarrow> AllocationResult
      \<Rightarrow> 'e allocator \<Rightarrow> ((ScopedAStatus \<times> AllocationResult) \<times> 'e allocator) run" where
  "allocator_allocate P lim decodeBufferDescriptorInfo encodedDescriptor cnt outResult a =
    (if \<not> isInitialized a then Done ((ToBinderStatus NO_RESOURCES, outResult), a)
     else
       let (ret, d) = decodeBufferDescriptorInfo encodedDescriptor
       in if ret \<noteq> 0 then Done ((ToBinderStatus BAD_DESCRIPTOR, outResult), a)
          else
            let info = \<lparr>bdi_name = map of_char ''auto_generated'', bdi_width = v4_width d,
                        bdi_height = v4_height d, bdi_layerCount = v4_layerCount d,
                        bdi_format = v4_format d, bdi_usage = v4_usage d,
                        bdi_reservedSize = v4_reservedSize d, additionalOptions = []\<rparr>;
                (status, gbmDesc) = convertToGBMDesc info zero_desc
            in if \<not> isOk status then Done ((ToBinderStatus UNSUPPORTED, outResult), a)
               else doAllocate P lim gbmDesc cnt outResult a)"

definition allocator_allocate2 ::
    "'e gbm_env \<Rightarrow> nat \<Rightarrow> BufferDescriptorInfo \<Rightarrow> c_int \<Rightarrow> AllocationResult \<Rightarrow> 'e allocator
      \<Rightarrow> ((ScopedAStatus \<times> AllocationResult) \<times> 'e allocator) run" where
  "allocator_allocate2 P lim descriptor cnt outResult a =
    (if \<not> isInitialized a then Done ((ToBinderStatus NO_RESOURCES, outResult), a)
     else
       let (status, gbmDesc) = convertToGBMDesc descriptor zero_desc
       in if \<not> isOk status then Done ((status, outResult), a)
          else doAllocate P lim gbmDesc cnt outResult a)"

definition STANDARD_METADATA_DATASPACE :: bytes where
  "STANDARD_METADATA_DATASPACE = map of_char ''android.hardware.graphics.common.Dataspace''"

primrec options_known :: "ExtendableType list \<Rightarrow> bool" where
  "options_known [] \<longleftrightarrow> True"
| "options_known (option # options) \<longleftrightarrow>
    (if ext_name option \<noteq> STANDARD_METADATA_DATASPACE then False else options_known options)"

text \<open>The answer stored in the out parameter, \<open>None\<close> when nothing is.\<close>

definition isSupported ::
    "BufferDescriptorInfo \<Rightarrow> 'e allocator \<Rightarrow> ScopedAStatus \<times> bool option" where
  "isSupported descriptor a =
    (if \<not> isInitialized a then (ToBinderStatus NO_RESOURCES, None)
     else (StatusOk, Some (options_known (additionalOptions descriptor))))"

definition getIMapperLibrarySuffix :: "ScopedAStatus \<times> bytes" where
  "getIMapperLibrarySuffix = (StatusOk, map of_char ''gm'')"

section \<open>Properties\<close>

text \<open>What the two allocation methods answer to a descriptor they refuse: \<open>allocate2\<close> reports an
  empty image as a bad descriptor and more than one layer as unsupported, but \<open>allocate\<close> reports the
  same bad descriptor as unsupported; and \<open>isSupported\<close>, which looks at the options only, answers yes
  to descriptors that \<open>allocate2\<close> then refuses.  Nothing is allocated in any of these cases.\<close>

theorem refused_descriptors:
  assumes "isInitialized a" and "bdi_width info = 0 \<or> bdi_height info = 0 \<or> sint (bdi_layerCount info) > 1"
    and "dec enc = (0, d)" and "v4_width d = bdi_width info" and "v4_height d = bdi_height info"
    and "v4_layerCount d = bdi_layerCount info" and "options_known (additionalOptions info)"
  shows "allocator_allocate2 P lim info cnt out a
      = Done ((ServiceSpecific (if bdi_width info = 0 \<or> bdi_height info = 0
                then BAD_DESCRIPTOR else UNSUPPORTED), out), a) \<and>
    allocator_allocate P lim dec enc cnt out a = Done ((ServiceSpecific UNSUPPORTED, out), a) \<and>
    isSupported info a = (StatusOk, Some True)"
  using assms
  by (auto simp: allocator_allocate2_def allocator_allocate_def convertToGBMDesc_def isOk_def
      ToBinderStatus_def isSupported_def Let_def)

definition empty_image :: BufferDescriptorInfo where
  "empty_image = \<lparr>bdi_name = [], bdi_width = 0, bdi_height = 4, bdi_layerCount = 1, bdi_format = 1,
     bdi_usage = 3, bdi_reservedSize = 0, additionalOptions = []\<rparr>"

definition sample_allocator :: "unit allocator" where
  "sample_allocator = \<lparr>al_proc = sample_ready, gbmDevFd = 10\<rparr>"

lemma sample_allocator_init [simp]: "isInitialized sample_allocator"
  by (simp add: isInitialized_def sample_allocator_def is_pos_def)

theorem refused_descriptors_witness:
  "\<exists>out. allocator_allocate2 sample_env 1000 empty_image 1 out sample_allocator
       = Done ((ServiceSpecific BAD_DESCRIPTOR, out), sample_allocator) \<and>
     isSupported empty_image sample_allocator = (StatusOk, Some True)"
  using refused_descriptors [of sample_allocator empty_image
      "\<lambda>_. (0, \<lparr>v4_width = 0, v4_height = 4, v4_layerCount = 1, v4_format = 1, v4_usage = 3, v4_reservedSize = 0\<rparr>)"
      "[]" "\<lparr>v4_width = 0, v4_height = 4, v4_layerCount = 1, v4_format = 1, v4_usage = 3, v4_reservedSize = 0\<rparr>"
      sample_env 1000 1 "\<lparr>ar_stride = 0, ar_buffers = []\<rparr>"]
  by (auto simp: empty_image_def)

text \<open>The service closes the descriptor that belongs to the library's cached GBM device: after
  its destructor the library still hands that device out to every request, on a descriptor that is
  closed.\<close>

theorem dtor_closes_library_device:
  assumes "allocator_init P (GbmMesaAllocator s) = (True, a)"
  shows "let b = allocator_dtor a in
    gbm_dev_fd (al_proc b) = gbmDevFd a \<and> gbm_dev_fd (al_proc b) \<notin> open_fds (al_proc b) \<and>
    \<not> isInitialized b \<and> gbm_dev (al_proc b) \<noteq> None \<and>
    (\<forall>fd. gralloc_gbm_device_create P fd True (al_proc b) = ((0, gbm_dev (al_proc b)), al_proc b))"
proof -
  obtain fd t where i: "gralloc_gbm_device_init P s = (fd, t)" "is_pos fd"
    and a: "a = \<lparr>al_proc = t, gbmDevFd = fd\<rparr>"
    using assms by (auto simp: allocator_init_def GbmMesaAllocator_def split: prod.splits)
  note r = device_init_pos_ready [OF i]
  have "dev_ready (close_fd fd t)"
    using r by (simp add: dev_ready_def close_fd_def)
  moreover have "allocator_dtor a = \<lparr>al_proc = close_fd fd t, gbmDevFd = - 1\<rparr>"
    by (simp add: allocator_dtor_def a i(2))
  ultimately show ?thesis
    using r by (simp add: close_fd_def a isInitialized_def is_pos_def dev_ready_def)
qed

theorem dtor_closes_library_device_witness:
  "\<exists>a. allocator_init sample_env (GbmMesaAllocator (init_proc () {})) = (True, a) \<and>
     gbm_dev_fd (al_proc (allocator_dtor a)) \<notin> open_fds (al_proc (allocator_dtor a))"
proof -
  obtain r s' where i: "gralloc_gbm_device_init sample_env (init_proc () {}) = (r, s')" and "is_pos r"
    using device_init_sample by blast
  then obtain a where a: "allocator_init sample_env (GbmMesaAllocator (init_proc () {})) = (True, a)"
    by (simp add: allocator_init_def GbmMesaAllocator_def)
  from dtor_closes_library_device [OF a] a show ?thesis
    by (auto simp: Let_def)
qed

end
