(* ===== verification/Aidl_Batch.thy ===== *)
theory Aidl_Batch
  imports Aidl_Allocator
begin

text \<open>
  What \<open>GbmMesaAllocator::doAllocate\<close> does to the process as a whole: the invariant of its two loops,
  and the theorem that an allocation of several buffers is atomic.
\<close>

section \<open>Batches of buffers\<close>

text \<open>
  The state \<open>t\<close> in the middle of \<open>doAllocate\<close>, over the state \<open>s\<close> it started from: the handles \<open>ps\<close>
  are new, registered, satisfy \<open>Q\<close> and own distinct new descriptors; \<open>D\<close> are descriptors already
  duplicated into the result; everything else is as in \<open>s\<close>.
\<close>

definition fd_of :: "'e proc \<Rightarrow> ptr \<Rightarrow> c_int" where
  "fd_of t p = (case handles t p of None \<Rightarrow> - 1 | Some h \<Rightarrow> prime_fd h)"

definition fresh_buffer :: "(gralloc_handle_t \<Rightarrow> bool) \<Rightarrow> 'e proc \<Rightarrow> 'e proc \<Rightarrow> ptr \<Rightarrow> bool" where
  "fresh_buffer Q s t p \<longleftrightarrow> p \<notin> dom (handles s) \<and> gbm_bo_handle_map s p = None \<and>
     (\<exists>h b. load_handle p t = Done h \<and> Q h \<and> numFds h = 1 \<and> numInts h = 12 \<and>
        gbm_bo_handle_map t p = Some b \<and> b \<notin> dom (bos s))"

lemma fresh_buffer_cong:
  assumes "handles t' p = handles t p" and "gbm_bo_handle_map t' p = gbm_bo_handle_map t p"
  shows "fresh_buffer Q s t' p = fresh_buffer Q s t p"
  using assms load_handle_cong [OF assms(1)] by (simp add: fresh_buffer_def)

definition batch ::
    "(gralloc_handle_t \<Rightarrow> bool) \<Rightarrow> 'e proc \<Rightarrow> ptr list \<Rightarrow> c_int set \<Rightarrow> 'e proc \<Rightarrow> bool" where
  "batch Q s ps D t \<longleftrightarrow>
     reg_inv t \<and> distinct ps \<and>
     (\<forall>p \<in> set ps. fresh_buffer Q s t p) \<and>
     (\<forall>q. q \<notin> set ps \<longrightarrow> handles t q = handles s q \<and> gbm_bo_handle_map t q = gbm_bo_handle_map s q) \<and>
     (\<forall>b \<in> dom (bos s). bos t b = bos s b) \<and>
     open_fds t = open_fds s \<union> D \<union> live_fds (map (fd_of t) ps) \<and>
     distinct (filter (\<lambda>fd. \<not> is_neg fd) (map (fd_of t) ps)) \<and>
     (open_fds s \<union> D) \<inter> live_fds (map (fd_of t) ps) = {} \<and> open_fds s \<inter> D = {} \<and>
     (\<forall>fd \<in> open_fds s \<union> D. \<not> is_neg fd)"

lemma batch_start:
  assumes "reg_inv s" and "\<forall>fd \<in> open_fds s. \<not> is_neg fd"
  shows "batch Q s [] {} s"
  using assms by (simp add: batch_def)

lemma batch_end:
  assumes b: "batch Q s [] D t" and inv: "reg_inv s"
  shows "gbm_bo_handle_map t = gbm_bo_handle_map s" and "handles t = handles s" and "bos t = bos s"
    and "open_fds t = open_fds s \<union> D" and "open_fds s \<inter> D = {}"
proof -
  show m: "gbm_bo_handle_map t = gbm_bo_handle_map s" and "handles t = handles s"
    and "open_fds t = open_fds s \<union> D" and "open_fds s \<inter> D = {}"
    using b by (auto simp: batch_def)
  have "reg_inv t"
    using b by (simp add: batch_def)
  then have "dom (bos t) = dom (bos s)"
    using reg_inv_live [OF inv] reg_inv_live [of t] m
    by (auto simp: gralloc_get_gbm_bo_from_handle_def set_eq_iff)
  then show "bos t = bos s"
    using b by (intro map_le_antisym) (auto simp: map_le_def batch_def)
qed

lemma batch_cong:
  assumes "reg_inv t' = reg_inv t" and "handles t' = handles t"
    and "gbm_bo_handle_map t' = gbm_bo_handle_map t" and "bos t' = bos t"
    and "open_fds t' = open_fds t"
  shows "batch Q s ps D t' = batch Q s ps D t"
proof -
  have "fd_of t' = fd_of t"
    by (simp add: fd_of_def fun_eq_iff assms(2))
  moreover have "fresh_buffer Q s t' = fresh_buffer Q s t"
    by (rule ext, rule fresh_buffer_cong) (simp_all add: assms(2,3))
  ultimately show ?thesis
    unfolding batch_def by (simp only: assms)
qed

lemma batch_env: "batch Q s ps D (t\<lparr>env := e\<rparr>) = batch Q s ps D t"
  by (rule batch_cong, rule reg_inv_cong) simp_all

lemma batch_unchanged:
  assumes "batch Q s ps D t" and u: "unchanged_buffers t t'"
  shows "batch Q s ps D t'"
proof -
  have "batch Q s ps D t' = batch Q s ps D t"
    by (rule batch_cong [OF unchanged_buffers_reg_inv [OF u]]) (use u in \<open>simp_all add: unchanged_buffers_def\<close>)
  with assms(1) show ?thesis
    by blast
qed

lemma map_fd_of_cong:
  assumes "\<And>q. q \<in> set ps \<Longrightarrow> handles t' q = handles t q"
  shows "map (fd_of t') ps = map (fd_of t) ps"
  using assms by (simp add: fd_of_def)

lemma batch_allocate:
  assumes b: "batch Q s ps D t" and a: "allocated t desc p bo_p h bo t'" and Q: "Q h"
  shows "batch Q s (ps @ [p]) D t'"
proof -
  note B = b [unfolded batch_def]
  have reg: "reg_inv t" and reg': "reg_inv t'" and none: "gbm_bo_handle_map t p = None"
    and m': "gbm_bo_handle_map t' = (gbm_bo_handle_map t)(p \<mapsto> bo_p)"
    using B allocated_reg_inv [OF _ a] by blast+
  have new: "p \<notin> dom (handles t)" "bo_p \<notin> dom (bos t)" "handles t' = (handles t)(p \<mapsto> h)"
    "bos t' = (bos t)(bo_p \<mapsto> bo)" "load_handle p t' = Done h" "numFds h = 1" "numInts h = 12"
    "open_fds t' = (if is_neg (prime_fd h) then open_fds t else insert (prime_fd h) (open_fds t))"
    "is_neg (prime_fd h) \<or> prime_fd h \<notin> open_fds t"
    using a by (auto simp: allocated_def)
  have live: "q \<in> dom (handles t)" if "q \<in> set ps" for q
    using B that by (auto simp: fresh_buffer_def load_handle_Done)
  then have p: "p \<notin> set ps"
    using new(1) by blast
  have ps: "p \<notin> dom (handles s)" "gbm_bo_handle_map s p = None"
    using B p new(1) none by (metis domIff)+
  have bp: "bo_p \<notin> dom (bos s)"
    using B new(2) by (metis domIff)
  have fresh: "fresh_buffer Q s t' p"
    unfolding fresh_buffer_def using ps new(5-7) Q m' bp by auto
  have fds: "map (fd_of t') ps = map (fd_of t) ps"
    using p by (intro map_fd_of_cong) (auto simp: new(3))
  have fp: "fd_of t' p = prime_fd h"
    by (simp add: fd_of_def new(3))
  have old: "fresh_buffer Q s t' q" if "q \<in> set ps" for q
  proof -
    have "fresh_buffer Q s t' q = fresh_buffer Q s t q"
      using that p by (intro fresh_buffer_cong) (auto simp: new(3) m')
    with B that show ?thesis
      by blast
  qed
  have "\<forall>b \<in> dom (bos s). bos t' b = bos s b"
    using B bp new(4) by auto
  moreover have "\<forall>q. q \<notin> set (ps @ [p]) \<longrightarrow>
      handles t' q = handles s q \<and> gbm_bo_handle_map t' q = gbm_bo_handle_map s q"
    using B by (simp add: new(3) m')
  moreover have "open_fds t' = open_fds s \<union> D \<union> live_fds (map (fd_of t') (ps @ [p]))"
    using B new(8) by (auto simp: fds fp)
  moreover have "distinct (filter (\<lambda>fd. \<not> is_neg fd) (map (fd_of t') (ps @ [p])))"
    and "(open_fds s \<union> D) \<inter> live_fds (map (fd_of t') (ps @ [p])) = {}"
    using B new(9) by (auto simp: fds fp live_fds_def)
  ultimately show ?thesis
    unfolding batch_def using B reg' p old fresh by auto
qed

lemma batch_release:
  assumes b: "batch Q s (p # ps) D t"
  shows "\<exists>t'. release_buffer P p t = Done t' \<and> batch Q s ps D t'"
proof -
  note B = b [unfolded batch_def]
  obtain h c where h: "load_handle p t = Done h" "numFds h = 1" and c: "gbm_bo_handle_map t p = Some c"
    and cn: "c \<notin> dom (bos s)" and p: "p \<notin> dom (handles s)" "gbm_bo_handle_map s p = None" "p \<notin> set ps"
    using B by (auto simp: fresh_buffer_def)
  have hp: "p \<noteq> 0" "handles t p = Some h" "fd_of t p = prime_fd h"
    using h by (simp_all add: load_handle_Done fd_of_def)
  have hf: "handle_fds h = [prime_fd h]"
    by (simp add: handle_fds_def h(2) handle_data_def)
  let ?t = "t\<lparr>gbm_bo_handle_map := erase p (gbm_bo_handle_map t), bos := erase c (bos t),
      open_fds := open_fds t - {prime_fd h}, handles := erase p (handles t)\<rparr>"
  have reg: "reg_inv t"
    using B by blast
  have run: "release_buffer P p t = Done ?t"
    using buffer_free_registered [OF reg c, of P] hp
    by (simp add: release_buffer_def native_handle_close_def native_handle_delete_def load_native_def hf)
  have reg': "reg_inv ?t"
    by (rule reg_inv_unregister [OF reg c]) simp_all
  have fds: "map (fd_of ?t) ps = map (fd_of t) ps"
    using p(3) by (intro map_fd_of_cong) (auto simp: erase_def)
  have "open_fds t - {prime_fd h} = open_fds s \<union> D \<union> live_fds (map (fd_of t) ps)"
    using B hp(3) by (auto simp: live_fds_def)
  moreover have "fresh_buffer Q s ?t q" if "q \<in> set ps" for q
  proof -
    have "fresh_buffer Q s ?t q = fresh_buffer Q s t q"
      using that p(3) by (intro fresh_buffer_cong) (auto simp: erase_def)
    with B that show ?thesis
      by auto
  qed
  moreover have "\<forall>b \<in> dom (bos s). erase c (bos t) b = bos s b"
    using B cn by (auto simp: erase_def)
  moreover have "\<forall>q. q \<notin> set ps \<longrightarrow> erase p (handles t) q = handles s q \<and>
      erase p (gbm_bo_handle_map t) q = gbm_bo_handle_map s q"
    using B p by (auto simp: erase_def)
  ultimately have "batch Q s ps D ?t"
    unfolding batch_def fds using B reg' by (auto simp: live_fds_def split: if_splits)
  with run show ?thesis
    by blast
qed

lemma batch_release_all:
  assumes "batch Q s ps D t"
  shows "\<exists>t'. release_buffers P ps t = Done t' \<and> batch Q s [] D t'"
  using assms
proof (induction ps arbitrary: t)
  case (Cons p ps)
  have "p \<noteq> 0"
    using Cons.prems by (auto simp: batch_def fresh_buffer_def load_handle_Done)
  then show ?case
    using batch_release [OF Cons.prems, of P] Cons.IH by fastforce
qed simp

section \<open>The first loop\<close>

lemma gbmAllocateBuffer_cases:
  assumes "gbmAllocateBuffer P desc a = Done ((st, out), a')"
    and "handle_contract P" "bo_contract P" "fd_contract P"
  shows "gbmDevFd a' = gbmDevFd a \<and>
    ((\<not> isOk st \<and> out = None \<and> unchanged_buffers (al_proc a) (al_proc a')) \<or>
     (st = StatusOk \<and> (\<exists>stride p b h bo. out = Some (stride, p) \<and>
        allocated (al_proc a) desc p b h bo (al_proc a'))))"
proof (cases "\<not> isInitialized a \<or> \<not> gralloc_is_desc_support desc")
  case True
  then show ?thesis
    using assms(1) by (auto simp: gbmAllocateBuffer_def isOk_def ToBinderStatus_def)
next
  case False
  then obtain ret o' s where g: "gralloc_allocate P desc (al_proc a) = Done ((ret, o'), s)"
    using assms(1) by (auto simp: gbmAllocateBuffer_def andThen_eq_Done)
  show ?thesis
    using gralloc_allocate_cases [OF g assms(2-4)] assms(1) False g
    by (auto simp: gbmAllocateBuffer_def Let_def isOk_def ToBinderStatus_def split: if_splits)
qed

lemma allocate_nothing:
  assumes run: "gralloc_allocate P desc s = Done ((0, None), t)"
  shows "\<exists>e. p_errno P e = 0"
proof -
  have nz: "EINVAL \<noteq> 0"
    by (simp add: EINVAL_def)
  have sup: "gralloc_is_desc_support desc"
    using run nz by (auto simp: gralloc_allocate_def split: if_splits)
  obtain ret dev s1 where dc': "gralloc_gbm_device_create P (gbm_dev_fd s) True s = ((ret, dev), s1)"
    by (metis prod.exhaust)
  then obtain d where dc: "gralloc_gbm_device_create P (gbm_dev_fd s) True s = ((ret, Some d), s1)"
    using run sup by (cases dev) (auto simp: gralloc_allocate_def)
  obtain p s2 where hc: "gralloc_handle_create P (d_width desc) (d_height desc)
      (d_android_format desc) (d_android_usage desc) s1 = (p, s2)"
    by fastforce
  have p: "p \<noteq> 0"
    using run sup dc hc nz by (auto simp: gralloc_allocate_def)
  obtain h where h: "load_handle p s2 = Done h"
    using run sup dc hc p by (auto simp: gralloc_allocate_def andThen_eq_Done)
  let ?f = "gralloc_gm_android_format_to_gbm_format (hal_of P) (h_format h)"
  let ?fl = "gralloc_gm_get_gbm_flags_from_android_usage (hal_of P) (h_usage h) (h_format h)"
  obtain w ht where wh: "alloc_dims (hal_of P) h ?fl = (w, ht)"
    by fastforce
  obtain res e where bc: "p_gbm_bo_create P (dom (bos s2)) d w ht ?f ?fl (env s2) = (res, e)"
    by fastforce
  show ?thesis
  proof (cases res)
    case None
    then have "p_errno P (env t) = 0"
      using run sup dc hc p h wh bc by (auto simp: gralloc_allocate_def Let_def andThen_eq_Done)
    then show ?thesis
      by blast
  next
    case (Some x)
    then show ?thesis
      using run sup dc hc p h wh bc
      by (cases x) (auto simp: gralloc_allocate_def Let_def gralloc_allocate_finish_def split: prod.splits)
  qed
qed

definition described :: "gralloc_buffer_desc \<Rightarrow> gralloc_handle_t \<Rightarrow> bool" where
  "described desc h \<longleftrightarrow> h_width h = d_width desc \<and> h_height h = d_height desc \<and>
     h_format h = d_android_format desc \<and> h_usage h = d_android_usage desc"

lemma allocated_described: "allocated s desc p b h bo t \<Longrightarrow> described desc h"
  by (simp add: allocated_def described_def)

lemma gbmAllocateBuffer_fault:
  assumes "gbmAllocateBuffer P desc a = Fault f" and "handle_contract P"
  shows "f = UninitRead \<and> \<not> (dev_ready (al_proc a) \<and> (\<forall>e. p_errno P e \<noteq> 0))"
proof (cases "gralloc_allocate P desc (al_proc a)")
  case (Fault g)
  then have "f = g"
    using assms(1) by (auto simp: gbmAllocateBuffer_def split: if_splits)
  with Fault show ?thesis
    using allocate_faults_without_device [OF assms(2)] by (auto simp: dev_ready_def)
next
  case (Done x)
  then obtain t where "gralloc_allocate P desc (al_proc a) = Done ((0, None), t)" and "f = UninitRead"
    using assms(1) by (cases x) (auto simp: gbmAllocateBuffer_def Let_def split: if_splits option.splits prod.splits)
  then show ?thesis
    using allocate_nothing by blast
qed

lemma gbmAllocateBuffer_dev:
  assumes "gbmAllocateBuffer P desc a = Done (r, a')" and "dev_ready (al_proc a)"
  shows "dev_ready (al_proc a')"
proof (cases "\<not> isInitialized a \<or> \<not> gralloc_is_desc_support desc")
  case True
  then show ?thesis
    using assms by (auto simp: gbmAllocateBuffer_def)
next
  case False
  then obtain x s where g: "gralloc_allocate P desc (al_proc a) = Done (x, s)"
    using assms(1) by (auto simp: gbmAllocateBuffer_def andThen_eq_Done)
  then have "al_proc a' = s"
    using assms(1) False
    by (cases x) (auto simp: gbmAllocateBuffer_def Let_def split: if_splits option.splits prod.splits)
  then show ?thesis
    using same_dev_ready [OF allocate_same_dev [OF assms(2) g]] assms(2) by simp
qed

lemma batch_gbmAllocateBuffer:
  assumes "gbmAllocateBuffer P desc a = Done ((st, out), a')" and "batch (described desc) s hs D (al_proc a)"
    and c: "handle_contract P" "bo_contract P" "fd_contract P"
  shows "gbmDevFd a' = gbmDevFd a \<and>
    (if isOk st then \<exists>stride p. out = Some (stride, p) \<and> batch (described desc) s (hs @ [p]) D (al_proc a')
     else batch (described desc) s hs D (al_proc a'))"
  using gbmAllocateBuffer_cases [OF assms(1) c]
proof (elim conjE disjE exE)
  assume "gbmDevFd a' = gbmDevFd a" "\<not> isOk st" "unchanged_buffers (al_proc a) (al_proc a')"
  then show ?thesis
    using batch_unchanged [OF assms(2)] by simp
next
  fix stride p b h bo
  assume "gbmDevFd a' = gbmDevFd a" "st = StatusOk" "out = Some (stride, p)"
    and al: "allocated (al_proc a) desc p b h bo (al_proc a')"
  then show ?thesis
    using batch_allocate [OF assms(2) al] allocated_described [OF al] by (simp add: isOk_def)
qed

lemma allocate_loop_batch:
  assumes "allocate_loop P desc n hs res a = Done ((st, hs', res'), a')"
    and "batch (described desc) s hs {} (al_proc a)"
    and c: "handle_contract P" "bo_contract P" "fd_contract P"
  shows "gbmDevFd a' = gbmDevFd a \<and> ar_buffers res' = ar_buffers res \<and>
    (if isOk st then length hs' = length hs + n \<and> batch (described desc) s hs' {} (al_proc a')
     else batch (described desc) s [] {} (al_proc a'))"
  using assms(1,2)
proof (induction n arbitrary: hs res a)
  case 0
  then show ?case by (auto simp: isOk_def)
next
  case (Suc n)
  obtain st1 out a1 where g: "gbmAllocateBuffer P desc a = Done ((st1, out), a1)"
    using Suc.prems(1) by (auto simp: andThen_eq_Done)
  note bg = batch_gbmAllocateBuffer [OF g Suc.prems(2) c]
  show ?case
  proof (cases "isOk st1")
    case True
    then obtain stride p where o: "out = Some (stride, p)" and b: "batch (described desc) s (hs @ [p]) {} (al_proc a1)"
      using bg by auto
    have "allocate_loop P desc n (hs @ [p]) (res\<lparr>ar_stride := stride\<rparr>) a1 = Done ((st, hs', res'), a')"
      using Suc.prems(1) g True o by simp
    from Suc.IH [OF this b] show ?thesis
      using bg by simp
  next
    case False
    then have b: "batch (described desc) s hs {} (al_proc a1)"
      using bg by simp
    obtain t where r: "release_buffers P hs (al_proc a1) = Done t" and t: "batch (described desc) s [] {} t"
      using batch_release_all [OF b] by blast
    show ?thesis
      using Suc.prems(1) g False r t bg by (auto simp: Let_def split: option.splits)
  qed
qed

lemma allocate_loop_fault:
  assumes "allocate_loop P desc n hs res a = Fault f" and "batch (described desc) s hs {} (al_proc a)"
    and c: "handle_contract P" "bo_contract P" "fd_contract P"
  shows "f = UninitRead \<and> \<not> (dev_ready (al_proc a) \<and> (\<forall>e. p_errno P e \<noteq> 0))"
  using assms(1,2)
proof (induction n arbitrary: hs res a)
  case (Suc n)
  show ?case
  proof (cases "gbmAllocateBuffer P desc a")
    case (Fault g)
    then show ?thesis
      using Suc.prems(1) gbmAllocateBuffer_fault [OF Fault c(1)] by simp
  next
    case (Done r)
    then obtain st1 out a1 where g: "gbmAllocateBuffer P desc a = Done ((st1, out), a1)"
      by (metis prod.exhaust)
    note bg = batch_gbmAllocateBuffer [OF g Suc.prems(2) c]
    show ?thesis
    proof (cases "isOk st1")
      case True
      then obtain stride p where o: "out = Some (stride, p)" and b: "batch (described desc) s (hs @ [p]) {} (al_proc a1)"
        using bg by auto
      have "allocate_loop P desc n (hs @ [p]) (res\<lparr>ar_stride := stride\<rparr>) a1 = Fault f"
        using Suc.prems(1) g True o by simp
      from Suc.IH [OF this b] show ?thesis
        using gbmAllocateBuffer_dev [OF g] by blast
    next
      case False
      then have b: "batch (described desc) s hs {} (al_proc a1)"
        using bg by simp
      then show ?thesis
        using Suc.prems(1) g False batch_release_all [OF b, of P] by (auto simp: Let_def)
    qed
  qed
qed simp

section \<open>The second loop\<close>

definition exported :: "gralloc_buffer_desc \<Rightarrow> NativeHandle \<Rightarrow> bool" where
  "exported desc nh \<longleftrightarrow> length (nh_fds nh) = 1 \<and> length (nh_ints nh) = 12 \<and>
     take 4 (drop 2 (nh_ints nh)) =
       [d_width desc, d_height desc, d_android_format desc, d_android_usage desc]"

lemma exported_handle:
  assumes "described desc h" and "length fds = 1"
  shows "exported desc \<lparr>nh_fds = fds, nh_ints = take 12 (drop 1 (handle_data h))\<rparr>"
  using assms by (simp add: exported_def described_def handle_data_def)

lemma batch_export:
  assumes b: "batch (described desc) s (p # ps) D t" and c: "fd_contract P"
  shows "\<exists>nh t'. dupToAidl P p t = Done (nh, t') \<and> exported desc nh \<and>
    distinct (filter (\<lambda>fd. \<not> is_neg fd) (nh_fds nh)) \<and> live_fds (nh_fds nh) \<inter> (open_fds s \<union> D) = {} \<and>
    batch (described desc) s (p # ps) (D \<union> live_fds (nh_fds nh)) t'"
proof -
  obtain h where h: "load_handle p t = Done h" "described desc h" "numFds h = 1" "numInts h = 12"
    using b by (auto simp: batch_def fresh_buffer_def)
  obtain fds t' where tf: "take_fds P True (take 1 (handle_data h)) t = (fds, t')"
    by fastforce
  note td = take_fds_dup [OF tf c]
  have len: "length fds = 1"
    using td by (simp add: length_handle_data)
  let ?nh = "\<lparr>nh_fds = fds, nh_ints = take 12 (drop 1 (handle_data h))\<rparr>"
  have ln: "load_native p t = Done h"
    using h(1) by (simp add: load_handle_Done load_native_Done)
  have run: "dupToAidl P p t = Done (?nh, t')"
    using h(3,4) tf ln by (simp add: dupToAidl_def toAidl_def length_handle_data)
  obtain e where t': "t' = t\<lparr>env := e, open_fds := open_fds t \<union> live_fds fds\<rparr>"
    using td by blast
  have reg: "reg_inv t'"
    using b unfolding t' by (subst reg_inv_cong [of _ t]) (simp_all add: batch_def)
  have fd: "fd_of t' = fd_of t" and fb: "fresh_buffer (described desc) s t' = fresh_buffer (described desc) s t"
    by (auto simp: t' fd_of_def fun_eq_iff intro!: fresh_buffer_cong)
  have o: "open_fds t = open_fds s \<union> D \<union> live_fds (map (fd_of t) (p # ps))"
    using b unfolding batch_def by blast
  have new: "live_fds fds \<inter> open_fds t = {}" and nn: "\<forall>fd \<in> live_fds fds. \<not> is_neg fd"
    using td by (simp_all add: live_fds_def)
  have o': "open_fds t' = open_fds s \<union> (D \<union> live_fds fds) \<union> live_fds (map (fd_of t) (p # ps))"
    using o by (auto simp: t')
  have "batch (described desc) s (p # ps) (D \<union> live_fds fds) t'"
    using b reg new o nn unfolding batch_def fd fb o'
    by (elim conjE, intro conjI) (auto simp: t' simp del: live_fds_simps list.map)
  moreover have "live_fds fds \<inter> (open_fds s \<union> D) = {}"
    using new o by blast
  ultimately show ?thesis
    using run exported_handle [OF h(2) len] td by auto
qed

definition owned :: "NativeHandle list \<Rightarrow> c_int list" where
  "owned nhs = concat (map nh_fds nhs)"

lemma owned_simps [simp]: "owned [] = []" "owned (nh # nhs) = nh_fds nh @ owned nhs"
  by (simp_all add: owned_def)

lemma export_loop_batch:
  assumes "batch (described desc) s ps D t" and "i + length ps = length bufs"
    and "\<forall>j. i \<le> j \<and> j < length bufs \<longrightarrow> nh_fds (bufs ! j) = []" and c: "fd_contract P"
  shows "\<exists>nhs t'. export_loop P i ps bufs t = Done (take i bufs @ nhs, t') \<and> length nhs = length ps \<and>
    (\<forall>nh \<in> set nhs. exported desc nh) \<and> distinct (filter (\<lambda>fd. \<not> is_neg fd) (owned nhs)) \<and>
    live_fds (owned nhs) \<inter> (open_fds s \<union> D) = {} \<and>
    batch (described desc) s [] (D \<union> live_fds (owned nhs)) t'"
  using assms(1-3)
proof (induction ps arbitrary: i bufs D t)
  case Nil
  then show ?case by simp
next
  case (Cons p ps)
  obtain nh t1 where e: "dupToAidl P p t = Done (nh, t1)" "exported desc nh"
    "distinct (filter (\<lambda>fd. \<not> is_neg fd) (nh_fds nh))" "live_fds (nh_fds nh) \<inter> (open_fds s \<union> D) = {}"
    and b1: "batch (described desc) s (p # ps) (D \<union> live_fds (nh_fds nh)) t1"
    using batch_export [OF Cons.prems(1) c] by blast
  obtain t2 where r: "release_buffer P p t1 = Done t2"
    and b2: "batch (described desc) s ps (D \<union> live_fds (nh_fds nh)) t2"
    using batch_release [OF b1] by blast
  have i: "i < length bufs" "nh_fds (bufs ! i) = []"
    using Cons.prems(2,3) by auto
  have p: "p \<noteq> 0"
    using Cons.prems(1) by (auto simp: batch_def fresh_buffer_def load_handle_Done)
  let ?bufs = "bufs[i := nh]"
  have "export_loop P i (p # ps) bufs t = export_loop P (Suc i) ps ?bufs t2"
    using p e(1) r i by (simp add: close_scoped_def)
  moreover obtain nhs t3 where ih: "export_loop P (Suc i) ps ?bufs t2 = Done (take (Suc i) ?bufs @ nhs, t3)"
    "length nhs = length ps" "\<forall>nh \<in> set nhs. exported desc nh"
    "distinct (filter (\<lambda>fd. \<not> is_neg fd) (owned nhs))"
    "live_fds (owned nhs) \<inter> (open_fds s \<union> (D \<union> live_fds (nh_fds nh))) = {}"
    "batch (described desc) s [] (D \<union> live_fds (nh_fds nh) \<union> live_fds (owned nhs)) t3"
    using Cons.IH [OF b2, of "Suc i" ?bufs] Cons.prems(2,3) by auto
  moreover have "take (Suc i) ?bufs @ nhs = take i bufs @ nh # nhs"
    using i by (simp add: take_Suc_conv_app_nth)
  moreover have "distinct (filter (\<lambda>fd. \<not> is_neg fd) (owned (nh # nhs)))"
    using e(3) ih(4,5) by (auto simp: live_fds_def)
  ultimately show ?case
    using e(2,4) by (intro exI [of _ "nh # nhs"] exI [of _ t3]) (auto simp: Un_assoc)
qed

section \<open>Properties\<close>

lemma doAllocate_export:
  assumes l: "allocate_loop P desc (unat cnt) [] res0 a = Done ((StatusOk, hs, res), a1)"
    and i: "isInitialized a" "\<not> (is_neg cnt \<or> lim < unat cnt)" and b: "batch (described desc) s hs {} (al_proc a1)"
    and len: "length hs = unat cnt" and r: "ar_buffers res = []" and c: "fd_contract P"
  shows "\<exists>nhs t. doAllocate P lim desc cnt res0 a
      = Done ((StatusOk, res\<lparr>ar_buffers := nhs\<rparr>), a1\<lparr>al_proc := t\<rparr>) \<and> length nhs = unat cnt \<and>
    (\<forall>nh \<in> set nhs. exported desc nh) \<and> distinct (filter (\<lambda>fd. \<not> is_neg fd) (owned nhs)) \<and>
    live_fds (owned nhs) \<inter> open_fds s = {} \<and> batch (described desc) s [] (live_fds (owned nhs)) t"
proof -
  have rs: "resize_buffers (unat cnt) (ar_buffers res) (al_proc a1)
      = (replicate (unat cnt) \<lparr>nh_fds = [], nh_ints = []\<rparr>, al_proc a1)"
    by (simp add: resize_buffers_def close_scoped_def r)
  let ?e = "replicate (unat cnt) \<lparr>nh_fds = [], nh_ints = []\<rparr>"
  obtain nhs t where e: "export_loop P 0 hs ?e (al_proc a1) = Done (take 0 ?e @ nhs, t)"
    "length nhs = length hs" "\<forall>nh \<in> set nhs. exported desc nh"
    "distinct (filter (\<lambda>fd. \<not> is_neg fd) (owned nhs))" "live_fds (owned nhs) \<inter> (open_fds s \<union> {}) = {}"
    "batch (described desc) s [] ({} \<union> live_fds (owned nhs)) t"
    using export_loop_batch [OF b, of 0 ?e P] len c by auto
  have "doAllocate P lim desc cnt res0 a = Done ((StatusOk, res\<lparr>ar_buffers := nhs\<rparr>), a1\<lparr>al_proc := t\<rparr>)"
    using l i rs e(1) by (simp add: doAllocate_def isOk_def)
  then show ?thesis
    using e len by auto
qed

lemma doAllocate_exported:
  assumes run: "doAllocate P lim desc cnt res0 a = Done ((StatusOk, res), a')"
    and c: "handle_contract P" "bo_contract P" "fd_contract P" and inv: "reg_inv (al_proc a)"
    and pos: "\<forall>fd \<in> open_fds (al_proc a). \<not> is_neg fd" and r0: "ar_buffers res0 = []"
  shows "length (ar_buffers res) = unat cnt \<and> (\<forall>nh \<in> set (ar_buffers res). exported desc nh)"
proof -
  have i: "isInitialized a" "\<not> (is_neg cnt \<or> lim < unat cnt)"
    using run by (auto simp: doAllocate_def ToBinderStatus_def split: if_splits)
  obtain st hs r1 a1 where l: "allocate_loop P desc (unat cnt) [] res0 a = Done ((st, hs, r1), a1)"
    using run i by (auto simp: doAllocate_def andThen_eq_Done)
  then have st: "st = StatusOk"
    using run i by (auto simp: doAllocate_def isOk_def split: if_splits)
  note lb = allocate_loop_batch [OF l batch_start [OF inv pos] c]
  have b: "batch (described desc) (al_proc a) hs {} (al_proc a1)" and len: "length hs = unat cnt"
    and r: "ar_buffers r1 = []"
    using lb st r0 by (simp_all add: isOk_def)
  show ?thesis
    using doAllocate_export [OF l [unfolded st] i b len r c(3)] run by auto
qed

text \<open>The service after a successful allocation: only the descriptors of the result are new.\<close>

lemma doAllocate_frame:
  assumes run: "doAllocate P lim desc cnt res0 a = Done ((StatusOk, res), a')"
    and c: "handle_contract P" "bo_contract P" "fd_contract P" and inv: "reg_inv (al_proc a)"
    and pos: "\<forall>fd \<in> open_fds (al_proc a). \<not> is_neg fd" and r0: "ar_buffers res0 = []"
  shows "handles (al_proc a') = handles (al_proc a) \<and> bos (al_proc a') = bos (al_proc a) \<and>
    gbm_bo_handle_map (al_proc a') = gbm_bo_handle_map (al_proc a) \<and>
    open_fds (al_proc a') = open_fds (al_proc a) \<union> live_fds (owned (ar_buffers res)) \<and> gbmDevFd a' = gbmDevFd a"
proof -
  have i: "isInitialized a" "\<not> (is_neg cnt \<or> lim < unat cnt)"
    using run by (auto simp: doAllocate_def ToBinderStatus_def split: if_splits)
  obtain st hs r1 a1 where l: "allocate_loop P desc (unat cnt) [] res0 a = Done ((st, hs, r1), a1)"
    using run i by (auto simp: doAllocate_def andThen_eq_Done)
  then have st: "st = StatusOk"
    using run i by (auto simp: doAllocate_def isOk_def split: if_splits)
  note lb = allocate_loop_batch [OF l batch_start [OF inv pos, of "described desc"] c]
  have b: "batch (described desc) (al_proc a) hs {} (al_proc a1)" and len: "length hs = unat cnt"
    and r: "ar_buffers r1 = []"
    using lb st r0 by (simp_all add: isOk_def)
  show ?thesis
    using doAllocate_export [OF l [unfolded st] i b len r c(3)] run batch_end [OF _ inv] lb by fastforce
qed

text \<open>C11: Allocating several buffers is atomic.  Whatever happens, the registry, the buffer objects
  and the native handles of the service are afterwards what they were before, and on an error so are
  its descriptors: the buffers allocated before the failing one are all released.  On success the
  result has exactly the buffers asked for, each with one descriptor and the twelve words of a
  handle that describes the request; the descriptors of the result are new, differ from each other,
  and are the only ones added.  Beside that, a negative or too large count throws, and an allocation
  that reports success without a handle reads an uninitialised pointer, which cannot happen while
  the device is there and errno is set on failure.\<close>

theorem doAllocate_atomic:
  assumes c: "handle_contract P" "bo_contract P" "fd_contract P" and inv: "reg_inv (al_proc a)"
    and pos: "\<forall>fd \<in> open_fds (al_proc a). \<not> is_neg fd" and r0: "ar_buffers res0 = []"
  shows "case doAllocate P lim desc cnt res0 a of
      Fault f \<Rightarrow> (f = UncaughtException \<and> (is_neg cnt \<or> lim < unat cnt)) \<or>
        (f = UninitRead \<and> \<not> (dev_ready (al_proc a) \<and> (\<forall>e. p_errno P e \<noteq> 0)))
    | Done ((st, res), a') \<Rightarrow>
        gbmDevFd a' = gbmDevFd a \<and> handles (al_proc a') = handles (al_proc a) \<and>
        bos (al_proc a') = bos (al_proc a) \<and>
        gbm_bo_handle_map (al_proc a') = gbm_bo_handle_map (al_proc a) \<and>
        (if isOk st
         then length (ar_buffers res) = unat cnt \<and> (\<forall>nh \<in> set (ar_buffers res). exported desc nh) \<and>
           distinct (filter (\<lambda>fd. \<not> is_neg fd) (owned (ar_buffers res))) \<and>
           live_fds (owned (ar_buffers res)) \<inter> open_fds (al_proc a) = {} \<and>
           open_fds (al_proc a') = open_fds (al_proc a) \<union> live_fds (owned (ar_buffers res))
         else ar_buffers res = [] \<and> open_fds (al_proc a') = open_fds (al_proc a))"
proof (cases "\<not> isInitialized a \<or> is_neg cnt \<or> lim < unat cnt")
  case True
  then show ?thesis
    using r0 by (auto simp: doAllocate_def isOk_def ToBinderStatus_def)
next
  case False
  note b0 = batch_start [OF inv pos, of "described desc"]
  show ?thesis
  proof (cases "allocate_loop P desc (unat cnt) [] res0 a")
    case (Fault f)
    then show ?thesis
      using allocate_loop_fault [OF Fault b0 c] False by (simp add: doAllocate_def)
  next
    case (Done x)
    then obtain st hs res a1 where l: "allocate_loop P desc (unat cnt) [] res0 a = Done ((st, hs, res), a1)"
      by (metis prod.exhaust)
    note lb = allocate_loop_batch [OF l b0 c]
    show ?thesis
    proof (cases "isOk st")
      case True
      then have st: "st = StatusOk" and b1: "batch (described desc) (al_proc a) hs {} (al_proc a1)"
        and len: "length hs = unat cnt" and r: "ar_buffers res = []"
        using lb r0 by (simp_all add: isOk_def)
      obtain nhs t where d: "doAllocate P lim desc cnt res0 a
          = Done ((StatusOk, res\<lparr>ar_buffers := nhs\<rparr>), a1\<lparr>al_proc := t\<rparr>)" "length nhs = unat cnt"
        "\<forall>nh \<in> set nhs. exported desc nh" "distinct (filter (\<lambda>fd. \<not> is_neg fd) (owned nhs))"
        "live_fds (owned nhs) \<inter> open_fds (al_proc a) = {}"
        and bt: "batch (described desc) (al_proc a) [] (live_fds (owned nhs)) t"
        using doAllocate_export [OF l [unfolded st] _ _ b1 len r c(3), of lim] False by auto
      show ?thesis
        using batch_end [OF bt inv] d lb by (simp add: isOk_def)
    next
      case ok: False
      then have bt: "batch (described desc) (al_proc a) [] {} (al_proc a1)"
        using lb by simp
      have "doAllocate P lim desc cnt res0 a = Done ((st, res), a1)"
        using l ok False by (simp add: doAllocate_def)
      then show ?thesis
        using batch_end [OF bt inv] ok lb r0 by simp
    qed
  qed
qed

definition sample_desc :: gralloc_buffer_desc where
  "sample_desc = \<lparr>d_width = 64, d_height = 4, d_android_format = 1, d_android_usage = 3,
     d_android_reserved_size = 0, d_gbm_format = 0, d_flags = 0, d_layer_count = 1\<rparr>"

lemma sample_allocator_ok:
  "reg_inv (al_proc sample_allocator)" "\<forall>fd \<in> open_fds (al_proc sample_allocator). \<not> is_neg fd"
  by (simp_all add: sample_allocator_def sample_ready_def reg_inv_def init_proc_def is_neg_def)

lemma sample_one_buffer:
  "\<exists>res a. allocate_loop sample_env sample_desc (unat (1 :: c_int)) [] \<lparr>ar_stride = 0, ar_buffers = []\<rparr>
     sample_allocator = Done ((StatusOk, [0x1000], res), a)"
proof -
  have sup: "gralloc_is_desc_support sample_desc"
    by (simp add: gralloc_is_desc_support_def sample_desc_def)
  obtain r s' where g: "gralloc_allocate sample_env sample_desc sample_ready = Done ((r, Some (256, 0x1000)), s')"
    using sample_allocate unfolding sample_desc_def by blast
  then have "r = 0"
    using gralloc_allocate_cases [OF g] by simp
  then show ?thesis
    using g sup by (simp add: gbmAllocateBuffer_def isInitialized_def sample_allocator_def is_pos_def isOk_def)
qed

lemma sample_doAllocate:
  "\<exists>res a. doAllocate sample_env 1000 sample_desc 1 \<lparr>ar_stride = 0, ar_buffers = []\<rparr> sample_allocator
     = Done ((StatusOk, res), a)"
proof -
  let ?r = "\<lparr>ar_stride = 0, ar_buffers = []\<rparr> :: AllocationResult"
  obtain res a where l: "allocate_loop sample_env sample_desc (unat (1 :: c_int)) [] ?r sample_allocator
      = Done ((StatusOk, [0x1000], res), a)"
    using sample_one_buffer by blast
  note lb = allocate_loop_batch [OF l batch_start [OF sample_allocator_ok] sample_handle_contract
      sample_bo_contract sample_fd_contract]
  have b: "batch (described sample_desc) (al_proc sample_allocator) [0x1000] {} (al_proc a)"
    and r: "ar_buffers res = []"
    using lb by (simp_all add: isOk_def)
  have i: "\<not> (is_neg (1 :: c_int) \<or> 1000 < unat (1 :: c_int))"
    by (simp add: is_neg_def)
  show ?thesis
    using doAllocate_export [OF l sample_allocator_init i b _ r sample_fd_contract] by auto
qed

theorem doAllocate_atomic_witness:
  "\<exists>nh res a. doAllocate sample_env 1000 sample_desc 1 \<lparr>ar_stride = 0, ar_buffers = []\<rparr> sample_allocator
       = Done ((StatusOk, res), a) \<and> ar_buffers res = [nh] \<and> exported sample_desc nh \<and>
     open_fds (al_proc a) = {10} \<union> live_fds (nh_fds nh)"
proof -
  let ?r = "\<lparr>ar_stride = 0, ar_buffers = []\<rparr> :: AllocationResult"
  obtain res a where d: "doAllocate sample_env 1000 sample_desc 1 ?r sample_allocator = Done ((StatusOk, res), a)"
    using sample_doAllocate by blast
  then show ?thesis
    using doAllocate_atomic [OF sample_handle_contract sample_bo_contract sample_fd_contract
        sample_allocator_ok, where ?res0.0 = ?r and lim = 1000 and desc = sample_desc and cnt = 1]
    by (auto simp: isOk_def length_Suc_conv sample_allocator_def)
qed

end
