(* ===== verification/Aidl_Parcel.thy ===== *)
theory Aidl_Parcel
  imports Aidl_Allocator
begin

text \<open>
  The parcelables of the AIDL interface: src/src/aidl/NativeHandle.cpp, ExtendableType.cpp,
  BufferDescriptorInfo.cpp and AllocationResult.cpp.  The parcel itself belongs to libbinder; what
  it promises is stated over a view of it as a sequence of cells and a position.
\<close>

section \<open>The parcel\<close>

text \<open>
  A reader stores through a pointer, so it gets the old value of the field.  \<open>AParcel_readData\<close> and
  \<open>AParcel_writeData\<close> of a vector of parcelables call back the methods of the element.
\<close>

type_synonym ('p, 'v) reader = "'v \<Rightarrow> 'p \<Rightarrow> (binder_status_t \<times> 'v) \<times> 'p"
type_synonym ('p, 'v) writer = "'v \<Rightarrow> 'p \<Rightarrow> binder_status_t \<times> 'p"

record 'p parcel_ops =
  AParcel_getDataPosition :: "'p \<Rightarrow> c_int"
  AParcel_setDataPosition :: "c_int \<Rightarrow> 'p \<Rightarrow> 'p"
  rd_int32 :: "('p, c_int) reader"
  wr_int32 :: "('p, c_int) writer"
  rd_int64 :: "('p, u64) reader"
  wr_int64 :: "('p, u64) writer"
  rd_string :: "('p, bytes) reader"
  wr_string :: "('p, bytes) writer"
  rd_fds :: "('p, c_int list) reader"
  wr_fds :: "('p, c_int list) writer"
  rd_ints :: "('p, c_int list) reader"
  wr_ints :: "('p, c_int list) writer"
  rd_handles :: "('p, NativeHandle) reader \<Rightarrow> ('p, NativeHandle list) reader"
  wr_handles :: "('p, NativeHandle) writer \<Rightarrow> ('p, NativeHandle list) writer"
  rd_options :: "('p, ExtendableType) reader \<Rightarrow> ('p, ExtendableType list) reader"
  wr_options :: "('p, ExtendableType) writer \<Rightarrow> ('p, ExtendableType list) writer"

section \<open>Reading and writing the fields of a struct\<close>

type_synonym ('p, 's) field = "('p, 's) reader \<times> ('p, 's) writer"

definition field :: "('s \<Rightarrow> 'v) \<Rightarrow> (('v \<Rightarrow> 'v) \<Rightarrow> 's \<Rightarrow> 's) \<Rightarrow> ('p, 'v) reader \<Rightarrow> ('p, 'v) writer
      \<Rightarrow> ('p, 's) field" where
  "field get upd rd wr =
     (\<lambda>s p. case rd (get s) p of ((st, v), p) \<Rightarrow> ((st, upd (\<lambda>_. v) s), p), \<lambda>s p. wr (get s) p)"

text \<open>
  The generated readers repeat, before each field, the test whether the sender's struct ends here;
  if so they skip to its end and keep the old values of the remaining fields.
\<close>

primrec read_fields ::
    "'p parcel_ops \<Rightarrow> c_int \<Rightarrow> c_int \<Rightarrow> ('p, 's) field list \<Rightarrow> ('p, 's) reader" where
  "read_fields K start sz [] s p =
     ((STATUS_OK, s), AParcel_setDataPosition K (start + sz) p)"
| "read_fields K start sz (f # fs) s p =
     (if sz \<le>s AParcel_getDataPosition K p - start
      then ((STATUS_OK, s), AParcel_setDataPosition K (start + sz) p)
      else case fst f s p of ((st, s), p) \<Rightarrow>
             if st \<noteq> STATUS_OK then ((st, s), p) else read_fields K start sz fs s p)"

definition read_parcelable :: "'p parcel_ops \<Rightarrow> ('p, 's) field list \<Rightarrow> ('p, 's) reader" where
  "read_parcelable K fs s p =
    (let start_pos = AParcel_getDataPosition K p in
     case rd_int32 K 0 p of ((st, sz), p) \<Rightarrow>
       if st \<noteq> STATUS_OK then ((st, s), p)
       else if sz <s 4 then ((STATUS_BAD_VALUE, s), p)
       else if sint start_pos > (2 ^ 31 - 1) - sint sz then ((STATUS_BAD_VALUE, s), p)
       else read_fields K start_pos sz fs s p)"

primrec write_fields :: "('p, 's) field list \<Rightarrow> ('p, 's) writer" where
  "write_fields [] s p = (STATUS_OK, p)"
| "write_fields (f # fs) s p =
     (case snd f s p of (st, p) \<Rightarrow> if st \<noteq> STATUS_OK then (st, p) else write_fields fs s p)"

definition write_parcelable :: "'p parcel_ops \<Rightarrow> ('p, 's) field list \<Rightarrow> ('p, 's) writer" where
  "write_parcelable K fs s p =
    (let start_pos = AParcel_getDataPosition K p in
     case wr_int32 K 0 p of (st, p) \<Rightarrow>
       if st \<noteq> STATUS_OK then (st, p)
       else case write_fields fs s p of (st, p) \<Rightarrow>
         if st \<noteq> STATUS_OK then (st, p)
         else
           let end_pos = AParcel_getDataPosition K p;
               p = AParcel_setDataPosition K start_pos p;
               (_, p) = wr_int32 K (end_pos - start_pos) p
           in (st, AParcel_setDataPosition K end_pos p))"

section \<open>The four parcelables\<close>

definition NativeHandle_fields :: "'p parcel_ops \<Rightarrow> ('p, NativeHandle) field list" where
  "NativeHandle_fields K =
    [field nh_fds nh_fds_update (rd_fds K) (wr_fds K), field nh_ints nh_ints_update (rd_ints K) (wr_ints K)]"

definition NativeHandle_readFromParcel :: "'p parcel_ops \<Rightarrow> ('p, NativeHandle) reader" where
  "NativeHandle_readFromParcel K = read_parcelable K (NativeHandle_fields K)"

definition NativeHandle_writeToParcel :: "'p parcel_ops \<Rightarrow> ('p, NativeHandle) writer" where
  "NativeHandle_writeToParcel K = write_parcelable K (NativeHandle_fields K)"

definition ExtendableType_fields :: "'p parcel_ops \<Rightarrow> ('p, ExtendableType) field list" where
  "ExtendableType_fields K =
    [field ext_name ext_name_update (rd_string K) (wr_string K),
     field ext_value ext_value_update (rd_int64 K) (wr_int64 K)]"

definition ExtendableType_readFromParcel :: "'p parcel_ops \<Rightarrow> ('p, ExtendableType) reader" where
  "ExtendableType_readFromParcel K = read_parcelable K (ExtendableType_fields K)"

definition ExtendableType_writeToParcel :: "'p parcel_ops \<Rightarrow> ('p, ExtendableType) writer" where
  "ExtendableType_writeToParcel K = write_parcelable K (ExtendableType_fields K)"

definition BufferDescriptorInfo_fields :: "'p parcel_ops \<Rightarrow> ('p, BufferDescriptorInfo) field list" where
  "BufferDescriptorInfo_fields K =
    [field bdi_name bdi_name_update (rd_string K) (wr_string K),
     field bdi_width bdi_width_update (rd_int32 K) (wr_int32 K),
     field bdi_height bdi_height_update (rd_int32 K) (wr_int32 K),
     field bdi_layerCount bdi_layerCount_update (rd_int32 K) (wr_int32 K),
     field bdi_format bdi_format_update (rd_int32 K) (wr_int32 K),
     field bdi_usage bdi_usage_update (rd_int64 K) (wr_int64 K),
     field bdi_reservedSize bdi_reservedSize_update (rd_int64 K) (wr_int64 K),
     field additionalOptions additionalOptions_update
       (rd_options K (ExtendableType_readFromParcel K)) (wr_options K (ExtendableType_writeToParcel K))]"

definition BufferDescriptorInfo_readFromParcel ::
    "'p parcel_ops \<Rightarrow> ('p, BufferDescriptorInfo) reader" where
  "BufferDescriptorInfo_readFromParcel K = read_parcelable K (BufferDescriptorInfo_fields K)"

definition BufferDescriptorInfo_writeToParcel ::
    "'p parcel_ops \<Rightarrow> ('p, BufferDescriptorInfo) writer" where
  "BufferDescriptorInfo_writeToParcel K = write_parcelable K (BufferDescriptorInfo_fields K)"

definition AllocationResult_fields :: "'p parcel_ops \<Rightarrow> ('p, AllocationResult) field list" where
  "AllocationResult_fields K =
    [field ar_stride ar_stride_update (rd_int32 K) (wr_int32 K),
     field ar_buffers ar_buffers_update
       (rd_handles K (NativeHandle_readFromParcel K)) (wr_handles K (NativeHandle_writeToParcel K))]"

definition AllocationResult_readFromParcel :: "'p parcel_ops \<Rightarrow> ('p, AllocationResult) reader" where
  "AllocationResult_readFromParcel K = read_parcelable K (AllocationResult_fields K)"

definition AllocationResult_writeToParcel :: "'p parcel_ops \<Rightarrow> ('p, AllocationResult) writer" where
  "AllocationResult_writeToParcel K = write_parcelable K (AllocationResult_fields K)"

section \<open>What the parcel promises\<close>

text \<open>
  A view of a parcel is its data and the position in it.  A write at a position inside the data
  replaces what is there and extends the data as needed; data written can be read back in place.
  \<open>R v old v'\<close> relates the value written, the old value of the field, and the value read.
\<close>

type_synonym ('p, 'b) view = "'p \<Rightarrow> 'b list \<times> nat"

definition overwrite :: "'b list \<Rightarrow> nat \<Rightarrow> 'b list \<Rightarrow> 'b list" where
  "overwrite c i bs = take i c @ bs @ drop (i + length bs) c"

definition slice_at :: "'b list \<Rightarrow> nat \<Rightarrow> 'b list \<Rightarrow> bool" where
  "slice_at c i bs \<longleftrightarrow> i + length bs \<le> length c \<and> take (length bs) (drop i c) = bs"

definition codec :: "('p, 'b) view \<Rightarrow> ('v \<Rightarrow> 'b list \<Rightarrow> bool) \<Rightarrow> ('v \<Rightarrow> 'v \<Rightarrow> 'v \<Rightarrow> bool)
      \<Rightarrow> ('p, 'v) reader \<Rightarrow> ('p, 'v) writer \<Rightarrow> bool" where
  "codec V e R rd wr \<longleftrightarrow>
     (\<forall>v bs. e v bs \<longrightarrow> bs \<noteq> []) \<and>
     (\<forall>v p p' c i. V p = (c, i) \<longrightarrow> i \<le> length c \<longrightarrow> wr v p = (STATUS_OK, p') \<longrightarrow>
        (\<exists>bs. e v bs \<and> V p' = (overwrite c i bs, i + length bs))) \<and>
     (\<forall>v bs q c i old. V q = (c, i) \<longrightarrow> e v bs \<longrightarrow> slice_at c i bs \<longrightarrow>
        (\<exists>v' q'. rd old q = ((STATUS_OK, v'), q') \<and> R v old v' \<and> V q' = (c, i + length bs)))"

definition whole :: "('v \<Rightarrow> 'v \<Rightarrow> bool) \<Rightarrow> 'v \<Rightarrow> 'v \<Rightarrow> 'v \<Rightarrow> bool" where
  "whole r v old v' \<longleftrightarrow> r v v'"

record 'b encodings =
  e_int32 :: "c_int \<Rightarrow> 'b list"
  e_int64 :: "u64 \<Rightarrow> 'b list \<Rightarrow> bool"
  e_string :: "bytes \<Rightarrow> 'b list \<Rightarrow> bool"
  e_fds :: "c_int list \<Rightarrow> 'b list \<Rightarrow> bool"
  e_ints :: "c_int list \<Rightarrow> 'b list \<Rightarrow> bool"
  e_handles :: "(NativeHandle \<Rightarrow> 'b list \<Rightarrow> bool) \<Rightarrow> NativeHandle list \<Rightarrow> 'b list \<Rightarrow> bool"
  e_options :: "(ExtendableType \<Rightarrow> 'b list \<Rightarrow> bool) \<Rightarrow> ExtendableType list \<Rightarrow> 'b list \<Rightarrow> bool"

definition position_contract :: "'p parcel_ops \<Rightarrow> ('p, 'b) view \<Rightarrow> bool" where
  "position_contract K V \<longleftrightarrow>
     (\<forall>p. AParcel_getDataPosition K p = of_nat (snd (V p)) \<and> snd (V p) < 2 ^ 31 \<and>
        length (fst (V p)) < 2 ^ 31) \<and>
     (\<forall>p i. \<not> is_neg i \<longrightarrow> V (AParcel_setDataPosition K i p) = (fst (V p), unat i))"

definition int32_contract :: "'p parcel_ops \<Rightarrow> ('p, 'b) view \<Rightarrow> (c_int \<Rightarrow> 'b list) \<Rightarrow> bool" where
  "int32_contract K V e \<longleftrightarrow>
     (\<forall>n. length (e n) = 4) \<and> codec V (\<lambda>n bs. bs = e n) (whole (=)) (rd_int32 K) (wr_int32 K) \<and>
     (\<forall>n p c i. V p = (c, i) \<longrightarrow> i + 4 \<le> length c \<longrightarrow> fst (wr_int32 K n p) = STATUS_OK)"

text \<open>A descriptor that crosses a parcel comes out as a new one.\<close>

definition parcel_contract :: "'p parcel_ops \<Rightarrow> ('p, 'b) view \<Rightarrow> 'b encodings \<Rightarrow> bool" where
  "parcel_contract K V E \<longleftrightarrow>
     position_contract K V \<and> int32_contract K V (e_int32 E) \<and>
     codec V (e_int64 E) (whole (=)) (rd_int64 K) (wr_int64 K) \<and>
     codec V (e_string E) (whole (=)) (rd_string K) (wr_string K) \<and>
     codec V (e_fds E) (whole (\<lambda>v v'. length v' = length v)) (rd_fds K) (wr_fds K) \<and>
     codec V (e_ints E) (whole (=)) (rd_ints K) (wr_ints K) \<and>
     (\<forall>e r rd wr. codec V e (whole r) rd wr \<longrightarrow>
        codec V (e_handles E e) (whole (list_all2 r)) (rd_handles K rd) (wr_handles K wr)) \<and>
     (\<forall>e r rd wr. codec V e (whole r) rd wr \<longrightarrow>
        codec V (e_options E e) (whole (list_all2 r)) (rd_options K rd) (wr_options K wr))"

section \<open>Codecs compose\<close>

lemma overwrite_twice:
  assumes "i \<le> length c"
  shows "overwrite (overwrite c i a) (i + length a) b = overwrite c i (a @ b)"
proof -
  have "length b + (i + length a) = i + (length a + length b)"
    by simp
  then have "drop (length b + (i + length a)) c = drop (i + (length a + length b)) c"
    by (rule arg_cong)
  then show ?thesis
    using assms by (simp add: overwrite_def)
qed

lemma overwrite_again:
  assumes "i \<le> length c" and "length a' = length a"
  shows "overwrite (overwrite c i (a @ b)) i a' = overwrite c i (a' @ b)"
  using assms by (simp add: overwrite_def)

lemma slice_at_overwrite: "i \<le> length c \<Longrightarrow> slice_at (overwrite c i bs) i bs"
  by (simp add: overwrite_def slice_at_def)

lemma length_overwrite: "i \<le> length c \<Longrightarrow> i + length bs \<le> length (overwrite c i bs)"
  by (simp add: overwrite_def)

lemma slice_at_append:
  assumes "slice_at c i (a @ b)"
  shows "slice_at c i a" and "slice_at c (i + length a) b"
proof -
  have t: "take (length a + length b) (drop i c) = a @ b" and l: "i + (length a + length b) \<le> length c"
    using assms by (simp_all add: slice_at_def)
  have "take (length a) (drop i c) = take (length a) (take (length a + length b) (drop i c))"
    by simp
  then show "slice_at c i a"
    using l by (simp add: slice_at_def t)
  have "take (length b) (drop (i + length a) c)
      = drop (length a) (take (length a + length b) (drop i c))"
    by (simp add: drop_take add.commute)
  then show "slice_at c (i + length a) b"
    using l by (simp add: slice_at_def t)
qed

lemma codec_write:
  assumes "codec V e R rd wr" and "wr v p = (STATUS_OK, p')" and "V p = (c, i)" and "i \<le> length c"
  shows "\<exists>bs. e v bs \<and> bs \<noteq> [] \<and> V p' = (overwrite c i bs, i + length bs)"
  using assms unfolding codec_def by blast

lemma codec_read:
  assumes "codec V e R rd wr" and "V q = (c, i)" and "e v bs" and "slice_at c i bs"
  shows "\<exists>v' q'. rd old q = ((STATUS_OK, v'), q') \<and> R v old v' \<and> V q' = (c, i + length bs)"
  using assms unfolding codec_def by blast

lemma codec_mono:
  assumes "codec V e R rd wr" and "\<And>v old v'. R v old v' \<Longrightarrow> R' v old v'"
  shows "codec V e R' rd wr"
  using assms unfolding codec_def by meson

text \<open>A struct from its fields.\<close>

definition sets :: "('s \<Rightarrow> 'v) \<Rightarrow> (('v \<Rightarrow> 'v) \<Rightarrow> 's \<Rightarrow> 's) \<Rightarrow> ('v \<Rightarrow> 'v \<Rightarrow> bool) \<Rightarrow> 's \<Rightarrow> 's \<Rightarrow> 's \<Rightarrow> bool" where
  "sets get upd r w old new \<longleftrightarrow> (\<exists>v. r (get w) v \<and> new = upd (\<lambda>_. v) old)"

lemma codec_field:
  assumes "codec V e (whole r) rd wr"
  shows "codec V (e \<circ> get) (sets get upd r)
    (fst (field get upd rd wr)) (snd (field get upd rd wr))"
  unfolding codec_def
proof (intro conjI allI impI)
  fix w bs assume "(e \<circ> get) w bs"
  then show "bs \<noteq> []"
    using assms unfolding codec_def comp_apply by blast
next
  fix w p p' c i assume "V p = (c, i)" "i \<le> length c" "snd (field get upd rd wr) w p = (STATUS_OK, p')"
  then show "\<exists>bs. (e \<circ> get) w bs \<and> V p' = (overwrite c i bs, i + length bs)"
    using codec_write [OF assms, of "get w" p p' c i] by (auto simp: field_def)
next
  fix w bs q c i old assume "V q = (c, i)" "(e \<circ> get) w bs" "slice_at c i bs"
  from codec_read [OF assms this(1) this(2) [unfolded comp_apply] this(3), of "get old"] show "\<exists>v' q'. fst (field get upd rd wr) old q
      = ((STATUS_OK, v'), q') \<and> sets get upd r w old v' \<and> V q' = (c, i + length bs)"
    by (auto simp: field_def sets_def whole_def)
qed

primrec in_turn :: "('s \<Rightarrow> 's \<Rightarrow> 's \<Rightarrow> bool) list \<Rightarrow> 's \<Rightarrow> 's \<Rightarrow> 's \<Rightarrow> bool" where
  "in_turn [] w s s' \<longleftrightarrow> s' = s"
| "in_turn (R # Rs) w s s' \<longleftrightarrow> (\<exists>t. R w s t \<and> in_turn Rs w t s')"

definition fields_ok :: "('p, 'b) view \<Rightarrow> (('s \<Rightarrow> 'b list \<Rightarrow> bool) \<times> ('s \<Rightarrow> 's \<Rightarrow> 's \<Rightarrow> bool)) list
      \<Rightarrow> ('p, 's) field list \<Rightarrow> bool" where
  "fields_ok V eRs fs \<longleftrightarrow> list_all2 (\<lambda>(e, R) (rd, wr). codec V e R rd wr) eRs fs"

lemma fields_ok_simps [simp]:
  "fields_ok V [] []"
  "fields_ok V ((e, R) # eRs) (f # fs) \<longleftrightarrow> codec V e R (fst f) (snd f) \<and> fields_ok V eRs fs"
  by (simp_all add: fields_ok_def case_prod_beta)

primrec enc_fields :: "('s \<Rightarrow> 'b list \<Rightarrow> bool) list \<Rightarrow> 's \<Rightarrow> 'b list \<Rightarrow> bool" where
  "enc_fields [] s bs \<longleftrightarrow> bs = []"
| "enc_fields (e # es) s bs \<longleftrightarrow> (\<exists>a b. bs = a @ b \<and> a \<noteq> [] \<and> e s a \<and> enc_fields es s b)"

lemma write_fields_view:
  assumes "fields_ok V eRs fs" and "write_fields fs s p = (STATUS_OK, p')" and "V p = (c, i)" and "i \<le> length c"
  shows "\<exists>bs. enc_fields (map fst eRs) s bs \<and> V p' = (overwrite c i bs, i + length bs)"
  using assms
proof (induction fs arbitrary: eRs p c i)
  case Nil
  then show ?case
    by (simp add: fields_ok_def overwrite_def)
next
  case (Cons f fs)
  obtain e R eRs' where eRs: "eRs = (e, R) # eRs'"
    using Cons.prems(1) by (cases eRs) (auto simp: fields_ok_def)
  then have ok: "codec V e R (fst f) (snd f)" "fields_ok V eRs' fs"
    using Cons.prems(1) by simp_all
  obtain p1 where w: "snd f s p = (STATUS_OK, p1)" and rest: "write_fields fs s p1 = (STATUS_OK, p')"
    using Cons.prems(2) by (auto split: prod.splits if_splits)
  obtain a where a: "e s a" "a \<noteq> []" "V p1 = (overwrite c i a, i + length a)"
    using codec_write [OF ok(1) w Cons.prems(3,4)] by blast
  obtain b where b: "enc_fields (map fst eRs') s b"
    "V p' = (overwrite (overwrite c i a) (i + length a) b, i + length a + length b)"
    using Cons.IH [OF ok(2) rest a(3) length_overwrite [OF Cons.prems(4)]] by blast
  show ?case
    using a b overwrite_twice [OF Cons.prems(4), of a b]
    by (intro exI [of _ "a @ b"]) (auto simp: eRs add.assoc)
qed

lemma sint_of_nat_31: "m < 2 ^ 31 \<Longrightarrow> sint (of_nat m :: c_int) = int m"
  by (simp add: signed_of_nat signed_take_bit_int_eq_self)

lemma of_nat_31:
  assumes "m < 2 ^ 31"
  shows "\<not> is_neg (of_nat m :: c_int)" and "unat (of_nat m :: c_int) = m"
proof -
  show "\<not> is_neg (of_nat m :: c_int)"
    using sint_of_nat_31 [OF assms] by (simp add: is_neg_def word_sless_alt)
  show "unat (of_nat m :: c_int) = m"
    using assms by (simp add: unat_of_nat)
qed

lemma set_position:
  assumes "position_contract K V" and "m < 2 ^ 31"
  shows "V (AParcel_setDataPosition K (of_nat m) p) = (fst (V p), m)"
  using assms of_nat_31 [OF assms(2)] unfolding position_contract_def by metis

lemma get_position:
  assumes "position_contract K V" and "V p = (c, i)"
  shows "AParcel_getDataPosition K p = of_nat i" and "i < 2 ^ 31" and "length c < 2 ^ 31"
  using assms unfolding position_contract_def by (metis fst_conv snd_conv)+

lemma read_fields_view:
  assumes c: "position_contract K V"
    and ok: "fields_ok V eRs fs" and enc: "enc_fields (map fst eRs) w bs" and "V q = (c, i + k)"
    and "slice_at c (i + k) bs" and "tot = k + length bs" and "i + tot < 2 ^ 31"
  shows "\<exists>s' q'. read_fields K (of_nat i) (of_nat tot) fs s q = ((STATUS_OK, s'), q') \<and>
    in_turn (map snd eRs) w s s' \<and> V q' = (c, i + tot)"
  using assms(2-)
proof (induction fs arbitrary: eRs bs k s q)
  case Nil
  then show ?case
    using set_position [OF c, of "i + tot" q] by (simp add: fields_ok_def)
next
  case (Cons f fs)
  obtain e R eRs' where eRs: "eRs = (e, R) # eRs'"
    using Cons.prems(1) by (cases eRs) (auto simp: fields_ok_def)
  then have ok: "codec V e R (fst f) (snd f)" "fields_ok V eRs' fs"
    using Cons.prems(1) by simp_all
  obtain a b where ab: "bs = a @ b" "a \<noteq> []" "e w a" "enc_fields (map fst eRs') w b"
    using Cons.prems(2) by (auto simp: eRs)
  note sl = slice_at_append [OF Cons.prems(4) [unfolded ab(1)]]
  obtain s1 q1 where r: "fst f s q = ((STATUS_OK, s1), q1)" "R w s s1" "V q1 = (c, i + k + length a)"
    using codec_read [OF ok(1) Cons.prems(3) ab(3) sl(1)] by blast
  have k: "k < tot" "tot < 2 ^ 31"
    using Cons.prems(5,6) ab(1,2) by (auto simp: add.commute)
  have "AParcel_getDataPosition K q - of_nat i = of_nat k"
    using get_position(1) [OF c Cons.prems(3)] by simp
  moreover have "\<not> of_nat tot \<le>s (of_nat k :: c_int)"
    using k by (simp add: word_sle_eq sint_of_nat_31)
  ultimately have "read_fields K (of_nat i) (of_nat tot) (f # fs) s q
      = read_fields K (of_nat i) (of_nat tot) fs s1 q1"
    using r(1) by simp
  moreover have "\<exists>s' q'. read_fields K (of_nat i) (of_nat tot) fs s1 q1 = ((STATUS_OK, s'), q') \<and>
      in_turn (map snd eRs') w s1 s' \<and> V q' = (c, i + tot)"
    using Cons.prems(5,6) r(3) sl(2) ab
    by (intro Cons.IH [OF ok(2) ab(4), of _ "k + length a"]) (simp_all add: add.assoc)
  ultimately show ?case
    using r(2) by (auto simp: eRs)
qed

definition enc_parcelable :: "(c_int \<Rightarrow> 'b list) \<Rightarrow> ('s \<Rightarrow> 'b list \<Rightarrow> bool) list \<Rightarrow> 's \<Rightarrow> 'b list \<Rightarrow> bool" where
  "enc_parcelable e32 es s bs \<longleftrightarrow>
     (\<exists>a. enc_fields es s a \<and> 4 + length a < 2 ^ 31 \<and> bs = e32 (of_nat (4 + length a)) @ a)"

lemma write_parcelable_view:
  assumes c: "position_contract K V" "int32_contract K V e32" and ok: "fields_ok V eRs fs"
    and w: "write_parcelable K fs s p = (STATUS_OK, p')" and v: "V p = (c, i)" "i \<le> length c"
  shows "\<exists>bs. enc_parcelable e32 (map fst eRs) s bs \<and> V p' = (overwrite c i bs, i + length bs)"
proof -
  have cd: "codec V (\<lambda>n bs. bs = e32 n) (whole (=)) (rd_int32 K) (wr_int32 K)" and len: "length (e32 n) = 4" for n
    using c(2) unfolding int32_contract_def by blast+
  have st: "AParcel_getDataPosition K p = of_nat i" "i < 2 ^ 31"
    using get_position [OF c(1) v(1)] by blast+
  obtain p1 p2 where r: "wr_int32 K 0 p = (STATUS_OK, p1)" "write_fields fs s p1 = (STATUS_OK, p2)"
    and p': "p' = (let end_pos = AParcel_getDataPosition K p2;
      (x, p3) = wr_int32 K (end_pos - of_nat i) (AParcel_setDataPosition K (of_nat i) p2)
      in AParcel_setDataPosition K end_pos p3)"
    using w st(1) by (auto simp: write_parcelable_def Let_def split: prod.splits if_splits)
  have p1: "V p1 = (overwrite c i (e32 0), i + 4)"
    using codec_write [OF cd r(1) v] len by auto
  obtain a where a: "enc_fields (map fst eRs) s a"
    "V p2 = (overwrite (overwrite c i (e32 0)) (i + 4) a, i + 4 + length a)"
    using write_fields_view [OF ok r(2) p1] length_overwrite [OF v(2), of "e32 0"] len by auto
  let ?c2 = "overwrite c i (e32 0 @ a)" and ?n = "of_nat (4 + length a) :: c_int"
  have p2: "V p2 = (?c2, i + (4 + length a))"
    using a(2) overwrite_twice [OF v(2), of "e32 0" a] len by (simp add: add.assoc)
  have e: "AParcel_getDataPosition K p2 = of_nat (i + (4 + length a))" "i + (4 + length a) < 2 ^ 31"
    using get_position [OF c(1) p2] by blast+
  let ?p3 = "AParcel_setDataPosition K (of_nat i) p2"
  have p3: "V ?p3 = (?c2, i)"
    using set_position [OF c(1) st(2)] p2 by simp
  have l3: "i + 4 \<le> length ?c2"
    using length_overwrite [OF v(2), of "e32 0 @ a"] len by simp
  then have "fst (wr_int32 K ?n ?p3) = STATUS_OK"
    using c(2) p3 unfolding int32_contract_def by blast
  then obtain p4 where w4: "wr_int32 K ?n ?p3 = (STATUS_OK, p4)"
    by (metis prod.collapse)
  then have p4: "V p4 = (overwrite ?c2 i (e32 ?n), i + 4)"
    using codec_write [OF cd w4 p3] l3 len by auto
  have "p' = AParcel_setDataPosition K (of_nat (i + (4 + length a))) p4"
    using w4 by (simp add: p' e(1) Let_def)
  then have "V p' = (overwrite ?c2 i (e32 ?n), i + (4 + length a))"
    using set_position [OF c(1) e(2)] p4 by simp
  then show ?thesis
    using a(1) e(2) len overwrite_again [OF v(2), of "e32 ?n" "e32 0" a]
    by (intro exI [of _ "e32 ?n @ a"]) (auto simp: enc_parcelable_def)
qed

lemma read_parcelable_view:
  assumes c: "position_contract K V" "int32_contract K V e32" and ok: "fields_ok V eRs fs"
    and enc: "enc_parcelable e32 (map fst eRs) w bs" and v: "V q = (c, i)" "slice_at c i bs"
  shows "\<exists>s' q'. read_parcelable K fs s q = ((STATUS_OK, s'), q') \<and>
    in_turn (map snd eRs) w s s' \<and> V q' = (c, i + length bs)"
proof -
  have cd: "codec V (\<lambda>n bs. bs = e32 n) (whole (=)) (rd_int32 K) (wr_int32 K)" and len: "length (e32 n) = 4" for n
    using c(2) unfolding int32_contract_def by blast+
  obtain a where a: "enc_fields (map fst eRs) w a" "4 + length a < 2 ^ 31"
    and bs: "bs = e32 (of_nat (4 + length a)) @ a"
    using enc by (auto simp: enc_parcelable_def)
  let ?t = "4 + length a"
  note sl = slice_at_append [OF v(2) [unfolded bs]]
  note pos = get_position [OF c(1) v(1)]
  obtain q1 where r: "rd_int32 K 0 q = ((STATUS_OK, of_nat ?t), q1)" "V q1 = (c, i + 4)"
    using codec_read [OF cd v(1) refl sl(1)] len unfolding whole_def by metis
  have ttl: "i + ?t < 2 ^ 31"
    using v(2) pos(3) len by (simp add: slice_at_def bs)
  then have "i < 2 ^ 31" by simp
  then have s: "sint (of_nat ?t :: c_int) = int ?t" "sint (of_nat i :: c_int) = int i"
    by (simp_all only: sint_of_nat_31 a(2))
  have "\<not> (of_nat ?t :: c_int) <s 4"
    unfolding word_sless_alt s(1) by simp
  moreover have "\<not> sint (of_nat i :: c_int) > (2 ^ 31 - 1) - sint (of_nat ?t :: c_int)"
    unfolding s using ttl by simp
  ultimately have "read_parcelable K fs s q = read_fields K (of_nat i) (of_nat ?t) fs s q1"
    using r(1) pos(1) by (simp add: read_parcelable_def del: of_nat_add)
  moreover have "\<exists>s' q'. read_fields K (of_nat i) (of_nat ?t) fs s q1 = ((STATUS_OK, s'), q') \<and>
      in_turn (map snd eRs) w s s' \<and> V q' = (c, i + ?t)"
    using sl(2) r(2) len ttl by (intro read_fields_view [OF c(1) ok a(1), of q1 c i 4]) simp_all
  ultimately show ?thesis
    using len by (simp add: bs)
qed

lemma codec_parcelable:
  assumes c: "position_contract K V" "int32_contract K V e32" and ok: "fields_ok V eRs fs"
  shows "codec V (enc_parcelable e32 (map fst eRs)) (in_turn (map snd eRs))
    (read_parcelable K fs) (write_parcelable K fs)"
  unfolding codec_def
proof (intro conjI allI impI)
  fix w bs assume "enc_parcelable e32 (map fst eRs) w bs"
  moreover have "length (e32 n) = 4" for n
    using c(2) unfolding int32_contract_def by blast
  then have "e32 n \<noteq> []" for n
    by (metis list.size(3) zero_neq_numeral)
  ultimately show "bs \<noteq> []"
    by (auto simp: enc_parcelable_def)
qed (use write_parcelable_view [OF assms] read_parcelable_view [OF assms] in \<open>blast+\<close>)

section \<open>The codecs of the interface\<close>

text \<open>A handle that crossed a parcel: the same integers, and as many descriptors.\<close>

definition same_handle :: "NativeHandle \<Rightarrow> NativeHandle \<Rightarrow> bool" where
  "same_handle nh nh' \<longleftrightarrow> nh_ints nh' = nh_ints nh \<and> length (nh_fds nh') = length (nh_fds nh)"

definition same_result :: "AllocationResult \<Rightarrow> AllocationResult \<Rightarrow> bool" where
  "same_result r r' \<longleftrightarrow> ar_stride r' = ar_stride r \<and> list_all2 same_handle (ar_buffers r) (ar_buffers r')"

lemma parcel_contractD:
  assumes "parcel_contract K V E"
  shows "position_contract K V" and "int32_contract K V (e_int32 E)"
    and "codec V (\<lambda>n bs. bs = e_int32 E n) (whole (=)) (rd_int32 K) (wr_int32 K)"
    and "codec V (e_int64 E) (whole (=)) (rd_int64 K) (wr_int64 K)"
    and "codec V (e_string E) (whole (=)) (rd_string K) (wr_string K)"
    and "codec V (e_fds E) (whole (\<lambda>v v'. length v' = length v)) (rd_fds K) (wr_fds K)"
    and "codec V (e_ints E) (whole (=)) (rd_ints K) (wr_ints K)"
    and "codec V e (whole r) rd wr \<Longrightarrow>
      codec V (e_handles E e) (whole (list_all2 r)) (rd_handles K rd) (wr_handles K wr)"
    and "codec V f (whole q) rd' wr' \<Longrightarrow>
      codec V (e_options E f) (whole (list_all2 q)) (rd_options K rd') (wr_options K wr')"
  using assms unfolding parcel_contract_def int32_contract_def by blast+

lemma NativeHandle_codec:
  assumes "parcel_contract K V E"
  shows "\<exists>e. codec V e (whole same_handle) (NativeHandle_readFromParcel K) (NativeHandle_writeToParcel K)"
proof -
  note k = parcel_contractD [OF assms]
  have "fields_ok V
      [(e_fds E \<circ> nh_fds, sets nh_fds nh_fds_update (\<lambda>v v'. length v' = length v)),
       (e_ints E \<circ> nh_ints, sets nh_ints nh_ints_update (=))] (NativeHandle_fields K)"
    unfolding NativeHandle_fields_def fields_ok_simps by (intro conjI codec_field k(3-7) fields_ok_simps(1))
  note c = codec_parcelable [OF k(1,2) this]
  show ?thesis
    unfolding NativeHandle_readFromParcel_def NativeHandle_writeToParcel_def
    by (rule exI, rule codec_mono, rule c) (auto simp: sets_def whole_def same_handle_def)
qed

lemma ExtendableType_codec:
  assumes "parcel_contract K V E"
  shows "\<exists>e. codec V e (whole (=)) (ExtendableType_readFromParcel K) (ExtendableType_writeToParcel K)"
proof -
  note k = parcel_contractD [OF assms]
  have "fields_ok V
      [(e_string E \<circ> ext_name, sets ext_name ext_name_update (=)),
       (e_int64 E \<circ> ext_value, sets ext_value ext_value_update (=))] (ExtendableType_fields K)"
    unfolding ExtendableType_fields_def fields_ok_simps by (intro conjI codec_field k(3-7) fields_ok_simps(1))
  note c = codec_parcelable [OF k(1,2) this]
  show ?thesis
    unfolding ExtendableType_readFromParcel_def ExtendableType_writeToParcel_def
    by (rule exI, rule codec_mono, rule c) (auto simp: sets_def whole_def)
qed

lemma BufferDescriptorInfo_codec:
  assumes "parcel_contract K V E"
  shows "\<exists>e. codec V e (whole (=)) (BufferDescriptorInfo_readFromParcel K)
    (BufferDescriptorInfo_writeToParcel K)"
proof -
  note k = parcel_contractD [OF assms]
  obtain e where "codec V e (whole (=)) (ExtendableType_readFromParcel K) (ExtendableType_writeToParcel K)"
    using ExtendableType_codec [OF assms] by blast
  note o = k(9) [OF this, unfolded list.rel_eq]
  let ?n = "\<lambda>n bs. bs = e_int32 E n"
  have "fields_ok V
      [(e_string E \<circ> bdi_name, sets bdi_name bdi_name_update (=)),
       (?n \<circ> bdi_width, sets bdi_width bdi_width_update (=)),
       (?n \<circ> bdi_height, sets bdi_height bdi_height_update (=)),
       (?n \<circ> bdi_layerCount, sets bdi_layerCount bdi_layerCount_update (=)),
       (?n \<circ> bdi_format, sets bdi_format bdi_format_update (=)),
       (e_int64 E \<circ> bdi_usage, sets bdi_usage bdi_usage_update (=)),
       (e_int64 E \<circ> bdi_reservedSize, sets bdi_reservedSize bdi_reservedSize_update (=)),
       (e_options E e \<circ> additionalOptions, sets additionalOptions additionalOptions_update (=))]
      (BufferDescriptorInfo_fields K)"
    unfolding BufferDescriptorInfo_fields_def fields_ok_simps by (intro conjI codec_field k(3-7) o fields_ok_simps(1))
  note c = codec_parcelable [OF k(1,2) this]
  show ?thesis
    unfolding BufferDescriptorInfo_readFromParcel_def BufferDescriptorInfo_writeToParcel_def
    by (rule exI, rule codec_mono, rule c) (auto simp: sets_def whole_def)
qed

lemma AllocationResult_codec:
  assumes "parcel_contract K V E"
  shows "\<exists>e. codec V e (whole same_result) (AllocationResult_readFromParcel K)
    (AllocationResult_writeToParcel K)"
proof -
  note k = parcel_contractD [OF assms]
  obtain e where "codec V e (whole same_handle) (NativeHandle_readFromParcel K) (NativeHandle_writeToParcel K)"
    using NativeHandle_codec [OF assms] by blast
  note o = k(8) [OF this]
  have "fields_ok V
      [((\<lambda>n bs. bs = e_int32 E n) \<circ> ar_stride, sets ar_stride ar_stride_update (=)),
       (e_handles E e \<circ> ar_buffers, sets ar_buffers ar_buffers_update (list_all2 same_handle))]
      (AllocationResult_fields K)"
    unfolding AllocationResult_fields_def fields_ok_simps by (intro conjI codec_field k(3-7) o fields_ok_simps(1))
  note c = codec_parcelable [OF k(1,2) this]
  show ?thesis
    unfolding AllocationResult_readFromParcel_def AllocationResult_writeToParcel_def
    by (rule exI, rule codec_mono, rule c) (auto simp: sets_def whole_def same_result_def)
qed

end
