(* ===== verification/Aidl_Wire.thy ===== *)
theory Aidl_Wire
  imports Aidl_Parcel
begin

text \<open>
  Properties of the parcelables, and a small parcel that keeps the promises of libbinder's: a list
  of cells and a position.
\<close>

section \<open>A parcel of cells\<close>

datatype cell = Cell_w c_int | Cell_pad | Cell_l u64 | Cell_s bytes | Cell_i "c_int list" | Cell_n nat
  | Cell_status ScopedAStatus | Cell_bool bool

type_synonym cells = "cell list \<times> nat"

definition cells :: "cells \<Rightarrow> cells" where
  "cells p = (if length (fst p) < 2 ^ 31 \<and> snd p < 2 ^ 31 then p else ([], 0))"

lemma cells_bound: "snd (cells p) < 2 ^ 31" "length (fst (cells p)) < 2 ^ 31"
  by (simp_all add: cells_def)

lemma cells_id: "length c < 2 ^ 31 \<Longrightarrow> i < 2 ^ 31 \<Longrightarrow> cells (c, i) = (c, i)"
  by (simp add: cells_def)

definition put :: "cell list \<Rightarrow> cells \<Rightarrow> binder_status_t \<times> cells" where
  "put bs p = (case cells p of (c, i) \<Rightarrow>
     if length (overwrite c i bs) < 2 ^ 31 \<and> i + length bs < 2 ^ 31
     then (STATUS_OK, (overwrite c i bs, i + length bs)) else (STATUS_OTHER 1, p))"

lemma put_view:
  assumes "put bs p = (STATUS_OK, p')" and "cells p = (c, i)"
  shows "cells p' = (overwrite c i bs, i + length bs)"
  using assms by (auto simp: put_def cells_id split: if_splits)

definition get_cell :: "(cell \<Rightarrow> 'v option) \<Rightarrow> (cells, 'v) reader" where
  "get_cell g old p = (case cells p of (c, i) \<Rightarrow>
     (case drop i c of [] \<Rightarrow> ((STATUS_BAD_VALUE, old), p)
      | x # _ \<Rightarrow> (case g x of None \<Rightarrow> ((STATUS_BAD_VALUE, old), p)
                   | Some v \<Rightarrow> ((STATUS_OK, v), (c, Suc i)))))"

lemma codec_cell:
  assumes g: "\<And>v. g (f v) = Some (t v)" and r: "\<And>v. r v (t v)"
  shows "codec cells (\<lambda>v bs. bs = [f v]) (whole r) (get_cell g) (\<lambda>v. put [f v])"
  unfolding codec_def
proof (intro conjI allI impI)
  fix v bs q c i old assume q: "cells q = (c, i)" and bs: "bs = [f v]" and s: "slice_at c i bs"
  have "drop i c = f v # drop (Suc i) c"
    using s by (cases "drop i c") (simp_all add: slice_at_def bs drop_Suc flip: tl_drop)
  then have "get_cell g old q = ((STATUS_OK, t v), (c, Suc i))"
    by (simp add: get_cell_def q g)
  moreover have "cells (c, Suc i) = (c, Suc i)"
    using s cells_bound(2) [of q] q by (intro cells_id) (simp_all add: slice_at_def bs)
  ultimately show "\<exists>v' q'. get_cell g old q = ((STATUS_OK, v'), q') \<and> whole r v old v' \<and>
      cells q' = (c, i + length bs)"
    by (simp add: whole_def r bs)
qed (auto simp: put_view)

definition get_int32 :: "(cells, c_int) reader" where
  "get_int32 old p = (case cells p of (c, i) \<Rightarrow>
     (case drop i c of Cell_w n # x # y # z # _ \<Rightarrow> ((STATUS_OK, n), (c, i + 4))
      | _ \<Rightarrow> ((STATUS_BAD_VALUE, old), p)))"

definition put_int32 :: "(cells, c_int) writer" where
  "put_int32 n = put [Cell_w n, Cell_pad, Cell_pad, Cell_pad]"

primrec put_all :: "(cells, 'v) writer \<Rightarrow> (cells, 'v list) writer" where
  "put_all wr [] p = (STATUS_OK, p)"
| "put_all wr (v # vs) p = (case wr v p of (st, p) \<Rightarrow> if st \<noteq> STATUS_OK then (st, p) else put_all wr vs p)"

definition put_vector :: "(cells, 'v) writer \<Rightarrow> (cells, 'v list) writer" where
  "put_vector wr vs p = (case put [Cell_n (length vs)] p of (st, p) \<Rightarrow>
     if st \<noteq> STATUS_OK then (st, p) else put_all wr vs p)"

primrec get_all :: "'v \<Rightarrow> (cells, 'v) reader \<Rightarrow> nat \<Rightarrow> cells \<Rightarrow> (binder_status_t \<times> 'v list) \<times> cells" where
  "get_all d rd 0 p = ((STATUS_OK, []), p)"
| "get_all d rd (Suc n) p = (case rd d p of ((st, v), p) \<Rightarrow>
     if st \<noteq> STATUS_OK then ((st, []), p)
     else case get_all d rd n p of ((st, vs), p) \<Rightarrow> ((st, v # vs), p))"

definition get_vector :: "'v \<Rightarrow> (cells, 'v) reader \<Rightarrow> (cells, 'v list) reader" where
  "get_vector d rd old p =
     (case get_cell (\<lambda>x. case x of Cell_n n \<Rightarrow> Some n | _ \<Rightarrow> None) 0 p of
        ((st, n), p) \<Rightarrow> if st \<noteq> STATUS_OK then ((st, old), p) else get_all d rd n p)"

primrec enc_all :: "('v \<Rightarrow> cell list \<Rightarrow> bool) \<Rightarrow> 'v list \<Rightarrow> cell list \<Rightarrow> bool" where
  "enc_all e [] bs \<longleftrightarrow> bs = []"
| "enc_all e (v # vs) bs \<longleftrightarrow> (\<exists>a b. bs = a @ b \<and> e v a \<and> enc_all e vs b)"

definition enc_vector :: "('v \<Rightarrow> cell list \<Rightarrow> bool) \<Rightarrow> 'v list \<Rightarrow> cell list \<Rightarrow> bool" where
  "enc_vector e vs bs \<longleftrightarrow> (\<exists>b. bs = Cell_n (length vs) # b \<and> enc_all e vs b)"

lemma put_all_view:
  assumes k: "codec cells e R rd wr"
  shows "put_all wr vs p = (STATUS_OK, p') \<Longrightarrow> cells p = (c, i) \<Longrightarrow> i \<le> length c \<Longrightarrow>
    \<exists>bs. enc_all e vs bs \<and> cells p' = (overwrite c i bs, i + length bs)"
proof (induction vs arbitrary: p c i)
  case Nil
  then show ?case
    by (simp add: overwrite_def)
next
  case (Cons v vs)
  obtain p1 where w: "wr v p = (STATUS_OK, p1)" and rest: "put_all wr vs p1 = (STATUS_OK, p')"
    using Cons.prems(1) by (auto split: prod.splits if_splits)
  obtain a where a: "e v a" "cells p1 = (overwrite c i a, i + length a)"
    using codec_write [OF k w Cons.prems(2,3)] by blast
  obtain b where b: "enc_all e vs b" "cells p' = (overwrite (overwrite c i a) (i + length a) b, i + length a + length b)"
    using Cons.IH [OF rest a(2) length_overwrite [OF Cons.prems(3)]] by blast
  then show ?case
    using a(1) overwrite_twice [OF Cons.prems(3), of a b]
    by (intro exI [of _ "a @ b"]) (auto simp: add.assoc)
qed

lemma get_all_view:
  assumes k: "codec cells e (whole r) rd wr"
  shows "enc_all e vs bs \<Longrightarrow> cells q = (c, i) \<Longrightarrow> slice_at c i bs \<Longrightarrow>
    \<exists>vs' q'. get_all d rd (length vs) q = ((STATUS_OK, vs'), q') \<and> list_all2 r vs vs' \<and>
      cells q' = (c, i + length bs)"
proof (induction vs arbitrary: bs q i)
  case (Cons v vs)
  obtain a b where ab: "bs = a @ b" "e v a" "enc_all e vs b"
    using Cons.prems(1) by auto
  note sl = slice_at_append [OF Cons.prems(3) [unfolded ab(1)]]
  obtain v' q1 where r: "rd d q = ((STATUS_OK, v'), q1)" "r v v'" "cells q1 = (c, i + length a)"
    using codec_read [OF k Cons.prems(2) ab(2) sl(1)] unfolding whole_def by blast
  obtain vs' q' where "get_all d rd (length vs) q1 = ((STATUS_OK, vs'), q')" "list_all2 r vs vs'"
    "cells q' = (c, i + length a + length b)"
    using Cons.IH [OF ab(3) r(3) sl(2)] by blast
  then show ?case
    using r(1,2) by (simp add: ab(1) add.assoc)
qed simp

lemma codec_vector:
  assumes k: "codec cells e (whole r) rd wr"
  shows "codec cells (enc_vector e) (whole (list_all2 r)) (get_vector d rd) (put_vector wr)"
  unfolding codec_def
proof (intro conjI allI impI)
  fix vs p p' c i
  assume v: "cells p = (c, i)" "i \<le> length c" and w: "put_vector wr vs p = (STATUS_OK, p')"
  obtain p1 where p1: "put [Cell_n (length vs)] p = (STATUS_OK, p1)" "put_all wr vs p1 = (STATUS_OK, p')"
    using w by (auto simp: put_vector_def split: prod.splits if_splits)
  note v1 = put_view [OF p1(1) v(1)]
  obtain b where b: "enc_all e vs b" "cells p' = (overwrite (overwrite c i [Cell_n (length vs)]) (i + 1) b,
      i + 1 + length b)"
    using put_all_view [OF k p1(2) v1] length_overwrite [OF v(2), of "[Cell_n (length vs)]"] by auto
  then show "\<exists>bs. enc_vector e vs bs \<and> cells p' = (overwrite c i bs, i + length bs)"
    using overwrite_twice [OF v(2), of "[Cell_n (length vs)]" b]
    by (intro exI [of _ "Cell_n (length vs) # b"]) (simp add: enc_vector_def)
next
  fix vs bs q c i old
  assume v: "cells q = (c, i)" and e: "enc_vector e vs bs" and s: "slice_at c i bs"
  obtain b where b: "bs = [Cell_n (length vs)] @ b" "enc_all e vs b"
    using e by (auto simp: enc_vector_def)
  note sl = slice_at_append [OF s [unfolded b(1)]]
  let ?g = "\<lambda>x. case x of Cell_n n \<Rightarrow> Some n | _ \<Rightarrow> None"
  have "codec cells (\<lambda>v bs. bs = [Cell_n v]) (whole (=)) (get_cell ?g) (\<lambda>v. put [Cell_n v])"
    by (rule codec_cell) simp_all
  from codec_read [OF this v refl sl(1)] obtain q1
    where r: "get_cell ?g 0 q = ((STATUS_OK, length vs), q1)" "cells q1 = (c, i + length [Cell_n (length vs)])"
    unfolding whole_def by metis
  show "\<exists>v' q'. get_vector d rd old q = ((STATUS_OK, v'), q') \<and> whole (list_all2 r) vs old v' \<and>
      cells q' = (c, i + length bs)"
    using get_all_view [OF k b(2) r(2) sl(2), of d] r(1) by (auto simp: get_vector_def whole_def b(1))
qed (auto simp: enc_vector_def)

definition cell_ops :: "cells parcel_ops" where
  "cell_ops = \<lparr>
     AParcel_getDataPosition = (\<lambda>p. of_nat (snd (cells p))),
     AParcel_setDataPosition = (\<lambda>i p. if is_neg i then p else (fst (cells p), unat i)),
     rd_int32 = get_int32, wr_int32 = put_int32,
     rd_int64 = get_cell (\<lambda>x. case x of Cell_l n \<Rightarrow> Some n | _ \<Rightarrow> None), wr_int64 = (\<lambda>n. put [Cell_l n]),
     rd_string = get_cell (\<lambda>x. case x of Cell_s n \<Rightarrow> Some n | _ \<Rightarrow> None), wr_string = (\<lambda>n. put [Cell_s n]),
     rd_fds = get_cell (\<lambda>x. case x of Cell_i ns \<Rightarrow> Some (map (\<lambda>fd. fd + 100) ns) | _ \<Rightarrow> None),
     wr_fds = (\<lambda>n. put [Cell_i n]),
     rd_ints = get_cell (\<lambda>x. case x of Cell_i n \<Rightarrow> Some n | _ \<Rightarrow> None), wr_ints = (\<lambda>n. put [Cell_i n]),
     rd_handles = get_vector \<lparr>nh_fds = [], nh_ints = []\<rparr>, wr_handles = put_vector,
     rd_options = get_vector \<lparr>ext_name = [], ext_value = 0\<rparr>, wr_options = put_vector\<rparr>"

definition cell_encodings :: "cell encodings" where
  "cell_encodings = \<lparr>
     e_int32 = (\<lambda>n. [Cell_w n, Cell_pad, Cell_pad, Cell_pad]), e_int64 = (\<lambda>n bs. bs = [Cell_l n]),
     e_string = (\<lambda>n bs. bs = [Cell_s n]), e_fds = (\<lambda>n bs. bs = [Cell_i n]),
     e_ints = (\<lambda>n bs. bs = [Cell_i n]), e_handles = enc_vector, e_options = enc_vector\<rparr>"

lemma drop_slice:
  assumes "slice_at c i bs"
  shows "drop i c = bs @ drop (i + length bs) c"
  using assms append_take_drop_id [of "length bs" "drop i c"]
  by (simp add: slice_at_def add.commute)

lemma cell_int32: "int32_contract cell_ops cells (e_int32 cell_encodings)"
  unfolding int32_contract_def
proof (intro conjI allI impI)
  show "codec cells (\<lambda>n bs. bs = e_int32 cell_encodings n) (whole (=)) (rd_int32 cell_ops) (wr_int32 cell_ops)"
    unfolding codec_def
  proof (intro conjI allI impI)
    fix n bs q c i old
    assume q: "cells q = (c, i)" and bs: "bs = e_int32 cell_encodings n" and s: "slice_at c i bs"
    have "i + 4 \<le> length c" and "length c < 2 ^ 31"
      using s cells_bound(2) [of q] q by (simp_all add: slice_at_def bs cell_encodings_def)
    then have "cells (c, i + 4) = (c, i + 4)"
      by (intro cells_id) simp_all
    then show "\<exists>v' q'. rd_int32 cell_ops old q = ((STATUS_OK, v'), q') \<and> whole (=) n old v' \<and>
        cells q' = (c, i + length bs)"
      using drop_slice [OF s] q by (simp add: cell_ops_def get_int32_def whole_def bs cell_encodings_def)
  qed (auto simp: cell_encodings_def cell_ops_def put_int32_def put_view)
next
  fix n p c i assume "cells p = (c, i)" "i + 4 \<le> length c"
  moreover from this have "length c < 2 ^ 31"
    using cells_bound(2) [of p] by simp
  ultimately show "fst (wr_int32 cell_ops n p) = STATUS_OK"
    by (simp add: cell_ops_def put_int32_def put_def overwrite_def)
qed (simp add: cell_encodings_def)

lemma not_neg_sint:
  assumes "\<not> is_neg (i :: c_int)"
  shows "unat i = nat (sint i)"
proof -
  have "0 \<le> sint i" and "sint i < 2 ^ 31"
    using assms sint_lt [of i] by (simp_all add: is_neg_def word_sless_alt)
  then have "uint i = sint i"
    by (simp add: uint_sint take_bit_int_eq_self)
  then show ?thesis
    by (metis nat_int uint_nat)
qed

lemma cell_positions: "position_contract cell_ops cells"
  unfolding position_contract_def
proof (intro conjI allI impI)
  fix p :: cells and i :: c_int assume i: "\<not> is_neg i"
  have "unat i < 2 ^ 31"
    using i sint_lt [of i] by (simp add: not_neg_sint)
  then show "cells (AParcel_setDataPosition cell_ops i p) = (fst (cells p), unat i)"
    using i cells_bound(2) [of p] by (simp add: cell_ops_def cells_id)
qed (use cells_bound in \<open>simp_all add: cell_ops_def\<close>)

lemma cell_contract: "parcel_contract cell_ops cells cell_encodings"
  unfolding parcel_contract_def
  by (intro conjI allI impI cell_positions cell_int32)
    (simp_all add: cell_ops_def cell_encodings_def codec_vector codec_cell)

section \<open>Properties\<close>

lemma read_fields_end:
  assumes "read_fields K start sz fs s p = ((STATUS_OK, s'), q)"
  shows "\<exists>p'. q = AParcel_setDataPosition K (start + sz) p'"
  using assms
  by (induction fs arbitrary: s p) (auto split: if_splits prod.splits)

text \<open>C28: A parcelable that is read without an error ends exactly where its sender said, whatever its
  fields were: the announced size is at least that of the size word, the end does not overflow, and
  the position afterwards is the start plus the size, so that fields the sender added or the reader
  does not know are skipped and what follows in the parcel is read from the right place.\<close>

theorem parcelable_framing:
  assumes r: "read_parcelable K fs old p = ((STATUS_OK, v), q)"
    and seek: "\<And>p i. \<not> is_neg i \<Longrightarrow> AParcel_getDataPosition K (AParcel_setDataPosition K i p) = i"
    and start: "\<not> is_neg (AParcel_getDataPosition K p)"
  shows "\<exists>n p1. rd_int32 K 0 p = ((STATUS_OK, n), p1) \<and> sint n \<ge> 4 \<and>
    sint (AParcel_getDataPosition K q) = sint (AParcel_getDataPosition K p) + sint n"
proof -
  let ?s = "AParcel_getDataPosition K p"
  obtain n p1 where n: "rd_int32 K 0 p = ((STATUS_OK, n), p1)" "sint n \<ge> 4" "sint ?s + sint n \<le> 2 ^ 31 - 1"
    and rest: "read_fields K ?s n fs old p1 = ((STATUS_OK, v), q)"
    using r by (auto simp: read_parcelable_def Let_def word_sless_alt split: prod.splits if_splits)
  have s: "sint ?s \<ge> 0"
    using start by (simp add: is_neg_def word_sless_alt)
  have sum: "sint (?s + n) = sint ?s + sint n"
    using n(2,3) s by (simp add: sint_word_ariths signed_take_bit_int_eq_self)
  then have "\<not> is_neg (?s + n)"
    using s n(2) by (simp add: is_neg_def word_sless_alt)
  then have "AParcel_getDataPosition K q = ?s + n"
    using read_fields_end [OF rest] seek by auto
  then show ?thesis
    using n sum by auto
qed

lemma empty_cells [simp]: "cells ([], 0) = ([], 0)"
  by (simp add: cells_def)

lemma cell_seek:
  assumes "\<not> is_neg i"
  shows "AParcel_getDataPosition cell_ops (AParcel_setDataPosition cell_ops i p) = i"
proof -
  have "cells (AParcel_setDataPosition cell_ops i p) = (fst (cells p), unat i)"
    using cell_positions assms unfolding position_contract_def by blast
  then show ?thesis
    by (simp add: cell_ops_def)
qed

definition handle_on_wire :: cells where
  "handle_on_wire = ([Cell_w 7, Cell_pad, Cell_pad, Cell_pad, Cell_i [11], Cell_i [1, 2], Cell_s [9]], 0)"

theorem parcelable_framing_witness:
  "\<exists>v q. read_parcelable cell_ops (NativeHandle_fields cell_ops) \<lparr>nh_fds = [], nh_ints = []\<rparr> handle_on_wire
       = ((STATUS_OK, v), q) \<and> sint (AParcel_getDataPosition cell_ops q) = 7"
proof -
  obtain v q where r: "read_parcelable cell_ops (NativeHandle_fields cell_ops) \<lparr>nh_fds = [], nh_ints = []\<rparr>
      handle_on_wire = ((STATUS_OK, v), q)"
    by (simp add: read_parcelable_def cell_ops_def handle_on_wire_def cells_def get_int32_def
        NativeHandle_fields_def field_def get_cell_def word_sless_alt word_sle_eq is_neg_def)
  have "\<not> is_neg (AParcel_getDataPosition cell_ops handle_on_wire)"
    by (simp add: cell_ops_def handle_on_wire_def cells_def is_neg_def)
  from parcelable_framing [OF r cell_seek this] r show ?thesis
    by (auto simp: cell_ops_def handle_on_wire_def cells_def get_int32_def)
qed

text \<open>Writing at a position inside the data and reading back from there.\<close>

lemma codec_roundtrip:
  assumes k: "position_contract K V" "codec V e R rd wr" and w: "wr v p = (STATUS_OK, p')"
    and p: "snd (V p) \<le> length (fst (V p))"
  shows "\<exists>v' q. rd old (AParcel_setDataPosition K (AParcel_getDataPosition K p) p') = ((STATUS_OK, v'), q) \<and>
    R v old v' \<and> V q = V p'"
proof -
  obtain c i where v: "V p = (c, i)"
    by fastforce
  then have l: "i \<le> length c"
    using p by simp
  obtain bs where bs: "e v bs" "V p' = (overwrite c i bs, i + length bs)"
    using codec_write [OF k(2) w v l] by blast
  note pos = get_position [OF k(1) v]
  have "V (AParcel_setDataPosition K (AParcel_getDataPosition K p) p') = (overwrite c i bs, i)"
    using set_position [OF k(1) pos(2)] bs(2) by (simp add: pos(1))
  from codec_read [OF k(2) this bs(1) slice_at_overwrite [OF l], of old] show ?thesis
    using bs(2) by simp
qed

text \<open>C27: What one side of the interface writes, the other reads: a buffer descriptor comes back equal
  whatever the reader's object held before, its options included; an allocation result comes back
  with its stride and its handles in order, each with the same integers and with a new descriptor
  for each of its own; and the reader stops where the writer stopped.\<close>

theorem parcelables_roundtrip:
  assumes k: "parcel_contract K V E" and p: "snd (V p) \<le> length (fst (V p))"
  shows "(BufferDescriptorInfo_writeToParcel K info p = (STATUS_OK, p1) \<longrightarrow>
      (\<exists>q. BufferDescriptorInfo_readFromParcel K old_info
             (AParcel_setDataPosition K (AParcel_getDataPosition K p) p1) = ((STATUS_OK, info), q) \<and> V q = V p1)) \<and>
    (AllocationResult_writeToParcel K res p = (STATUS_OK, p2) \<longrightarrow>
      (\<exists>res' q. AllocationResult_readFromParcel K old_res
             (AParcel_setDataPosition K (AParcel_getDataPosition K p) p2) = ((STATUS_OK, res'), q) \<and>
           ar_stride res' = ar_stride res \<and> list_all2 same_handle (ar_buffers res) (ar_buffers res') \<and>
           V q = V p2))"
proof (intro conjI impI)
  note pc = parcel_contractD(1) [OF k]
  obtain e where e: "codec V e (whole (=)) (BufferDescriptorInfo_readFromParcel K) (BufferDescriptorInfo_writeToParcel K)"
    using BufferDescriptorInfo_codec [OF k] by blast
  show "\<exists>q. BufferDescriptorInfo_readFromParcel K old_info
      (AParcel_setDataPosition K (AParcel_getDataPosition K p) p1) = ((STATUS_OK, info), q) \<and> V q = V p1"
    if "BufferDescriptorInfo_writeToParcel K info p = (STATUS_OK, p1)"
    using codec_roundtrip [OF pc e that p, of old_info] by (simp add: whole_def)
  obtain f where f: "codec V f (whole same_result) (AllocationResult_readFromParcel K) (AllocationResult_writeToParcel K)"
    using AllocationResult_codec [OF k] by blast
  show "\<exists>res' q. AllocationResult_readFromParcel K old_res
      (AParcel_setDataPosition K (AParcel_getDataPosition K p) p2) = ((STATUS_OK, res'), q) \<and>
      ar_stride res' = ar_stride res \<and> list_all2 same_handle (ar_buffers res) (ar_buffers res') \<and> V q = V p2"
    if "AllocationResult_writeToParcel K res p = (STATUS_OK, p2)"
    using codec_roundtrip [OF pc f that p, of old_res] by (auto simp: whole_def same_result_def)
qed

definition sample_result :: AllocationResult where
  "sample_result = \<lparr>ar_stride = 64, ar_buffers = [\<lparr>nh_fds = [11], nh_ints = [1, 2]\<rparr>]\<rparr>"

lemma sample_result_written:
  "\<exists>p. AllocationResult_writeToParcel cell_ops sample_result ([], 0) = (STATUS_OK, p)"
  by (simp add: AllocationResult_writeToParcel_def AllocationResult_fields_def sample_result_def
      NativeHandle_writeToParcel_def NativeHandle_fields_def field_def cell_ops_def write_parcelable_def
      put_int32_def put_def put_vector_def cells_def overwrite_def is_neg_def)

theorem parcelables_roundtrip_witness:
  "\<exists>p res q. AllocationResult_writeToParcel cell_ops sample_result ([], 0) = (STATUS_OK, p) \<and>
     AllocationResult_readFromParcel cell_ops \<lparr>ar_stride = 0, ar_buffers = []\<rparr>
       (AParcel_setDataPosition cell_ops (AParcel_getDataPosition cell_ops ([], 0)) p) = ((STATUS_OK, res), q) \<and>
     ar_stride res = 64 \<and> length (ar_buffers res) = 1"
proof -
  obtain p where w: "AllocationResult_writeToParcel cell_ops sample_result ([], 0) = (STATUS_OK, p)"
    using sample_result_written by blast
  have "snd (cells ([], 0)) \<le> length (fst (cells ([], 0)))"
    by simp
  from parcelables_roundtrip [OF cell_contract this, of _ _ _ sample_result p] w show ?thesis
    by (fastforce simp: sample_result_def dest: list_all2_lengthD)
qed

end
