(* ===== verification/Aidl_Binder.thy ===== *)
theory Aidl_Binder
  imports Aidl_Wire
begin

text \<open>
  The binder interface of the allocator: src/src/aidl/IAllocator.cpp.  The two sides are the server's
  dispatch and the proxy's methods; the transport between them is libbinder's.
\<close>

section \<open>The interface\<close>

text \<open>
  The methods of \<open>IAllocator\<close> over a state \<open>'w\<close>.  Of an out parameter of a basic type, a method
  returns what it stored, \<open>None\<close> when it stored nothing.
\<close>

record 'w IAllocator =
  m_allocate :: "bytes \<Rightarrow> c_int \<Rightarrow> AllocationResult \<Rightarrow> 'w \<Rightarrow> ((ScopedAStatus \<times> AllocationResult) \<times> 'w) run"
  m_allocate2 :: "BufferDescriptorInfo \<Rightarrow> c_int \<Rightarrow> AllocationResult \<Rightarrow> 'w
    \<Rightarrow> ((ScopedAStatus \<times> AllocationResult) \<times> 'w) run"
  m_isSupported :: "BufferDescriptorInfo \<Rightarrow> 'w \<Rightarrow> ((ScopedAStatus \<times> bool option) \<times> 'w) run"
  m_getIMapperLibrarySuffix :: "'w \<Rightarrow> ((ScopedAStatus \<times> bytes option) \<times> 'w) run"
  m_getInterfaceVersion :: "'w \<Rightarrow> ((ScopedAStatus \<times> c_int option) \<times> 'w) run"
  m_getInterfaceHash :: "'w \<Rightarrow> ((ScopedAStatus \<times> bytes option) \<times> 'w) run"

text \<open>
  The service as an implementation of the interface, with the methods \<open>BnAllocator\<close> adds;
  \<open>IAllocator::version\<close> and \<open>IAllocator::hash\<close> are constants of a generated header.
\<close>

definition BnAllocator_getInterfaceVersion :: "c_int \<Rightarrow> 'w \<Rightarrow> ((ScopedAStatus \<times> c_int option) \<times> 'w) run" where
  "BnAllocator_getInterfaceVersion version w = Done ((StatusOk, Some version), w)"

definition BnAllocator_getInterfaceHash :: "bytes \<Rightarrow> 'w \<Rightarrow> ((ScopedAStatus \<times> bytes option) \<times> 'w) run" where
  "BnAllocator_getInterfaceHash hash w = Done ((StatusOk, Some hash), w)"

definition allocator_service ::
    "'e gbm_env \<Rightarrow> nat \<Rightarrow> (bytes \<Rightarrow> c_int \<times> BufferDescriptorInfoV4) \<Rightarrow> c_int \<Rightarrow> bytes \<Rightarrow> 'e allocator IAllocator" where
  "allocator_service P lim dec version hash = \<lparr>
     m_allocate = allocator_allocate P lim dec,
     m_allocate2 = allocator_allocate2 P lim,
     m_isSupported = (\<lambda>d a. Done (isSupported d a, a)),
     m_getIMapperLibrarySuffix =
       (\<lambda>a. Done ((fst getIMapperLibrarySuffix, Some (snd getIMapperLibrarySuffix)), a)),
     m_getInterfaceVersion = BnAllocator_getInterfaceVersion version,
     m_getInterfaceHash = BnAllocator_getInterfaceHash hash\<rparr>"

definition AStatus_fromStatus :: "binder_status_t \<Rightarrow> ScopedAStatus" where
  "AStatus_fromStatus st = (if st = STATUS_OK then StatusOk else FromStatus st)"

definition IAllocatorDefault :: "'w IAllocator" where
  "IAllocatorDefault =
    (let status = AStatus_fromStatus STATUS_UNKNOWN_TRANSACTION in \<lparr>
     m_allocate = (\<lambda>d n r w. Done ((status, r), w)),
     m_allocate2 = (\<lambda>d n r w. Done ((status, r), w)),
     m_isSupported = (\<lambda>d w. Done ((status, None), w)),
     m_getIMapperLibrarySuffix = (\<lambda>w. Done ((status, None), w)),
     m_getInterfaceVersion = (\<lambda>w. Done ((StatusOk, Some 0), w)),
     m_getInterfaceHash = (\<lambda>w. Done ((StatusOk, Some []), w))\<rparr>)"

section \<open>The server\<close>

text \<open>The rest of the parcel's operations that the interface uses.\<close>

record 'p binder_ops = "'p parcel_ops" +
  FIRST_CALL_TRANSACTION :: u32
  rd_bytes :: "('p, bytes) reader"
  wr_bytes :: "('p, bytes) writer"
  rd_bool :: "('p, bool) reader"
  wr_bool :: "('p, bool) writer"
  AParcel_readStatusHeader :: "('p, ScopedAStatus) reader"
  AParcel_writeStatusHeader :: "('p, ScopedAStatus) writer"
  rd_info :: "('p, BufferDescriptorInfo) reader \<Rightarrow> ('p, BufferDescriptorInfo) reader"
  wr_info :: "('p, BufferDescriptorInfo) writer \<Rightarrow> ('p, BufferDescriptorInfo) writer"
  rd_result :: "('p, AllocationResult) reader \<Rightarrow> ('p, AllocationResult) reader"
  wr_result :: "('p, AllocationResult) writer \<Rightarrow> ('p, AllocationResult) writer"

definition new_result :: AllocationResult where
  "new_result = \<lparr>ar_stride = 0, ar_buffers = []\<rparr>"

definition new_info :: BufferDescriptorInfo where
  "new_info = \<lparr>bdi_name = [], bdi_width = 0, bdi_height = 0, bdi_layerCount = 0, bdi_format = 0,
     bdi_usage = 0, bdi_reservedSize = 0, additionalOptions = []\<rparr>"

abbreviation read_info :: "'p binder_ops \<Rightarrow> ('p, BufferDescriptorInfo) reader" where
  "read_info K \<equiv> rd_info K (BufferDescriptorInfo_readFromParcel (parcel_ops.truncate K))"

abbreviation write_info :: "'p binder_ops \<Rightarrow> ('p, BufferDescriptorInfo) writer" where
  "write_info K \<equiv> wr_info K (BufferDescriptorInfo_writeToParcel (parcel_ops.truncate K))"

abbreviation read_result :: "'p binder_ops \<Rightarrow> ('p, AllocationResult) reader" where
  "read_result K \<equiv> rd_result K (AllocationResult_readFromParcel (parcel_ops.truncate K))"

abbreviation write_result :: "'p binder_ops \<Rightarrow> ('p, AllocationResult) writer" where
  "write_result K \<equiv> wr_result K (AllocationResult_writeToParcel (parcel_ops.truncate K))"

text \<open>The end of each case: the status, and the value when the status is good.\<close>

definition send_reply ::
    "'p binder_ops \<Rightarrow> ('p, 'r) writer \<Rightarrow> 'p \<Rightarrow> ((ScopedAStatus \<times> 'r option) \<times> 'w) run
      \<Rightarrow> ((binder_status_t \<times> 'p) \<times> 'w) run" where
  "send_reply K wr out answer = andThen answer (\<lambda>((status, ret), w).
     case AParcel_writeStatusHeader K status out of (st, out) \<Rightarrow>
       if st \<noteq> STATUS_OK then Done ((st, out), w)
       else if \<not> isOk status then Done ((st, out), w)
       else case ret of None \<Rightarrow> Fault UninitRead | Some ret \<Rightarrow> Done (wr ret out, w))"

definition whole_result :: "((ScopedAStatus \<times> 'r) \<times> 'w) run \<Rightarrow> ((ScopedAStatus \<times> 'r option) \<times> 'w) run" where
  "whole_result m = andThen m (\<lambda>((status, r), w). Done ((status, Some r), w))"

definition or_empty :: "((ScopedAStatus \<times> bytes option) \<times> 'w) run \<Rightarrow> ((ScopedAStatus \<times> bytes option) \<times> 'w) run" where
  "or_empty m = andThen m (\<lambda>((status, r), w).
     Done ((status, Some (case r of None \<Rightarrow> [] | Some r \<Rightarrow> r)), w))"

definition onTransact ::
    "'p binder_ops \<Rightarrow> 'w IAllocator \<Rightarrow> u32 \<Rightarrow> 'p \<Rightarrow> 'p \<Rightarrow> 'w \<Rightarrow> ((binder_status_t \<times> 'p) \<times> 'w) run" where
  "onTransact K I code inp out w =
    (if code = FIRST_CALL_TRANSACTION K + 0 then
       (case rd_bytes K [] inp of ((st, d), inp) \<Rightarrow>
          if st \<noteq> STATUS_OK then Done ((st, out), w)
          else case rd_int32 K 0 inp of ((st, n), inp) \<Rightarrow>
            if st \<noteq> STATUS_OK then Done ((st, out), w)
            else send_reply K (write_result K) out (whole_result (m_allocate I d n new_result w)))
     else if code = FIRST_CALL_TRANSACTION K + 1 then
       (case read_info K new_info inp of ((st, d), inp) \<Rightarrow>
          if st \<noteq> STATUS_OK then Done ((st, out), w)
          else case rd_int32 K 0 inp of ((st, n), inp) \<Rightarrow>
            if st \<noteq> STATUS_OK then Done ((st, out), w)
            else send_reply K (write_result K) out (whole_result (m_allocate2 I d n new_result w)))
     else if code = FIRST_CALL_TRANSACTION K + 2 then
       (case read_info K new_info inp of ((st, d), inp) \<Rightarrow>
          if st \<noteq> STATUS_OK then Done ((st, out), w)
          else send_reply K (wr_bool K) out (m_isSupported I d w))
     else if code = FIRST_CALL_TRANSACTION K + 3 then
       send_reply K (wr_string K) out (or_empty (m_getIMapperLibrarySuffix I w))
     else if code = FIRST_CALL_TRANSACTION K + 16777214 then
       send_reply K (wr_int32 K) out (m_getInterfaceVersion I w)
     else if code = FIRST_CALL_TRANSACTION K + 16777213 then
       send_reply K (wr_string K) out (or_empty (m_getInterfaceHash I w))
     else Done ((STATUS_UNKNOWN_TRANSACTION, out), w))"

section \<open>The proxy\<close>

record ('p, 'w) ibinder =
  AIBinder_prepareTransaction :: "'w \<Rightarrow> (binder_status_t \<times> 'p) \<times> 'w"
  AIBinder_transact :: "u32 \<Rightarrow> 'p \<Rightarrow> 'w \<Rightarrow> ((binder_status_t \<times> 'p) \<times> 'w) run"

record BpAllocator =
  cached_version :: c_int
  cached_hash :: bytes

definition new_proxy :: BpAllocator where
  "new_proxy = \<lparr>cached_version = - 1, cached_hash = map of_char ''-1''\<rparr>"

definition stored :: "'r \<Rightarrow> 'r option \<Rightarrow> 'r" where
  "stored old r = (case r of None \<Rightarrow> old | Some r \<Rightarrow> r)"

text \<open>
  The common shape of the proxy's methods; \<open>dflt\<close> is the method of the default implementation, if
  one is set.  The last component of the answer says whether the value was read from a reply.
\<close>

definition bp_call ::
    "'p binder_ops \<Rightarrow> ('p, 'w) ibinder \<Rightarrow> u32 \<Rightarrow> ('p \<Rightarrow> binder_status_t \<times> 'p)
      \<Rightarrow> ('r \<Rightarrow> 'w \<Rightarrow> ((ScopedAStatus \<times> 'r option) \<times> 'w) run) option \<Rightarrow> ('p, 'r) reader \<Rightarrow> 'r \<Rightarrow> 'w
      \<Rightarrow> ((ScopedAStatus \<times> 'r \<times> bool) \<times> 'w) run" where
  "bp_call K B code marshal dflt rd ret w =
    (case AIBinder_prepareTransaction B w of ((st, inp), w) \<Rightarrow>
       if st \<noteq> STATUS_OK then Done ((AStatus_fromStatus st, ret, False), w)
       else case marshal inp of (st, inp) \<Rightarrow>
         if st \<noteq> STATUS_OK then Done ((AStatus_fromStatus st, ret, False), w)
         else andThen (AIBinder_transact B code inp w) (\<lambda>((st, out), w).
           if st = STATUS_UNKNOWN_TRANSACTION \<and> dflt \<noteq> None
           then andThen (the dflt ret w) (\<lambda>((status, r), w). Done ((status, stored ret r, False), w))
           else if st \<noteq> STATUS_OK then Done ((AStatus_fromStatus st, ret, False), w)
           else case AParcel_readStatusHeader K StatusOk out of ((st, status), out) \<Rightarrow>
             if st \<noteq> STATUS_OK then Done ((AStatus_fromStatus st, ret, False), w)
             else if \<not> isOk status then Done ((status, ret, False), w)
             else case rd ret out of ((st, ret), out) \<Rightarrow>
               Done ((AStatus_fromStatus st, ret, st = STATUS_OK), w)))"

definition two_args :: "('p, 'a) writer \<Rightarrow> ('p, 'b) writer \<Rightarrow> 'a \<Rightarrow> 'b \<Rightarrow> 'p \<Rightarrow> binder_status_t \<times> 'p" where
  "two_args wr1 wr2 x y p =
     (case wr1 x p of (st, p) \<Rightarrow> if st \<noteq> STATUS_OK then (st, p) else wr2 y p)"

definition no_args :: "'p \<Rightarrow> binder_status_t \<times> 'p" where
  "no_args p = (STATUS_OK, p)"

type_synonym ('r, 'w) answer = "((ScopedAStatus \<times> 'r \<times> bool) \<times> 'w) run"

definition bp_allocate :: "'p binder_ops \<Rightarrow> ('p, 'w) ibinder \<Rightarrow> 'w IAllocator option \<Rightarrow> bytes \<Rightarrow> c_int
      \<Rightarrow> AllocationResult \<Rightarrow> 'w \<Rightarrow> (AllocationResult, 'w) answer" where
  "bp_allocate K B D descriptor cnt =
     bp_call K B (FIRST_CALL_TRANSACTION K + 0) (two_args (wr_bytes K) (wr_int32 K) descriptor cnt)
       (map_option (\<lambda>I r w. whole_result (m_allocate I descriptor cnt r w)) D) (read_result K)"

definition bp_allocate2 :: "'p binder_ops \<Rightarrow> ('p, 'w) ibinder \<Rightarrow> 'w IAllocator option
      \<Rightarrow> BufferDescriptorInfo \<Rightarrow> c_int \<Rightarrow> AllocationResult \<Rightarrow> 'w \<Rightarrow> (AllocationResult, 'w) answer" where
  "bp_allocate2 K B D descriptor cnt =
     bp_call K B (FIRST_CALL_TRANSACTION K + 1) (two_args (write_info K) (wr_int32 K) descriptor cnt)
       (map_option (\<lambda>I r w. whole_result (m_allocate2 I descriptor cnt r w)) D) (read_result K)"

definition bp_isSupported :: "'p binder_ops \<Rightarrow> ('p, 'w) ibinder \<Rightarrow> 'w IAllocator option
      \<Rightarrow> BufferDescriptorInfo \<Rightarrow> bool \<Rightarrow> 'w \<Rightarrow> (bool, 'w) answer" where
  "bp_isSupported K B D descriptor =
     bp_call K B (FIRST_CALL_TRANSACTION K + 2) (write_info K descriptor)
       (map_option (\<lambda>I r. m_isSupported I descriptor) D) (rd_bool K)"

definition bp_getIMapperLibrarySuffix :: "'p binder_ops \<Rightarrow> ('p, 'w) ibinder \<Rightarrow> 'w IAllocator option
      \<Rightarrow> bytes \<Rightarrow> 'w \<Rightarrow> (bytes, 'w) answer" where
  "bp_getIMapperLibrarySuffix K B D =
     bp_call K B (FIRST_CALL_TRANSACTION K + 3) no_args
       (map_option (\<lambda>I r. m_getIMapperLibrarySuffix I) D) (rd_string K)"

definition bp_getInterfaceVersion :: "'p binder_ops \<Rightarrow> ('p, 'w) ibinder \<Rightarrow> 'w IAllocator option
      \<Rightarrow> c_int \<Rightarrow> BpAllocator \<Rightarrow> 'w \<Rightarrow> ((ScopedAStatus \<times> c_int) \<times> BpAllocator \<times> 'w) run" where
  "bp_getInterfaceVersion K B D ret px w =
    (if cached_version px \<noteq> - 1 then Done ((StatusOk, cached_version px), px, w)
     else andThen (bp_call K B (FIRST_CALL_TRANSACTION K + 16777214) no_args
            (map_option (\<lambda>I r. m_getInterfaceVersion I) D) (rd_int32 K) ret w)
          (\<lambda>((status, ret, got), w).
             Done ((status, ret), if got then px\<lparr>cached_version := ret\<rparr> else px, w)))"

definition bp_getInterfaceHash :: "'p binder_ops \<Rightarrow> ('p, 'w) ibinder \<Rightarrow> 'w IAllocator option
      \<Rightarrow> bytes \<Rightarrow> BpAllocator \<Rightarrow> 'w \<Rightarrow> ((ScopedAStatus \<times> bytes) \<times> BpAllocator \<times> 'w) run" where
  "bp_getInterfaceHash K B D ret px w =
    (if cached_hash px \<noteq> map of_char ''-1'' then Done ((StatusOk, cached_hash px), px, w)
     else andThen (bp_call K B (FIRST_CALL_TRANSACTION K + 16777213) no_args
            (map_option (\<lambda>I r. m_getInterfaceHash I) D) (rd_string K) ret w)
          (\<lambda>((status, ret, got), w).
             Done ((status, ret), if got then px\<lparr>cached_hash := ret\<rparr> else px, w)))"

section \<open>Interface objects\<close>

text \<open>
  \<open>fromBinder\<close>: the local object behind a handle of this process, a new proxy for any other.
  Reading and writing the handle itself, and the default implementation, which may be set once.
\<close>

datatype 'w interface = LocalObject "'w IAllocator" | RemoteObject BpAllocator

definition fromBinder :: "('b \<Rightarrow> bool) \<Rightarrow> ('b \<Rightarrow> 'w IAllocator option) \<Rightarrow> 'b \<Rightarrow> 'w interface option" where
  "fromBinder associateClass asInterface handle =
    (if \<not> associateClass handle then None
     else case asInterface handle of
            Some i \<Rightarrow> Some (LocalObject i)
          | None \<Rightarrow> Some (RemoteObject new_proxy))"

definition IAllocator_writeToParcel ::
    "('p, 'b option) writer \<Rightarrow> ('i \<Rightarrow> 'b) \<Rightarrow> ('p, 'i option) writer" where
  "IAllocator_writeToParcel writeStrongBinder asBinder inst p =
     writeStrongBinder (map_option asBinder inst) p"

definition IAllocator_readFromParcel ::
    "('p, 'b) reader \<Rightarrow> 'b \<Rightarrow> ('b \<Rightarrow> bool) \<Rightarrow> ('b \<Rightarrow> 'w IAllocator option) \<Rightarrow> ('p, 'w interface option) reader" where
  "IAllocator_readFromParcel readStrongBinder null associateClass asInterface inst p =
     (case readStrongBinder null p of ((st, handle), p) \<Rightarrow>
        if st \<noteq> STATUS_OK then ((st, inst), p)
        else ((STATUS_OK, fromBinder associateClass asInterface handle), p))"

definition setDefaultImpl ::
    "'w IAllocator option \<Rightarrow> 'w IAllocator option \<Rightarrow> (bool \<times> 'w IAllocator option) run" where
  "setDefaultImpl impl default_impl =
    (if default_impl \<noteq> None then Fault AssertFail
     else if impl \<noteq> None then Done (True, impl) else Done (False, default_impl))"

section \<open>What the transport promises\<close>

text \<open>
  A transaction starts in a parcel positioned inside its data, runs the server's dispatch on a
  parcel with the same data rewound to that position, and hands back the reply rewound likewise.
\<close>

definition carries :: "'p binder_ops \<Rightarrow> ('p, 'b) view \<Rightarrow> 'w IAllocator \<Rightarrow> ('p, 'w) ibinder
      \<Rightarrow> u32 \<Rightarrow> nat \<Rightarrow> 'b list \<Rightarrow> 'p \<Rightarrow> 'w \<Rightarrow> bool" where
  "carries K V I B code i d q w \<longleftrightarrow>
     (\<exists>inp out e k. V inp = (d, i) \<and> V out = (e, k) \<and> k \<le> length e \<and>
        (case onTransact K I code inp out w of
           Fault f \<Rightarrow> AIBinder_transact B code q w = Fault f
         | Done ((st, out'), w') \<Rightarrow>
             (\<exists>r. AIBinder_transact B code q w = Done ((st, r), w') \<and> V r = (fst (V out'), k))))"

definition delivers :: "'p binder_ops \<Rightarrow> ('p, 'b) view \<Rightarrow> 'w IAllocator \<Rightarrow> ('p, 'w) ibinder \<Rightarrow> bool" where
  "delivers K V I B \<longleftrightarrow>
     (\<forall>w. \<exists>p c i. AIBinder_prepareTransaction B w = ((STATUS_OK, p), w) \<and> V p = (c, i) \<and> i \<le> length c \<and>
        (\<forall>code q d j. V q = (d, j) \<longrightarrow> carries K V I B code i d q w))"

record 'b binder_encodings =
  e_parcel :: "'b encodings"
  e_bytes :: "bytes \<Rightarrow> 'b list \<Rightarrow> bool"
  e_bool :: "bool \<Rightarrow> 'b list \<Rightarrow> bool"
  e_status :: "ScopedAStatus \<Rightarrow> 'b list \<Rightarrow> bool"
  e_info :: "(BufferDescriptorInfo \<Rightarrow> 'b list \<Rightarrow> bool) \<Rightarrow> BufferDescriptorInfo \<Rightarrow> 'b list \<Rightarrow> bool"
  e_result :: "(AllocationResult \<Rightarrow> 'b list \<Rightarrow> bool) \<Rightarrow> AllocationResult \<Rightarrow> 'b list \<Rightarrow> bool"

definition binder_contract :: "'p binder_ops \<Rightarrow> ('p, 'b) view \<Rightarrow> 'b binder_encodings \<Rightarrow> bool" where
  "binder_contract K V E \<longleftrightarrow>
     parcel_contract (parcel_ops.truncate K) V (e_parcel E) \<and>
     codec V (e_bytes E) (whole (=)) (rd_bytes K) (wr_bytes K) \<and>
     codec V (e_bool E) (whole (=)) (rd_bool K) (wr_bool K) \<and>
     codec V (e_status E) (whole (=)) (AParcel_readStatusHeader K) (AParcel_writeStatusHeader K) \<and>
     (\<forall>e r rd wr. codec V e (whole r) rd wr \<longrightarrow> codec V (e_info E e) (whole r) (rd_info K rd) (wr_info K wr)) \<and>
     (\<forall>e r rd wr. codec V e (whole r) rd wr \<longrightarrow> codec V (e_result E e) (whole r) (rd_result K rd) (wr_result K wr))"

lemma binder_contractD:
  assumes "binder_contract K V E"
  shows "codec V (e_bytes E) (whole (=)) (rd_bytes K) (wr_bytes K)"
    and "codec V (e_bool E) (whole (=)) (rd_bool K) (wr_bool K)"
    and "codec V (e_status E) (whole (=)) (AParcel_readStatusHeader K) (AParcel_writeStatusHeader K)"
    and "codec V (\<lambda>n bs. bs = e_int32 (e_parcel E) n) (whole (=)) (rd_int32 K) (wr_int32 K)"
    and "codec V (e_string (e_parcel E)) (whole (=)) (rd_string K) (wr_string K)"
    and "\<exists>e. codec V e (whole (=)) (read_info K) (write_info K)"
    and "\<exists>e. codec V e (whole same_result) (read_result K) (write_result K)"
proof -
  have p: "parcel_contract (parcel_ops.truncate K) V (e_parcel E)"
    using assms by (simp add: binder_contract_def)
  show "codec V (\<lambda>n bs. bs = e_int32 (e_parcel E) n) (whole (=)) (rd_int32 K) (wr_int32 K)"
    and "codec V (e_string (e_parcel E)) (whole (=)) (rd_string K) (wr_string K)"
    using parcel_contractD(3,5) [OF p] by (simp_all add: parcel_ops.truncate_def)
  show "\<exists>e. codec V e (whole (=)) (read_info K) (write_info K)"
    using BufferDescriptorInfo_codec [OF p] assms unfolding binder_contract_def by blast
  show "\<exists>e. codec V e (whole same_result) (read_result K) (write_result K)"
    using AllocationResult_codec [OF p] assms unfolding binder_contract_def by blast
qed (use assms in \<open>simp_all add: binder_contract_def\<close>)

section \<open>A call through the transport\<close>

text \<open>
  The proxy's answer \<open>c\<close> to a call that the server answers with \<open>m\<close>: an error of the transport, or
  the server's status, with its value if it is good and with nothing stored if it is not.
\<close>

definition same_answer :: "('r \<Rightarrow> 'r \<Rightarrow> bool) \<Rightarrow> 'r \<Rightarrow> ((ScopedAStatus \<times> 'r option) \<times> 'w) run
      \<Rightarrow> ('r, 'w) answer \<Rightarrow> bool" where
  "same_answer R ret m c \<longleftrightarrow>
     (case c of
        Fault f \<Rightarrow> m = Fault f \<or> (f = UninitRead \<and> (\<exists>w. m = Done ((StatusOk, None), w)))
      | Done ((st, r, got), w) \<Rightarrow>
          (\<exists>e. e \<noteq> STATUS_OK \<and> st = FromStatus e) \<or>
          (\<exists>r0. m = Done ((st, r0), w) \<and>
             (if isOk st then \<exists>x. r0 = Some x \<and> R x r else r = ret)))"

lemma send_reply_cases:
  assumes cs: "codec V es (whole (=)) (AParcel_readStatusHeader K) (AParcel_writeStatusHeader K)"
    and ce: "codec V e (whole R) rd wr" and m: "m = Done ((status, r0), w)"
    and v: "V out = (c, k)" "k \<le> length c"
    and run: "send_reply K wr out m = Done ((st, out'), w')"
  shows "w' = w \<and> (st \<noteq> STATUS_OK \<or>
    (\<exists>sb. es status sb \<and>
      (if isOk status then \<exists>x xb. r0 = Some x \<and> e x xb \<and> fst (V out') = overwrite c k (sb @ xb)
       else fst (V out') = overwrite c k sb)))"
proof -
  obtain st1 out1 where h: "AParcel_writeStatusHeader K status out = (st1, out1)"
    by fastforce
  show ?thesis
  proof (cases "st1 = STATUS_OK")
    case True
    then obtain sb where sb: "es status sb" "V out1 = (overwrite c k sb, k + length sb)"
      using codec_write [OF cs h [unfolded True] v] by blast
    show ?thesis
    proof (cases "isOk status")
      case ok: True
      then obtain x where x: "r0 = Some x" "w' = w" "wr x out1 = (st, out')"
        using run m h True by (auto simp: send_reply_def split: option.splits)
      show ?thesis
      proof (cases "st = STATUS_OK")
        case True
        then obtain xb where "e x xb" "V out' = (overwrite (overwrite c k sb) (k + length sb) xb,
            k + length sb + length xb)"
          using codec_write [OF ce _ sb(2) length_overwrite [OF v(2)]] x(3) by blast
        then show ?thesis
          using sb(1) x ok overwrite_twice [OF v(2), of sb xb] by auto
      qed (use x in simp)
    next
      case False
      then show ?thesis
        using run m h True sb by (auto simp: send_reply_def)
    qed
  next
    case False
    then show ?thesis
      using run m h by (auto simp: send_reply_def)
  qed
qed

lemma send_reply_fault:
  assumes "send_reply K wr out m = Fault f"
  shows "m = Fault f \<or> (f = UninitRead \<and> (\<exists>w. m = Done ((StatusOk, None), w)))"
  using assms by (cases m) (auto simp: send_reply_def isOk_def split: prod.splits if_splits option.splits)

text \<open>What the proxy makes of a reply.\<close>

lemma reply_read:
  assumes cs: "codec V es (whole (=)) (AParcel_readStatusHeader K) (AParcel_writeStatusHeader K)"
    and ce: "codec V e (whole R) rd wr" and sb: "es status sb" and v: "V r = (d, k)"
    and d: "if isOk status then \<exists>x xb. r0 = Some x \<and> e x xb \<and> slice_at d k (sb @ xb) else slice_at d k sb"
  shows "\<exists>r1. AParcel_readStatusHeader K StatusOk r = ((STATUS_OK, status), r1) \<and>
    (isOk status \<longrightarrow> (\<exists>x v r2. r0 = Some x \<and> rd ret r1 = ((STATUS_OK, v), r2) \<and> R x v))"
proof -
  have s: "slice_at d k sb"
    using d slice_at_append(1) by (metis (full_types))
  obtain r1 where r1: "AParcel_readStatusHeader K StatusOk r = ((STATUS_OK, status), r1)" "V r1 = (d, k + length sb)"
    using codec_read [OF cs v sb s] unfolding whole_def by metis
  moreover have "\<exists>x v r2. r0 = Some x \<and> rd ret r1 = ((STATUS_OK, v), r2) \<and> R x v"
    if ok: "isOk status"
  proof -
    obtain x xb where x: "r0 = Some x" "e x xb" "slice_at d k (sb @ xb)"
      using d ok by auto
    from codec_read [OF ce r1(2) x(2) slice_at_append(2) [OF x(3)], of ret] show ?thesis
      using x(1) unfolding whole_def by metis
  qed
  ultimately show ?thesis
    by blast
qed

lemma reply_transparent:
  assumes cs: "codec V es (whole (=)) (AParcel_readStatusHeader K) (AParcel_writeStatusHeader K)"
    and ce: "codec V e (whole R) rd wr" and run: "send_reply K wr out m = Done ((STATUS_OK, out2), w2)"
    and io: "V out = (d, k)" "k \<le> length d" "V r = (fst (V out2), k)"
    and m: "m = Done ((status, r0), w2)"
  shows "\<exists>r1. AParcel_readStatusHeader K StatusOk r = ((STATUS_OK, status), r1) \<and>
    (isOk status \<longrightarrow> (\<exists>x v r2. r0 = Some x \<and> rd ret r1 = ((STATUS_OK, v), r2) \<and> R x v))"
proof -
  obtain sb where sb: "es status sb" "if isOk status
      then \<exists>x xb. r0 = Some x \<and> e x xb \<and> fst (V out2) = overwrite d k (sb @ xb)
      else fst (V out2) = overwrite d k sb"
    using send_reply_cases [OF cs ce m io(1,2) run] by blast
  have "if isOk status then \<exists>x xb. r0 = Some x \<and> e x xb \<and> slice_at (fst (V out2)) k (sb @ xb)
      else slice_at (fst (V out2)) k sb"
    using sb(2) slice_at_overwrite [OF io(2)] by (auto split: if_splits) blast
  from reply_read [OF cs ce sb(1) io(3) this] show ?thesis .
qed

lemma bp_call_sent:
  assumes cs: "codec V es (whole (=)) (AParcel_readStatusHeader K) (AParcel_writeStatusHeader K)"
    and ce: "codec V e (whole R) rd wr"
    and q: "AIBinder_prepareTransaction B w = ((STATUS_OK, p), w)" "marshal p = (STATUS_OK, q)"
    and out: "V out = (d, k)" "k \<le> length d"
    and res: "case send_reply K wr out (M w) of
       Fault f \<Rightarrow> AIBinder_transact B code q w = Fault f
     | Done ((st, out'), w') \<Rightarrow>
         (\<exists>r. AIBinder_transact B code q w = Done ((st, r), w') \<and> V r = (fst (V out'), k))"
  shows "same_answer R ret (M w) (bp_call K B code marshal None rd ret w)"
proof (cases "send_reply K wr out (M w)")
  case (Fault f)
  then show ?thesis
    using res q send_reply_fault [OF Fault] by (simp add: bp_call_def same_answer_def)
next
  case (Done x)
  then obtain st out2 w2 where s2: "send_reply K wr out (M w) = Done ((st, out2), w2)"
    by (metis prod.exhaust)
  then obtain r where t: "AIBinder_transact B code q w = Done ((st, r), w2)" "V r = (fst (V out2), k)"
    using res by auto
  obtain status r0 where m: "M w = Done ((status, r0), w2)"
    using s2 send_reply_cases [OF cs ce _ out] by (cases "M w") (fastforce simp: send_reply_def)+
  show ?thesis
  proof (cases "st = STATUS_OK")
    case False
    then show ?thesis
      using q t by (simp add: bp_call_def same_answer_def AStatus_fromStatus_def)
  next
    case True
    obtain r1 where r1: "AParcel_readStatusHeader K StatusOk r = ((STATUS_OK, status), r1)"
        "isOk status \<longrightarrow> (\<exists>x v r2. r0 = Some x \<and> rd ret r1 = ((STATUS_OK, v), r2) \<and> R x v)"
      using reply_transparent [OF cs ce s2 [unfolded True] out t(2) m] by blast
    then show ?thesis
      using q True t(1) m
      by (cases "isOk status") (auto simp: bp_call_def same_answer_def AStatus_fromStatus_def isOk_def)
  qed
qed

lemma bp_call_transparent:
  assumes del: "delivers K V I B"
    and cs: "codec V es (whole (=)) (AParcel_readStatusHeader K) (AParcel_writeStatusHeader K)"
    and ce: "codec V e (whole R) rd wr"
    and mar: "\<And>p c i p'. V p = (c, i) \<Longrightarrow> i \<le> length c \<Longrightarrow> marshal p = (STATUS_OK, p') \<Longrightarrow>
      \<exists>bs. A bs \<and> V p' = (overwrite c i bs, i + length bs)"
    and srv: "\<And>inp out c i bs w. V inp = (c, i) \<Longrightarrow> A bs \<Longrightarrow> slice_at c i bs \<Longrightarrow>
      onTransact K I code inp out w = send_reply K wr out (M w)"
  shows "same_answer R ret (M w) (bp_call K B code marshal None rd ret w)"
proof -
  obtain p c i where pr: "AIBinder_prepareTransaction B w = ((STATUS_OK, p), w)" and v: "V p = (c, i)" "i \<le> length c"
    and tr: "\<And>q d j. V q = (d, j) \<Longrightarrow> carries K V I B code i d q w"
    using del unfolding delivers_def by blast
  obtain st q where q: "marshal p = (st, q)"
    by fastforce
  show ?thesis
  proof (cases "st = STATUS_OK")
    case False
    then show ?thesis
      using pr q by (simp add: bp_call_def same_answer_def AStatus_fromStatus_def)
  next
    case True
    then obtain bs where bs: "A bs" "V q = (overwrite c i bs, i + length bs)"
      using mar [OF v] q by blast
    obtain inp out d k where io: "V inp = (overwrite c i bs, i)" "V out = (d, k)" "k \<le> length d"
      and res: "case onTransact K I code inp out w of
         Fault f \<Rightarrow> AIBinder_transact B code q w = Fault f
       | Done ((st, out'), w') \<Rightarrow>
           (\<exists>r. AIBinder_transact B code q w = Done ((st, r), w') \<and> V r = (fst (V out'), k))"
      using tr [OF bs(2)] unfolding carries_def by blast
    have "onTransact K I code inp out w = send_reply K wr out (M w)"
      using srv [OF io(1) bs(1) slice_at_overwrite [OF v(2)]] .
    with res show ?thesis
      by (intro bp_call_sent [where marshal = marshal and M = M, OF cs ce pr q [unfolded True] io(2,3)]) simp
  qed
qed

section \<open>Marshalling\<close>

lemma one_arg_view:
  assumes "codec V e R rd wr" and "V p = (c, i)" and "i \<le> length c" and "wr x p = (STATUS_OK, p')"
  shows "\<exists>bs. e x bs \<and> V p' = (overwrite c i bs, i + length bs)"
  using codec_write [OF assms(1,4,2,3)] by blast

lemma no_args_view:
  assumes "V p = (c, i)" and "no_args p = (STATUS_OK, p')"
  shows "\<exists>bs. bs = [] \<and> V p' = (overwrite c i bs, i + length bs)"
  using assms by (simp add: no_args_def overwrite_def)

definition pair_enc :: "('a \<Rightarrow> 'b list \<Rightarrow> bool) \<Rightarrow> ('c \<Rightarrow> 'b list \<Rightarrow> bool) \<Rightarrow> 'a \<Rightarrow> 'c \<Rightarrow> 'b list \<Rightarrow> bool" where
  "pair_enc e f x y bs \<longleftrightarrow> (\<exists>a b. bs = a @ b \<and> e x a \<and> f y b)"

lemma two_args_view:
  assumes k: "codec V e R rd wr" "codec V f S rd' wr'" and v: "V p = (c, i)" "i \<le> length c"
    and w: "two_args wr wr' x y p = (STATUS_OK, p')"
  shows "\<exists>bs. pair_enc e f x y bs \<and> V p' = (overwrite c i bs, i + length bs)"
proof -
  obtain p1 where p1: "wr x p = (STATUS_OK, p1)" "wr' y p1 = (STATUS_OK, p')"
    using w by (auto simp: two_args_def split: prod.splits if_splits)
  obtain a where a: "e x a" "V p1 = (overwrite c i a, i + length a)"
    using codec_write [OF k(1) p1(1) v] by blast
  obtain b where "f y b" "V p' = (overwrite (overwrite c i a) (i + length a) b, i + length a + length b)"
    using codec_write [OF k(2) p1(2) a(2) length_overwrite [OF v(2)]] by blast
  then show ?thesis
    using a(1) overwrite_twice [OF v(2), of a b]
    by (intro exI [of _ "a @ b"]) (auto simp: pair_enc_def add.assoc)
qed

lemma two_args_read:
  assumes k: "codec V e (whole (=)) rd wr" "codec V f (whole (=)) rd' wr'" and v: "V q = (c, i)"
    and bs: "pair_enc e f x y bs" "slice_at c i bs"
  shows "\<exists>q1 q2. rd old q = ((STATUS_OK, x), q1) \<and> rd' old' q1 = ((STATUS_OK, y), q2)"
proof -
  obtain a b where ab: "bs = a @ b" "e x a" "f y b"
    using bs(1) by (auto simp: pair_enc_def)
  note sl = slice_at_append [OF bs(2) [unfolded ab(1)]]
  obtain q1 where q1: "rd old q = ((STATUS_OK, x), q1)" "V q1 = (c, i + length a)"
    using codec_read [OF k(1) v ab(2) sl(1)] unfolding whole_def by metis
  show ?thesis
    using q1 codec_read [OF k(2) q1(2) ab(3) sl(2), of old'] unfolding whole_def by metis
qed

lemma one_arg_read:
  assumes "codec V e (whole (=)) rd wr" and "V q = (c, i)" and "e x bs" and "slice_at c i bs"
  shows "\<exists>q1. rd old q = ((STATUS_OK, x), q1)"
  using codec_read [OF assms, of old] unfolding whole_def by metis

section \<open>The methods\<close>

lemma transparent_allocate:
  assumes k: "binder_contract K V E" and d: "delivers K V I B"
  shows "same_answer same_result ret (whole_result (m_allocate I descriptor cnt new_result w))
    (bp_allocate K B None descriptor cnt ret w)"
proof -
  note c = binder_contractD [OF k]
  obtain e where e: "codec V e (whole same_result) (read_result K) (write_result K)"
    using c(7) by blast
  show ?thesis
    unfolding bp_allocate_def option.map
  proof (rule bp_call_transparent [OF d c(3) e])
    show "onTransact K I (FIRST_CALL_TRANSACTION K + 0) inp out w = send_reply K (write_result K) out
        (whole_result (m_allocate I descriptor cnt new_result w))"
      if "V inp = (c, i)" and "pair_enc (e_bytes E) (\<lambda>n bs. bs = e_int32 (e_parcel E) n) descriptor cnt bs"
        and "slice_at c i bs" for inp out c i bs w
      using two_args_read [OF c(1,4) that, of "[]" 0] by (auto simp: onTransact_def)
  qed (rule two_args_view [OF c(1,4)])
qed

lemma transparent_allocate2:
  assumes k: "binder_contract K V E" and d: "delivers K V I B"
  shows "same_answer same_result ret (whole_result (m_allocate2 I descriptor cnt new_result w))
    (bp_allocate2 K B None descriptor cnt ret w)"
proof -
  note c = binder_contractD [OF k]
  obtain e where e: "codec V e (whole same_result) (read_result K) (write_result K)"
    using c(7) by blast
  obtain f where f: "codec V f (whole (=)) (read_info K) (write_info K)"
    using c(6) by blast
  show ?thesis
    unfolding bp_allocate2_def option.map
  proof (rule bp_call_transparent [OF d c(3) e])
    show "onTransact K I (FIRST_CALL_TRANSACTION K + 1) inp out w = send_reply K (write_result K) out
        (whole_result (m_allocate2 I descriptor cnt new_result w))"
      if "V inp = (c, i)" and "pair_enc f (\<lambda>n bs. bs = e_int32 (e_parcel E) n) descriptor cnt bs"
        and "slice_at c i bs" for inp out c i bs w
      using two_args_read [OF f c(4) that, of new_info 0] by (auto simp: onTransact_def)
  qed (rule two_args_view [OF f c(4)])
qed

lemma transparent_isSupported:
  assumes k: "binder_contract K V E" and d: "delivers K V I B"
  shows "same_answer (=) ret (m_isSupported I descriptor w) (bp_isSupported K B None descriptor ret w)"
proof -
  note c = binder_contractD [OF k]
  obtain f where f: "codec V f (whole (=)) (read_info K) (write_info K)"
    using c(6) by blast
  show ?thesis
    unfolding bp_isSupported_def option.map
  proof (rule bp_call_transparent [OF d c(3,2)])
    show "onTransact K I (FIRST_CALL_TRANSACTION K + 2) inp out w
        = send_reply K (wr_bool K) out (m_isSupported I descriptor w)"
      if "V inp = (c, i)" and "f descriptor bs" and "slice_at c i bs" for inp out c i bs w
      using one_arg_read [OF f that, of new_info] by (auto simp: onTransact_def)
  qed (rule one_arg_view [OF f])
qed

lemma transparent_suffix:
  assumes k: "binder_contract K V E" and d: "delivers K V I B"
  shows "same_answer (=) ret (or_empty (m_getIMapperLibrarySuffix I w))
    (bp_getIMapperLibrarySuffix K B None ret w)"
proof -
  note c = binder_contractD [OF k]
  show ?thesis
    unfolding bp_getIMapperLibrarySuffix_def option.map
    by (rule bp_call_transparent [OF d c(3,5), where A = "\<lambda>bs. bs = []"])
      (use no_args_view in \<open>auto simp: onTransact_def\<close>)
qed

lemma transparent_version:
  assumes k: "binder_contract K V E" and d: "delivers K V I B"
  shows "same_answer (=) ret (m_getInterfaceVersion I w)
    (bp_call K B (FIRST_CALL_TRANSACTION K + 16777214) no_args None (rd_int32 K) ret w)"
proof -
  note c = binder_contractD [OF k]
  show ?thesis
    by (rule bp_call_transparent [OF d c(3,4), where A = "\<lambda>bs. bs = []"])
      (use no_args_view in \<open>auto simp: onTransact_def\<close>)
qed

text \<open>Without a default implementation, a good status means that a reply was read.\<close>

lemma bp_call_got:
  assumes run: "bp_call K B code marshal None rd ret w = Done ((StatusOk, r, got), w')"
  shows "got"
proof -
  have ok: "st = STATUS_OK" if "AStatus_fromStatus st = StatusOk" for st
    using that by (simp add: AStatus_fromStatus_def split: if_splits)
  obtain st1 inp w1 where 1: "AIBinder_prepareTransaction B w = ((st1, inp), w1)"
    by (metis prod.exhaust)
  obtain st2 inp2 where 2: "marshal inp = (st2, inp2)"
    by fastforce
  have st12: "st1 = STATUS_OK" "st2 = STATUS_OK"
    using run 1 2 ok by (auto simp: bp_call_def split: if_splits)
  obtain st3 out w3 where 3: "AIBinder_transact B code inp2 w1 = Done ((st3, out), w3)"
    using run 1 2 st12 by (cases "AIBinder_transact B code inp2 w1") (auto simp: bp_call_def)
  obtain st4 status out4 where 4: "AParcel_readStatusHeader K StatusOk out = ((st4, status), out4)"
    by (metis prod.exhaust)
  obtain st5 v out5 where 5: "rd ret out4 = ((st5, v), out5)"
    by (metis prod.exhaust)
  show ?thesis
    using run ok by (auto simp: bp_call_def 1 2 3 4 5 st12 isOk_def split: if_splits)
qed

section \<open>A transport within one process\<close>

definition cell_binder_ops :: "cells binder_ops" where
  "cell_binder_ops = parcel_ops.extend cell_ops \<lparr>
     FIRST_CALL_TRANSACTION = 1,
     rd_bytes = get_cell (\<lambda>x. case x of Cell_s n \<Rightarrow> Some n | _ \<Rightarrow> None), wr_bytes = (\<lambda>n. put [Cell_s n]),
     rd_bool = get_cell (\<lambda>x. case x of Cell_bool n \<Rightarrow> Some n | _ \<Rightarrow> None), wr_bool = (\<lambda>n. put [Cell_bool n]),
     AParcel_readStatusHeader = get_cell (\<lambda>x. case x of Cell_status n \<Rightarrow> Some n | _ \<Rightarrow> None),
     AParcel_writeStatusHeader = (\<lambda>n. put [Cell_status n]),
     rd_info = id, wr_info = id, rd_result = id, wr_result = id\<rparr>"

definition cell_binder_encodings :: "cell binder_encodings" where
  "cell_binder_encodings = \<lparr>e_parcel = cell_encodings, e_bytes = (\<lambda>n bs. bs = [Cell_s n]),
     e_bool = (\<lambda>n bs. bs = [Cell_bool n]), e_status = (\<lambda>n bs. bs = [Cell_status n]), e_info = id, e_result = id\<rparr>"

lemma truncate_cells [simp]: "parcel_ops.truncate cell_binder_ops = cell_ops"
  by (simp add: cell_binder_ops_def parcel_ops.defs)

lemma cell_binder_contract: "binder_contract cell_binder_ops cells cell_binder_encodings"
  unfolding binder_contract_def truncate_cells
  by (simp add: cell_binder_ops_def cell_binder_encodings_def parcel_ops.defs cell_contract codec_cell)

definition loopback :: "'w IAllocator \<Rightarrow> (cells, 'w) ibinder" where
  "loopback I = \<lparr>
     AIBinder_prepareTransaction = (\<lambda>w. ((STATUS_OK, ([], 0)), w)),
     AIBinder_transact = (\<lambda>code q w.
       andThen (onTransact cell_binder_ops I code (fst (cells q), 0) ([], 0) w)
         (\<lambda>((st, out), w). Done ((st, (fst (cells out), 0)), w)))\<rparr>"

lemma loopback_delivers: "delivers cell_binder_ops cells I (loopback I)"
proof -
  have rew: "cells (fst (cells q), 0) = (fst (cells q), 0)" for q
    using cells_bound(2) [of q] by (simp add: cells_id)
  have "carries cell_binder_ops cells I (loopback I) code 0 d q w" if "cells q = (d, j)" for code d j q w
    unfolding carries_def
  proof (intro exI conjI)
    show "cells (d, 0) = (d, 0)"
      using rew [of q] that by simp
    show "cells ([], 0) = ([], 0)" "0 \<le> length []"
      by simp_all
    show "case onTransact cell_binder_ops I code (d, 0) ([], 0) w of
         Fault f \<Rightarrow> AIBinder_transact (loopback I) code q w = Fault f
       | Done ((st, out'), w') \<Rightarrow> (\<exists>r. AIBinder_transact (loopback I) code q w = Done ((st, r), w') \<and>
           cells r = (fst (cells out'), 0))"
      using that rew by (auto simp: loopback_def split: run.splits prod.splits)
  qed
  then show ?thesis
    by (auto simp: delivers_def loopback_def)
qed

section \<open>Properties\<close>

text \<open>C26: A call through the proxy is the call on the service: over a transport that delivers, each
  method either reports an error of the transport or answers with the status of the service's own
  method run on equal arguments in the same state, and leaves the state that method left.  With a
  good status the value is the service's, handles with new descriptors; with an error of the service
  nothing is stored.\<close>

theorem proxy_transparent:
  assumes "binder_contract K V E" and "delivers K V I B"
  shows "same_answer same_result r1 (whole_result (m_allocate I encoded cnt new_result w))
      (bp_allocate K B None encoded cnt r1 w) \<and>
    same_answer same_result r1 (whole_result (m_allocate2 I info cnt new_result w))
      (bp_allocate2 K B None info cnt r1 w) \<and>
    same_answer (=) r2 (m_isSupported I info w) (bp_isSupported K B None info r2 w) \<and>
    same_answer (=) r3 (or_empty (m_getIMapperLibrarySuffix I w)) (bp_getIMapperLibrarySuffix K B None r3 w)"
  using transparent_allocate [OF assms] transparent_allocate2 [OF assms] transparent_isSupported [OF assms]
    transparent_suffix [OF assms] by blast

definition sample_service :: "unit allocator IAllocator" where
  "sample_service = allocator_service sample_env 1000 (\<lambda>_. (1, undefined)) 2 []"

theorem proxy_transparent_witness:
  "same_answer (=) False (Done ((StatusOk, Some True), sample_allocator))
     (bp_isSupported cell_binder_ops (loopback sample_service) None empty_image False sample_allocator)"
proof -
  have "m_isSupported sample_service empty_image sample_allocator
      = Done ((StatusOk, Some True), sample_allocator)"
    by (simp add: sample_service_def allocator_service_def isSupported_def empty_image_def)
  with proxy_transparent [OF cell_binder_contract loopback_delivers, where I = sample_service
      and w = sample_allocator and info = empty_image and ?r2.0 = False]
  show ?thesis
    by simp
qed

text \<open>A proxy asks for the interface version at most until it gets an answer: the first good
  reply is the service's version, and from then on, unless that version is the marker -1, the proxy
  answers from its cache without a transaction and without touching anything.\<close>

theorem version_is_cached:
  assumes "binder_contract K V E" and "delivers K V I B"
    and v: "m_getInterfaceVersion I w = Done ((StatusOk, Some version), w)" and "version \<noteq> - 1"
    and run: "bp_getInterfaceVersion K B None r new_proxy w = Done ((StatusOk, r'), px, w')"
  shows "r' = version \<and> w' = w \<and>
    bp_getInterfaceVersion K B' D r'' px w'' = Done ((StatusOk, version), px, w'')"
proof -
  have n: "cached_version new_proxy = - 1"
    by (simp add: new_proxy_def)
  obtain got where c: "bp_call K B (FIRST_CALL_TRANSACTION K + 16777214) no_args None (rd_int32 K) r w
      = Done ((StatusOk, r', got), w')" and px: "px = (if got then new_proxy\<lparr>cached_version := r'\<rparr> else new_proxy)"
    using run n by (auto simp: bp_getInterfaceVersion_def andThen_eq_Done)
  have "got"
    by (rule bp_call_got [OF c])
  then show ?thesis
    using transparent_version [OF assms(1,2), of r w] c px v assms(4)
    by (simp add: same_answer_def isOk_def bp_getInterfaceVersion_def)
qed

lemma sample_version_run:
  "\<exists>px. bp_getInterfaceVersion cell_binder_ops (loopback sample_service) None 0 new_proxy sample_allocator
     = Done ((StatusOk, 2), px, sample_allocator)"
  by (simp add: bp_getInterfaceVersion_def new_proxy_def bp_call_def loopback_def no_args_def onTransact_def
      cell_binder_ops_def cell_ops_def parcel_ops.defs send_reply_def sample_service_def allocator_service_def
      BnAllocator_getInterfaceVersion_def put_def put_int32_def get_int32_def get_cell_def isOk_def
      overwrite_def cells_def AStatus_fromStatus_def)

theorem version_is_cached_witness:
  "\<exists>px. bp_getInterfaceVersion cell_binder_ops (loopback sample_service) None 0 new_proxy sample_allocator
       = Done ((StatusOk, 2), px, sample_allocator) \<and>
     bp_getInterfaceVersion cell_binder_ops (loopback sample_service) None 7 px sample_allocator
       = Done ((StatusOk, 2), px, sample_allocator)"
proof -
  obtain px where r: "bp_getInterfaceVersion cell_binder_ops (loopback sample_service) None 0 new_proxy
      sample_allocator = Done ((StatusOk, 2), px, sample_allocator)"
    using sample_version_run by blast
  have "m_getInterfaceVersion sample_service sample_allocator = Done ((StatusOk, Some 2), sample_allocator)"
    by (simp add: sample_service_def allocator_service_def BnAllocator_getInterfaceVersion_def)
  from version_is_cached [OF cell_binder_contract loopback_delivers this _ r] r show ?thesis
    by auto
qed

end
