(* ===== verification/Codec_Loops.thy ===== *)
theory Codec_Loops
  imports Standard_Metadata
begin

text \<open>
  The counted loops of the decoders of IMapperMetadataTypes.h (v34) end early: the count comes from
  the stream and may be anything, but each round either consumes bytes or fails the reader, and a
  failed reader ends the loop.
\<close>

section \<open>Readers that consume\<close>

definition consumes :: "nat \<Rightarrow> (metadata_reader \<Rightarrow> ('a \<times> metadata_reader) run) \<Rightarrow> bool" where
  "consumes k rd \<longleftrightarrow>
     (\<forall>r x r'. rd r = Done (x, r') \<longrightarrow> mOk r' \<longrightarrow> mOk r \<and> length (mSrc r') + k \<le> length (mSrc r))"

lemma advance_consumes:
  assumes "advance n r = (x, r')" and "mOk r'"
  shows "mOk r" and "length (mSrc r') + n = length (mSrc r)"
  using assms by (auto simp: advance_def split: if_splits)

lemma readInt_consumes:
  fixes x :: "'a::len word option"
  assumes "readInt r = (x, r')" and "mOk r'"
  shows "mOk r \<and> length (mSrc r') + LENGTH('a) div 8 = length (mSrc r)"
  using assms advance_consumes by (fastforce simp: readInt_def split: prod.splits option.splits)

lemma read_int_consumes:
  fixes x :: "'a::len word"
  assumes "read_int r = (x, r')" and "mOk r'"
  shows "mOk r \<and> length (mSrc r') + LENGTH('a) div 8 = length (mSrc r)"
  using assms readInt_consumes by (fastforce simp: read_int_def split: prod.splits option.splits)

lemma readString_consumes:
  assumes "readString r = (x, r')" and "mOk r'"
  shows "mOk r \<and> length (mSrc r') + 8 \<le> length (mSrc r)"
proof -
  obtain len :: "u64 option" and r1 where i: "readInt r = (len, r1)"
    by fastforce
  have "mOk r1 \<and> length (mSrc r') \<le> length (mSrc r1)"
    using assms i advance_consumes [of "unat (the len)" r1]
    by (fastforce simp: readString_def split: prod.splits option.splits)
  then show ?thesis
    using readInt_consumes [OF i] by simp
qed

lemma read_extendable_consumes:
  assumes "read_extendable r = (x, r')" and "mOk r'"
  shows "mOk r \<and> length (mSrc r') + 16 \<le> length (mSrc r)"
proof -
  obtain name r1 where n: "readString r = (name, r1)"
    by fastforce
  obtain v :: u64 where "read_int r1 = (v, r')"
    using assms(1) n by (auto simp: read_extendable_def split: prod.splits)
  then show ?thesis
    using read_int_consumes assms(2) readString_consumes [OF n] by fastforce
qed

lemma read_rect_consumes: "consumes 16 read_rect"
  unfolding consumes_def
proof (intro allI impI)
  fix r x r' assume run: "read_rect r = Done (x, r')" and ok: "mOk r'"
  obtain a b c d :: u32 and r1 r2 r3 where "read_int r = (a, r1)" "read_int r1 = (b, r2)" "read_int r2 = (c, r3)"
    "read_int r3 = (d, r')"
    using run by (auto simp: read_rect_def split: prod.splits)
  from this [THEN read_int_consumes] show "mOk r \<and> length (mSrc r') + 16 \<le> length (mSrc r)"
    using ok by simp
qed

lemma read_component_consumes: "consumes 32 read_component"
  unfolding consumes_def
proof (intro allI impI)
  fix r x r' assume run: "read_component r = Done (x, r')" and ok: "mOk r'"
  obtain ty and b c :: u64 and r1 r2 where e: "read_extendable r = (ty, r1)" and "read_int r1 = (b, r2)" "read_int r2 = (c, r')"
    using run by (auto simp: read_component_def split: prod.splits)
  from this(2,3) [THEN read_int_consumes] show "mOk r \<and> length (mSrc r') + 32 \<le> length (mSrc r)"
    using ok read_extendable_consumes [OF e] by simp
qed

section \<open>Loops over them\<close>

lemma read_loop_failed: "\<not> mOk r \<Longrightarrow> read_loop n rd r = Done ([], r)"
  by (cases n) simp_all

lemma read_loop_consumes:
  assumes "consumes k rd"
  shows "read_loop n rd r = Done (xs, r') \<Longrightarrow> mOk r' \<Longrightarrow> mOk r \<and> length (mSrc r') + k * length xs \<le> length (mSrc r)"
proof (induction n arbitrary: r xs)
  case (Suc n)
  show ?case
  proof (cases "mOk r")
    case True
    then obtain x r1 ys where "rd r = Done (x, r1)" "read_loop n rd r1 = Done (ys, r')" "xs = x # ys"
      using Suc.prems(1) by (auto simp: andThen_eq_Done)
    then show ?thesis
      using Suc.IH Suc.prems(2) assms by (fastforce simp: consumes_def)
  qed (use Suc.prems in simp)
qed simp

lemma read_loop_cap:
  assumes c: "consumes k rd" "0 < k"
  shows "length (mSrc r) div k < m \<Longrightarrow> m \<le> n \<Longrightarrow> read_loop n rd r = read_loop m rd r"
proof (induction m arbitrary: n r)
  case (Suc m)
  obtain n' where n: "n = Suc n'" "m \<le> n'"
    using Suc.prems(2) by (cases n) auto
  show ?case
  proof (cases "mOk r \<and> is_done (rd r)")
    case True
    then obtain x r1 where rd: "rd r = Done (x, r1)"
      by (auto simp: is_done_iff)
    have "read_loop n' rd r1 = read_loop m rd r1"
    proof (cases "mOk r1")
      case True
      then have "length (mSrc r1) + k \<le> length (mSrc r)"
        using c rd by (auto simp: consumes_def)
      then have "Suc (length (mSrc r1) div k) \<le> length (mSrc r) div k"
        using c(2) div_le_mono [of "length (mSrc r1) + k" "length (mSrc r)" k] by (simp add: div_add_self2)
      then have "length (mSrc r1) div k < m"
        using Suc.prems(1) by simp
      then show ?thesis
        by (rule Suc.IH) (rule n(2))
    qed (simp add: read_loop_failed)
    then show ?thesis
      using True rd n by simp
  next
    case False
    then show ?thesis
      using n by (cases "rd r") (auto simp: is_done_iff)
  qed
qed simp

lemma read_loop_min:
  assumes "consumes k rd" "0 < k"
  shows "read_loop n rd r = read_loop (min n (Suc (length (mSrc r) div k))) rd r"
  using read_loop_cap [OF assms, of r "Suc (length (mSrc r) div k)" n] by (auto simp: min_def)

lemma read_plane_consumes: "consumes 72 (read_plane L)"
  unfolding consumes_def
proof (intro allI impI)
  fix r x r' assume run: "read_plane L r = Done (x, r')" and ok: "mOk r'"
  obtain cs r0 where l: "read_counted (lim_components L) read_component r = Done (cs, r0)"
    using run by (auto simp: read_plane_def andThen_eq_Done)
  obtain n :: "u64 option" and q where i: "readInt r = (n, q)"
    by fastforce
  then have rl: "\<exists>m. read_loop m read_component q = Done (cs, r0)"
    using l by (auto simp: read_counted_def andThen_eq_Done Let_def)
  obtain a1 a2 a3 a4 a5 a6 a7 a8 :: u64 and r1 r2 r3 r4 r5 r6 r7
    where "read_int r0 = (a1, r1)" "read_int r1 = (a2, r2)" "read_int r2 = (a3, r3)" "read_int r3 = (a4, r4)"
      "read_int r4 = (a5, r5)" "read_int r5 = (a6, r6)" "read_int r6 = (a7, r7)" "read_int r7 = (a8, r')"
    using run l by (auto simp: read_plane_def split: prod.splits)
  from this [THEN read_int_consumes] have "mOk r0" "length (mSrc r') + 64 \<le> length (mSrc r0)"
    using ok by simp_all
  then show "mOk r \<and> length (mSrc r') + 72 \<le> length (mSrc r)"
    using rl read_loop_consumes [OF read_component_consumes] readInt_consumes [OF i] by fastforce
qed

section \<open>Properties\<close>

text \<open>C33: The decoders of rectangles and planes end whatever number of elements the stream announces.
  A loop runs at most one round more than fit into the bytes that are left (16 a rectangle, 32 a
  component, 72 a plane), however large the count is; so the loop counter, an \<open>int\<close> that is compared
  with a 64-bit count, does not overflow on metadata shorter than \<open>2 ^ 34\<close> bytes.\<close>

theorem counted_loops_end:
  "read_loop n read_rect r = read_loop (min n (Suc (length (mSrc r) div 16))) read_rect r \<and>
   read_loop n read_component r = read_loop (min n (Suc (length (mSrc r) div 32))) read_component r \<and>
   read_loop n (read_plane L) r = read_loop (min n (Suc (length (mSrc r) div 72))) (read_plane L) r"
  using read_loop_min [OF read_rect_consumes] read_loop_min [OF read_component_consumes]
    read_loop_min [OF read_plane_consumes] by simp

end
