(* ===== verification/Vts_Fixture.thy ===== *)
theory Vts_Fixture
  imports Mapper_Service Aidl_Batch Aidl_Binder
begin

text \<open>
  The fixture of the platform's conformance tests for a Stable-C mapper: the helper classes of
  src/include/stable-c-v33/vts/VtsHalGraphicsMapperStableC_TargetTest.cpp over the models of the
  allocator service and of the mapper, in two processes.
\<close>

section \<open>What a client makes of an exported buffer\<close>

text \<open>The handle a client makes from an exported one.\<close>

lemma exported_same:
  "exported desc nh \<Longrightarrow> same_handle nh nh' \<Longrightarrow> exported desc nh'"
  by (simp add: exported_def same_handle_def)

lemma fromAidl_describes:
  assumes e: "exported desc nh" and f: "fromAidl P nh dup s = (p, t)" and p: "p \<noteq> 0"
    and c: "handle_contract P" "fd_contract P"
  shows "\<exists>h. load_native p t = Done h \<and> numFds h = 1 \<and> numInts h = 12 \<and> described desc h"
proof -
  obtain fd ints where nh: "nh_fds nh = [fd]" "nh_ints nh = ints" "length ints = 12"
    using e by (auto simp: exported_def length_Suc_conv)
  obtain res e' where cr: "p_native_handle_create P (dom (handles s)) 1 12 (env s) = (res, e')"
    by fastforce
  then obtain h0 where res: "res = Some (p, h0)"
    using f p nh by (auto simp: fromAidl_def split: option.splits prod.splits)
  obtain fds s1 where tf: "take_fds P dup [fd] (s\<lparr>env := e'\<rparr>) = (fds, s1)"
    by fastforce
  have t: "t = store_handle p (store_words (fds @ ints) h0) s1"
    using f cr res tf nh by (simp add: fromAidl_def)
  note cc = handle_contract_create [OF c(1) cr [unfolded res]]
  have len: "length fds = 1"
    using take_fds_either(1) [OF tf c(2)] by simp
  let ?h = "store_words (fds @ ints) h0"
  have "handle_data ?h ! (3 + k) = ints ! (2 + k)" if "k < 4" for k
    using that len nh(3) by (simp add: nth_append)
  moreover have "take 4 (drop 2 ints) ! k = ints ! (2 + k)" if "k < 4" for k
    using that nh(3) by simp
  moreover have "take 4 (drop 2 ints) = [d_width desc, d_height desc, d_android_format desc, d_android_usage desc]"
    using e nh(2) by (simp add: exported_def)
  ultimately have "[d_width desc, d_height desc, d_android_format desc, d_android_usage desc] ! k
      = handle_data ?h ! (3 + k)" if "k < 4" for k
    using that by metis
  from this [of 0] this [of 1] this [of 2] this [of 3] have "described desc ?h"
    by (simp add: described_def handle_data_def)
  moreover have "load_native p t = Done ?h"
    using p by (simp add: t load_native_def store_handle_def)
  ultimately show ?thesis
    using cc by auto
qed

lemma same_words_described:
  assumes "described desc h" and "same_words h h'" and "numFds h = 1"
  shows "described desc h'"
  using assms by (simp add: described_def same_words_def handle_data_def)

section \<open>Tests\<close>

text \<open>
  What a test run has: the service, the mapper loaded in the client, the lines of the expectations
  that failed, and whether a failure was fatal (\<open>ASSERT\<close>), which leaves the enclosing function.
  Destructors still run then.
\<close>

record 'e fixture =
  svc :: "'e allocator"
  cli :: "'e mapper"
  failures :: "nat list"
  fatal :: bool

type_synonym ('e, 'z) test = "('e, 'z) fixture_scheme \<Rightarrow> ('e, 'z) fixture_scheme run"

definition expect :: "nat \<Rightarrow> bool \<Rightarrow> ('e, 'z) fixture_scheme \<Rightarrow> ('e, 'z) fixture_scheme" where
  "expect line ok x = (if ok then x else x\<lparr>failures := failures x @ [line]\<rparr>)"

definition EXPECT :: "nat \<Rightarrow> bool \<Rightarrow> ('e, 'z) test \<Rightarrow> ('e, 'z) test" where
  "EXPECT line ok k x = k (expect line ok x)"

definition ASSERT :: "nat \<Rightarrow> bool \<Rightarrow> ('e, 'z) test \<Rightarrow> ('e, 'z) test" where
  "ASSERT line ok k x = (if ok then k x else Done (expect line False x\<lparr>fatal := True\<rparr>))"

text \<open>\<open>ASSERT_NO_FATAL_FAILURE\<close> around a call, and a block with its own scope.\<close>

definition NO_FATAL :: "nat \<Rightarrow> ('e, 'z) test \<Rightarrow> ('e, 'z) test \<Rightarrow> ('e, 'z) test" where
  "NO_FATAL line body k x = andThen (body x) (\<lambda>x. if fatal x then Done (expect line False x) else k x)"

definition in_scope :: "('e, 'z) test \<Rightarrow> ('e, 'z) test \<Rightarrow> ('e, 'z) test" where
  "in_scope body k x = andThen (body x) (\<lambda>x. if fatal x then Done x else k x)"

definition on_mapper :: "('e mapper \<Rightarrow> ('r \<times> 'e mapper) run) \<Rightarrow> ('r \<Rightarrow> ('e, 'z) test) \<Rightarrow> ('e, 'z) test" where
  "on_mapper f k x = andThen (f (cli x)) (\<lambda>(r, m). k r (x\<lparr>cli := m\<rparr>))"

text \<open>
  Constants of libraries outside the repository (AIDL enumerations, drm_fourcc.h, gralloctypes) that
  the tests name.
\<close>

record vts_consts =
  PixelFormat_RGBA_8888 :: c_int
  PixelFormat_YV12 :: c_int
  CPU_READ_OFTEN :: u64
  CPU_WRITE_OFTEN :: u64
  CPU_READ_NEVER :: u64
  CPU_WRITE_NEVER :: u64
  FRONT_BUFFER :: u64
  GPU_RENDER_TARGET :: u64
  GPU_TEXTURE :: u64
  COMPOSER_OVERLAY :: u64
  DRM_FORMAT_ABGR8888 :: u32
  DRM_FORMAT_YVU420 :: u32
  Dataspace_DISPLAY_P3 :: u32
  BlendMode_INVALID :: u32
  BlendMode_COVERAGE :: u32
  isStandardPlaneLayoutComponentType :: "ExtendableType \<Rightarrow> bool"
  AllocationError_code :: "AllocationError \<Rightarrow> int"

text \<open>
  The platform a test runs on: the worlds of the two processes, the limits of their vectors, the
  constants, and what binder does to the descriptors of a handle that crosses.
\<close>

record 'e rig =
  r_svc :: "'e gbm_env"
  r_cli :: "'e gbm_env"
  r_lim :: nat
  r_consts :: mapper_consts
  r_vts :: vts_consts
  r_decode :: codec_limits
  r_send :: "NativeHandle \<Rightarrow> 'e proc \<Rightarrow> NativeHandle \<times> 'e proc"

section \<open>The classes of the fixture\<close>

record buffer_allocation =
  mRawHandle :: ptr
  mStride :: u32
  mInfo :: BufferDescriptorInfo

text \<open>
  \<open>GraphicsTestsBase::allocate\<close>.  The parcel with the result, on either side, is closed when it goes
  out of scope.
\<close>

definition fx_allocate ::
    "'e rig \<Rightarrow> BufferDescriptorInfo \<Rightarrow> ('e, 'z) fixture_scheme \<Rightarrow> (buffer_allocation option \<times> ('e, 'z) fixture_scheme) run" where
  "fx_allocate R descriptorInfo x =
     andThen (allocator_allocate2 (r_svc R) (r_lim R) descriptorInfo 1 new_result (svc x))
       (\<lambda>((status, result), a).
          let x = x\<lparr>svc := a\<lparr>al_proc := close_scoped (concat (map nh_fds (ar_buffers result))) (al_proc a)\<rparr>\<rparr>
          in case status of
               ServiceSpecific e \<Rightarrow>
                 Done (None, expect 190 (AllocationError_code (r_vts R) e \<noteq> 0) x)
             | FromStatus st \<Rightarrow> Done (None, expect 192 (st = STATUS_OK) x)
             | StatusOk \<Rightarrow>
                 (case ar_buffers result of
                    [] \<Rightarrow> Fault OutOfBounds
                  | nh # _ \<Rightarrow>
                      let (nh, s) = r_send R nh (gm (cli x));
                          (p, s) = dupFromAidl (r_cli R) nh s;
                          s = close_scoped (nh_fds nh) s
                      in Done (Some \<lparr>mRawHandle = p, mStride = ar_stride result, mInfo = descriptorInfo\<rparr>,
                               x\<lparr>cli := (cli x)\<lparr>gm := s\<rparr>\<rparr>)))"

definition BufferAllocation_dtor :: "buffer_allocation \<Rightarrow> ('e, 'z) test" where
  "BufferAllocation_dtor b x =
    (if mRawHandle b = 0 then Done x
     else andThen (native_handle_close (mRawHandle b) (gm (cli x))) (\<lambda>s.
          andThen (native_handle_delete (mRawHandle b) s) (\<lambda>s.
            Done (x\<lparr>cli := (cli x)\<lparr>gm := s\<rparr>\<rparr>))))"

text \<open>The life of a \<open>unique_ptr<BufferAllocation>\<close> and of a \<open>BufferHandle\<close> made by \<open>import\<close>.\<close>

definition with_buffer :: "'e rig \<Rightarrow> BufferDescriptorInfo \<Rightarrow> (buffer_allocation option \<Rightarrow> ('e, 'z) test) \<Rightarrow> ('e, 'z) test" where
  "with_buffer R info body x =
     andThen (fx_allocate R info x) (\<lambda>(buffer, x).
     andThen (body buffer x) (\<lambda>x.
       case buffer of None \<Rightarrow> Done x | Some b \<Rightarrow> BufferAllocation_dtor b x))"

definition BufferHandle_reset :: "'e rig \<Rightarrow> ptr \<Rightarrow> ('e, 'z) test" where
  "BufferHandle_reset R h x =
    (if h \<noteq> 0 then on_mapper (freeBuffer (r_cli R) h) (\<lambda>r. EXPECT 115 (r = AIMAPPER_ERROR_NONE) Done) x
     else Done x)"

definition BufferHandle :: "'e rig \<Rightarrow> ptr \<Rightarrow> (ptr \<Rightarrow> ('e, 'z) test) \<Rightarrow> ('e, 'z) test" where
  "BufferHandle R rawHandle body =
     on_mapper (importBuffer (r_cli R) rawHandle) (\<lambda>(r, out) x.
       let h = (case out of None \<Rightarrow> 0 | Some h \<Rightarrow> h)
       in andThen (body h (expect 94 (r = AIMAPPER_ERROR_NONE) x)) (BufferHandle_reset R h))"

definition with_import :: "'e rig \<Rightarrow> buffer_allocation option \<Rightarrow> (ptr \<Rightarrow> ('e, 'z) test) \<Rightarrow> ('e, 'z) test" where
  "with_import R buffer body x =
    (case buffer of None \<Rightarrow> Fault NullDeref | Some b \<Rightarrow> BufferHandle R (mRawHandle b) body x)"

definition on_raw :: "buffer_allocation option \<Rightarrow> (ptr \<Rightarrow> ('e, 'z) test) \<Rightarrow> ('e, 'z) test" where
  "on_raw buffer body x = (case buffer of None \<Rightarrow> Fault NullDeref | Some b \<Rightarrow> body (mRawHandle b) x)"

section \<open>The metadata templates\<close>

text \<open>
  \<open>getStandardMetadata<T>\<close>: a buffer of 512 zero bytes, a second call when that is too small, then the
  decoder on as many bytes as the mapper asked for.
\<close>

definition stored_in :: "bytes \<Rightarrow> bytes \<Rightarrow> bytes" where
  "stored_in buffer new = new @ drop (length new) buffer"

definition fx_decode ::
    "'e rig \<Rightarrow> standard_metadata_type \<Rightarrow> int \<Rightarrow> bytes \<Rightarrow> (metadata_value option \<Rightarrow> ('e, 'z) test) \<Rightarrow> ('e, 'z) test" where
  "fx_decode R T sizeRequired buffer k x =
    (if sizeRequired < 0 \<or> int (length buffer) < sizeRequired then k None (expect 242 False x)
     else andThen (metadata_decode (r_decode R) (smt_code (mc_smt (r_consts R)) T)
                     (take (nat sizeRequired) buffer) (the (std_kind T)))
            (\<lambda>v. k v x))"

definition fx_getStandardMetadata ::
    "'e rig \<Rightarrow> standard_metadata_type \<Rightarrow> ptr \<Rightarrow> (metadata_value option \<Rightarrow> ('e, 'z) test) \<Rightarrow> ('e, 'z) test" where
  "fx_getStandardMetadata R T bufferHandle k =
    (let get = getStandardMetadata (r_cli R) (r_consts R) bufferHandle (smt_code (mc_smt (r_consts R)) T)
     in on_mapper (get 512) (\<lambda>(sizeRequired, new).
          let buffer = stored_in (replicate 512 0) new
          in if sizeRequired < 0
             then EXPECT 231 (sizeRequired = - AIMAPPER_ERROR_UNSUPPORTED) (k None)
             else if 512 < sizeRequired
             then let buffer = buffer @ replicate (nat sizeRequired - 512) 0
                  in on_mapper (get (nat sizeRequired)) (\<lambda>(sizeRequired, new).
                       fx_decode R T sizeRequired (stored_in buffer new) k)
             else fx_decode R T sizeRequired buffer k))"

definition fx_setStandardMetadata ::
    "'e rig \<Rightarrow> standard_metadata_type \<Rightarrow> ptr \<Rightarrow> metadata_value \<Rightarrow> (int \<Rightarrow> ('e, 'z) test) \<Rightarrow> ('e, 'z) test" where
  "fx_setStandardMetadata R T bufferHandle value k =
    (let code = smt_code (mc_smt (r_consts R)) T;
         sizeRequired = fst (metadata_encode code value 0)
     in if sizeRequired < 0 then EXPECT 256 False (k (- sizeRequired))
        else
          let buffer = replicate (nat sizeRequired) 0;
              (sizeRequired, new) = metadata_encode code value (length buffer);
              buffer = stored_in buffer new
          in if sizeRequired < 0 \<or> int (length buffer) < sizeRequired
             then EXPECT 263 False (k (- sizeRequired))
             else on_mapper (setStandardMetadata (r_consts R) bufferHandle code (take (nat sizeRequired) buffer)) k)"

section \<open>What a running test holds\<close>

text \<open>
  The contracts of the platform: binder hands over a handle with the same words and new descriptors
  in place of its own.
\<close>

definition send_contract :: "(NativeHandle \<Rightarrow> 'e proc \<Rightarrow> NativeHandle \<times> 'e proc) \<Rightarrow> bool" where
  "send_contract send \<longleftrightarrow>
     (\<forall>nh s nh' t. send nh s = (nh', t) \<longrightarrow> same_handle nh nh' \<and>
        t = s\<lparr>open_fds := open_fds s \<union> live_fds (nh_fds nh')\<rparr>)"

definition rig_ok :: "'e rig \<Rightarrow> bool" where
  "rig_ok R \<longleftrightarrow> world_ok (r_svc R) \<and> world_ok (r_cli R) \<and> smt_ok (mc_smt (r_consts R)) \<and>
     send_contract (r_send R)"

definition svc_ok :: "('e, 'z) fixture_scheme \<Rightarrow> bool" where
  "svc_ok x \<longleftrightarrow> reg_inv (al_proc (svc x)) \<and> (\<forall>fd \<in> open_fds (al_proc (svc x)). \<not> is_neg fd)"

definition describes :: "BufferDescriptorInfo \<Rightarrow> gralloc_handle_t \<Rightarrow> bool" where
  "describes info h \<longleftrightarrow> h_width h = bdi_width info \<and> h_height h = bdi_height info \<and>
     h_format h = bdi_format info \<and> h_usage h = ucast (bdi_usage info)"

text \<open>
  The raw handles and the imported handles of the client, each with the descriptor it was allocated
  for: raw ones are live but unknown to the mapper, imported ones are registered.
\<close>

definition raw_handle :: "'e proc \<Rightarrow> ptr \<times> BufferDescriptorInfo \<Rightarrow> bool" where
  "raw_handle s = (\<lambda>(p, info). gbm_bo_handle_map s p = None \<and>
     (\<exists>h. load_native p s = Done h \<and> numFds h = 1 \<and> numInts h = 12 \<and> describes info h))"

definition imported_handle :: "'e proc \<Rightarrow> ptr \<times> BufferDescriptorInfo \<Rightarrow> bool" where
  "imported_handle s = (\<lambda>(q, info). gbm_bo_handle_map s q \<noteq> None \<and>
     (\<exists>h. load_handle q s = Done h \<and> describes info h))"

definition holding ::
    "'e rig \<Rightarrow> (ptr \<times> BufferDescriptorInfo) list \<Rightarrow> (ptr \<times> BufferDescriptorInfo) list \<Rightarrow> 'e mapper \<Rightarrow> bool" where
  "holding R raws qs m \<longleftrightarrow> gm_inv (r_cli R) (gm m) \<and> mInitialized m \<and>
     distinct (map fst raws) \<and> distinct (map fst qs) \<and>
     (\<forall>r \<in> set raws. raw_handle (gm m) r) \<and> (\<forall>q \<in> set qs. imported_handle (gm m) q)"

lemma holdingD:
  assumes "holding R raws qs m"
  shows "gm_inv (r_cli R) (gm m)" and "mInitialized m" and "reg_inv (gm m)"
    and "r \<in> set raws \<Longrightarrow> raw_handle (gm m) r" and "q \<in> set qs \<Longrightarrow> imported_handle (gm m) q"
  using assms gm_invD(1) by (auto simp: holding_def)

lemma rig_okD:
  assumes "rig_ok R"
  shows "world_ok (r_cli R)" and "smt_ok (mc_smt (r_consts R))" and "send_contract (r_send R)"
    and "handle_contract (r_svc R)" "bo_contract (r_svc R)" "fd_contract (r_svc R)"
    and "handle_contract (r_cli R)" "bo_contract (r_cli R)" "fd_contract (r_cli R)" "map_contract (r_cli R)"
  using assms by (simp_all add: rig_ok_def world_ok_def)

text \<open>Handles that keep their memory and their registration stay what they are.\<close>

lemma raw_handle_cong:
  assumes "handles t (fst r) = handles s (fst r)" and "gbm_bo_handle_map t (fst r) = gbm_bo_handle_map s (fst r)"
  shows "raw_handle t r = raw_handle s r"
  using assms by (cases r) (simp add: raw_handle_def load_native_def)

lemma imported_handle_cong:
  assumes "handles t (fst r) = handles s (fst r)" and "gbm_bo_handle_map t (fst r) = gbm_bo_handle_map s (fst r)"
  shows "imported_handle t r = imported_handle s r"
  using assms load_handle_cong [OF assms(1)] by (cases r) (simp add: imported_handle_def)

lemma holding_cong:
  assumes "holding R raws qs m" and "gm_inv (r_cli R) (gm n)" and "mInitialized n"
    and "\<And>p. p \<in> fst ` set raws \<union> fst ` set qs \<Longrightarrow>
      handles (gm n) p = handles (gm m) p \<and> gbm_bo_handle_map (gm n) p = gbm_bo_handle_map (gm m) p"
  shows "holding R raws qs n"
proof -
  have "raw_handle (gm n) r = raw_handle (gm m) r" if "r \<in> set raws" for r
    using assms(4) that by (intro raw_handle_cong) auto
  moreover have "imported_handle (gm n) q = imported_handle (gm m) q" if "q \<in> set qs" for q
    using assms(4) that by (intro imported_handle_cong) auto
  ultimately show ?thesis
    using assms(1-3) by (auto simp: holding_def)
qed

lemma holding_live:
  assumes "holding R raws qs m" and "p \<in> fst ` set raws \<union> fst ` set qs"
  shows "p \<noteq> 0" and "p \<in> dom (handles (gm m))"
  using assms holdingD(4,5) [OF assms(1)]
  by (fastforce simp: raw_handle_def imported_handle_def load_native_Done load_handle_Done)+

section \<open>Allocating\<close>

lemma fromAidl_frame:
  assumes f: "fromAidl P nh True s = (p, t)" and p: "p \<noteq> 0" and c: "handle_contract P" "fd_contract P"
  obtains h e F where "p \<notin> dom (handles s)"
    and "t = (s\<lparr>handles := (handles s)(p \<mapsto> h)\<rparr>)\<lparr>env := e, open_fds := F\<rparr>"
proof -
  obtain res e' where cr: "p_native_handle_create P (dom (handles s)) (length (nh_fds nh)) (length (nh_ints nh))
      (env s) = (res, e')"
    by fastforce
  then obtain h0 where res: "res = Some (p, h0)"
    using f p by (auto simp: fromAidl_def split: option.splits prod.splits)
  obtain fds s1 where tf: "take_fds P True (nh_fds nh) (s\<lparr>env := e'\<rparr>) = (fds, s1)"
    by fastforce
  then obtain e where "s1 = s\<lparr>env := e, open_fds := open_fds s \<union> live_fds fds\<rparr>"
    using take_fds_dup [OF tf c(2)] by auto
  moreover have "t = store_handle p (store_words (fds @ nh_ints nh) h0) s1"
    using f cr res tf by (simp add: fromAidl_def)
  ultimately have "t = (s\<lparr>handles := (handles s)(p \<mapsto> store_words (fds @ nh_ints nh) h0)\<rparr>)
      \<lparr>env := e, open_fds := open_fds s \<union> live_fds fds\<rparr>"
    by (simp add: store_handle_def)
  moreover have "p \<notin> dom (handles s)"
    using handle_contract_create [OF c(1) cr [unfolded res]] by blast
  ultimately show thesis
    using that by blast
qed

lemma received_steps:
  assumes p: "p \<noteq> 0" "p \<notin> dom (handles s)" and w: "world_ok P" and inv: "gm_inv P s"
  shows "lib_steps P s ((s\<lparr>handles := (handles s)(p \<mapsto> h)\<rparr>)\<lparr>env := e, open_fds := F\<rparr>)"
proof -
  note a = lib_steps_step [OF gm_receive [OF p] w inv]
  show ?thesis
    by (rule lib_steps_trans [OF a]) (rule lib_steps_step [OF gm_world w lib_steps_inv [OF a]])
qed

lemma allocate2_exported:
  assumes run: "allocator_allocate2 P lim info 1 new_result a = Done ((StatusOk, res), a')"
    and c: "handle_contract P" "bo_contract P" "fd_contract P" and s: "reg_inv (al_proc a)"
      "\<forall>fd \<in> open_fds (al_proc a). \<not> is_neg fd"
  shows "\<exists>nh desc. ar_buffers res = [nh] \<and> exported desc nh \<and> d_width desc = bdi_width info \<and>
    d_height desc = bdi_height info \<and> d_android_format desc = bdi_format info \<and>
    d_android_usage desc = ucast (bdi_usage info)"
proof -
  obtain st desc where d: "convertToGBMDesc info zero_desc = (st, desc)"
    by fastforce
  then have st: "st = StatusOk" and run': "doAllocate P lim desc 1 new_result a = Done ((StatusOk, res), a')"
    using run by (auto simp: allocator_allocate2_def isOk_def ToBinderStatus_def split: if_splits)
  have "d_width desc = bdi_width info \<and> d_height desc = bdi_height info \<and>
      d_android_format desc = bdi_format info \<and> d_android_usage desc = ucast (bdi_usage info)"
    using d st by (auto simp: convertToGBMDesc_def ToBinderStatus_def Let_def split: if_splits)
  moreover have "ar_buffers new_result = []"
    by (simp add: new_result_def)
  ultimately show ?thesis
    using doAllocate_exported [OF run' c s] by (auto simp: length_Suc_conv)
qed

lemma fx_allocate_holds:
  assumes R: "rig_ok R" and x: "svc_ok x" and hold: "holding R raws qs (cli x)"
    and run: "fx_allocate R info x = Done (Some b, y)" and p: "mRawHandle b \<noteq> 0"
  shows "holding R ((mRawHandle b, info) # raws) qs (cli y)" and "failures y = failures x"
    and "fatal y = fatal x" and "metadata_map (cli y) = metadata_map (cli x)" and "mInfo b = info"
proof -
  obtain st res a where al: "allocator_allocate2 (r_svc R) (r_lim R) info 1 new_result (svc x) = Done ((st, res), a)"
    using run by (auto simp: fx_allocate_def andThen_eq_Done)
  then have st: "st = StatusOk"
    using run by (cases st) (auto simp: fx_allocate_def)
  obtain nh desc where nh: "ar_buffers res = [nh]" "exported desc nh" and desc: "d_width desc = bdi_width info"
    "d_height desc = bdi_height info" "d_android_format desc = bdi_format info"
    "d_android_usage desc = ucast (bdi_usage info)"
    using allocate2_exported [OF al [unfolded st] rig_okD(4-6) [OF R]] x by (auto simp: svc_ok_def)
  obtain nh' s1 where sd: "r_send R nh (gm (cli x)) = (nh', s1)"
    by fastforce
  obtain q s2 where fa: "fromAidl (r_cli R) nh' True s1 = (q, s2)"
    by fastforce
  have b: "mRawHandle b = q" "mInfo b = info" and y: "failures y = failures x" "fatal y = fatal x"
    "cli y = (cli x)\<lparr>gm := close_scoped (nh_fds nh') s2\<rparr>"
    using run al st nh(1) sd fa by (auto simp: fx_allocate_def dupFromAidl_def Let_def)
  have s1: "same_handle nh nh'" "s1 = (gm (cli x))\<lparr>open_fds := open_fds (gm (cli x)) \<union> live_fds (nh_fds nh')\<rparr>"
    using rig_okD(3) [OF R] sd unfolding send_contract_def by blast+
  obtain h e F where q: "q \<notin> dom (handles s1)"
    and s2: "s2 = (s1\<lparr>handles := (handles s1)(q \<mapsto> h)\<rparr>)\<lparr>env := e, open_fds := F\<rparr>"
    using fromAidl_frame [OF fa _ rig_okD(7,9) [OF R]] p b by metis
  obtain F' where z: "close_scoped (nh_fds nh') s2 =
      ((gm (cli x))\<lparr>handles := (handles (gm (cli x)))(q \<mapsto> h)\<rparr>)\<lparr>env := e, open_fds := F'\<rparr>" (is "?z = _")
    by (auto simp: s2 s1(2) close_scoped_def)
  have q': "q \<noteq> 0" "q \<notin> dom (handles (gm (cli x)))"
    using p b q by (simp_all add: s1(2))
  have inv: "gm_inv (r_cli R) ?z"
    unfolding z by (rule lib_steps_inv [OF received_steps [OF q' rig_okD(1) [OF R] holdingD(1) [OF hold]]])
  have none: "gbm_bo_handle_map (gm (cli x)) q = None"
    using q'(2) reg_invD [OF holdingD(3) [OF hold], of q]
    by (cases "gbm_bo_handle_map (gm (cli x)) q") (auto simp: load_handle_Done)
  obtain h' where "load_native q s2 = Done h'" "numFds h' = 1" "numInts h' = 12" "described desc h'"
    using fromAidl_describes [OF exported_same [OF nh(2) s1(1)] fa _ rig_okD(7,9) [OF R]] p b by blast
  then have new: "raw_handle ?z (q, info)"
    using desc none by (simp add: raw_handle_def describes_def described_def load_native_Done s2 s1(2) close_scoped_def)
  have q_new: "q \<notin> fst ` set raws \<union> fst ` set qs"
    using holding_live [OF hold] q'(2) by blast
  have "holding R raws qs ((cli x)\<lparr>gm := ?z\<rparr>)"
  proof (rule holding_cong [OF hold])
    fix r assume "r \<in> fst ` set raws \<union> fst ` set qs"
    then have "r \<noteq> q"
      using q_new by blast
    then show "handles (gm ((cli x)\<lparr>gm := ?z\<rparr>)) r = handles (gm (cli x)) r \<and>
        gbm_bo_handle_map (gm ((cli x)\<lparr>gm := ?z\<rparr>)) r = gbm_bo_handle_map (gm (cli x)) r"
      by (simp add: z)
  qed (use inv holdingD(2) [OF hold] in simp_all)
  then show "holding R ((mRawHandle b, info) # raws) qs (cli y)"
    using q_new new by (simp add: holding_def y(3) b(1))
  show "failures y = failures x" "fatal y = fatal x" "metadata_map (cli y) = metadata_map (cli x)" "mInfo b = info"
    by (simp_all add: y b)
qed

section \<open>Importing, freeing and the destructors\<close>

lemma same_words_describes:
  assumes "describes info h" and "same_words h h'" and "numFds h = 1"
  shows "describes info h'"
  using assms by (simp add: describes_def same_words_def handle_data_def)

lemma import_holds:
  assumes R: "rig_ok R" and hold: "holding R raws qs m" and raw: "(p, info) \<in> set raws"
    and run: "importBuffer (r_cli R) p m = Done ((r, Some q), n)"
  shows "holding R raws ((q, info) # qs) n" and "r = AIMAPPER_ERROR_NONE" and "metadata_map n = metadata_map m"
    and "q \<noteq> 0" and "q \<notin> fst ` set qs" and "\<exists>b bo. gbm_bo_handle_map (gm n) q = Some b \<and> bos (gm n) b = Some bo \<and> user_data bo = None"
proof -
  note c = rig_okD(7,8) [OF R]
  have im: "imported_by_mapper (gm m) q (gm n)" and r: "r = AIMAPPER_ERROR_NONE"
    and n: "metadata_map n = metadata_map m" "mInitialized n = mInitialized m"
    using importBuffer_cases [OF run c holdingD(3) [OF hold]] by auto
  show "r = AIMAPPER_ERROR_NONE" "metadata_map n = metadata_map m"
    by (rule r n)+
  have q: "q \<noteq> 0" "q \<notin> dom (handles (gm m))"
    using im by (simp_all add: imported_by_mapper_def)
  show "q \<noteq> 0"
    by (rule q)
  have q_new: "q \<notin> fst ` set raws \<union> fst ` set qs"
    using holding_live [OF hold] q(2) by blast
  then show "q \<notin> fst ` set qs"
    by simp
  show "\<exists>b bo. gbm_bo_handle_map (gm n) q = Some b \<and> bos (gm n) b = Some bo \<and> user_data bo = None"
    using im by (auto simp: imported_by_mapper_def)
  obtain h where h: "load_native p (gm m) = Done h" "numFds h = 1" "describes info h"
    using holdingD(4) [OF hold raw] by (auto simp: raw_handle_def)
  obtain h' where "load_handle q (gm n) = Done h'" "same_words h h'" "gbm_bo_handle_map (gm n) q \<noteq> None"
    using importBuffer_words [OF run c h(1)] by blast
  then have new: "imported_handle (gm n) (q, info)"
    using same_words_describes [OF h(3) _ h(2)] by (auto simp: imported_handle_def)
  have inv: "gm_inv (r_cli R) (gm n)"
    using importBuffer_step [OF run rig_okD(1) [OF R] holdingD(1) [OF hold]] lib_steps_inv
    by (auto simp: mapper_step_def)
  have "holding R raws qs n"
  proof (rule holding_cong [OF hold inv])
    fix r assume "r \<in> fst ` set raws \<union> fst ` set qs"
    then have "r \<noteq> q"
      using q_new by blast
    then show "handles (gm n) r = handles (gm m) r \<and> gbm_bo_handle_map (gm n) r = gbm_bo_handle_map (gm m) r"
      using im by (auto simp: imported_by_mapper_def)
  qed (use n holdingD(2) [OF hold] in simp)
  then show "holding R raws ((q, info) # qs) n"
    using q_new new by (simp add: holding_def)
qed

lemma free_holds:
  assumes R: "rig_ok R" and hold: "holding R raws ((q, info) # qs) m"
  shows "\<exists>n. freeBuffer (r_cli R) q m = Done (AIMAPPER_ERROR_NONE, n) \<and> holding R raws qs n"
proof -
  have "imported_handle (gm m) (q, info)"
    using holdingD(5) [OF hold] by simp
  then obtain h b where h: "load_handle q (gm m) = Done h" and b: "gbm_bo_handle_map (gm m) q = Some b"
    by (auto simp: imported_handle_def)
  note fr = freeBuffer_registered [OF holdingD(2,3) [OF hold] b h, of "r_cli R"]
  let ?n = "m\<lparr>metadata_map := erase (prime_fd h) (metadata_map m),
      gm := (gm m)\<lparr>gbm_bo_handle_map := erase q (gbm_bo_handle_map (gm m)),
              bos := erase b (bos (gm m)), open_fds := open_fds (gm m) - set (handle_fds h),
              handles := erase q (handles (gm m))\<rparr>\<rparr>"
  have inv: "gm_inv (r_cli R) (gm ?n)"
    using freeBuffer_step [OF fr rig_okD(1) [OF R] holdingD(1) [OF hold]] lib_steps_inv
    by (auto simp: mapper_step_def)
  have old: "holding R raws qs m"
    using hold by (simp add: holding_def)
  have "holding R raws qs ?n"
  proof (rule holding_cong [OF old inv])
    fix r assume r: "r \<in> fst ` set raws \<union> fst ` set qs"
    have "q \<notin> fst ` set qs"
      using hold by (simp add: holding_def)
    moreover have "q \<notin> fst ` set raws"
      using holdingD(4) [OF hold] b by (fastforce simp: raw_handle_def)
    ultimately have "r \<noteq> q"
      using r by blast
    then show "handles (gm ?n) r = handles (gm m) r \<and> gbm_bo_handle_map (gm ?n) r = gbm_bo_handle_map (gm m) r"
      by simp
  qed (use holdingD(2) [OF hold] in simp)
  then show ?thesis
    using fr by blast
qed

lemma dtor_holds:
  assumes R: "rig_ok R" and hold: "holding R ((mRawHandle b, info) # raws) qs (cli x)"
  shows "\<exists>m. BufferAllocation_dtor b x = Done (x\<lparr>cli := m\<rparr>) \<and> holding R raws qs m"
proof -
  let ?p = "mRawHandle b" and ?s = "gm (cli x)"
  have "raw_handle ?s (?p, info)"
    using holdingD(4) [OF hold] by simp
  then obtain h where h: "load_native ?p ?s = Done h" and none: "gbm_bo_handle_map ?s ?p = None"
    by (auto simp: raw_handle_def)
  let ?t = "?s\<lparr>open_fds := open_fds ?s - set (handle_fds h), handles := erase ?p (handles ?s)\<rparr>"
  have p: "?p \<noteq> 0" "handles ?s ?p = Some h"
    using h by (simp_all add: load_native_Done)
  have run: "andThen (native_handle_close ?p ?s) (\<lambda>s. native_handle_delete ?p s) = Done ?t"
    using p by (simp add: native_handle_close_def native_handle_delete_def load_native_def)
  have inv: "gm_inv (r_cli R) ?t"
    by (rule lib_steps_inv [OF release_steps [OF run none rig_okD(1) [OF R] holdingD(1) [OF hold]]])
  have old: "holding R raws qs (cli x)"
    using hold by (simp add: holding_def)
  have "holding R raws qs ((cli x)\<lparr>gm := ?t\<rparr>)"
  proof (rule holding_cong [OF old])
    fix r assume r: "r \<in> fst ` set raws \<union> fst ` set qs"
    have "?p \<notin> fst ` set raws"
      using hold by (simp add: holding_def)
    moreover have "?p \<notin> fst ` set qs"
      using holdingD(5) [OF hold] none by (fastforce simp: imported_handle_def)
    ultimately have "r \<noteq> ?p"
      using r by blast
    then show "handles (gm ((cli x)\<lparr>gm := ?t\<rparr>)) r = handles ?s r \<and>
        gbm_bo_handle_map (gm ((cli x)\<lparr>gm := ?t\<rparr>)) r = gbm_bo_handle_map ?s r"
      by simp
  qed (use inv holdingD(2) [OF hold] in simp_all)
  then show ?thesis
    using run p by (auto simp: BufferAllocation_dtor_def andThen_eq_Done)
qed

text \<open>So whatever a test did in between, its destructors run without a failure.\<close>

lemma reset_holds:
  assumes R: "rig_ok R" and hold: "holding R raws ((q, info) # qs) (cli x)"
  shows "\<exists>m. BufferHandle_reset R q x = Done (x\<lparr>cli := m\<rparr>) \<and> holding R raws qs m"
proof -
  have "q \<noteq> 0"
    using holding_live(1) [OF hold] by simp
  then show ?thesis
    using free_holds [OF R hold] by (auto simp: BufferHandle_reset_def on_mapper_def EXPECT_def expect_def)
qed

section \<open>Reading metadata\<close>

definition encoded_size :: "mapper_consts \<Rightarrow> standard_metadata_type \<Rightarrow> metadata_value \<Rightarrow> int" where
  "encoded_size C T v = fst (metadata_encode (smt_code (mc_smt C) T) v 0)"

lemma encoded_sizeD:
  assumes "0 \<le> encoded_size C T v"
  shows "fst (metadata_encode (smt_code (mc_smt C) T) v n) = encoded_size C T v"
    and "encoded_size C T v = int (length (concat (value_chunks (smt_code (mc_smt C) T) v)))"
  using assms emit_fresh [of "value_chunks (smt_code (mc_smt C) T) v" 0]
    emit_fresh [of "value_chunks (smt_code (mc_smt C) T) v" n]
  by (auto simp: encoded_size_def encode_emit finish_def stream_size_def AIMAPPER_ERROR_BAD_VALUE_def split: if_splits)

lemma take_stored_in:
  assumes "metadata_encode hv v (length buffer) = (sz, new)" and "0 \<le> sz" "sz \<le> int (length buffer)"
    and "sz = int (length (concat (value_chunks hv v)))"
  shows "take (nat sz) (stored_in buffer new) = concat (value_chunks hv v)"
  using encode_stored [OF assms(1-3)] assms(4) by (simp add: stored_in_def)

lemma fx_decode_value:
  assumes "metadata_encode (smt_code (mc_smt (r_consts R)) T) v (length buffer) = (sz, new)"
    and sz: "sz = encoded_size (r_consts R) T v" "0 \<le> sz" "sz \<le> int (length buffer)"
    and ok: "value_ok (r_decode R) v" and k: "std_kind T = Some (kind_of v)"
  shows "fx_decode R T sz (stored_in buffer new) k x = k (Some v) x"
proof -
  have "length (stored_in buffer new) = length buffer"
    using encode_stored [OF assms(1) sz(2,3)] sz encoded_sizeD(2) [of "r_consts R" T v] by (simp add: stored_in_def)
  moreover have "take (nat sz) (stored_in buffer new) = concat (value_chunks (smt_code (mc_smt (r_consts R)) T) v)"
    using take_stored_in [OF assms(1) sz(2,3)] sz encoded_sizeD(2) by metis
  ultimately show ?thesis
    using sz k decode_stream [OF ok] by (simp add: fx_decode_def)
qed

lemma getStandardMetadata_provided:
  assumes R: "rig_ok R" and m: "mInitialized m" and h: "load_handle q (gm m) = Done h" and T: "T \<noteq> INVALID"
    and v: "standard_value (r_cli R) (r_consts R) q h (fst (createMetadata (r_consts R) h m)) (gm m) T = Done (Some v)"
  shows "getStandardMetadata (r_cli R) (r_consts R) q (smt_code (mc_smt (r_consts R)) T) n m =
    Done (metadata_encode (smt_code (mc_smt (r_consts R)) T) v n, snd (createMetadata (r_consts R) h m))"
proof -
  have "q \<noteq> 0"
    using h by (simp add: load_handle_Done)
  then show ?thesis
    using v by (simp add: getStandardMetadata_eq [OF m _ rig_okD(2) [OF R] T h])
qed

lemma createMetadata_again [simp]:
  "createMetadata C h (snd (createMetadata C h m)) = createMetadata C h m"
  by (auto simp: createMetadata_def Let_def split: option.splits)

lemma fx_get_value:
  fixes x :: "('e, 'z) fixture_scheme" and k :: "metadata_value option \<Rightarrow> ('e, 'z) test"
  assumes R: "rig_ok R" and m: "mInitialized (cli x)" and h: "load_handle q (gm (cli x)) = Done h"
    and T: "T \<noteq> INVALID"
    and v: "standard_value (r_cli R) (r_consts R) q h (fst (createMetadata (r_consts R) h (cli x))) (gm (cli x)) T
      = Done (Some v)"
    and sz: "0 \<le> encoded_size (r_consts R) T v" and ok: "value_ok (r_decode R) v"
  shows "fx_getStandardMetadata R T q k x = k (Some v) (x\<lparr>cli := snd (createMetadata (r_consts R) h (cli x))\<rparr>)"
proof -
  let ?c = "smt_code (mc_smt (r_consts R)) T" and ?sz = "encoded_size (r_consts R) T v"
  let ?m = "snd (createMetadata (r_consts R) h (cli x))"
  obtain new where enc: "\<And>n. metadata_encode ?c v n = (?sz, new n)"
  proof (rule that)
    show "metadata_encode ?c v n = (?sz, snd (metadata_encode ?c v n))" for n
      using encoded_sizeD(1) [OF sz, of n] by (simp add: prod_eq_iff)
  qed
  note get = getStandardMetadata_provided [OF R _ _ T]
  have g1: "getStandardMetadata (r_cli R) (r_consts R) q ?c n (cli x) = Done ((?sz, new n), ?m)" for n
    using get [OF m h v, of n] enc by metis
  have kind: "std_kind T = Some (kind_of v)"
    by (rule standard_value_kind [OF v])
  show ?thesis
  proof (cases "?sz \<le> 512")
    case True
    then show ?thesis
      using g1 sz fx_decode_value [where buffer = "replicate 512 0" and new = "new 512", OF _ refl sz _ ok kind] enc
      by (simp add: fx_getStandardMetadata_def on_mapper_def Let_def)
  next
    case False
    let ?n = "nat ?sz"
    let ?b = "stored_in (replicate 512 0) (new 512) @ replicate (?n - 512) 0"
    have "length (new 512) \<le> 512"
      using emit_fresh(2) [of "value_chunks ?c v" 512] enc [of 512] by (auto simp: encode_emit finish_def)
    then have len: "length ?b = ?n"
      using False by (simp add: stored_in_def)
    have g2: "getStandardMetadata (r_cli R) (r_consts R) q ?c n ?m = Done ((?sz, new n), ?m)" for n
      using get [of ?m q h v n] m h v enc [of n] by simp
    have "fx_decode R T ?sz (stored_in ?b (new ?n)) k y = k (Some v) y" for y :: "('e, 'z) fixture_scheme"
      using fx_decode_value [where buffer = ?b and k = k and x = y and new = "new ?n", OF _ refl sz _ ok kind] enc [of ?n] len sz by simp
    then show ?thesis
      using g1 g2 False sz by (simp add: fx_getStandardMetadata_def on_mapper_def Let_def)
  qed
qed

end
