(* ===== verification/Codec_Tests.thy ===== *)
theory Codec_Tests
  imports Vts_Fixture
begin

text \<open>
  The unit tests of the codec, from src/include/stable-c-v33/implutils/impltests.cpp: one definition
  per test, over the models of the encoders, decoders and of the dispatch, and the proof that all of
  them pass for every numbering of the types that the code accepts.
\<close>

section \<open>Tests over a buffer\<close>

text \<open>
  A test runs with its buffer and the lines that failed so far, and ends with all of them; \<open>ASSERT\<close>
  leaves it.  Memory read through a cast pointer is little endian.
\<close>

type_synonym unit_test = "bytes \<Rightarrow> nat list \<Rightarrow> nat list run"

definition ut_done :: unit_test where
  "ut_done buffer ls = Done ls"

definition ut_expect :: "nat \<Rightarrow> bool \<Rightarrow> unit_test \<Rightarrow> unit_test" where
  "ut_expect line ok k buffer ls = k buffer (if ok then ls else ls @ [line])"

definition ut_assert :: "nat \<Rightarrow> bool \<Rightarrow> unit_test \<Rightarrow> unit_test" where
  "ut_assert line ok k buffer ls = (if ok then k buffer ls else Done (ls @ [line]))"

definition HeaderSize :: nat where
  "HeaderSize = 69"

definition SkipHeader :: "bytes \<Rightarrow> bytes" where
  "SkipHeader buffer = drop HeaderSize buffer"

definition ut_int64 :: "nat \<Rightarrow> (u64 \<Rightarrow> unit_test) \<Rightarrow> unit_test" where
  "ut_int64 i k buffer = k (of_le (take 8 (drop (8 * i) (SkipHeader buffer)))) buffer"

definition ut_int32 :: "nat \<Rightarrow> (u32 \<Rightarrow> unit_test) \<Rightarrow> unit_test" where
  "ut_int32 i k buffer = k (of_le (take 4 (drop (4 * i) (SkipHeader buffer)))) buffer"

definition ut_byte :: "nat \<Rightarrow> (8 word \<Rightarrow> unit_test) \<Rightarrow> unit_test" where
  "ut_byte i k buffer = k (buffer ! i) buffer"

text \<open>\<open>encode\<close> into the first \<open>n\<close> bytes of the buffer, and \<open>decode\<close> from it or from nothing.\<close>

definition ut_encode ::
    "smt_enum \<Rightarrow> standard_metadata_type \<Rightarrow> metadata_value \<Rightarrow> nat \<Rightarrow> (int \<Rightarrow> unit_test) \<Rightarrow> unit_test" where
  "ut_encode S T value n k buffer =
    (let (size, new) = metadata_encode (smt_code S T) value n in k size (stored_in buffer new))"

definition ut_decode_from ::
    "codec_limits \<Rightarrow> smt_enum \<Rightarrow> standard_metadata_type \<Rightarrow> bytes \<Rightarrow> (metadata_value option \<Rightarrow> unit_test) \<Rightarrow> unit_test" where
  "ut_decode_from L S T metadata k buffer ls =
     andThen (metadata_decode L (smt_code S T) metadata (the (std_kind T))) (\<lambda>read. k read buffer ls)"

definition ut_decode ::
    "codec_limits \<Rightarrow> smt_enum \<Rightarrow> standard_metadata_type \<Rightarrow> (metadata_value option \<Rightarrow> unit_test) \<Rightarrow> unit_test" where
  "ut_decode L S T k buffer = ut_decode_from L S T buffer k buffer"

text \<open>\<open>std::vector<uint8_t> buffer(10000, c)\<close>.\<close>

definition filled :: "8 word \<Rightarrow> bytes" where
  "filled c = replicate 10000 c"

section \<open>Round trips of the values\<close>

definition fakePlaneLayouts :: "PlaneLayout list" where
  "fakePlaneLayouts =
    [\<lparr>components = map (\<lambda>i. \<lparr>plc_type = \<lparr>ext_name = map of_char ''Plane ID'', ext_value = 40 + of_nat i\<rparr>,
        offsetInBits = 20 + of_nat i, sizeInBits = 30 + of_nat i\<rparr>) [0..<3],
      offsetInBytes = 10, sampleIncrementInBits = 11, strideInBytes = 12, widthInSamples = 13,
      heightInSamples = 14, totalSizeInBytes = 15, horizontalSubsampling = 16, verticalSubsampling = 17\<rparr>,
     \<lparr>components = [], offsetInBytes = 0, sampleIncrementInBits = 0, strideInBytes = 0, widthInSamples = 0,
      heightInSamples = 0, totalSizeInBytes = 0, horizontalSubsampling = 0, verticalSubsampling = 0\<rparr>]"

definition setGetBufferId :: "codec_limits \<Rightarrow> smt_enum \<Rightarrow> nat list run" where
  "setGetBufferId L S =
    (ut_encode S BUFFER_ID (MInt64 18) 0 (\<lambda>r.
     ut_expect 72 (r = int (8 + HeaderSize))
    (ut_int64 0 (\<lambda>payload. ut_expect 73 (payload = 42)
    (ut_encode S BUFFER_ID (MInt64 18) 10000 (\<lambda>r.
     ut_expect 74 (r = int (8 + HeaderSize))
    (ut_int64 0 (\<lambda>payload. ut_expect 75 (payload = 18)
    (ut_decode_from L S BUFFER_ID [] (\<lambda>none. ut_expect 76 (none = None)
    (ut_decode L S BUFFER_ID (\<lambda>read.
     ut_expect 78 (read \<noteq> None)
    (ut_expect 79 (read = Some (MInt64 18)) ut_done))))))))))))
      (take HeaderSize (filled 0) @ to_le (42 :: u64) @ drop (HeaderSize + 8) (filled 0)) [])"

definition setGetDataspace :: "u32 \<Rightarrow> codec_limits \<Rightarrow> smt_enum \<Rightarrow> nat list run" where
  "setGetDataspace BT2020 L S =
    (ut_encode S DATASPACE (MEnum32 BT2020) 0 (\<lambda>r.
     ut_expect 88 (r = int (4 + HeaderSize))
    (ut_int32 0 (\<lambda>data. ut_expect 89 (data = 0)
    (ut_encode S DATASPACE (MEnum32 BT2020) 10000 (\<lambda>r.
     ut_expect 90 (r = int (4 + HeaderSize))
    (ut_int32 0 (\<lambda>data. ut_expect 92 (data = BT2020)
    (ut_decode_from L S DATASPACE [] (\<lambda>none. ut_expect 93 (none = None)
    (ut_decode L S DATASPACE (\<lambda>read.
     ut_assert 95 (read \<noteq> None)
    (ut_expect 96 (read = Some (MEnum32 BT2020)) ut_done)))))))))))) (filled 0) [])"

definition setGetValidName :: "codec_limits \<Rightarrow> smt_enum \<Rightarrow> nat list run" where
  "setGetValidName L S =
    (let expectedSize = 5 + 8 + HeaderSize; hello = map of_char ''Hello''
     in ut_encode S NAME (MString hello) 10000 (\<lambda>r.
        ut_expect 106 (r = int expectedSize)
       (ut_int64 0 (\<lambda>len. ut_expect 107 (len = 5)
       (ut_byte expectedSize (\<lambda>b. ut_expect 109 (b = of_char CHR ''a'')
       (ut_decode L S NAME (\<lambda>readValue.
        ut_assert 112 (readValue \<noteq> None)
       (ut_expect 113 (case readValue of Some (MString s) \<Rightarrow> length s = 5 | _ \<Rightarrow> False)
       (ut_expect 114 (readValue = Some (MString hello)) ut_done)))))))))
         (filled (of_char CHR ''a'')) [])"

definition setGetInvalidName :: "codec_limits \<Rightarrow> smt_enum \<Rightarrow> nat list run" where
  "setGetInvalidName L S =
    (let size = 12 + HeaderSize; expectedSize = 21 + 8 + HeaderSize
     in ut_encode S NAME (MString (map of_char ''This is a long string'')) size (\<lambda>r.
        ut_expect 126 (r = int expectedSize)
       (ut_int64 0 (\<lambda>len. ut_expect 128 (len = 21)
       (ut_decode L S NAME (\<lambda>readValue. ut_expect 131 (readValue = None)
       (ut_decode_from L S NAME [] (\<lambda>readValue. ut_assert 133 (readValue = None) ut_done)))))))
         ((replicate size (of_char CHR ''a''))[size - 1 := 0]) [])"

text \<open>\<open>view n\<close> is the string of \<open>n\<close> characters that starts where the literal does.\<close>

definition wouldOverflowName :: "(nat \<Rightarrow> bytes) \<Rightarrow> smt_enum \<Rightarrow> nat list run" where
  "wouldOverflowName view S =
    (ut_encode S NAME (MString (view (2 ^ 31 - 1))) 10000 (\<lambda>r.
     ut_expect 142 (r = - AIMAPPER_ERROR_BAD_VALUE)
    (ut_encode S NAME (MString (view (2 ^ 31 - 1 - 7))) 10000 (\<lambda>r.
     ut_expect 147 (r = - AIMAPPER_ERROR_BAD_VALUE) ut_done))) (filled 0) [])"

definition setGetMismatchedWidthHight :: "codec_limits \<Rightarrow> smt_enum \<Rightarrow> nat list run" where
  "setGetMismatchedWidthHight L S =
    (ut_encode S WIDTH (MInt64 100) 10000 (\<lambda>r.
     ut_expect 157 (r = int (8 + HeaderSize))
    (ut_int64 0 (\<lambda>data. ut_expect 158 (data = 100)
    (ut_decode L S WIDTH (\<lambda>read.
     ut_assert 160 (read \<noteq> None)
    (ut_expect 161 (read = Some (MInt64 100))
    (ut_decode L S HEIGHT (\<lambda>read. ut_expect 163 (read = None) ut_done)))))))) (filled 0) [])"

definition setGetCompression :: "codec_limits \<Rightarrow> smt_enum \<Rightarrow> nat list run" where
  "setGetCompression L S =
    (let myCompression = \<lparr>ext_name = map of_char ''bestest_compression_ever'', ext_value = 42\<rparr>;
         expectedSize = length (ext_name myCompression) + 8 + 8 + HeaderSize
     in ut_encode S COMPRESSION (MExtendable myCompression) 0 (\<lambda>r.
        ut_expect 172 (r = int expectedSize)
       (ut_byte 0 (\<lambda>b. ut_expect 173 (b = 0)
       (ut_encode S COMPRESSION (MExtendable myCompression) 10000 (\<lambda>r.
        ut_expect 174 (r = int expectedSize)
       (ut_int64 0 (\<lambda>data. ut_expect 175 (data = of_nat (length (ext_name myCompression)))
       (ut_decode_from L S COMPRESSION [] (\<lambda>none. ut_expect 176 (none = None)
       (ut_decode L S COMPRESSION (\<lambda>read.
        ut_assert 178 (read \<noteq> None)
       (ut_expect 179 (read = Some (MExtendable myCompression)) ut_done)))))))))))) (filled 0) [])"

definition setGetPlaneLayout :: "codec_limits \<Rightarrow> smt_enum \<Rightarrow> nat list run" where
  "setGetPlaneLayout L S =
    (let layouts = fakePlaneLayouts; componentSize = 8 + 4 * 8;
         firstLayoutSize = (8 + 1) * 8 + 3 * componentSize; secondLayoutSize = (8 + 1) * 8;
         expectedSize = firstLayoutSize + secondLayoutSize + 8 + HeaderSize;
         payload = (\<lambda>line i value k. ut_int64 i (\<lambda>data. ut_expect line (data = value) k))
     in ut_encode S PLANE_LAYOUTS (MPlanes layouts) 0 (\<lambda>r.
        ut_expect 192 (r = int expectedSize)
       (ut_byte 0 (\<lambda>b. ut_expect 193 (b = 0)
       (ut_encode S PLANE_LAYOUTS (MPlanes layouts) 10000 (\<lambda>r.
        ut_expect 194 (r = int expectedSize)
       (payload 196 1 3 (payload 197 2 8 (payload 198 4 40 (payload 199 11 31
       (payload 200 15 22 (payload 201 17 10 (payload 202 18 11
       (ut_decode_from L S PLANE_LAYOUTS [] (\<lambda>none. ut_expect 203 (none = None)
       (ut_decode L S PLANE_LAYOUTS (\<lambda>read.
        ut_assert 205 (read \<noteq> None)
       (ut_expect 206 (read = Some (MPlanes layouts)) ut_done))))))))))))))))) (filled 0) [])"

definition setGetRects :: "codec_limits \<Rightarrow> smt_enum \<Rightarrow> nat list run" where
  "setGetRects L S =
    (let cropRects = [\<lparr>rect_left = 10, rect_top = 11, rect_right = 12, rect_bottom = 13\<rparr>,
                      \<lparr>rect_left = 20, rect_top = 21, rect_right = 22, rect_bottom = 23\<rparr>];
         expectedSize = 8 + 8 * 4 + HeaderSize
     in ut_encode S CROP (MRects cropRects) 10000 (\<lambda>r.
        ut_expect 217 (r = int expectedSize)
       (ut_int64 0 (\<lambda>data. ut_expect 218 (data = 2)
       (ut_int32 2 (\<lambda>data. ut_expect 219 (data = 10)
       (ut_decode L S CROP (\<lambda>read.
        ut_assert 221 (read \<noteq> None)
       (ut_expect 222 (case read of Some (MRects rs) \<Rightarrow> length rs = length cropRects | _ \<Rightarrow> False)
       (ut_expect 223 (read = Some (MRects cropRects)) ut_done))))))))) (filled 0) [])"

text \<open>The floats of the next two tests by their bit patterns.\<close>

definition setGetSmpte2086 :: "codec_limits \<Rightarrow> smt_enum \<Rightarrow> nat list run" where
  "setGetSmpte2086 L S =
    (let source = \<lparr>primaryRed = \<lparr>xy_x = 0x3DCCCCCD, xy_y = 0x3E4CCCCD\<rparr>,
           primaryGreen = \<lparr>xy_x = 0x3E99999A, xy_y = 0x3ECCCCCD\<rparr>,
           primaryBlue = \<lparr>xy_x = 0x3F000000, xy_y = 0x3F19999A\<rparr>,
           whitePoint = \<lparr>xy_x = 0xC0C00000, xy_y = 0xC1100000\<rparr>,
           maxLuminance = 0x43E271CB, minLuminance = 0x41455C29\<rparr>;
         expectedSize = 10 * 4 + HeaderSize
     in ut_encode S SMPTE2086 (MSmpte2086 (Some source)) 10000 (\<lambda>r.
        ut_expect 238 (r = int expectedSize)
       (ut_decode L S SMPTE2086 (\<lambda>read.
        ut_assert 240 (read \<noteq> None)
       (ut_assert 241 (read \<noteq> Some (MSmpte2086 None))
       (ut_expect 242 (read = Some (MSmpte2086 (Some source)))
       (ut_decode_from L S SMPTE2086 [] (\<lambda>read.
        ut_assert 246 (read \<noteq> None)
       (ut_expect 247 (read = Some (MSmpte2086 None)) ut_done)))))))) (filled 0) [])"

definition setGetCta861_3 :: "codec_limits \<Rightarrow> smt_enum \<Rightarrow> nat list run" where
  "setGetCta861_3 L S =
    (let source = \<lparr>maxContentLightLevel = 0x434A33B6, maxFrameAverageLightLevel = 0x43748CCD\<rparr>;
         expectedSize = 2 * 4 + HeaderSize
     in ut_encode S CTA861_3 (MCta861_3 (Some source)) 10000 (\<lambda>r.
        ut_expect 258 (r = int expectedSize)
       (ut_decode L S CTA861_3 (\<lambda>read.
        ut_assert 260 (read \<noteq> None)
       (ut_assert 261 (read \<noteq> Some (MCta861_3 None))
       (ut_expect 262 (read = Some (MCta861_3 (Some source)))
       (ut_decode_from L S CTA861_3 [] (\<lambda>read.
        ut_assert 266 (read \<noteq> None)
       (ut_expect 267 (read = Some (MCta861_3 None)) ut_done)))))))) (filled 0) [])"

definition setGetSmpte2094_10 :: "codec_limits \<Rightarrow> smt_enum \<Rightarrow> nat list run" where
  "setGetSmpte2094_10 L S =
    (let emptyBuffer = []; simpleBuffer = [0, 1, 2, 3, 4, 5]; size = (\<lambda>v. case v of Some (MBlob (Some b)) \<Rightarrow> length b | _ \<Rightarrow> 0)
     in ut_encode S SMPTE2094_10 (MBlob None) 10000 (\<lambda>r.
        ut_expect 274 (r = 0)
       (ut_decode_from L S SMPTE2094_10 [] (\<lambda>read.
        ut_assert 276 (read \<noteq> None)
       (ut_expect 277 (read = Some (MBlob None))
       (ut_encode S SMPTE2094_10 (MBlob (Some emptyBuffer)) 10000 (\<lambda>r.
        ut_expect 280 (r = int (8 + HeaderSize))
       (ut_decode L S SMPTE2094_10 (\<lambda>read.
        ut_assert 283 (read \<noteq> None)
       (ut_assert 284 (read \<noteq> Some (MBlob None))
       (ut_expect 285 (size read = 0)
       (ut_encode S SMPTE2094_10 (MBlob (Some simpleBuffer)) 10000 (\<lambda>r.
        ut_expect 288 (r = int (8 + 6 + HeaderSize))
       (ut_decode L S SMPTE2094_10 (\<lambda>read.
        ut_assert 291 (read \<noteq> None)
       (ut_assert 292 (read \<noteq> Some (MBlob None))
       (ut_expect 293 (size read = 6)
       (ut_expect 294 (read = Some (MBlob (Some simpleBuffer))) ut_done))))))))))))))))) (filled 0) [])"

section \<open>The dispatch\<close>

definition provides_bufferId :: "codec_limits \<Rightarrow> smt_enum \<Rightarrow> nat list run" where
  "provides_bufferId L S =
     andThen (provideStandardMetadata S (smt_code S BUFFER_ID) 10000
                (\<lambda>T provide s. if T = BUFFER_ID then Done (provide (MInt64 42), s) else Done ((0, []), s)) ())
       (\<lambda>((result, new), _).
          ut_expect 308 (result = int (8 + HeaderSize))
         (ut_decode L S BUFFER_ID (\<lambda>read. ut_expect 310 (read = Some (MInt64 42)) ut_done)) (stored_in (filled 0) new) [])"

primrec all_jumps :: "smt_enum \<Rightarrow> standard_metadata_type list \<Rightarrow> nat list run" where
  "all_jumps S [] = Done []"
| "all_jumps S (type # types) =
    (let as_int = (\<lambda>T. sint (ucast (smt_code S T) :: c_int));
         expected = (if type = INVALID then - AIMAPPER_ERROR_UNSUPPORTED else as_int type + 100)
     in andThen (provideStandardMetadata S (smt_code S type) 0 (\<lambda>T _ s. Done ((as_int T + 100, []), s)) ())
          (\<lambda>((get, _), _). andThen (all_jumps S types) (\<lambda>ls. Done ((if expected = get then [] else [324]) @ ls))))"

definition allJumpsWork :: "smt_enum \<Rightarrow> nat list run" where
  "allJumpsWork S = all_jumps S (smt_values S)"

definition invalid_type :: "smt_enum \<Rightarrow> nat list run" where
  "invalid_type S =
     andThen (provideStandardMetadata S (smt_code S INVALID) 0 (\<lambda>_ _ s. Done ((10, []), s)) ())
       (\<lambda>((result, _), _). Done (if result = - AIMAPPER_ERROR_UNSUPPORTED then [] else [332]))"

definition outOfBounds :: "smt_enum \<Rightarrow> nat list run" where
  "outOfBounds S =
    (let get = (\<lambda>type. provideStandardMetadata S type 0 (\<lambda>_ _ s. Done ((10, []), s)) ())
     in andThen (get (- 1)) (\<lambda>((r1, _), _). andThen (get 100) (\<lambda>((r2, _), _).
          Done ((if r1 = - AIMAPPER_ERROR_UNSUPPORTED then [] else [338]) @
                (if r2 = - AIMAPPER_ERROR_UNSUPPORTED then [] else [342])))))"

section \<open>One step of a test\<close>

abbreviation stream_of :: "u64 \<Rightarrow> metadata_value \<Rightarrow> bytes" where
  "stream_of hv v \<equiv> concat (value_chunks hv v)"

lemmas ut_steps = ut_done_def ut_expect_def ut_assert_def HeaderSize_def

lemma ut_encode_room:
  assumes "length (stream_of (smt_code S T) v) = n" and "n \<le> N" and "int n \<le> 2 ^ 31 - 1"
  shows "ut_encode S T v N k buffer = k (int n) (stream_of (smt_code S T) v @ drop n buffer)"
  using encode_room [of "smt_code S T" v N] assms by (auto simp: ut_encode_def stored_in_def)

lemma ut_encode_no_room:
  assumes "length (stream_of (smt_code S T) v) = n" and "int n \<le> 2 ^ 31 - 1"
  shows "ut_encode S T v 0 k buffer = k (int n) buffer"
  using encode_no_room [of "smt_code S T" v] assms by (auto simp: ut_encode_def stored_in_def)

lemma ut_decode_front:
  assumes "value_ok L v" and "value_chunks (smt_code S T) v \<noteq> []" and "std_kind T = Some (kind_of v)"
  shows "ut_decode L S T k (stream_of (smt_code S T) v @ rest) ls
    = k (Some v) (stream_of (smt_code S T) v @ rest) ls"
  using decode_prefix [OF assms(1,2)] assms(3) by (simp add: ut_decode_def ut_decode_from_def)

lemma ut_decode_nothing:
  "ut_decode_from L S T [] k buffer ls =
     k (case the (std_kind T) of KSmpte2086 \<Rightarrow> Some (MSmpte2086 None) | KCta861_3 \<Rightarrow> Some (MCta861_3 None)
        | KBlob \<Rightarrow> Some (MBlob None) | _ \<Rightarrow> None) buffer ls"
  by (simp add: ut_decode_from_def decode_nothing)

lemma SkipHeader_front: "SkipHeader (concat (header_chunks hv) @ bs) = bs"
  by (simp add: SkipHeader_def HeaderSize_def length_header_chunks)

lemma payload_front:
  "ut_int64 i k (concat (header_chunks hv) @ bs) =
     k (of_le (take 8 (drop (8 * i) bs))) (concat (header_chunks hv) @ bs)"
  "ut_int32 i k' (concat (header_chunks hv) @ bs) =
     k' (of_le (take 4 (drop (4 * i) bs))) (concat (header_chunks hv) @ bs)"
  by (simp_all add: ut_int64_def ut_int32_def SkipHeader_front)

lemma of_le_words [simp]: "of_le (to_le (x :: u64)) = x" "of_le (to_le (y :: u32)) = y"
  by (simp_all add: of_le_to_le)

lemma length_filled [simp]: "length (filled c) = 10000"
  by (simp add: filled_def)

lemma value_chunks_present [simp]:
  "value_chunks hv (MInt64 x) \<noteq> []" "value_chunks hv (MEnum32 y) \<noteq> []" "value_chunks hv (MString s) \<noteq> []"
  "value_chunks hv (MExtendable e) \<noteq> []" "value_chunks hv (MPlanes ps) \<noteq> []" "value_chunks hv (MRects rs) \<noteq> []"
  "value_chunks hv (MSmpte2086 (Some a)) \<noteq> []" "value_chunks hv (MCta861_3 (Some b)) \<noteq> []"
  "value_chunks hv (MBlob (Some s)) \<noteq> []"
  by (simp_all add: header_chunks_def string_chunks_def)

lemmas ut_run = ut_encode_room ut_encode_no_room ut_decode_front ut_decode_nothing ut_steps

lemma length_rects: "length (concat (concat (map rect_chunks rs))) = 16 * length rs"
  by (induction rs) (simp_all add: rect_chunks_def int_chunks_def)

text \<open>The length of each stream, and what its payload starts with.\<close>

lemma length_stream:
  "length (stream_of hv (MInt64 x)) = 77" "length (stream_of hv (MEnum32 y)) = 73"
  "length (stream_of hv (MString s)) = 77 + length s"
  "length (stream_of hv (MExtendable e)) = 85 + length (ext_name e)"
  "length (stream_of hv (MRects rs)) = 77 + 16 * length rs"
  "length (stream_of hv (MSmpte2086 (Some a))) = 109" "length (stream_of hv (MCta861_3 (Some b))) = 77"
  "length (stream_of hv (MBlob (Some s))) = 77 + length s"
  by (simp_all add: length_header_chunks int_chunks_def string_chunks_def extendable_chunks_def
      rects_chunks_def rect_chunks_def smpte2086_chunks_def xycolor_chunks_def cta861_3_chunks_def
      length_rects)

lemma payload_stream:
  "ut_int64 0 k (stream_of hv (MInt64 x) @ bs) = k x (stream_of hv (MInt64 x) @ bs)"
  "ut_int32 0 k' (stream_of hv (MEnum32 y) @ bs) = k' y (stream_of hv (MEnum32 y) @ bs)"
  "ut_int64 0 k (stream_of hv (MString s) @ bs) = k (of_nat (length s)) (stream_of hv (MString s) @ bs)"
  "ut_int64 0 k (stream_of hv (MExtendable e) @ bs) =
     k (of_nat (length (ext_name e))) (stream_of hv (MExtendable e) @ bs)"
  "ut_int64 0 k (stream_of hv (MRects rs) @ bs) = k (of_nat (length rs)) (stream_of hv (MRects rs) @ bs)"
  by (simp_all add: payload_front int_chunks_def string_chunks_def extendable_chunks_def rects_chunks_def)

lemma setGetBufferId_passes: "setGetBufferId L S = Done []"
proof -
  have first: "ut_int64 0 k (take 69 (filled 0) @ to_le (42 :: u64) @ bs) = k 42 (take 69 (filled 0) @ to_le (42 :: u64) @ bs)" for k bs
    by (simp add: ut_int64_def SkipHeader_def HeaderSize_def)
  show ?thesis
    unfolding setGetBufferId_def
    by (simp add: ut_run length_stream payload_stream first del: value_chunks.simps)
qed

lemma of_le_zeros [simp]: "of_le (replicate n 0) = 0"
  by (induction n) simp_all

lemma setGetDataspace_passes: "setGetDataspace BT2020 L S = Done []"
proof -
  have first: "ut_int32 0 k (filled 0) = k 0 (filled 0)" for k
    by (simp add: ut_int32_def SkipHeader_def HeaderSize_def filled_def)
  show ?thesis
    unfolding setGetDataspace_def
    by (simp add: ut_run length_stream payload_stream first del: value_chunks.simps)
qed


lemmas ut_simps = ut_run length_stream payload_stream

lemma setGetValidName_passes: "setGetValidName L S = Done []"
proof -
  have b: "ut_byte 82 k (stream_of hv (MString s) @ drop 82 (filled c)) = k c (stream_of hv (MString s) @ drop 82 (filled c))"
    if "length s = 5" for k hv s c
    using that length_stream(3) [of hv s] by (simp add: ut_byte_def nth_append filled_def del: value_chunks.simps)
  show ?thesis
    unfolding setGetValidName_def Let_def
    by (simp add: ut_simps b string_ok_def del: value_chunks.simps)
qed

text \<open>
  The header counts towards the size as well, so the longest name that can be encoded is 77 bytes
  below \<open>INT32_MAX\<close>, not 7 as the comment of the test has it.
\<close>

lemma name_overflow_boundary:
  "fst (metadata_encode hv (MString s) n) = - AIMAPPER_ERROR_BAD_VALUE \<longleftrightarrow> 2 ^ 31 - 1 < int (length s) + 77"
  using emit_fresh(1) [of "value_chunks hv (MString s)" n] length_stream(3) [of hv s]
  by (simp add: encode_emit finish_def stream_size_def AIMAPPER_ERROR_BAD_VALUE_def del: value_chunks.simps)

lemma wouldOverflowName_passes:
  assumes "\<And>n. length (view n) = n"
  shows "wouldOverflowName view S = Done []"
proof -
  have "fst (metadata_encode hv (MString s) n) = - AIMAPPER_ERROR_BAD_VALUE" if "2 ^ 31 - 1 < int (length s) + 77" for hv s n
    using that name_overflow_boundary [of hv s n] by simp
  then show ?thesis
    unfolding wouldOverflowName_def
    by (simp add: ut_encode_def case_prod_beta ut_steps assms)
qed

lemma setGetMismatchedWidthHight_passes:
  assumes "smt_ok S"
  shows "setGetMismatchedWidthHight L S = Done []"
proof -
  have wrong: "ut_decode L S HEIGHT k (stream_of (smt_code S WIDTH) (MInt64 x) @ bs) ls
      = k None (stream_of (smt_code S WIDTH) (MInt64 x) @ bs) ls" for k x bs ls
    using decode_prefix_wrong [of "smt_code S HEIGHT" "smt_code S WIDTH" L "to_le x @ bs" KInt64] smt_code_inj [OF assms]
    by (simp add: ut_decode_def ut_decode_from_def int_chunks_def)
  show ?thesis
    unfolding setGetMismatchedWidthHight_def
    by (simp add: ut_simps wrong del: value_chunks.simps)
qed

lemma first_byte: "ut_byte 0 k (filled c) = k c (filled c)"
  by (simp add: ut_byte_def filled_def)

lemma setGetCompression_passes: "setGetCompression L S = Done []"
  unfolding setGetCompression_def Let_def
  by (simp add: ut_simps first_byte string_ok_def del: value_chunks.simps)

lemma setGetRects_passes:
  assumes "2 \<le> lim_rects L"
  shows "setGetRects L S = Done []"
proof -
  have left: "ut_int32 2 k (stream_of hv (MRects (r # rs)) @ bs) = k (rect_left r) (stream_of hv (MRects (r # rs)) @ bs)"
    for k hv r rs bs
    by (simp add: payload_front rects_chunks_def rect_chunks_def int_chunks_def)
  have two: "Suc (Suc 0) \<le> lim_rects L"
    using assms by simp
  show ?thesis
    unfolding setGetRects_def Let_def
    by (simp add: ut_simps left rects_ok_def two del: value_chunks.simps)
qed

lemma setGetSmpte2086_passes: "setGetSmpte2086 L S = Done []"
  unfolding setGetSmpte2086_def Let_def
  by (simp add: ut_simps del: value_chunks.simps)

lemma setGetCta861_3_passes: "setGetCta861_3 L S = Done []"
  unfolding setGetCta861_3_def Let_def
  by (simp add: ut_simps del: value_chunks.simps)

lemma ut_encode_absent: "ut_encode S T (MBlob None) N k buffer = k 0 buffer"
  by (simp add: ut_encode_def encode_blob_def stored_in_def)

lemma setGetSmpte2094_10_passes: "setGetSmpte2094_10 L S = Done []"
  unfolding setGetSmpte2094_10_def Let_def
  by (simp add: ut_simps ut_encode_absent string_ok_def del: value_chunks.simps)

lemma provides_bufferId_passes:
  assumes "smt_ok S"
  shows "provides_bufferId L S = Done []"
  unfolding provides_bufferId_def
  by (simp add: ut_simps provideStandardMetadata_def invoke_code [OF assms] encode_room stored_in_def
      del: value_chunks.simps metadata_encode.simps)

lemma all_jumps_pass:
  assumes "smt_ok S"
  shows "all_jumps S Ts = Done []"
  by (induction Ts) (simp_all add: Let_def provideStandardMetadata_def invoke_code [OF assms])

lemma invalid_type_passes:
  assumes "smt_ok S"
  shows "invalid_type S = Done []"
  by (simp add: invalid_type_def provideStandardMetadata_def invoke_code [OF assms])

lemma outOfBounds_passes:
  assumes "length (smt_values S) \<le> 100"
  shows "outOfBounds S = Done []"
proof -
  have "unat (- 1 :: u64) = 2 ^ 64 - 1"
    by (simp add: unsigned_minus_1_eq_mask mask_eq_exp_minus_1)
  then show ?thesis
    using assms
    by (simp add: outOfBounds_def Let_def provideStandardMetadata_def invokeWithStandardMetadata_def)
qed


text \<open>A destination that holds the header and the length, but not the characters.\<close>

lemma encode_string_cut:
  assumes "77 \<le> n" and "n < 77 + length s" and "int (length s) + 77 \<le> 2 ^ 31 - 1"
  shows "metadata_encode hv (MString s) n =
    (int (77 + length s), concat (header_chunks hv) @ to_le (of_nat (length s) :: u64))"
proof -
  let ?front = "header_chunks hv @ [to_le (of_nat (length s) :: u64)]"
  let ?w = "emit ?front (MetadataWriter n)"
  have len: "length (concat ?front) = 77"
    by (simp add: length_header_chunks)
  have front: "w_written ?w = concat ?front" "mDesiredSize ?w = 77"
    using emit_fresh(1,4) [of ?front n] len assms(1) by (simp_all add: stream_size_def del: concat_append)
  have room: "mSizeRemaining ?w < length s"
    using emit_room [of ?front "MetadataWriter n"] front len assms(2) by (simp add: MetadataWriter_def del: concat_append)
  have "metadata_encode hv (MString s) n = finish (write_raw s ?w)"
    by (simp add: encode_emit string_chunks_def emit_append)
  then show ?thesis
    using front room assms(3) by (simp add: finish_def write_raw_def reserve_def Let_def)
qed

lemma ut_decode_cut:
  assumes "length tail < 21"
  shows "ut_decode L S NAME k (concat (header_chunks (smt_code S NAME)) @ to_le (21 :: u64) @ tail) ls
    = k None (concat (header_chunks (smt_code S NAME)) @ to_le (21 :: u64) @ tail) ls"
proof -
  have "readString \<lparr>mSrc = to_le (21 :: u64) @ tail, mOk = True\<rparr> = ([], \<lparr>mSrc = tail, mOk = False\<rparr>)"
    using readInt_to_le [of "\<lparr>mSrc = to_le (21 :: u64) @ tail, mOk = True\<rparr>" "21 :: u64" tail] assms
    by (simp add: readString_def advance_def)
  then show ?thesis
    by (simp add: ut_decode_def ut_decode_from_def decode_string_def header_front)
qed

lemma setGetInvalidName_passes: "setGetInvalidName L S = Done []"
proof -
  let ?s = "map of_char ''This is a long string'' :: bytes"
  let ?new = "\<lambda>buffer. concat (header_chunks (smt_code S NAME)) @ to_le (21 :: u64) @ drop 77 buffer"
  have e: "ut_encode S NAME (MString ?s) 81 k buffer = k 98 (?new buffer)" for k and buffer :: bytes
    using encode_string_cut [of 81 ?s "smt_code S NAME"]
    by (simp add: ut_encode_def stored_in_def length_header_chunks del: metadata_encode.simps)
  have p: "ut_int64 0 k (?new buffer) = k 21 (?new buffer)" for k and buffer :: bytes
    by (simp add: payload_front)
  show ?thesis
    unfolding setGetInvalidName_def Let_def
    using e by (simp add: HeaderSize_def ut_steps ut_decode_nothing ut_decode_cut p)
qed

text \<open>The planes of the fixture as the bytes they are stored as.\<close>

lemma setGetPlaneLayout_passes:
  assumes "2 \<le> lim_planes L" and "3 \<le> lim_components L"
  shows "setGetPlaneLayout L S = Done []"
proof -
  let ?v = "MPlanes fakePlaneLayouts"
  have three: "[0..<3] = [0, 1, 2]"
    by (simp add: upt_rec)
  note chunks = fakePlaneLayouts_def three planes_chunks_def plane_chunks_def component_chunks_def
    extendable_chunks_def string_chunks_def int_chunks_def
  have len: "length (stream_of hv ?v) = 341" for hv
    by (simp add: chunks length_header_chunks)
  have ok: "value_ok L ?v"
    using assms by (simp add: planes_ok_def plane_ok_def component_ok_def string_ok_def fakePlaneLayouts_def three)
  have pay: "ut_int64 1 k (stream_of hv ?v @ bs) = k 3 (stream_of hv ?v @ bs)"
    "ut_int64 2 k (stream_of hv ?v @ bs) = k 8 (stream_of hv ?v @ bs)"
    "ut_int64 4 k (stream_of hv ?v @ bs) = k 40 (stream_of hv ?v @ bs)"
    "ut_int64 11 k (stream_of hv ?v @ bs) = k 31 (stream_of hv ?v @ bs)"
    "ut_int64 15 k (stream_of hv ?v @ bs) = k 22 (stream_of hv ?v @ bs)"
    "ut_int64 17 k (stream_of hv ?v @ bs) = k 10 (stream_of hv ?v @ bs)"
    "ut_int64 18 k (stream_of hv ?v @ bs) = k 11 (stream_of hv ?v @ bs)" for k hv bs
    by (simp_all add: payload_front chunks)
  show ?thesis
    unfolding setGetPlaneLayout_def Let_def
    by (simp add: ut_run len ok pay first_byte del: value_chunks.simps value_ok.simps One_nat_def)
qed


lemmas codec_tests_pass = setGetBufferId_passes setGetDataspace_passes setGetValidName_passes
  setGetInvalidName_passes wouldOverflowName_passes setGetMismatchedWidthHight_passes
  setGetCompression_passes setGetPlaneLayout_passes setGetRects_passes setGetSmpte2086_passes
  setGetCta861_3_passes setGetSmpte2094_10_passes provides_bufferId_passes all_jumps_pass
  invalid_type_passes outOfBounds_passes

section \<open>Properties\<close>

text \<open>C32: The unit tests of the codec pass: for every numbering of the metadata types that the code's
  own compile-time check accepts, with at most 100 of them, for vectors that can hold three elements,
  whatever the value of \<open>Dataspace::BT2020\<close>, no line of the sixteen tests fails and none of them
  faults.\<close>

theorem codec_unit_tests_pass:
  assumes "smt_ok S" and "length (smt_values S) \<le> 100" and "\<And>n. length (view n) = n"
    and "2 \<le> lim_planes L" and "3 \<le> lim_components L" and "2 \<le> lim_rects L"
  shows "list_all (\<lambda>test. test = Done [])
    [setGetBufferId L S, setGetDataspace BT2020 L S, setGetValidName L S, setGetInvalidName L S,
     wouldOverflowName view S, setGetMismatchedWidthHight L S, setGetCompression L S,
     setGetPlaneLayout L S, setGetRects L S, setGetSmpte2086 L S, setGetCta861_3 L S,
     setGetSmpte2094_10 L S, provides_bufferId L S, allJumpsWork S, invalid_type S, outOfBounds S]"
  using assms
  by (simp add: codec_tests_pass allJumpsWork_def)

theorem codec_unit_tests_pass_witness:
  "let L = \<lparr>lim_planes = 2, lim_components = 3, lim_rects = 2\<rparr>
   in setGetPlaneLayout L android_smt = Done [] \<and> setGetInvalidName L android_smt = Done [] \<and>
      allJumpsWork android_smt = Done [] \<and> wouldOverflowName (\<lambda>n. replicate n 0) android_smt = Done []"
proof -
  have "length (smt_values android_smt) \<le> 100"
    by (simp add: android_smt_def Let_def)
  then show ?thesis
    using codec_unit_tests_pass [of android_smt "\<lambda>n. replicate n 0" "\<lparr>lim_planes = 2, lim_components = 3, lim_rects = 2\<rparr>" 6]
    by simp
qed

end
