(* ===== verification/Vts_Tests.thy ===== *)
theory Vts_Tests
  imports Vts_Fixture
begin

text \<open>
  The platform's conformance tests of the buffer and metadata calls, from
  src/include/stable-c-v33/vts/VtsHalGraphicsMapperStableC_TargetTest.cpp: one definition per test,
  the line of each expectation as its label, and what the model of this mapper does under it.
\<close>

section \<open>Helpers of the tests\<close>

text \<open>The descriptors the tests ask for; designated initialisers leave the rest empty.\<close>

definition vts_info :: "string \<Rightarrow> c_int \<Rightarrow> c_int \<Rightarrow> c_int \<Rightarrow> u64 \<Rightarrow> BufferDescriptorInfo" where
  "vts_info name width height format usage =
     \<lparr>bdi_name = map of_char name, bdi_width = width, bdi_height = height, bdi_layerCount = 1,
      bdi_format = format, bdi_usage = usage, bdi_reservedSize = 0, additionalOptions = []\<rparr>"

definition CPU_OFTEN :: "'e rig \<Rightarrow> u64" where
  "CPU_OFTEN R = CPU_WRITE_OFTEN (r_vts R) OR CPU_READ_OFTEN (r_vts R)"

definition allocateGeneric :: "'e rig \<Rightarrow> (buffer_allocation option \<Rightarrow> ('e, 'z) test) \<Rightarrow> ('e, 'z) test" where
  "allocateGeneric R =
     with_buffer R (vts_info ''VTS_TEMP'' 64 64 (PixelFormat_RGBA_8888 (r_vts R)) (CPU_OFTEN R))"

definition fx_isSupported :: "BufferDescriptorInfo \<Rightarrow> (bool \<Rightarrow> ('e, 'z) test) \<Rightarrow> ('e, 'z) test" where
  "fx_isSupported descriptorInfo k x =
    (let (status, ret) = isSupported descriptorInfo (svc x)
     in EXPECT 215 (isOk status) (k (ret = Some True)) x)"

text \<open>
  The opening lines of most tests, with the line of the first check and of the second:
  a generic buffer, checked, and an imported handle of it, checked.
\<close>

definition generic_import ::
    "'e rig \<Rightarrow> nat \<Rightarrow> (buffer_allocation \<Rightarrow> ptr \<Rightarrow> ('e, 'z) test) \<Rightarrow> ('e, 'z) test" where
  "generic_import R line body =
     allocateGeneric R (\<lambda>buffer.
       ASSERT line (buffer \<noteq> None)
         (with_import R buffer (\<lambda>h. ASSERT (line + 2) (h \<noteq> 0) (body (the buffer) h))))"

text \<open>The same lines with neither check.\<close>

definition generic_unchecked ::
    "'e rig \<Rightarrow> (buffer_allocation \<Rightarrow> ptr \<Rightarrow> ('e, 'z) test) \<Rightarrow> ('e, 'z) test" where
  "generic_unchecked R body =
     allocateGeneric R (\<lambda>buffer. with_import R buffer (body (the buffer)))"

text \<open>
  Libcutils: a handle without descriptors or words, null when out of memory; deleting null does
  nothing.
\<close>

definition empty_handle :: "'e rig \<Rightarrow> (ptr \<Rightarrow> ('e, 'z) test) \<Rightarrow> ('e, 'z) test" where
  "empty_handle R k x =
    (let s = gm (cli x)
     in case p_native_handle_create (r_cli R) (dom (handles s)) 0 0 (env s) of
          (None, e) \<Rightarrow> k 0 (x\<lparr>cli := (cli x)\<lparr>gm := s\<lparr>env := e\<rparr>\<rparr>\<rparr>)
        | (Some (p, h), e) \<Rightarrow> k p (x\<lparr>cli := (cli x)\<lparr>gm := store_handle p h (s\<lparr>env := e\<rparr>)\<rparr>\<rparr>))"

definition delete_handle :: "ptr \<Rightarrow> ('e, 'z) test \<Rightarrow> ('e, 'z) test" where
  "delete_handle p k x =
    (if p = 0 then k x
     else andThen (native_handle_delete p (gm (cli x))) (\<lambda>s. k (x\<lparr>cli := (cli x)\<lparr>gm := s\<rparr>\<rparr>)))"

text \<open>
  Locks through the function table: left, top, right and bottom of the access region go along and
  the mapper drops them.  The out variables are updated when the call stores something.
\<close>

definition fx_lock ::
    "'e rig \<Rightarrow> ptr \<Rightarrow> u64 \<Rightarrow> c_int \<times> c_int \<times> c_int \<times> c_int \<Rightarrow> c_int \<Rightarrow> (int \<Rightarrow> ('e, 'z) test) \<Rightarrow> ('e, 'z) test" where
  "fx_lock R h cpuUsage accessRegion acquireFence k =
     on_mapper (lock (r_cli R) h cpuUsage acquireFence) (\<lambda>(r, outData). k r)"

definition fx_unlock :: "'e rig \<Rightarrow> ptr \<Rightarrow> c_int \<Rightarrow> (int \<Rightarrow> c_int \<Rightarrow> ('e, 'z) test) \<Rightarrow> ('e, 'z) test" where
  "fx_unlock R h releaseFence k =
     on_mapper (unlock (r_cli R) h) (\<lambda>(r, out). k r (case out of None \<Rightarrow> releaseFence | Some f \<Rightarrow> f))"

definition close_release :: "c_int \<Rightarrow> ('e, 'z) test \<Rightarrow> ('e, 'z) test" where
  "close_release releaseFence k x =
    (if releaseFence \<noteq> - 1 then k (x\<lparr>cli := (cli x)\<lparr>gm := close_fd releaseFence (gm (cli x))\<rparr>\<rparr>) else k x)"

section \<open>Buffers\<close>

definition CanAllocate :: "'e rig \<Rightarrow> ('e, 'z) test" where
  "CanAllocate R =
     with_buffer R (vts_info ''VTS_TEMP'' 64 64 (PixelFormat_RGBA_8888 (r_vts R)) (CPU_OFTEN R)) (\<lambda>buffer.
       ASSERT 623 (buffer \<noteq> None) (EXPECT 624 (unat (mStride (the buffer)) \<ge> 64) Done))"

definition ImportFreeBuffer :: "'e rig \<Rightarrow> ('e, 'z) test" where
  "ImportFreeBuffer R =
     with_buffer R (vts_info ''VTS_TEMP'' 64 64 (PixelFormat_RGBA_8888 (r_vts R)) (CPU_OFTEN R)) (\<lambda>buffer.
       ASSERT 637 (buffer \<noteq> None)
      (EXPECT 638 (unat (mStride (the buffer)) \<ge> 64)
      (with_import R buffer (\<lambda>import1.
       with_import R buffer (\<lambda>import2.
       EXPECT 643 (import1 \<noteq> 0)
      (EXPECT 644 (import2 \<noteq> 0)
      (EXPECT 645 (import1 \<noteq> import2) Done)))))))"

text \<open>
  A second load of the provider gives the same instance, so the second mapper is the first.
\<close>

definition ImportFreeBufferSingleton :: "'e rig \<Rightarrow> ('e, 'z) test" where
  "ImportFreeBufferSingleton R =
     with_buffer R (vts_info ''VTS_TEMP'' 64 64 (PixelFormat_RGBA_8888 (r_vts R)) (CPU_OFTEN R)) (\<lambda>buffer.
       ASSERT 662 (buffer \<noteq> None)
      (EXPECT 663 (unat (mStride (the buffer)) \<ge> 64)
      (on_raw buffer (\<lambda>raw.
       on_mapper (importBuffer (r_cli R) raw) (\<lambda>(r, out).
       ASSERT 666 (r = AIMAPPER_ERROR_NONE)
      (let bufferHandle = (case out of None \<Rightarrow> 0 | Some h \<Rightarrow> h)
       in ASSERT 667 (bufferHandle \<noteq> 0)
         (on_mapper (freeBuffer (r_cli R) bufferHandle) (\<lambda>r.
          ASSERT 671 (r = AIMAPPER_ERROR_NONE) Done))))))))"

definition ImportBufferNegative :: "'e rig \<Rightarrow> ('e, 'z) test" where
  "ImportBufferNegative R =
     on_mapper (importBuffer (r_cli R) 0) (\<lambda>(r, out).
     EXPECT 680 (r = AIMAPPER_ERROR_BAD_BUFFER)
    (empty_handle R (\<lambda>invalidHandle.
     on_mapper (importBuffer (r_cli R) invalidHandle) (\<lambda>(r, out).
     EXPECT 684 (r = AIMAPPER_ERROR_BAD_BUFFER)
    (delete_handle invalidHandle Done)))))"

definition FreeBufferNegative :: "'e rig \<Rightarrow> ('e, 'z) test" where
  "FreeBufferNegative R =
     on_mapper (freeBuffer (r_cli R) 0) (\<lambda>r.
     EXPECT 694 (r = AIMAPPER_ERROR_BAD_BUFFER)
    (empty_handle R (\<lambda>bufferHandle.
     on_mapper (freeBuffer (r_cli R) bufferHandle) (\<lambda>r.
     EXPECT 698 (r = AIMAPPER_ERROR_BAD_BUFFER)
    (delete_handle bufferHandle
    (allocateGeneric R (\<lambda>buffer.
     on_raw buffer (\<lambda>raw.
     on_mapper (freeBuffer (r_cli R) raw) (\<lambda>r.
     EXPECT 703 (r = AIMAPPER_ERROR_BAD_BUFFER) Done)))))))))"

section \<open>Locks\<close>

definition LockUnlockNoCPUUsage :: "'e rig \<Rightarrow> ('e, 'z) test" where
  "LockUnlockNoCPUUsage R =
    (let usage = CPU_READ_NEVER (r_vts R) OR CPU_WRITE_NEVER (r_vts R);
         info = vts_info ''VTS_TEMP'' 64 64 (PixelFormat_RGBA_8888 (r_vts R)) usage
     in with_buffer R info (\<lambda>buffer.
          ASSERT 766 (buffer \<noteq> None)
         (with_import R buffer (\<lambda>handle.
          fx_lock R handle usage (0, 0, 64, 64) (- 1) (\<lambda>r.
          EXPECT 774 (r = AIMAPPER_ERROR_BAD_VALUE)
         (fx_unlock R handle (- 1) (\<lambda>r releaseFence.
          EXPECT 780 (r = AIMAPPER_ERROR_BAD_BUFFER)
         (close_release releaseFence Done))))))))"

definition LockBadAccessRegion :: "'e rig \<Rightarrow> ('e, 'z) test" where
  "LockBadAccessRegion R =
     allocateGeneric R (\<lambda>buffer.
       ASSERT 1161 (buffer \<noteq> None)
      (let info = mInfo (the buffer)
       in with_import R buffer (\<lambda>handle.
          fx_lock R handle (bdi_usage info) (0, 0, bdi_width info * 2, bdi_height info * 2) (- 1) (\<lambda>r.
          EXPECT 1168 (r = AIMAPPER_ERROR_BAD_VALUE) Done))))"

definition UnlockNegative :: "'e rig \<Rightarrow> ('e, 'z) test" where
  "UnlockNegative R =
     fx_unlock R 0 (- 1) (\<lambda>r releaseFence.
     EXPECT 1175 (r = AIMAPPER_ERROR_BAD_BUFFER)
    (empty_handle R (\<lambda>invalidHandle.
     fx_unlock R invalidHandle releaseFence (\<lambda>r releaseFence.
     EXPECT 1179 (r = AIMAPPER_ERROR_BAD_BUFFER)
    (delete_handle invalidHandle
    (allocateGeneric R (\<lambda>buffer.
     on_raw buffer (\<lambda>raw.
     fx_unlock R raw releaseFence (\<lambda>r releaseFence.
     EXPECT 1184 (r = AIMAPPER_ERROR_BAD_BUFFER) Done)))))))))"

definition UnlockNotImported :: "'e rig \<Rightarrow> ('e, 'z) test" where
  "UnlockNotImported R =
     allocateGeneric R (\<lambda>buffer.
       ASSERT 1191 (buffer \<noteq> None)
      (on_raw buffer (\<lambda>raw.
       fx_unlock R raw (- 1) (\<lambda>r releaseFence.
       EXPECT 1192 (r = AIMAPPER_ERROR_BAD_BUFFER) Done))))"

definition UnlockNotLocked :: "'e rig \<Rightarrow> ('e, 'z) test" where
  "UnlockNotLocked R =
     generic_import R 1199 (\<lambda>buffer bufferHandle.
       fx_unlock R bufferHandle (- 1) (\<lambda>r releaseFence.
       EXPECT 1202 (r = AIMAPPER_ERROR_BAD_BUFFER) Done))"

definition LockUnlockNested :: "'e rig \<Rightarrow> ('e, 'z) test" where
  "LockUnlockNested R =
     generic_import R 1208 (\<lambda>buffer bufferHandle.
       let region = (0, 0, bdi_width (mInfo buffer), bdi_height (mInfo buffer));
           usage = bdi_usage (mInfo buffer)
       in with_import R (Some buffer) (\<lambda>handle.
          fx_lock R handle usage region (- 1) (\<lambda>r.
          EXPECT 1215 (r = AIMAPPER_ERROR_NONE)
         (fx_lock R handle usage region (- 1) (\<lambda>r.
          EXPECT 1216 (r = AIMAPPER_ERROR_NONE)
         (fx_unlock R handle (- 1) (\<lambda>r releaseFence.
          EXPECT 1219 (r = AIMAPPER_ERROR_NONE)
         (close_release releaseFence
         (fx_unlock R handle (- 1) (\<lambda>r releaseFence.
          EXPECT 1224 (r = AIMAPPER_ERROR_NONE)
         (close_release releaseFence
         (fx_unlock R handle (- 1) (\<lambda>r releaseFence.
          EXPECT 1230 (r = AIMAPPER_ERROR_BAD_BUFFER) Done)))))))))))))"

definition FlushLockedBufferBadBuffer :: "('e, 'z) test" where
  "FlushLockedBufferBadBuffer =
     on_mapper (\<lambda>m. Done (flushLockedBuffer 0 m)) (\<lambda>r. EXPECT 1286 (r = AIMAPPER_ERROR_BAD_BUFFER) Done)"

definition RereadLockedBufferBadBuffer :: "('e, 'z) test" where
  "RereadLockedBufferBadBuffer =
     on_mapper (\<lambda>m. Done (rereadLockedBuffer 0 m)) (\<lambda>r. EXPECT 1291 (r = AIMAPPER_ERROR_BAD_BUFFER) Done)"

section \<open>Reading metadata\<close>

text \<open>\<open>auto value = getStandardMetadata<T>(...)\<close> and \<open>ASSERT_TRUE(value.has_value())\<close> on the given line.\<close>

definition get_value ::
    "'e rig \<Rightarrow> standard_metadata_type \<Rightarrow> ptr \<Rightarrow> nat \<Rightarrow> (metadata_value \<Rightarrow> ('e, 'z) test) \<Rightarrow> ('e, 'z) test" where
  "get_value R T h line k =
     fx_getStandardMetadata R T h (\<lambda>value. ASSERT line (value \<noteq> None) (k (the value)))"

definition GetBufferId :: "'e rig \<Rightarrow> ('e, 'z) test" where
  "GetBufferId R =
     generic_unchecked R (\<lambda>buffer bufferHandle.
     get_value R BUFFER_ID bufferHandle 1298 (\<lambda>bufferId.
     generic_unchecked R (\<lambda>buffer2 bufferHandle2.
     get_value R BUFFER_ID bufferHandle2 1303 (\<lambda>bufferId2.
     EXPECT 1305 (bufferId \<noteq> bufferId2) Done))))"

definition GetName :: "'e rig \<Rightarrow> ('e, 'z) test" where
  "GetName R =
     with_buffer R (vts_info ''Hello, World!'' 64 64 (PixelFormat_RGBA_8888 (r_vts R)) (CPU_OFTEN R)) (\<lambda>buffer.
     with_import R buffer (\<lambda>bufferHandle.
     get_value R NAME bufferHandle 1320 (\<lambda>name.
     EXPECT 1321 (name = MString (map of_char ''Hello, World!'')) Done)))"

definition GetWidthHeight :: "'e rig \<Rightarrow> ('e, 'z) test" where
  "GetWidthHeight R =
     with_buffer R (vts_info ''Hello, World!'' 64 128 (PixelFormat_RGBA_8888 (r_vts R)) (CPU_OFTEN R)) (\<lambda>buffer.
     with_import R buffer (\<lambda>bufferHandle.
     get_value R WIDTH bufferHandle 1336 (\<lambda>value.
     EXPECT 1337 (value = MInt64 64)
    (get_value R HEIGHT bufferHandle 1339 (\<lambda>value.
     EXPECT 1340 (value = MInt64 128) Done)))))"

definition GetLayerCount :: "'e rig \<Rightarrow> ('e, 'z) test" where
  "GetLayerCount R =
     generic_unchecked R (\<lambda>buffer bufferHandle.
     get_value R LAYER_COUNT bufferHandle 1347 (\<lambda>value.
     EXPECT 1348 (value = MInt64 (scast (bdi_layerCount (mInfo buffer)))) Done))"

definition GetPixelFormatRequested :: "'e rig \<Rightarrow> ('e, 'z) test" where
  "GetPixelFormatRequested R =
     generic_unchecked R (\<lambda>buffer bufferHandle.
     get_value R PIXEL_FORMAT_REQUESTED bufferHandle 1355 (\<lambda>value.
     EXPECT 1356 (value = MEnum32 (bdi_format (mInfo buffer))) Done))"

text \<open>
  The second buffer is assigned to the variable of the first, which is destroyed once the new one
  exists.
\<close>

definition drop_buffer :: "buffer_allocation option \<Rightarrow> ('e, 'z) test" where
  "drop_buffer buffer x = (case buffer of None \<Rightarrow> Done x | Some b \<Rightarrow> BufferAllocation_dtor b x)"

definition GetPixelFormatFourCC :: "'e rig \<Rightarrow> ('e, 'z) test" where
  "GetPixelFormatFourCC R x =
     andThen (fx_allocate R (vts_info ''Hello, World!'' 64 128 (PixelFormat_RGBA_8888 (r_vts R)) (CPU_OFTEN R)) x)
       (\<lambda>(buffer, x).
     andThen (with_import R buffer (\<lambda>bufferHandle.
              get_value R PIXEL_FORMAT_FOURCC bufferHandle 1372 (\<lambda>value.
              EXPECT 1373 (value = MInt32 (DRM_FORMAT_ABGR8888 (r_vts R))) Done)) x)
       (\<lambda>x. if fatal x then drop_buffer buffer x else
     andThen (fx_allocate R (vts_info ''yv12'' 64 128 (PixelFormat_YV12 (r_vts R)) (CPU_OFTEN R)) x)
       (\<lambda>(buffer2, x).
     andThen (drop_buffer buffer x) (\<lambda>x.
     andThen (with_import R buffer2 (\<lambda>bufferHandle.
              get_value R PIXEL_FORMAT_FOURCC bufferHandle 1388 (\<lambda>value.
              EXPECT 1389 (value = MInt32 (DRM_FORMAT_YVU420 (r_vts R))) Done)) x)
       (drop_buffer buffer2)))))"

definition GetPixelFormatModifier :: "'e rig \<Rightarrow> ('e, 'z) test" where
  "GetPixelFormatModifier R =
     generic_unchecked R (\<lambda>buffer bufferHandle.
     get_value R PIXEL_FORMAT_MODIFIER bufferHandle 1397 (\<lambda>value. Done))"

definition GetUsage :: "'e rig \<Rightarrow> ('e, 'z) test" where
  "GetUsage R =
     generic_unchecked R (\<lambda>buffer bufferHandle.
     get_value R USAGE bufferHandle 1407 (\<lambda>value.
     EXPECT 1408 (value = MEnum64 (bdi_usage (mInfo buffer))) Done))"

text \<open>A skipped test ends like one that has nothing left to do.\<close>

definition GetUsage64 :: "'e rig \<Rightarrow> ('e, 'z) test" where
  "GetUsage64 R =
    (let V = r_vts R;
         info = vts_info ''VTS_TEMP'' 64 64 (PixelFormat_RGBA_8888 V)
           (FRONT_BUFFER V OR GPU_RENDER_TARGET V OR COMPOSER_OVERLAY V OR GPU_TEXTURE V)
     in fx_isSupported info (\<lambda>ret.
          if \<not> ret then Done
          else with_buffer R info (\<lambda>buffer.
               with_import R buffer (\<lambda>bufferHandle.
               get_value R USAGE bufferHandle 1428 (\<lambda>value.
               EXPECT 1430 (value = MEnum64 (bdi_usage (mInfo (the buffer)))) Done)))))"

definition GetAllocationSize :: "'e rig \<Rightarrow> ('e, 'z) test" where
  "GetAllocationSize R =
     generic_unchecked R (\<lambda>buffer bufferHandle.
     get_value R ALLOCATION_SIZE bufferHandle 1437 (\<lambda>value.
     let estimatedSize = mStride buffer * bdi_height (mInfo buffer) * 4;
         size = (case value of MInt64 v \<Rightarrow> v | _ \<Rightarrow> 0)
     in EXPECT 1441 (size \<ge> ucast estimatedSize)
       (EXPECT 1444 (size < ucast (estimatedSize * 2)) Done)))"

definition GetProtectedContent :: "'e rig \<Rightarrow> ('e, 'z) test" where
  "GetProtectedContent R =
    (let info = vts_info ''prot8888'' 64 64 (PixelFormat_RGBA_8888 (r_vts R))
           (BufferUsage_PROTECTED (r_consts R) OR COMPOSER_OVERLAY (r_vts R))
     in with_buffer R info (\<lambda>buffer.
          if buffer = None then fx_isSupported info (\<lambda>ret. ASSERT 1460 (\<not> ret) Done)
          else with_import R buffer (\<lambda>bufferHandle.
               get_value R PROTECTED_CONTENT bufferHandle 1467 (\<lambda>value.
               EXPECT 1468 (value = MInt64 1) Done))))"

definition GetCompression :: "'e rig \<Rightarrow> ('e, 'z) test" where
  "GetCompression R =
     generic_import R 1473 (\<lambda>buffer bufferHandle.
     get_value R COMPRESSION bufferHandle 1477 (\<lambda>value.
     let v = (case value of MExtendable e \<Rightarrow> e | _ \<Rightarrow> \<lparr>ext_name = [], ext_value = 0\<rparr>)
     in EXPECT 1478 (ext_name (Compression_None (r_consts R)) = ext_name v)
       (EXPECT 1479 (ext_value (Compression_None (r_consts R)) = ext_value v) Done)))"

definition GetInterlaced :: "'e rig \<Rightarrow> ('e, 'z) test" where
  "GetInterlaced R =
     generic_import R 1484 (\<lambda>buffer bufferHandle.
     get_value R INTERLACED bufferHandle 1488 (\<lambda>value.
     let v = (case value of MExtendable e \<Rightarrow> e | _ \<Rightarrow> \<lparr>ext_name = [], ext_value = 0\<rparr>)
     in EXPECT 1489 (ext_name (Interlaced_None (r_consts R)) = ext_name v)
       (EXPECT 1490 (ext_value (Interlaced_None (r_consts R)) = ext_value v) Done)))"

definition GetChromaSiting :: "'e rig \<Rightarrow> ('e, 'z) test" where
  "GetChromaSiting R =
     generic_import R 1495 (\<lambda>buffer bufferHandle.
     get_value R CHROMA_SITING bufferHandle 1499 (\<lambda>value.
     let v = (case value of MExtendable e \<Rightarrow> e | _ \<Rightarrow> \<lparr>ext_name = [], ext_value = 0\<rparr>)
     in EXPECT 1500 (ext_name (ChromaSiting_None (r_consts R)) = ext_name v)
       (EXPECT 1501 (ext_value (ChromaSiting_None (r_consts R)) = ext_value v) Done)))"

text \<open>
  The loop over the components keeps the offsets of red, green, blue and alpha, at first -1.
\<close>

primrec component_offsets ::
    "'e rig \<Rightarrow> PlaneLayoutComponent list \<Rightarrow> u64 \<times> u64 \<times> u64 \<times> u64 \<Rightarrow> (u64 \<times> u64 \<times> u64 \<times> u64 \<Rightarrow> ('e, 'z) test) \<Rightarrow> ('e, 'z) test" where
  "component_offsets R [] offs k = k offs"
| "component_offsets R (component # cs) offs k =
    (if \<not> isStandardPlaneLayoutComponentType (r_vts R) (plc_type component) then component_offsets R cs offs k
     else EXPECT 287 (sizeInBits component = 8)
       (let (r, g, b, a) = offs; ty = ext_value (plc_type component); off = offsetInBits component;
            K = mc_components (r_consts R);
            r = (if ty = ext_value (Type_R K) then off else r);
            g = (if ty = ext_value (Type_G K) then off else g);
            b = (if ty = ext_value (Type_B K) then off else b);
            a = (if ty = ext_value (Type_A K) then off else a)
        in component_offsets R cs (r, g, b, a) k))"

definition verifyRGBA8888PlaneLayouts :: "'e rig \<Rightarrow> PlaneLayout list \<Rightarrow> ('e, 'z) test" where
  "verifyRGBA8888PlaneLayouts R planeLayouts =
     ASSERT 272 (length planeLayouts = 1)
    (let planeLayout = hd planeLayouts
     in ASSERT 276 (length (components planeLayout) = 4)
       (component_offsets R (components planeLayout) (- 1, - 1, - 1, - 1) (\<lambda>(r, g, b, a).
        EXPECT 302 (r = 0)
       (EXPECT 303 (g = 8)
       (EXPECT 304 (b = 16)
       (EXPECT 305 (a = 24)
       (EXPECT 307 (offsetInBytes planeLayout = 0)
       (EXPECT 308 (sampleIncrementInBits planeLayout = 32)
       (EXPECT 310 (sint (widthInSamples planeLayout * heightInSamples planeLayout * 4)
                      \<le> sint (totalSizeInBytes planeLayout))
       (EXPECT 312 (horizontalSubsampling planeLayout = 1)
       (EXPECT 313 (verticalSubsampling planeLayout = 1) Done)))))))))))"

definition GetPlaneLayouts :: "'e rig \<Rightarrow> ('e, 'z) test" where
  "GetPlaneLayouts R =
     generic_import R 1506 (\<lambda>buffer bufferHandle.
     get_value R PLANE_LAYOUTS bufferHandle 1510 (\<lambda>value.
     NO_FATAL 1511 (verifyRGBA8888PlaneLayouts R (case value of MPlanes ps \<Rightarrow> ps | _ \<Rightarrow> [])) Done))"

definition GetCrop :: "'e rig \<Rightarrow> ('e, 'z) test" where
  "GetCrop R =
     generic_import R 1516 (\<lambda>buffer bufferHandle.
     get_value R CROP bufferHandle 1520 (\<lambda>value.
     let rects = (case value of MRects rs \<Rightarrow> rs | _ \<Rightarrow> []);
         expected = \<lparr>rect_left = 0, rect_top = 0, rect_right = bdi_width (mInfo buffer),
                     rect_bottom = bdi_height (mInfo buffer)\<rparr>
     in EXPECT 1521 (length rects = 1)
          (case rects of [] \<Rightarrow> (\<lambda>x. Fault UncaughtException)
           | r # _ \<Rightarrow> EXPECT 1523 (expected = r) Done)))"

definition GetSmpte2094_10 :: "'e rig \<Rightarrow> ('e, 'z) test" where
  "GetSmpte2094_10 R =
     generic_import R 1611 (\<lambda>buffer bufferHandle.
     fx_getStandardMetadata R SMPTE2094_10 bufferHandle (\<lambda>value.
     if value \<noteq> None then EXPECT 1616 (value = Some (MBlob None)) Done else Done))"

definition GetSmpte2094_40 :: "'e rig \<Rightarrow> ('e, 'z) test" where
  "GetSmpte2094_40 R =
     generic_import R 1622 (\<lambda>buffer bufferHandle.
     fx_getStandardMetadata R SMPTE2094_40 bufferHandle (\<lambda>value.
     if value \<noteq> None then EXPECT 1627 (value = Some (MBlob None)) Done else Done))"

definition GetStride :: "'e rig \<Rightarrow> ('e, 'z) test" where
  "GetStride R =
     generic_import R 1633 (\<lambda>buffer bufferHandle.
     get_value R STRIDE bufferHandle 1637 (\<lambda>value.
     EXPECT 1638 (value = MInt32 (mStride buffer)) Done))"

text \<open>\<open>YV12SubsampleMetadata\<close>, with a lock held around the query.\<close>

definition YV12SubsampleMetadata :: "'e rig \<Rightarrow> ('e, 'z) test" where
  "YV12SubsampleMetadata R =
    (let info = vts_info ''VTS_TEMP'' 64 64 (PixelFormat_YV12 (r_vts R)) (CPU_OFTEN R)
     in with_buffer R info (\<lambda>buffer.
          ASSERT 861 (buffer \<noteq> None)
         (with_import R buffer (\<lambda>handle.
          fx_lock R handle (bdi_usage info) (0, 0, 64, 64) (- 1) (\<lambda>r.
          ASSERT 867 (r = AIMAPPER_ERROR_NONE)
         (get_value R PLANE_LAYOUTS handle 871 (\<lambda>value.
          let planeLayouts = (case value of MPlanes ps \<Rightarrow> ps | _ \<Rightarrow> [])
          in ASSERT 874 (length planeLayouts = 3)
            (let yPlane = planeLayouts ! 0; crPlane = planeLayouts ! 1; cbPlane = planeLayouts ! 2
             in EXPECT 881 (horizontalSubsampling crPlane = 2)
               (EXPECT 882 (verticalSubsampling crPlane = 2)
               (EXPECT 884 (horizontalSubsampling cbPlane = 2)
               (EXPECT 885 (verticalSubsampling cbPlane = 2)
               (EXPECT 890 (widthInSamples yPlane = 64)
               (EXPECT 891 (heightInSamples yPlane = 64)
               (EXPECT 893 (widthInSamples crPlane = 32)
               (EXPECT 894 (heightInSamples crPlane = 32)
               (EXPECT 896 (widthInSamples cbPlane = 32)
               (EXPECT 897 (heightInSamples cbPlane = 32)
               (EXPECT 899 (sint (widthInSamples crPlane) \<le> sint (strideInBytes crPlane))
               (EXPECT 900 (sint (widthInSamples cbPlane) \<le> sint (strideInBytes cbPlane))
               (fx_unlock R handle (- 1) (\<lambda>r releaseFence.
                ASSERT 903 (r = AIMAPPER_ERROR_NONE) (close_release releaseFence Done))))))))))))))))))))))"

section \<open>Setting metadata\<close>

definition GetSetDataspace :: "'e rig \<Rightarrow> ('e, 'z) test" where
  "GetSetDataspace R =
     generic_import R 1528 (\<lambda>buffer bufferHandle.
     get_value R DATASPACE bufferHandle 1532 (\<lambda>value.
     EXPECT 1533 (value = MEnum32 (Dataspace_UNKNOWN (r_consts R)))
    (fx_setStandardMetadata R DATASPACE bufferHandle (MEnum32 (Dataspace_DISPLAY_P3 (r_vts R))) (\<lambda>r.
     EXPECT 1534 (r = AIMAPPER_ERROR_NONE)
    (get_value R DATASPACE bufferHandle 1537 (\<lambda>value.
     EXPECT 1538 (value = MEnum32 (Dataspace_DISPLAY_P3 (r_vts R))) Done))))))"

definition GetSetBlendMode :: "'e rig \<Rightarrow> ('e, 'z) test" where
  "GetSetBlendMode R =
     generic_import R 1543 (\<lambda>buffer bufferHandle.
     get_value R BLEND_MODE bufferHandle 1547 (\<lambda>value.
     EXPECT 1548 (value = MEnum32 (BlendMode_INVALID (r_vts R)))
    (fx_setStandardMetadata R BLEND_MODE bufferHandle (MEnum32 (BlendMode_COVERAGE (r_vts R))) (\<lambda>r.
     EXPECT 1549 (r = AIMAPPER_ERROR_NONE)
    (get_value R BLEND_MODE bufferHandle 1552 (\<lambda>value.
     EXPECT 1553 (value = MEnum32 (BlendMode_COVERAGE (r_vts R))) Done))))))"

text \<open>Floats are their bit patterns: 1, 2, 3, 400, 1000, 100000 and 0.0001; 1000 and 140 below.\<close>

definition awesomeHdr :: Smpte2086 where
  "awesomeHdr = \<lparr>primaryRed = \<lparr>xy_x = 0x3F800000, xy_y = 0x3F800000\<rparr>,
     primaryGreen = \<lparr>xy_x = 0x40000000, xy_y = 0x40000000\<rparr>,
     primaryBlue = \<lparr>xy_x = 0x40400000, xy_y = 0x40400000\<rparr>,
     whitePoint = \<lparr>xy_x = 0x43C80000, xy_y = 0x447A0000\<rparr>,
     maxLuminance = 0x47C35000, minLuminance = 0x38D1B717\<rparr>"

definition GetSetSmpte2086 :: "'e rig \<Rightarrow> ('e, 'z) test" where
  "GetSetSmpte2086 R =
     generic_import R 1558 (\<lambda>buffer bufferHandle.
     get_value R SMPTE2086 bufferHandle 1562 (\<lambda>value.
     EXPECT 1563 (value = MSmpte2086 None)
    (fx_setStandardMetadata R SMPTE2086 bufferHandle (MSmpte2086 (Some awesomeHdr)) (\<lambda>r.
     EXPECT 1571 (r = AIMAPPER_ERROR_NONE)
    (get_value R SMPTE2086 bufferHandle 1574 (\<lambda>value.
     ASSERT 1575 (value \<noteq> MSmpte2086 None)
    (EXPECT 1576 (value = MSmpte2086 (Some awesomeHdr))
    (fx_setStandardMetadata R SMPTE2086 bufferHandle (MSmpte2086 None) (\<lambda>r.
     EXPECT 1578 (r = AIMAPPER_ERROR_NONE)
    (get_value R SMPTE2086 bufferHandle 1581 (\<lambda>value.
     EXPECT 1582 (value = MSmpte2086 None) Done)))))))))))"

definition genericHlgish :: Cta861_3 where
  "genericHlgish = \<lparr>maxContentLightLevel = 0x447A0000, maxFrameAverageLightLevel = 0x430C0000\<rparr>"

definition GetCta861_3 :: "'e rig \<Rightarrow> ('e, 'z) test" where
  "GetCta861_3 R =
     generic_import R 1587 (\<lambda>buffer bufferHandle.
     get_value R CTA861_3 bufferHandle 1591 (\<lambda>value.
     EXPECT 1592 (value = MCta861_3 None)
    (fx_setStandardMetadata R CTA861_3 bufferHandle (MCta861_3 (Some genericHlgish)) (\<lambda>r.
     EXPECT 1595 (r = AIMAPPER_ERROR_NONE)
    (get_value R CTA861_3 bufferHandle 1598 (\<lambda>value.
     ASSERT 1599 (value \<noteq> MCta861_3 None)
    (EXPECT 1600 (value = MCta861_3 (Some genericHlgish))
    (fx_setStandardMetadata R CTA861_3 bufferHandle (MCta861_3 None) (\<lambda>r.
     EXPECT 1602 (r = AIMAPPER_ERROR_NONE)
    (get_value R CTA861_3 bufferHandle 1605 (\<lambda>value.
     EXPECT 1606 (value = MCta861_3 None) Done)))))))))))"

section \<open>The list of supported types\<close>

definition requiredGetters :: "standard_metadata_type list" where
  "requiredGetters = [BUFFER_ID, NAME, WIDTH, HEIGHT, LAYER_COUNT, PIXEL_FORMAT_REQUESTED,
     PIXEL_FORMAT_FOURCC, PIXEL_FORMAT_MODIFIER, USAGE, ALLOCATION_SIZE, PROTECTED_CONTENT, COMPRESSION,
     INTERLACED, CHROMA_SITING, PLANE_LAYOUTS, CROP, DATASPACE, BLEND_MODE, SMPTE2086, CTA861_3, STRIDE]"

definition requiredSetters :: "standard_metadata_type list" where
  "requiredSetters = [DATASPACE, BLEND_MODE, SMPTE2086, CTA861_3]"

text \<open>\<open>std::erase\<close> compares the enumerators, that is their numbers.\<close>

definition erase_type :: "'e rig \<Rightarrow> u64 \<Rightarrow> standard_metadata_type list \<Rightarrow> standard_metadata_type list" where
  "erase_type R value = filter (\<lambda>T. smt_code (mc_smt (r_consts R)) T \<noteq> value)"

primrec check_descriptions ::
    "'e rig \<Rightarrow> AIMapper_MetadataTypeDescription list \<Rightarrow> standard_metadata_type list \<Rightarrow> standard_metadata_type list
      \<Rightarrow> (standard_metadata_type list \<Rightarrow> standard_metadata_type list \<Rightarrow> ('e, 'z) test) \<Rightarrow> ('e, 'z) test" where
  "check_descriptions R [] getters setters k = k getters setters"
| "check_descriptions R (it # its) getters setters k =
    (let S = mc_smt (r_consts R); value = mt_value (desc_type it)
     in if isStandardMetadata (desc_type it)
        then EXPECT 1684 (sint value > sint (smt_code S INVALID))
            (EXPECT 1685 (unat value < length (smt_values S))
            (check_descriptions R its (if isGettable it then erase_type R value getters else getters)
               (if isSettable it then erase_type R value setters else setters) k))
        else EXPECT 1697 (description it \<noteq> None)
            (case description it of
               None \<Rightarrow> (\<lambda>x. Fault NullDeref)
             | Some s \<Rightarrow> EXPECT 1699 (int (length s) \<ge> 0) (check_descriptions R its getters setters k)))"

definition SupportsRequiredGettersSetters :: "'e rig \<Rightarrow> ('e, 'z) test" where
  "SupportsRequiredGettersSetters R =
     generic_import R 1643 (\<lambda>buffer bufferHandle.
     let (r, descriptions) = listSupportedMetadataTypes (r_consts R)
     in ASSERT 1648 (r = AIMAPPER_ERROR_NONE)
       (check_descriptions R descriptions requiredGetters requiredSetters (\<lambda>getters setters.
        EXPECT 1703 (getters = [])
       (EXPECT 1704 (setters = []) Done))))"

primrec check_optional :: "'e rig \<Rightarrow> AIMapper_MetadataTypeDescription list \<Rightarrow> ('e, 'z) test" where
  "check_optional R [] = Done"
| "check_optional R (it # its) =
    (let code = smt_code (mc_smt (r_consts R)); value = mt_value (desc_type it)
     in if isStandardMetadata (desc_type it) \<and> value \<in> {code SMPTE2094_10, code SMPTE2094_40} \<and> isGettable it
        then EXPECT 1729 (isSettable it) (check_optional R its)
        else check_optional R its)"

definition CheckRequiredSettersIfHasGetters :: "'e rig \<Rightarrow> ('e, 'z) test" where
  "CheckRequiredSettersIfHasGetters R =
     generic_import R 1713 (\<lambda>buffer bufferHandle.
     let (r, descriptions) = listSupportedMetadataTypes (r_consts R)
     in ASSERT 1718 (r = AIMAPPER_ERROR_NONE) (check_optional R descriptions))"

text \<open>
  The lambda \<open>get\<close>: \<open>metadataBuffer\<close> is resized to the size asked for and filled.
\<close>

definition resized :: "nat \<Rightarrow> bytes \<Rightarrow> bytes" where
  "resized n buffer = take n buffer @ replicate (n - length buffer) 0"

definition list_get ::
    "'e rig \<Rightarrow> ptr \<Rightarrow> AIMapper_MetadataType \<Rightarrow> bytes \<Rightarrow> (int \<Rightarrow> bytes \<Rightarrow> ('e, 'z) test) \<Rightarrow> ('e, 'z) test" where
  "list_get R h metadataType metadataBuffer k =
     on_mapper (getMetadata (r_cli R) (r_consts R) h metadataType 0) (\<lambda>(size, new).
       if size \<ge> 0
       then let buffer = resized (nat size) metadataBuffer
            in on_mapper (getMetadata (r_cli R) (r_consts R) h metadataType (length buffer)) (\<lambda>(size, new).
                 let buffer = stored_in buffer new
                 in EXPECT 1757 (size = int (length buffer)) (k size buffer))
       else k size metadataBuffer)"

primrec list_supported ::
    "'e rig \<Rightarrow> ptr \<Rightarrow> AIMapper_MetadataTypeDescription list \<Rightarrow> bytes \<Rightarrow> ('e, 'z) test" where
  "list_supported R h [] metadataBuffer = Done"
| "list_supported R h (it # its) metadataBuffer =
    (if \<not> isStandardMetadata (desc_type it) then list_supported R h its metadataBuffer
     else if \<not> isGettable it
     then EXPECT 1768 (\<not> isSettable it) (list_supported R h its metadataBuffer)
     else list_get R h (desc_type it) metadataBuffer (\<lambda>size metadataBuffer.
          EXPECT 1772 (size \<ge> 0)
         (if isSettable it
          then on_mapper (setMetadata (r_consts R) h (desc_type it) metadataBuffer) (\<lambda>r.
               EXPECT 1776 (r = AIMAPPER_ERROR_NONE) (list_supported R h its metadataBuffer))
          else list_supported R h its metadataBuffer)))"

definition ListSupportedWorks :: "'e rig \<Rightarrow> ('e, 'z) test" where
  "ListSupportedWorks R =
     generic_import R 1742 (\<lambda>buffer bufferHandle.
     let (r, descriptions) = listSupportedMetadataTypes (r_consts R)
     in ASSERT 1747 (r = AIMAPPER_ERROR_NONE) (list_supported R bufferHandle descriptions []))"

section \<open>Metadata errors\<close>

primrec bad_value_types :: "'e rig \<Rightarrow> standard_metadata_type list \<Rightarrow> ('e, 'z) test" where
  "bad_value_types R [] = Done"
| "bad_value_types R (type # types) =
    (if type = INVALID then bad_value_types R types
     else on_mapper (getStandardMetadata (r_cli R) (r_consts R) 0 (smt_code (mc_smt (r_consts R)) type) 0)
       (\<lambda>(ret, new). EXPECT 1798 ((if ret < 0 then - ret else AIMAPPER_ERROR_NONE) = AIMAPPER_ERROR_BAD_BUFFER)
         (bad_value_types R types)))"

definition GetMetadataBadValue :: "'e rig \<Rightarrow> ('e, 'z) test" where
  "GetMetadataBadValue R = bad_value_types R (smt_values (mc_smt (r_consts R)))"

definition GetUnsupportedMetadata :: "'e rig \<Rightarrow> ('e, 'z) test" where
  "GetUnsupportedMetadata R =
    (let S = mc_smt (r_consts R)
     in generic_import R 1804 (\<lambda>buffer bufferHandle.
        on_mapper (getMetadata (r_cli R) (r_consts R) bufferHandle \<lparr>mt_name = map of_char ''Fake'', mt_value = 1\<rparr> 0)
          (\<lambda>(result, new).
        EXPECT 1809 (- result = AIMAPPER_ERROR_UNSUPPORTED)
       (on_mapper (getStandardMetadata (r_cli R) (r_consts R) bufferHandle (smt_code S INVALID) 0) (\<lambda>(result, new).
        EXPECT 1813 (- result = AIMAPPER_ERROR_UNSUPPORTED)
       (on_mapper (getStandardMetadata (r_cli R) (r_consts R) bufferHandle (of_nat (length (smt_values S))) 0)
          (\<lambda>(result, new).
        EXPECT 1817 (- result = AIMAPPER_ERROR_UNSUPPORTED) Done)))))))"

end
