(* ===== verification/Vts_Session.thy ===== *)
theory Vts_Session
  imports Vts_Tests
begin

text \<open>
  How a conformance test runs against the models of the allocator service and of the mapper: the
  session of one buffer and one imported handle most of them share, and the outcome of the tests
  that read and set metadata in one.
\<close>

section \<open>The shape of a test\<close>

text \<open>Where a test starts: the platform keeps its promises, nothing is held, no metadata is set.\<close>

definition ready :: "'e rig \<Rightarrow> ('e, 'z) fixture_scheme \<Rightarrow> bool" where
  "ready R x \<longleftrightarrow> rig_ok R \<and> svc_ok x \<and> holding R [] [] (cli x) \<and> \<not> fatal x \<and> metadata_map (cli x) = Map.empty"

text \<open>An allocation that gave a handle, and an import that did.\<close>

definition obtains_buffer ::
    "'e rig \<Rightarrow> BufferDescriptorInfo \<Rightarrow> ('e, 'z) fixture_scheme \<Rightarrow> buffer_allocation \<Rightarrow> ('e, 'z) fixture_scheme \<Rightarrow> bool" where
  "obtains_buffer R info x b y \<longleftrightarrow> fx_allocate R info x = Done (Some b, y) \<and> mRawHandle b \<noteq> 0"

definition obtains_handle :: "'e rig \<Rightarrow> buffer_allocation \<Rightarrow> ('e, 'z) fixture_scheme \<Rightarrow> ptr \<Rightarrow> ('e, 'z) fixture_scheme \<Rightarrow> bool" where
  "obtains_handle R b y q z \<longleftrightarrow>
     (\<exists>m. importBuffer (r_cli R) (mRawHandle b) (cli y) = Done ((AIMAPPER_ERROR_NONE, Some q), m) \<and> z = y\<lparr>cli := m\<rparr>)"

text \<open>How a test ends: the labels that failed, and whether the last one was fatal; all is released.\<close>

definition test_ends :: "'e rig \<Rightarrow> ('e, 'z) test \<Rightarrow> ('e, 'z) fixture_scheme \<Rightarrow> nat list \<Rightarrow> bool \<Rightarrow> bool" where
  "test_ends R t x ls fat \<longleftrightarrow>
     (\<exists>w. t x = Done w \<and> failures w = failures x @ ls \<and> fatal w = fat \<and> holding R [] [] (cli w))"

lemma checks [simp]:
  "EXPECT l True k = k" "ASSERT l True k = k" "expect l True x = x"
  by (auto simp: EXPECT_def ASSERT_def expect_def fun_eq_iff)

lemma failed_checks [simp]:
  "expect l False x = x\<lparr>failures := failures x @ [l]\<rparr>"
  "EXPECT l False k x = k (x\<lparr>failures := failures x @ [l]\<rparr>)"
  "ASSERT l False k x = Done (x\<lparr>failures := failures x @ [l], fatal := True\<rparr>)"
  by (simp_all add: EXPECT_def ASSERT_def expect_def)

lemma readyD:
  assumes "ready R x"
  shows "rig_ok R" and "svc_ok x" and "holding R [] [] (cli x)" and "\<not> fatal x"
    and "metadata_map (cli x) = Map.empty" and "mInitialized (cli x)"
  using assms holdingD(2) by (auto simp: ready_def)

lemma with_buffer_ends:
  assumes R: "rig_ok R"
    and run: "fx_allocate R info x = Done (Some b, y)" and body: "body (Some b) y = Done w"
    and hold: "holding R ((mRawHandle b, info) # raws) qs (cli w)"
  shows "\<exists>m. with_buffer R info body x = Done (w\<lparr>cli := m\<rparr>) \<and> holding R raws qs m"
  using dtor_holds [OF R hold] run body by (auto simp: with_buffer_def)

lemma with_import_ends:
  assumes R: "rig_ok R" and imp: "obtains_handle R b y q z"
    and body: "body q z = Done w" and hold: "holding R raws ((q, info) # qs) (cli w)"
  shows "\<exists>m. with_import R (Some b) body y = Done (w\<lparr>cli := m\<rparr>) \<and> holding R raws qs m"
proof -
  obtain m where "importBuffer (r_cli R) (mRawHandle b) (cli y) = Done ((AIMAPPER_ERROR_NONE, Some q), m)"
    and "z = y\<lparr>cli := m\<rparr>"
    using imp by (auto simp: obtains_handle_def)
  then show ?thesis
    using reset_holds [OF R hold] body by (simp add: with_import_def BufferHandle_def on_mapper_def)
qed

text \<open>What the two first steps of a session leave.\<close>

lemma buffer_held:
  assumes "rig_ok R" "svc_ok x" "holding R raws qs (cli x)" and "obtains_buffer R info x b y"
  shows "holding R ((mRawHandle b, info) # raws) qs (cli y)" and "failures y = failures x"
    and "fatal y = fatal x" and "metadata_map (cli y) = metadata_map (cli x)" and "mInfo b = info"
    and "mRawHandle b \<noteq> 0" and "fx_allocate R info x = Done (Some b, y)"
  using fx_allocate_holds [OF assms(1-3)] assms(4) by (auto simp: obtains_buffer_def)

lemma handle_held:
  assumes "rig_ok R" "holding R raws qs (cli y)" and "(mRawHandle b, info) \<in> set raws"
    and "obtains_handle R b y q z"
  shows "holding R raws ((q, info) # qs) (cli z)" and "failures z = failures y" and "fatal z = fatal y"
    and "metadata_map (cli z) = metadata_map (cli y)" and "q \<noteq> 0" and "q \<notin> fst ` set qs"
    and "\<exists>b bo. gbm_bo_handle_map (gm (cli z)) q = Some b \<and> bos (gm (cli z)) b = Some bo \<and> user_data bo = None"
proof -
  obtain m where m: "importBuffer (r_cli R) (mRawHandle b) (cli y) = Done ((AIMAPPER_ERROR_NONE, Some q), m)"
    and z: "z = y\<lparr>cli := m\<rparr>"
    using assms(4) by (auto simp: obtains_handle_def)
  note im = import_holds [OF assms(1-3) m]
  show "holding R raws ((q, info) # qs) (cli z)" "failures z = failures y" "fatal z = fatal y"
    "metadata_map (cli z) = metadata_map (cli y)" "q \<noteq> 0" "q \<notin> fst ` set qs"
    "\<exists>b bo. gbm_bo_handle_map (gm (cli z)) q = Some b \<and> bos (gm (cli z)) b = Some bo \<and> user_data bo = None"
    using im(1,3-6) by (simp_all add: z)
qed

text \<open>A session: one buffer, one imported handle of it.\<close>

definition session ::
    "'e rig \<Rightarrow> BufferDescriptorInfo \<Rightarrow> ('e, 'z) fixture_scheme \<Rightarrow> buffer_allocation \<Rightarrow> ptr \<Rightarrow> ('e, 'z) fixture_scheme \<Rightarrow> bool" where
  "session R info x b q z \<longleftrightarrow> (\<exists>y. obtains_buffer R info x b y \<and> obtains_handle R b y q z)"

definition held :: "'e rig \<Rightarrow> BufferDescriptorInfo \<Rightarrow> buffer_allocation \<Rightarrow> ptr \<Rightarrow> ('e, 'z) fixture_scheme \<Rightarrow> bool" where
  "held R info b q z \<longleftrightarrow> holding R [(mRawHandle b, info)] [(q, info)] (cli z)"

lemma session_start:
  assumes "ready R x" and "session R info x b q z"
  shows "held R info b q z" and "failures z = failures x" and "\<not> fatal z"
    and "metadata_map (cli z) = Map.empty" and "q \<noteq> 0" and "mInfo b = info"
    and "\<exists>b bo. gbm_bo_handle_map (gm (cli z)) q = Some b \<and> bos (gm (cli z)) b = Some bo \<and> user_data bo = None"
proof -
  note r = readyD [OF assms(1)]
  obtain y where y: "obtains_buffer R info x b y" "obtains_handle R b y q z"
    using assms(2) by (auto simp: session_def)
  note y1 = buffer_held [OF r(1-3) y(1)]
  note z = handle_held [OF r(1) y1(1) _ y(2), of info]
  show "held R info b q z" "failures z = failures x" "\<not> fatal z" "metadata_map (cli z) = Map.empty"
    "q \<noteq> 0" "mInfo b = info"
    "\<exists>b bo. gbm_bo_handle_map (gm (cli z)) q = Some b \<and> bos (gm (cli z)) b = Some bo \<and> user_data bo = None"
    using z y1 r(4,5) by (simp_all add: held_def)
qed

text \<open>A test over one buffer and one handle ends as its body does.\<close>

lemma session_ends:
  assumes rdy: "ready R x" and s: "session R info x b q z"
    and outer: "outer (Some b) = with_import R (Some b) inner"
    and inner: "inner q z = Done w" and kept: "held R info b q w"
    and "failures w = failures z @ ls" "fatal w = fat"
  shows "test_ends R (with_buffer R info outer) x ls fat"
proof -
  note r = readyD(1) [OF rdy]
  obtain y where y: "obtains_buffer R info x b y" "obtains_handle R b y q z"
    using s by (auto simp: session_def)
  obtain m where m: "with_import R (Some b) inner y = Done (w\<lparr>cli := m\<rparr>)"
    "holding R [(mRawHandle b, info)] [] m"
    using with_import_ends [where body = inner, OF r y(2) inner kept [unfolded held_def]] by blast
  moreover have "fx_allocate R info x = Done (Some b, y)"
    using y(1) by (simp add: obtains_buffer_def)
  ultimately obtain n where "with_buffer R info outer x = Done (w\<lparr>cli := n\<rparr>)" "holding R [] [] n"
    using with_buffer_ends [OF r, of info x b y outer] outer by fastforce
  then show ?thesis
    using assms(6,7) session_start(2) [OF rdy s] by (auto simp: test_ends_def)
qed

lemmas session_defs = allocateGeneric_def generic_import_def generic_unchecked_def

section \<open>Reading metadata in a session\<close>

definition with_md :: "'e rig \<Rightarrow> gralloc_handle_t \<Rightarrow> ('e, 'z) fixture_scheme \<Rightarrow> ('e, 'z) fixture_scheme" where
  "with_md R h z = z\<lparr>cli := snd (createMetadata (r_consts R) h (cli z))\<rparr>"

definition value_fits :: "'e rig \<Rightarrow> standard_metadata_type \<Rightarrow> metadata_value \<Rightarrow> bool" where
  "value_fits R T v \<longleftrightarrow> 0 \<le> encoded_size (r_consts R) T v \<and> value_ok (r_decode R) v"

lemma encoded_size_eq:
  assumes "int (length (concat (value_chunks (smt_code (mc_smt C) T) v))) \<le> 2 ^ 31 - 1"
  shows "encoded_size C T v = int (length (concat (value_chunks (smt_code (mc_smt C) T) v)))"
  using assms emit_fresh(1) [of "value_chunks (smt_code (mc_smt C) T) v" 0]
  by (simp add: encoded_size_def encode_emit finish_def stream_size_def)

lemma simple_values_fit [simp]:
  "value_fits R T (MInt32 a)" "value_fits R T (MInt64 c)" "value_fits R T (MEnum32 a)" "value_fits R T (MEnum64 c)"
  "value_fits R T (MSmpte2086 s)" "value_fits R T (MCta861_3 t)"
  by (auto simp: value_fits_def encoded_size_eq length_header_chunks int_chunks_def smpte2086_chunks_def
      xycolor_chunks_def cta861_3_chunks_def split: option.splits)

lemma with_md_sel [simp]:
  "failures (with_md R h z) = failures z" "fatal (with_md R h z) = fatal z" "svc (with_md R h z) = svc z"
  "gm (cli (with_md R h z)) = gm (cli z)" "mInitialized (cli (with_md R h z)) = mInitialized (cli z)"
  "with_md R h (with_md R h z) = with_md R h z"
  "held R info b q (with_md R h z) = held R info b q z"
  "with_md R h (z\<lparr>failures := ls\<rparr>) = (with_md R h z)\<lparr>failures := ls\<rparr>"
  "with_md R h (z\<lparr>fatal := fat\<rparr>) = (with_md R h z)\<lparr>fatal := fat\<rparr>"
  "held R info b q (z\<lparr>failures := ls\<rparr>) = held R info b q z"
  "held R info b q (z\<lparr>fatal := fat\<rparr>) = held R info b q z"
  by (simp_all add: with_md_def held_def holding_def)

lemma heldD:
  assumes "held R info b q z"
  shows "\<exists>h. load_handle q (gm (cli z)) = Done h \<and> describes info h" and "mInitialized (cli z)" and "q \<noteq> 0"
proof -
  have hold: "holding R [(mRawHandle b, info)] [(q, info)] (cli z)"
    using assms by (simp add: held_def)
  show "\<exists>h. load_handle q (gm (cli z)) = Done h \<and> describes info h" "mInitialized (cli z)" "q \<noteq> 0"
    using holdingD(2) [OF hold] holdingD(5) [OF hold, of "(q, info)"] holding_live(1) [OF hold, of q]
    by (auto simp: imported_handle_def)
qed

lemma get_value_eq:
  assumes "rig_ok R" and "mInitialized (cli z)" and h: "load_handle q (gm (cli z)) = Done h"
    and "standard_value (r_cli R) (r_consts R) q h (fst (createMetadata (r_consts R) h (cli z))) (gm (cli z)) T
      = Done (Some v)" and "value_fits R T v"
  shows "get_value R T q l k z = k v (with_md R h z)"
proof -
  have "T \<noteq> INVALID"
    using assms(4) by (auto simp: standard_value_def)
  then show ?thesis
    using fx_get_value [OF assms(1-3) _ assms(4)] assms(5)
    by (simp add: get_value_def value_fits_def with_md_def)
qed

text \<open>A test that reads one value, finds what the handle describes, and is done.\<close>

lemma getter_test:
  assumes rdy: "ready R x" and s: "session R info x b q z"
    and outer: "outer (Some b) = with_import R (Some b) inner" and inner: "inner q z = get_value R T q l k z"
    and v: "\<And>h. load_handle q (gm (cli z)) = Done h \<Longrightarrow> describes info h \<Longrightarrow>
      standard_value (r_cli R) (r_consts R) q h (fst (createMetadata (r_consts R) h (cli z))) (gm (cli z)) T = Done (Some (v h))"
    and fits: "\<And>h. describes info h \<Longrightarrow> value_fits R T (v h)"
    and k: "\<And>h. describes info h \<Longrightarrow> k (v h) (with_md R h z) = Done (with_md R h z)"
  shows "test_ends R (with_buffer R info outer) x [] False"
proof -
  note st = session_start [OF rdy s]
  obtain h where h: "load_handle q (gm (cli z)) = Done h" "describes info h"
    using heldD(1) [OF st(1)] by blast
  have "inner q z = Done (with_md R h z)"
    using get_value_eq [OF readyD(1) [OF rdy] heldD(2) [OF st(1)] h(1) v [OF h] fits [OF h(2)]] k [OF h(2)] inner
    by simp
  then show ?thesis
    by (rule session_ends [where outer = outer and inner = inner, OF rdy s outer]) (use st in simp_all)
qed

definition generic_info :: "'e rig \<Rightarrow> BufferDescriptorInfo" where
  "generic_info R = vts_info ''VTS_TEMP'' 64 64 (PixelFormat_RGBA_8888 (r_vts R)) (CPU_OFTEN R)"

lemma vts_info_sel [simp]:
  "bdi_width (vts_info nm a b f u) = a" "bdi_height (vts_info nm a b f u) = b"
  "bdi_layerCount (vts_info nm a b f u) = 1" "bdi_format (vts_info nm a b f u) = f"
  "bdi_usage (vts_info nm a b f u) = u"
  by (simp_all add: vts_info_def)

lemma simple_value_tests:
  assumes rdy: "ready R x" and s: "session R (generic_info R) x b q z"
  shows "test_ends R (GetLayerCount R) x [] False"
    and "test_ends R (GetPixelFormatRequested R) x [] False"
    and "test_ends R (GetPixelFormatModifier R) x [] False"
    and "(ucast (ucast (CPU_OFTEN R) :: c_int) :: u64) = CPU_OFTEN R \<Longrightarrow> test_ends R (GetUsage R) x [] False"
    and "value_fits R COMPRESSION (MExtendable (Compression_None (r_consts R))) \<Longrightarrow> test_ends R (GetCompression R) x [] False"
    and "value_fits R INTERLACED (MExtendable (Interlaced_None (r_consts R))) \<Longrightarrow> test_ends R (GetInterlaced R) x [] False"
    and "value_fits R CHROMA_SITING (MExtendable (ChromaSiting_None (r_consts R))) \<Longrightarrow> test_ends R (GetChromaSiting R) x [] False"
proof -
  note st = session_start [OF rdy s]
  note d = session_defs generic_info_def [symmetric]
  show "test_ends R (GetLayerCount R) x [] False"
    unfolding GetLayerCount_def d
    by (rule getter_test [OF rdy s, where v = "\<lambda>h. MInt64 1"], simp, rule refl)
      (simp_all add: standard_value_def st(6) generic_info_def)
  show "test_ends R (GetPixelFormatRequested R) x [] False"
    unfolding GetPixelFormatRequested_def d
    by (rule getter_test [OF rdy s, where v = "\<lambda>h. MEnum32 (h_format h)"], simp, rule refl)
      (simp_all add: standard_value_def st(6) generic_info_def describes_def)
  show "test_ends R (GetPixelFormatModifier R) x [] False"
    unfolding GetPixelFormatModifier_def d
    by (rule getter_test [OF rdy s, where v = "\<lambda>h. MInt64 (h_modifier h)"], simp, rule refl)
      (simp_all add: standard_value_def)
  show "test_ends R (GetUsage R) x [] False" if "(ucast (ucast (CPU_OFTEN R) :: c_int) :: u64) = CPU_OFTEN R"
    unfolding GetUsage_def d
    by (rule getter_test [OF rdy s, where v = "\<lambda>h. MEnum64 (ucast (h_usage h))"], simp, rule refl)
      (use that in \<open>simp_all add: standard_value_def st(6) generic_info_def describes_def\<close>)
  show "test_ends R (GetCompression R) x [] False" if "value_fits R COMPRESSION (MExtendable (Compression_None (r_consts R)))"
    unfolding GetCompression_def d
    by (rule getter_test [OF rdy s, where v = "\<lambda>h. MExtendable (Compression_None (r_consts R))"], simp, simp add: st(5))
      (use that in \<open>simp_all add: standard_value_def\<close>)
  show "test_ends R (GetInterlaced R) x [] False" if "value_fits R INTERLACED (MExtendable (Interlaced_None (r_consts R)))"
    unfolding GetInterlaced_def d
    by (rule getter_test [OF rdy s, where v = "\<lambda>h. MExtendable (Interlaced_None (r_consts R))"], simp, simp add: st(5))
      (use that in \<open>simp_all add: standard_value_def\<close>)
  show "test_ends R (GetChromaSiting R) x [] False" if "value_fits R CHROMA_SITING (MExtendable (ChromaSiting_None (r_consts R)))"
    unfolding GetChromaSiting_def d
    by (rule getter_test [OF rdy s, where v = "\<lambda>h. MExtendable (ChromaSiting_None (r_consts R))"], simp, simp add: st(5))
      (use that in \<open>simp_all add: standard_value_def\<close>)
qed

text \<open>A state in which a handle is at hand, with the metadata the mapper keeps for it.\<close>

definition at_handle :: "'e rig \<Rightarrow> ptr \<Rightarrow> gralloc_handle_t \<Rightarrow> gralloc_metadata \<Rightarrow> ('e, 'z) fixture_scheme \<Rightarrow> bool" where
  "at_handle R q h md y \<longleftrightarrow> rig_ok R \<and> mInitialized (cli y) \<and> load_handle q (gm (cli y)) = Done h \<and>
     fst (createMetadata (r_consts R) h (cli y)) = md"

definition initial_md :: "mapper_consts \<Rightarrow> gralloc_handle_t \<Rightarrow> gralloc_metadata" where
  "initial_md C h = \<lparr>md_prime_fd = prime_fd h, blend_mode = BlendMode_NONE C, dataspace = Dataspace_UNKNOWN C,
     md_cta861_3 = zero_cta861_3, md_smpte2086 = zero_smpte2086\<rparr>"

lemma at_handle_cong [simp]:
  "at_handle R q h md (with_md R h y) = at_handle R q h md y"
  "at_handle R q h md (y\<lparr>failures := ls\<rparr>) = at_handle R q h md y"
  by (simp_all add: at_handle_def with_md_def)

lemma session_at:
  assumes rdy: "ready R x" and s: "session R info x b q z"
  shows "\<exists>h. at_handle R q h (initial_md (r_consts R) h) z \<and> describes info h"
proof -
  note st = session_start [OF rdy s]
  obtain h where "load_handle q (gm (cli z)) = Done h" "describes info h"
    using heldD(1) [OF st(1)] by blast
  then show ?thesis
    using heldD(2) [OF st(1)] st(4) readyD(1) [OF rdy]
    by (intro exI [of _ h]) (simp add: at_handle_def initial_md_def createMetadata_def Let_def)
qed

lemma initial_md_sel [simp]:
  "blend_mode (initial_md C h) = BlendMode_NONE C" "dataspace (initial_md C h) = Dataspace_UNKNOWN C"
  "md_cta861_3 (initial_md C h) = zero_cta861_3" "md_smpte2086 (initial_md C h) = zero_smpte2086"
  by (simp_all add: initial_md_def)

lemma at_value:
  assumes "at_handle R q h md y"
    and "standard_value (r_cli R) (r_consts R) q h md (gm (cli y)) T = Done (Some v)" and "value_fits R T v"
  shows "get_value R T q l k y = k v (with_md R h y)"
  using assms get_value_eq [of R y q h T v l k] by (simp add: at_handle_def)

lemma at_values:
  assumes "at_handle R q h md y"
  shows "get_value R BUFFER_ID q l k y = k (MInt64 q) (with_md R h y)"
    and "get_value R WIDTH q l k y = k (MInt64 (scast (h_width h))) (with_md R h y)"
    and "get_value R HEIGHT q l k y = k (MInt64 (scast (h_height h))) (with_md R h y)"
    and "get_value R USAGE q l k y = k (MEnum64 (ucast (h_usage h))) (with_md R h y)"
    and "get_value R DATASPACE q l k y = k (MEnum32 (dataspace md)) (with_md R h y)"
    and "get_value R BLEND_MODE q l k y = k (MEnum32 (blend_mode md)) (with_md R h y)"
    and "get_value R SMPTE2086 q l k y = k (MSmpte2086 (Some (md_smpte2086 md))) (with_md R h y)"
    and "get_value R CTA861_3 q l k y = k (MCta861_3 (Some (md_cta861_3 md))) (with_md R h y)"
    and "get_value R PROTECTED_CONTENT q l k y =
      k (MInt64 (if ucast (h_usage h) AND BufferUsage_PROTECTED (r_consts R) \<noteq> 0 then 1 else 0)) (with_md R h y)"
  using at_value [OF assms] by (simp_all add: standard_value_def)

text \<open>The mapper copies the raw object where the test hands it the interface's encoding.\<close>

definition raw_size :: "mapper_consts \<Rightarrow> standard_metadata_type \<Rightarrow> nat" where
  "raw_size C T = (case T of SMPTE2086 \<Rightarrow> sizeof_Smpte2086 C | CTA861_3 \<Rightarrow> sizeof_Cta861_3 C | _ \<Rightarrow> 4)"

lemma set_refused:
  assumes "mInitialized m" and "q \<noteq> 0" and "load_handle q (gm m) = Done h" and S: "smt_ok (mc_smt C)"
    and T: "T \<in> {DATASPACE, BLEND_MODE, SMPTE2086, CTA861_3}" and len: "length bs \<noteq> raw_size C T"
  shows "setStandardMetadata C q (smt_code (mc_smt C) T) bs m = Done (AIMAPPER_ERROR_BAD_VALUE, snd (createMetadata C h m))"
proof -
  note d = setStandardMetadata_def assms(1-3) Let_def case_prod_beta smt_code_inj [OF S]
  have "length bs \<noteq> (case T of SMPTE2086 \<Rightarrow> sizeof_Smpte2086 C | CTA861_3 \<Rightarrow> sizeof_Cta861_3 C | _ \<Rightarrow> 4)"
    using len by (simp add: raw_size_def)
  then show ?thesis
    using T by (elim insertE emptyE) (simp_all add: d)
qed

lemma at_set:
  assumes at: "at_handle R q h md y" and T: "T \<in> {DATASPACE, BLEND_MODE, SMPTE2086, CTA861_3}"
    and fits: "value_fits R T v" and sz: "encoded_size (r_consts R) T v \<noteq> int (raw_size (r_consts R) T)"
  shows "fx_setStandardMetadata R T q v k y = k AIMAPPER_ERROR_BAD_VALUE (with_md R h y)"
proof -
  let ?C = "r_consts R" and ?n = "encoded_size (r_consts R) T v"
  let ?c = "smt_code (mc_smt ?C)" and ?m = "snd (createMetadata (r_consts R) h (cli y))"
  have n: "0 \<le> ?n"
    using fits by (simp add: value_fits_def)
  note enc = encoded_sizeD [OF n]
  obtain new where e: "metadata_encode (?c T) v (nat ?n) = (?n, new)"
    using enc(1) [of "nat ?n"] by (metis prod.collapse)
  have new: "new = concat (value_chunks (?c T) v)"
    using encode_stored [OF e n] by simp
  let ?bs = "take (nat ?n) (stored_in (replicate (nat ?n) 0) new)"
  have len: "length ?bs \<noteq> raw_size ?C T"
    using sz n enc(2) new by (simp add: stored_in_def)
  have q: "q \<noteq> 0" "mInitialized (cli y)" "load_handle q (gm (cli y)) = Done h" "smt_ok (mc_smt ?C)"
    using at rig_okD(2) by (auto simp: at_handle_def load_handle_Done)
  have "setStandardMetadata ?C q (?c T) ?bs (cli y) = Done (AIMAPPER_ERROR_BAD_VALUE, ?m)"
    by (rule set_refused [OF q(2,1,3,4) T len])
  then show ?thesis
    using n e enc(1) [of 0] enc(2) new
    by (simp add: fx_setStandardMetadata_def Let_def on_mapper_def with_md_def stored_in_def)
qed

lemma settable_sizes:
  "encoded_size C DATASPACE (MEnum32 a) = 73" "encoded_size C BLEND_MODE (MEnum32 a) = 73"
  "encoded_size C SMPTE2086 (MSmpte2086 s) = (if s = None then 0 else 109)"
  "encoded_size C CTA861_3 (MCta861_3 t) = (if t = None then 0 else 77)"
  by (auto simp: encoded_size_eq length_header_chunks int_chunks_def smpte2086_chunks_def
      xycolor_chunks_def cta861_3_chunks_def split: option.splits)

lemma at_sets:
  assumes "at_handle R q h md y"
  shows "fx_setStandardMetadata R DATASPACE q (MEnum32 a) k y = k AIMAPPER_ERROR_BAD_VALUE (with_md R h y)"
    and "fx_setStandardMetadata R BLEND_MODE q (MEnum32 a) k y = k AIMAPPER_ERROR_BAD_VALUE (with_md R h y)"
    and "sizeof_Smpte2086 (r_consts R) \<notin> {0, 109} \<Longrightarrow>
      fx_setStandardMetadata R SMPTE2086 q (MSmpte2086 s) k y = k AIMAPPER_ERROR_BAD_VALUE (with_md R h y)"
    and "sizeof_Cta861_3 (r_consts R) \<notin> {0, 77} \<Longrightarrow>
      fx_setStandardMetadata R CTA861_3 q (MCta861_3 t) k y = k AIMAPPER_ERROR_BAD_VALUE (with_md R h y)"
  using at_set [OF assms] by (auto simp: settable_sizes raw_size_def)

text \<open>How a session's body is run.\<close>

lemma body_test:
  assumes rdy: "ready R x" and s: "session R info x b q z"
    and outer: "outer (Some b) = with_import R (Some b) inner"
    and body: "\<And>h. at_handle R q h (initial_md (r_consts R) h) z \<Longrightarrow> describes info h \<Longrightarrow>
      inner q z = Done ((with_md R h z)\<lparr>failures := failures z @ ls, fatal := fat\<rparr>)"
  shows "test_ends R (with_buffer R info outer) x ls fat"
proof -
  note st = session_start [OF rdy s]
  obtain h where "at_handle R q h (initial_md (r_consts R) h) z" "describes info h"
    using session_at [OF rdy s] by blast
  from body [OF this] show ?thesis
    by (rule session_ends [where outer = outer and inner = inner, OF rdy s outer]) (use st in simp_all)
qed

lemma with_md_same [simp]:
  "\<not> fatal z \<Longrightarrow> (with_md R h z)\<lparr>fatal := False\<rparr> = with_md R h z"
  "(with_md R h z)\<lparr>failures := failures z\<rparr> = with_md R h z"
  by (simp_all add: with_md_def)

lemma not_fatal_upd [simp]:
  "\<not> fatal z \<Longrightarrow> (z\<lparr>failures := ls, fatal := False\<rparr>) = z\<lparr>failures := ls\<rparr>"
  by simp

text \<open>With the initial metadata, in the states a session runs through.\<close>

lemmas at_fresh = at_values [where md = "initial_md (r_consts R) h" and h = h and R = R for R h]
  at_values [where md = "initial_md (r_consts R) h" and h = h and R = R and y = "with_md R h y" for R h y, simplified]
  at_values [where md = "initial_md (r_consts R) h" and h = h and R = R and y = "(with_md R h y)\<lparr>failures := ls\<rparr>" for R h y ls, simplified]
  at_sets [where md = "initial_md (r_consts R) h" and h = h and R = R and y = "with_md R h y" for R h y, simplified]
  at_sets [where md = "initial_md (r_consts R) h" and h = h and R = R and y = "(with_md R h y)\<lparr>failures := ls\<rparr>" for R h y ls, simplified]

lemma setter_tests:
  assumes rdy: "ready R x" and s: "session R (generic_info R) x b q z"
  shows "Dataspace_DISPLAY_P3 (r_vts R) \<noteq> Dataspace_UNKNOWN (r_consts R) \<Longrightarrow>
      test_ends R (GetSetDataspace R) x [1534, 1538] False"
    and "distinct [BlendMode_NONE (r_consts R), BlendMode_INVALID (r_vts R), BlendMode_COVERAGE (r_vts R)] \<Longrightarrow>
      test_ends R (GetSetBlendMode R) x [1548, 1549, 1553] False"
    and "sizeof_Smpte2086 (r_consts R) \<notin> {0, 109} \<Longrightarrow>
      test_ends R (GetSetSmpte2086 R) x [1563, 1571, 1576, 1578, 1582] False"
    and "sizeof_Cta861_3 (r_consts R) \<notin> {0, 77} \<Longrightarrow>
      test_ends R (GetCta861_3 R) x [1592, 1595, 1600, 1602, 1606] False"
proof -
  note st = session_start [OF rdy s]
  note d = session_defs generic_info_def [symmetric]
  note m = aimapper_errors
  note v = at_fresh
  show "test_ends R (GetSetDataspace R) x [1534, 1538] False"
    if "Dataspace_DISPLAY_P3 (r_vts R) \<noteq> Dataspace_UNKNOWN (r_consts R)"
    unfolding GetSetDataspace_def d
    by (rule body_test [OF rdy s], simp) (use that st(3,5) in \<open>simp add: v m\<close>)
  show "test_ends R (GetSetBlendMode R) x [1548, 1549, 1553] False"
    if "distinct [BlendMode_NONE (r_consts R), BlendMode_INVALID (r_vts R), BlendMode_COVERAGE (r_vts R)]"
    unfolding GetSetBlendMode_def d
    by (rule body_test [OF rdy s], simp) (use that st(3,5) in \<open>simp add: v m\<close>)
  show "test_ends R (GetSetSmpte2086 R) x [1563, 1571, 1576, 1578, 1582] False"
    if "sizeof_Smpte2086 (r_consts R) \<notin> {0, 109}"
    unfolding GetSetSmpte2086_def d
    by (rule body_test [OF rdy s], simp)
      (use that st(3,5) in \<open>simp add: v m awesomeHdr_def zero_smpte2086_def Let_def\<close>)
  show "test_ends R (GetCta861_3 R) x [1592, 1595, 1600, 1602, 1606] False"
    if "sizeof_Cta861_3 (r_consts R) \<notin> {0, 77}"
    unfolding GetCta861_3_def d
    by (rule body_test [OF rdy s], simp)
      (use that st(3,5) in \<open>simp add: v m genericHlgish_def zero_cta861_3_def\<close>)
qed

section \<open>More values\<close>

lemma zeros_decode:
  "checkHeader hv (MetadataReader (replicate 7 0)) = \<lparr>mSrc = replicate 7 0, mOk = False\<rparr>"
  by (simp add: checkHeader_def MetadataReader_def readString_def readInt_def advance_def header_name_def)

lemma at_missing:
  assumes at: "at_handle R q h md y" and T: "T \<in> {NAME, SMPTE2094_10, SMPTE2094_40}"
  shows "fx_getStandardMetadata R T q k y = k None (with_md R h y)"
proof -
  let ?C = "r_consts R"
  have q: "q \<noteq> 0" "mInitialized (cli y)" "load_handle q (gm (cli y)) = Done h" "smt_ok (mc_smt ?C)"
    using at rig_okD(2) by (auto simp: at_handle_def load_handle_Done)
  have none: "T \<noteq> INVALID" "\<And>md. standard_value (r_cli R) ?C q h md (gm (cli y)) T = Done None"
    using T by (auto simp: standard_value_def)
  have get: "getStandardMetadata (r_cli R) ?C q (smt_code (mc_smt ?C) T) n (cli y) =
      Done ((7, []), snd (createMetadata ?C h (cli y)))" for n
    using getStandardMetadata_eq [OF q(2,1,4) none(1) q(3)] none(2) by (simp add: aimapper_errors)
  have "metadata_decode L hv (replicate 7 0) (the (std_kind T)) = Done None" for L hv
    using T zeros_decode [of hv] failed_reads(4,5) [of "\<lparr>mSrc = replicate 7 0, mOk = False\<rparr>"]
    by (auto simp: decode_string_def decode_blob_def split: prod.splits)
  then have "fx_decode R T 7 (replicate 512 0) k z = k None z" for z
    by (simp add: fx_decode_def min_def)
  then show ?thesis
    by (simp add: fx_getStandardMetadata_def Let_def on_mapper_def get with_md_def stored_in_def)
qed

lemmas missing_fresh =
  at_missing [where md = "initial_md (r_consts R) h" and h = h and R = R and T = NAME for R h, simplified]
  at_missing [where md = "initial_md (r_consts R) h" and h = h and R = R and T = SMPTE2094_10 for R h, simplified]
  at_missing [where md = "initial_md (r_consts R) h" and h = h and R = R and T = SMPTE2094_40 for R h, simplified]

lemma rect_fits: "1 \<le> lim_rects (r_decode R) \<Longrightarrow> value_fits R T (MRects [r])"
  by (simp add: value_fits_def encoded_size_eq length_header_chunks int_chunks_def rects_chunks_def rect_chunks_def rects_ok_def)

lemma more_value_tests:
  assumes rdy: "ready R x"
  shows "session R (vts_info ''Hello, World!'' 64 128 (PixelFormat_RGBA_8888 (r_vts R)) (CPU_OFTEN R)) x b q z \<Longrightarrow>
      test_ends R (GetWidthHeight R) x [] False"
    and "session R (generic_info R) x b q z \<Longrightarrow> 1 \<le> lim_rects (r_decode R) \<Longrightarrow> test_ends R (GetCrop R) x [] False"
    and "session R (generic_info R) x b q z \<Longrightarrow> test_ends R (GetSmpte2094_10 R) x [] False"
    and "session R (generic_info R) x b q z \<Longrightarrow> test_ends R (GetSmpte2094_40 R) x [] False"
proof -
  note d = session_defs generic_info_def [symmetric]
  show "test_ends R (GetWidthHeight R) x [] False"
    if s: "session R (vts_info ''Hello, World!'' 64 128 (PixelFormat_RGBA_8888 (r_vts R)) (CPU_OFTEN R)) x b q z"
    unfolding GetWidthHeight_def
    by (rule body_test [OF rdy s], simp) (use session_start [OF rdy s] in \<open>simp add: at_fresh describes_def\<close>)
next
  note d = session_defs generic_info_def [symmetric]
  assume s: "session R (generic_info R) x b q z"
  note st = session_start [OF rdy s]
  show "test_ends R (GetCrop R) x [] False" if "1 \<le> lim_rects (r_decode R)"
    unfolding GetCrop_def d
    by (rule getter_test [OF rdy s, where v = "\<lambda>h. MRects (handle_crop h)"], simp, simp add: st(5))
      (use that st(6) in \<open>simp_all add: standard_value_def rect_fits handle_crop_def describes_def\<close>)
  show "test_ends R (GetSmpte2094_10 R) x [] False"
    unfolding GetSmpte2094_10_def d
    by (rule body_test [OF rdy s], simp) (use st(3,5) in \<open>simp add: missing_fresh\<close>)
  show "test_ends R (GetSmpte2094_40 R) x [] False"
    unfolding GetSmpte2094_40_def d
    by (rule body_test [OF rdy s], simp) (use st(3,5) in \<open>simp add: missing_fresh\<close>)
qed

lemma more_failing_tests:
  assumes rdy: "ready R x"
  shows "session R (vts_info ''Hello, World!'' 64 64 (PixelFormat_RGBA_8888 (r_vts R)) (CPU_OFTEN R)) x b q z \<Longrightarrow>
      test_ends R (GetName R) x [1320] True"
proof -
  show "test_ends R (GetName R) x [1320] True"
    if s: "session R (vts_info ''Hello, World!'' 64 64 (PixelFormat_RGBA_8888 (r_vts R)) (CPU_OFTEN R)) x b q z"
    unfolding GetName_def
    by (rule body_test [OF rdy s], simp)
      (use session_start(2,3) [OF rdy s] in \<open>simp add: get_value_def missing_fresh\<close>)
qed

text \<open>
  A usage the library cuts: whatever of it lies above bit 31 does not come back.
\<close>

definition usage64 :: "'e rig \<Rightarrow> u64" where
  "usage64 R = FRONT_BUFFER (r_vts R) OR GPU_RENDER_TARGET (r_vts R) OR COMPOSER_OVERLAY (r_vts R) OR GPU_TEXTURE (r_vts R)"

lemma usage64_test:
  assumes rdy: "ready R x" and sup: "isInitialized (svc x)"
    and s: "session R (vts_info ''VTS_TEMP'' 64 64 (PixelFormat_RGBA_8888 (r_vts R)) (usage64 R)) x b q z"
  shows "test_ends R (GetUsage64 R) x (if ucast (ucast (usage64 R) :: c_int) = usage64 R then [] else [1430]) False"
proof -
  have sup2: "isSupported (vts_info ''VTS_TEMP'' 64 64 f u) (svc x) = (StatusOk, Some True)" for f u
    using sup by (simp add: isSupported_def vts_info_def)
  let ?info = "vts_info ''VTS_TEMP'' 64 64 (PixelFormat_RGBA_8888 (r_vts R)) (usage64 R)"
  have "GetUsage64 R x = with_buffer R ?info (\<lambda>buffer. with_import R buffer (\<lambda>h.
      get_value R USAGE h 1428 (\<lambda>value. EXPECT 1430 (value = MEnum64 (bdi_usage (mInfo (the buffer)))) Done))) x"
    using sup2 by (simp add: GetUsage64_def fx_isSupported_def usage64_def isOk_def Let_def)
  moreover have "test_ends R (with_buffer R ?info (\<lambda>buffer. with_import R buffer (\<lambda>h.
      get_value R USAGE h 1428 (\<lambda>value. EXPECT 1430 (value = MEnum64 (bdi_usage (mInfo (the buffer)))) Done)))) x
      (if ucast (ucast (usage64 R) :: c_int) = usage64 R then [] else [1430]) False"
    by (rule body_test [OF rdy s], simp) (use session_start(2,3,6) [OF rdy s] in \<open>simp add: at_fresh describes_def\<close>)
  ultimately show ?thesis
    by (simp add: test_ends_def)
qed

lemma protected_test:
  assumes rdy: "ready R x"
    and s: "session R (vts_info ''prot8888'' 64 64 (PixelFormat_RGBA_8888 (r_vts R))
      (BufferUsage_PROTECTED (r_consts R) OR COMPOSER_OVERLAY (r_vts R))) x b q z"
    and bit: "BufferUsage_PROTECTED (r_consts R) = 2 ^ n" "n < 32"
  shows "test_ends R (GetProtectedContent R) x [] False"
proof -
  have "ucast (ucast (BufferUsage_PROTECTED (r_consts R) OR u) :: c_int) AND BufferUsage_PROTECTED (r_consts R) \<noteq> 0" for u
    unfolding bit(1)
  proof
    assume "ucast (ucast (2 ^ n OR u) :: c_int) AND (2 ^ n :: u64) = 0"
    then have "bit (ucast (ucast (2 ^ n OR u) :: c_int) AND (2 ^ n :: u64)) n = bit (0 :: u64) n"
      by simp
    then show False
      using bit(2) by (simp add: bit_simps)
  qed
  note u = this
  show ?thesis
    unfolding GetProtectedContent_def Let_def
  proof (rule body_test [OF rdy s], simp)
    fix h assume at: "at_handle R q h (initial_md (r_consts R) h) z"
      and "describes (vts_info ''prot8888'' 64 64 (PixelFormat_RGBA_8888 (r_vts R))
        (BufferUsage_PROTECTED (r_consts R) OR COMPOSER_OVERLAY (r_vts R))) h"
    then have "ucast (h_usage h) AND BufferUsage_PROTECTED (r_consts R) \<noteq> 0"
      using u by (simp add: describes_def)
    then show "get_value R PROTECTED_CONTENT q 1467 (\<lambda>value. EXPECT 1468 (value = MInt64 1) Done) z =
        Done (with_md R h z\<lparr>failures := failures z @ [], fatal := False\<rparr>)"
      using at_values(9) [OF at] session_start(2,3) [OF rdy s] by simp
  qed
qed

end
