(* ===== verification/Vts_Locks.thy ===== *)
theory Vts_Locks
  imports Vts_Session
begin

text \<open>
  The outcome of the conformance tests on locks, on bad handles and on imports: which pass, which
  record a failure, and which crash the process.
\<close>

section \<open>Locks and errors\<close>

lemma lock_holds:
  assumes R: "rig_ok R" and hold: "holding R raws qs m"
    and run: "lock (r_cli R) q u (- 1) m = Done ((r, out), n)"
  shows "holding R raws qs n" and "metadata_map n = metadata_map m" and "handles (gm n) = handles (gm m)"
proof -
  note inv = gm_invD [OF holdingD(1) [OF hold]]
  have n: "n = m \<or> (\<exists>ret o' s. gralloc_gbm_bo_lock (r_cli R) q (ucast u) (gm m) = Done ((ret, o'), s) \<and> n = m\<lparr>gm := s\<rparr>)"
    using run by (auto simp: lock_def close_fence_def andThen_eq_Done split: if_splits)
  then have eq: "handles (gm n) = handles (gm m)" "gbm_bo_handle_map (gm n) = gbm_bo_handle_map (gm m)"
    "mInitialized n = mInitialized m" "metadata_map n = metadata_map m"
    using lock_result_keeps(3,4) [OF lock_refines [OF _ inv(1,2) rig_okD(10) [OF R]] inv(1)] by auto
  have "gm_inv (r_cli R) (gm n)"
    using lock_step [OF run rig_okD(1) [OF R] holdingD(1) [OF hold]] lib_steps_inv by (auto simp: mapper_step_def)
  then show "holding R raws qs n"
    using eq holdingD(2) [OF hold] by (intro holding_cong [OF hold]) simp_all
  show "metadata_map n = metadata_map m" "handles (gm n) = handles (gm m)"
    by (rule eq)+
qed

lemma unlock_holds:
  assumes R: "rig_ok R" and hold: "holding R raws qs m"
    and run: "unlock (r_cli R) q m = Done ((r, out), n)"
  shows "holding R raws qs n" and "metadata_map n = metadata_map m" and "handles (gm n) = handles (gm m)"
proof -
  note inv = gm_invD [OF holdingD(1) [OF hold]]
  have n: "n = m \<or> (\<exists>ret s. gralloc_gbm_bo_unlock (r_cli R) q (gm m) = Done (ret, s) \<and> n = m\<lparr>gm := s\<rparr>)"
    using run by (auto simp: unlock_def andThen_eq_Done split: if_splits)
  then have eq: "handles (gm n) = handles (gm m)" "gbm_bo_handle_map (gm n) = gbm_bo_handle_map (gm m)"
    "mInitialized n = mInitialized m" "metadata_map n = metadata_map m"
    using unlock_refines [OF _ inv(1,2)] by (auto simp: only_lock_data_def)
  have "gm_inv (r_cli R) (gm n)"
    using unlock_step [OF run rig_okD(1) [OF R] holdingD(1) [OF hold]] lib_steps_inv by (auto simp: mapper_step_def)
  then show "holding R raws qs n"
    using eq holdingD(2) [OF hold] by (intro holding_cong [OF hold]) simp_all
  show "metadata_map n = metadata_map m" "handles (gm n) = handles (gm m)"
    by (rule eq)+
qed

text \<open>Unlocking a handle that is not registered, and one that was never locked.\<close>

lemma unlock_unregistered:
  assumes "mInitialized m" and "p = 0 \<or> gbm_bo_handle_map (gm m) p = None"
  shows "unlock P p m = Done ((AIMAPPER_ERROR_BAD_BUFFER, None), m)"
  using assms
  by (auto simp: unlock_def gralloc_gbm_bo_unlock_def gralloc_get_gbm_bo_from_handle_def EINVAL_def)

lemma unlock_never_locked:
  assumes "mInitialized m" and "q \<noteq> 0" and inv: "gm_inv P (gm m)"
    and "\<exists>b bo. gbm_bo_handle_map (gm m) q = Some b \<and> bos (gm m) b = Some bo \<and> user_data bo = None"
  shows "unlock P q m = Fault NullDeref"
proof -
  have "gralloc_gbm_bo_unlock P q (gm m) = Fault NullDeref"
    unfolding unlock_faults [OF gm_invD(1,2) [OF inv]] using assms(4) by blast
  then show ?thesis
    using assms(1,2) by (simp add: unlock_def)
qed

lemma session_fault:
  assumes "session R info x b q z" and "outer (Some b) = with_import R (Some b) inner" and "inner q z = Fault f"
  shows "with_buffer R info outer x = Fault f"
  using assms
  by (auto simp: session_def obtains_buffer_def obtains_handle_def with_buffer_def with_import_def BufferHandle_def
      on_mapper_def)

lemma held_never_locked:
  assumes rdy: "ready R x" and s: "session R info x b q z"
  shows "unlock (r_cli R) q (cli z) = Fault NullDeref"
proof -
  note st = session_start [OF rdy s]
  have "gm_inv (r_cli R) (gm (cli z))"
    using holdingD(1) [OF st(1) [unfolded held_def]] .
  then show ?thesis
    by (rule unlock_never_locked [OF heldD(2) [OF st(1)] st(5) _ st(7)])
qed

lemma unlock_crash_tests:
  fixes x :: "('e, 'z) fixture_scheme"
  assumes rdy: "ready R x"
  shows "session R (generic_info R) x b q z \<Longrightarrow> UnlockNotLocked R x = Fault NullDeref"
    and "session R (vts_info ''VTS_TEMP'' 64 64 (PixelFormat_RGBA_8888 (r_vts R)) 0) x b q z \<Longrightarrow>
      CPU_READ_NEVER (r_vts R) = 0 \<Longrightarrow> CPU_WRITE_NEVER (r_vts R) = 0 \<Longrightarrow> LockUnlockNoCPUUsage R x = Fault NullDeref"
proof -
  assume s: "session R (generic_info R) x b q z"
  note st = session_start [OF rdy s]
  show "UnlockNotLocked R x = Fault NullDeref"
    unfolding UnlockNotLocked_def session_defs generic_info_def [symmetric]
    by (rule session_fault [OF s], simp) (use st(5) held_never_locked [OF rdy s] in \<open>simp add: fx_unlock_def on_mapper_def\<close>)
next
  let ?info = "vts_info ''VTS_TEMP'' 64 64 (PixelFormat_RGBA_8888 (r_vts R)) 0"
  assume s: "session R ?info x b q z" and never: "CPU_READ_NEVER (r_vts R) = 0" "CPU_WRITE_NEVER (r_vts R) = 0"
  note st = session_start [OF rdy s]
  note held_never_locked [OF rdy s]
  moreover have "lock (r_cli R) q 0 (- 1) (cli z) = Done ((AIMAPPER_ERROR_BAD_VALUE, None), cli z)"
    using heldD(2) [OF st(1)] st(5) by (simp add: lock_def close_fence_def)
  moreover have "(LockUnlockNoCPUUsage R :: ('e, 'z) test) = with_buffer R ?info (\<lambda>buffer. ASSERT 766 (buffer \<noteq> None)
     (with_import R buffer (\<lambda>handle. fx_lock R handle 0 (0, 0, 64, 64) (- 1) (\<lambda>r.
      EXPECT 774 (r = AIMAPPER_ERROR_BAD_VALUE) (fx_unlock R handle (- 1) (\<lambda>r releaseFence.
      EXPECT 780 (r = AIMAPPER_ERROR_BAD_BUFFER) (close_release releaseFence Done)))))))"
    using never by (simp add: LockUnlockNoCPUUsage_def)
  ultimately show "LockUnlockNoCPUUsage R x = Fault NullDeref"
    by (simp only:) (rule session_fault [OF s], simp, simp add: fx_lock_def fx_unlock_def on_mapper_def)
qed

lemma FreeBufferNegative_crash:
  assumes rdy: "ready R x"
    and "p_native_handle_create (r_cli R) (dom (handles (gm (cli x)))) 0 0 (env (gm (cli x))) = (Some (p, h), e)"
  shows "FreeBufferNegative R x = Fault OutOfBounds"
proof -
  have "p \<noteq> 0 \<and> numFds h = 0 \<and> numInts h = 0"
    using handle_contract_create [OF rig_okD(7) [OF readyD(1) [OF rdy]] assms(2)] by simp
  then show ?thesis
    using readyD(6) [OF rdy] assms(2)
    by (simp add: FreeBufferNegative_def on_mapper_def freeBuffer_def empty_handle_def load_handle_def
        load_native_def store_handle_def GRALLOC_HANDLE_NUM_FDS_def GRALLOC_HANDLE_NUM_INTS_eq)
qed

lemma bad_buffer_tests:
  assumes "holding R [] [] (cli x)" "\<not> fatal x"
  shows "test_ends R FlushLockedBufferBadBuffer x [1286] False"
    and "test_ends R RereadLockedBufferBadBuffer x [1291] False"
  using assms
  by (simp_all add: test_ends_def FlushLockedBufferBadBuffer_def RereadLockedBufferBadBuffer_def on_mapper_def
      flushLockedBuffer_def rereadLockedBuffer_def aimapper_errors)

text \<open>Locking: the region is not looked at, and locks of one handle do not nest.\<close>

lemma LockBadAccessRegion_fails:
  assumes rdy: "ready R x" and s: "session R (generic_info R) x b q z"
    and l: "lock (r_cli R) q (CPU_OFTEN R) (- 1) (cli z) = Done ((AIMAPPER_ERROR_NONE, out), m)"
  shows "test_ends R (LockBadAccessRegion R) x [1168] False"
proof -
  note st = session_start [OF rdy s]
  let ?inner = "\<lambda>handle. fx_lock R handle (CPU_OFTEN R) (0, 0, 64 * 2, 64 * 2) (- 1) (\<lambda>r.
    EXPECT 1168 (r = AIMAPPER_ERROR_BAD_VALUE) Done)"
  have h: "held R (generic_info R) b q (z\<lparr>cli := m\<rparr>)"
    using lock_holds(1) [OF readyD(1) [OF rdy] st(1) [unfolded held_def] l] by (simp add: held_def)
  have run: "?inner q z = Done (z\<lparr>cli := m, failures := failures z @ [1168]\<rparr>)"
    using l by (simp add: fx_lock_def on_mapper_def aimapper_errors)
  show ?thesis
    unfolding LockBadAccessRegion_def session_defs generic_info_def [symmetric]
    by (rule session_ends [where inner = ?inner, OF rdy s _ run]) (use h st in \<open>simp_all add: generic_info_def held_def\<close>)
qed

lemma unlock_again:
  assumes run: "gralloc_gbm_bo_unlock P p s = Done (r, t)" and reg: "reg_inv s" and inv: "lock_inv (hal_of P) s"
    and free: "lock_state_of (hal_of P) p t = lock_state.Free" and p: "gbm_bo_handle_map s p = Some b"
  shows "gralloc_gbm_bo_unlock P p t = Done (0, t)"
proof -
  obtain bo where bo: "bos s b = Some bo"
    using reg_invD [OF reg p] by blast
  then obtain bd where bd: "user_data bo = Some bd"
    using run p by (cases "user_data bo") (auto simp: gralloc_gbm_bo_unlock_def
        gralloc_get_gbm_bo_from_handle_def load_bo_data_def load_bo_def)
  note eq = run [unfolded unlock_eq [OF p bo bd]]
  have "\<exists>bo' bd'. bos t b = Some bo' \<and> user_data bo' = Some bd'"
    using eq bo bd by (auto simp: andThen_eq_Done Let_def split: if_splits)
  then obtain bo' bd' where bo': "bos t b = Some bo'" "user_data bo' = Some bd'"
    by blast
  have u: "gbm_bo_handle_map t p = Some b"
    using unlock_refines [OF run reg inv] p by (auto simp: only_lock_data_def)
  have "lock_count bd' = 0"
    using free u bo' by (auto simp: lock_state_of_def abs_lock_def split: if_splits)
  then show ?thesis
    unfolding unlock_eq [OF u bo'] by simp
qed

lemma nested_locks:
  assumes inv: "gm_inv P (gm m)" and w: "map_contract P" and m: "mInitialized m" "q \<noteq> 0"
    and reg: "gbm_bo_handle_map (gm m) q = Some b" and cpu: "(ucast u :: c_int) AND cpu_mask (hal_of P) \<noteq> 0"
    and l: "lock P q u (- 1) m = Done ((AIMAPPER_ERROR_NONE, out), n)"
  obtains n2 n3 where "lock P q u (- 1) n = Done ((AIMAPPER_ERROR_BAD_VALUE, None), n2)"
    and "unlock P q n2 = Done ((AIMAPPER_ERROR_NONE, Some (- 1)), n3)"
    and "unlock P q n3 = Done ((AIMAPPER_ERROR_NONE, Some (- 1)), n3)"
proof -
  let ?K = "hal_of P"
  note i = gm_invD(1,2) [OF inv]
  have u: "u \<noteq> 0"
    using cpu by auto
  obtain s1 where l1: "gralloc_gbm_bo_lock P q (ucast u) (gm m) = Done ((0, out), s1)" and n: "n = m\<lparr>gm := s1\<rparr>"
    using l m u by (auto simp: lock_def close_fence_def andThen_eq_Done aimapper_errors split: if_splits)
  note r1 = lock_refines [OF l1 i w]
  note k1 = lock_result_keeps [OF r1 i(1)]
  obtain l' where c1: "lock_state_of ?K q s1 = CpuLocked l'"
    using spec_lock_cpu [OF _ cpu, of q "gm m" s1] r1 unfolding lock_result_def Let_def by auto
  obtain s2 where l2: "gralloc_gbm_bo_lock P q (ucast u) s1 = Done ((- EINVAL, None), s2)"
    using cpu_locked_next(1) [OF c1 k1(1,2)] k1(3) reg by metis
  note r2 = lock_refines [OF l2 k1(1,2) w]
  note k2 = lock_result_keeps [OF r2 k1(1)]
  have c2: "lock_state_of ?K q s2 = CpuLocked l'" and b2: "gbm_bo_handle_map s2 q = Some b"
    using r2 c1 k1(3) k2(3) reg by (auto simp: lock_result_def Let_def EINVAL_def)
  obtain s3 where u3: "gralloc_gbm_bo_unlock P q s2 = Done (0, s3)" "lock_state_of ?K q s3 = lock_state.Free"
    using cpu_locked_next(2) [OF c2 k2(1,2) b2] by blast
  note u4 = unlock_again [OF u3(1) k2(1,2) u3(2) b2]
  show thesis
  proof (rule that)
    show "lock P q u (- 1) n = Done ((AIMAPPER_ERROR_BAD_VALUE, None), m\<lparr>gm := s2\<rparr>)"
      using l2 m u by (simp add: lock_def n close_fence_def EINVAL_def)
    show "unlock P q (m\<lparr>gm := s2\<rparr>) = Done ((AIMAPPER_ERROR_NONE, Some (- 1)), m\<lparr>gm := s3\<rparr>)"
      using u3 m by (simp add: unlock_def)
    show "unlock P q (m\<lparr>gm := s3\<rparr>) = Done ((AIMAPPER_ERROR_NONE, Some (- 1)), m\<lparr>gm := s3\<rparr>)"
      using u4 m by (simp add: unlock_def)
  qed
qed

lemma LockUnlockNested_fails:
  assumes rdy: "ready R x" and s: "session R (generic_info R) x b q z" and s2: "obtains_handle R b z q2 z2"
    and cpu: "(ucast (CPU_OFTEN R) :: c_int) AND cpu_mask (hal_of (r_cli R)) \<noteq> 0"
    and l: "lock (r_cli R) q2 (CPU_OFTEN R) (- 1) (cli z2) = Done ((AIMAPPER_ERROR_NONE, out), m)"
  shows "test_ends R (LockUnlockNested R) x [1216, 1230] False"
proof -
  note st = session_start [OF rdy s]
  note R = readyD(1) [OF rdy]
  note hz = handle_held [OF R st(1) [unfolded held_def] _ s2, of "generic_info R"]
  let ?raws = "[(mRawHandle b, generic_info R)]" and ?qs = "[(q2, generic_info R), (q, generic_info R)]"
  have h2: "holding R ?raws ?qs (cli z2)" and q2: "q2 \<noteq> 0" "failures z2 = failures z" "fatal z2 = fatal z"
    and reg: "\<exists>b. gbm_bo_handle_map (gm (cli z2)) q2 = Some b"
    using hz by auto
  obtain b2 where b2: "gbm_bo_handle_map (gm (cli z2)) q2 = Some b2"
    using reg by blast
  obtain n2 n3 where n: "lock (r_cli R) q2 (CPU_OFTEN R) (- 1) m = Done ((AIMAPPER_ERROR_BAD_VALUE, None), n2)"
    "unlock (r_cli R) q2 n2 = Done ((AIMAPPER_ERROR_NONE, Some (- 1)), n3)"
    "unlock (r_cli R) q2 n3 = Done ((AIMAPPER_ERROR_NONE, Some (- 1)), n3)"
    using nested_locks [OF holdingD(1) [OF h2] rig_okD(10) [OF R] holdingD(2) [OF h2] q2(1) b2 cpu l] by blast
  have h3: "holding R ?raws ?qs n3"
    by (rule unlock_holds(1) [OF R lock_holds(1) [OF R lock_holds(1) [OF R h2 l] n(1)] n(2)])
  let ?body = "\<lambda>handle. fx_lock R handle (CPU_OFTEN R) (0, 0, 64, 64) (- 1) (\<lambda>r. EXPECT 1215 (r = AIMAPPER_ERROR_NONE)
    (fx_lock R handle (CPU_OFTEN R) (0, 0, 64, 64) (- 1) (\<lambda>r. EXPECT 1216 (r = AIMAPPER_ERROR_NONE)
    (fx_unlock R handle (- 1) (\<lambda>r releaseFence. EXPECT 1219 (r = AIMAPPER_ERROR_NONE) (close_release releaseFence
    (fx_unlock R handle (- 1) (\<lambda>r releaseFence. EXPECT 1224 (r = AIMAPPER_ERROR_NONE) (close_release releaseFence
    (fx_unlock R handle (- 1) (\<lambda>r releaseFence. EXPECT 1230 (r = AIMAPPER_ERROR_BAD_BUFFER) Done)))))))))))"
  have "?body q2 z2 = Done (z2\<lparr>cli := n3, failures := failures z2 @ [1216, 1230]\<rparr>)"
    using l n by (simp add: fx_lock_def fx_unlock_def on_mapper_def close_release_def aimapper_errors)
  then obtain m' where inner: "with_import R (Some b) ?body z = Done (z2\<lparr>failures := failures z2 @ [1216, 1230], cli := m'\<rparr>)"
    and h': "holding R ?raws [(q, generic_info R)] m'"
    using with_import_ends [where body = ?body and w = "z2\<lparr>cli := n3, failures := failures z2 @ [1216, 1230]\<rparr>"
        and info = "generic_info R" and raws = ?raws and qs = "[(q, generic_info R)]", OF R s2] h3 by auto
  show ?thesis
    unfolding LockUnlockNested_def session_defs generic_info_def [symmetric]
    by (rule session_ends [where inner = "\<lambda>h. ASSERT 1210 (h \<noteq> 0) (with_import R (Some b) ?body)"
        and w = "z2\<lparr>failures := failures z2 @ [1216, 1230], cli := m'\<rparr>", OF rdy s])
      (use inner h' st q2 in \<open>simp_all add: held_def generic_info_def Let_def\<close>)
qed

section \<open>Imports\<close>

text \<open>Two imports of one buffer, nested.\<close>

lemma two_imports:
  assumes rdy: "ready R x" and s: "session R info x b q z" and s2: "obtains_handle R b z q2 z2"
    and outer: "outer (Some b) = with_import R (Some b) (\<lambda>h1. with_import R (Some b) (inner h1))"
    and inner: "inner q q2 z2 = Done w" and kept: "holding R [(mRawHandle b, info)] [(q2, info), (q, info)] (cli w)"
    and "failures w = failures z @ ls" "fatal w = fat"
  shows "test_ends R (with_buffer R info outer) x ls fat"
proof -
  note R = readyD(1) [OF rdy]
  obtain m where m: "with_import R (Some b) (inner q) z = Done (w\<lparr>cli := m\<rparr>)"
    "holding R [(mRawHandle b, info)] [(q, info)] m"
    using with_import_ends [where body = "inner q", OF R s2 inner kept] by blast
  show ?thesis
    by (rule session_ends [where outer = outer and inner = "\<lambda>h1. with_import R (Some b) (inner h1)" and w = "w\<lparr>cli := m\<rparr>", OF rdy s outer])
      (use m assms(7,8) in \<open>simp_all add: held_def\<close>)
qed

lemma second_import:
  assumes rdy: "ready R x" and s: "session R info x b q z" and s2: "obtains_handle R b z q2 z2"
  shows "holding R [(mRawHandle b, info)] [(q2, info), (q, info)] (cli z2)" and "failures z2 = failures z"
    and "\<not> fatal z2" and "q2 \<noteq> 0" and "q2 \<noteq> q"
  using handle_held [OF readyD(1) [OF rdy] session_start(1) [OF rdy s, unfolded held_def] _ s2, of info]
    session_start(3) [OF rdy s] by auto

lemma import_tests:
  assumes rdy: "ready R x" and s: "session R (generic_info R) x b q z" and stride: "64 \<le> unat (mStride b)"
  shows "test_ends R (CanAllocate R) x [] False"
    and "obtains_handle R b z q2 z2 \<Longrightarrow> test_ends R (ImportFreeBuffer R) x [] False"
    and "test_ends R (ImportFreeBufferSingleton R) x [] False"
proof -
  note d = generic_info_def [symmetric]
  note r = readyD [OF rdy]
  obtain y where y: "obtains_buffer R (generic_info R) x b y" "obtains_handle R b y q z"
    using s by (auto simp: session_def)
  note y1 = buffer_held [OF r(1-3) y(1)]
  obtain m0 where m0: "BufferAllocation_dtor b y = Done (y\<lparr>cli := m0\<rparr>)" "holding R [] [] m0"
    using dtor_holds [OF r(1) y1(1)] by blast
  show "test_ends R (CanAllocate R) x [] False"
    unfolding CanAllocate_def d using m0 y1 stride r(4) by (simp add: test_ends_def with_buffer_def)
  show "test_ends R (ImportFreeBuffer R) x [] False" if s2: "obtains_handle R b z q2 z2"
  proof -
    note z2 = second_import [OF rdy s s2]
    show ?thesis
      unfolding ImportFreeBuffer_def d
      by (rule two_imports [where inner = "\<lambda>h1 h2. EXPECT 643 (h1 \<noteq> 0) (EXPECT 644 (h2 \<noteq> 0) (EXPECT 645 (h1 \<noteq> h2) Done))",
            OF rdy s s2]) (use stride z2 session_start(5) [OF rdy s] in simp_all)
  qed
  obtain m where im: "importBuffer (r_cli R) (mRawHandle b) (cli y) = Done ((AIMAPPER_ERROR_NONE, Some q), m)"
    and z: "z = y\<lparr>cli := m\<rparr>"
    using y(2) by (auto simp: obtains_handle_def)
  have h: "holding R [(mRawHandle b, generic_info R)] [(q, generic_info R)] m" and q: "q \<noteq> 0"
    using session_start(1,5) [OF rdy s] z by (simp_all add: held_def)
  obtain n where n: "freeBuffer (r_cli R) q m = Done (AIMAPPER_ERROR_NONE, n)" "holding R [(mRawHandle b, generic_info R)] [] n"
    using free_holds [OF r(1) h] by blast
  obtain k where k: "BufferAllocation_dtor b (y\<lparr>cli := n\<rparr>) = Done (y\<lparr>cli := k\<rparr>)" "holding R [] [] k"
    using dtor_holds [OF r(1), of b "generic_info R" "[]" "[]" "y\<lparr>cli := n\<rparr>"] n(2) by auto
  show "test_ends R (ImportFreeBufferSingleton R) x [] False"
    unfolding ImportFreeBufferSingleton_def d
    using im n(1) k y1 stride r(4) q by (simp add: test_ends_def with_buffer_def on_raw_def on_mapper_def)
qed

text \<open>A handle with nothing in it, made and deleted.\<close>

lemma empty_handle_holds:
  assumes R: "rig_ok R" and hold: "holding R raws qs (cli x)"
  obtains p m where "\<And>k. empty_handle R k x = k p (x\<lparr>cli := m\<rparr>)" and "holding R raws qs m"
    and "metadata_map m = metadata_map (cli x)" and "p = 0 \<or> gbm_bo_handle_map (gm m) p = None"
    and "p \<noteq> 0 \<Longrightarrow> \<exists>h. handles (gm m) p = Some h \<and> numFds h = 0"
    and "\<And>k. \<exists>e. delete_handle p k (x\<lparr>cli := m\<rparr>) = k (x\<lparr>cli := (cli x)\<lparr>gm := (gm (cli x))\<lparr>env := e\<rparr>\<rparr>\<rparr>)"
proof -
  let ?s = "gm (cli x)"
  note w = rig_okD(1) [OF R] and inv = holdingD(1) [OF hold]
  obtain res e where c: "p_native_handle_create (r_cli R) (dom (handles ?s)) 0 0 (env ?s) = (res, e)"
    by fastforce
  show thesis
  proof (cases res)
    case None
    have i: "gm_inv (r_cli R) (?s\<lparr>env := e\<rparr>)"
      using lib_steps_inv [OF lib_steps_world(2) [OF w inv]] .
    show ?thesis
    proof (rule that [of 0 "(cli x)\<lparr>gm := ?s\<lparr>env := e\<rparr>\<rparr>"])
      show "holding R raws qs ((cli x)\<lparr>gm := ?s\<lparr>env := e\<rparr>\<rparr>)"
        by (rule holding_cong [OF hold]) (use i holdingD(2) [OF hold] in simp_all)
    qed (use c None in \<open>auto simp: empty_handle_def delete_handle_def\<close>)
  next
    case (Some ph)
    then obtain p h where ph: "res = Some (p, h)"
      by (cases ph) auto
    have p: "p \<noteq> 0" "p \<notin> dom (handles ?s)" "numFds h = 0"
      using handle_contract_create [OF rig_okD(7) [OF R] c [unfolded ph]] by auto
    have reg: "gbm_bo_handle_map ?s p = None"
      using p(2) reg_invD [OF holdingD(3) [OF hold], of p]
      by (cases "gbm_bo_handle_map ?s p") (auto simp: load_handle_Done)
    let ?t = "store_handle p h (?s\<lparr>env := e\<rparr>)"
    have t: "?t = (?s\<lparr>handles := (handles ?s)(p \<mapsto> h)\<rparr>)\<lparr>env := e, open_fds := open_fds ?s\<rparr>"
      by (simp add: store_handle_def)
    have i: "gm_inv (r_cli R) ?t"
      unfolding t by (rule lib_steps_inv [OF received_steps [OF p(1,2) w inv]])
    have new: "r \<noteq> p" if "r \<in> fst ` set raws \<union> fst ` set qs" for r
      using holding_live(2) [OF hold that] p(2) by blast
    show ?thesis
    proof (rule that [of p "(cli x)\<lparr>gm := ?t\<rparr>"])
      show "holding R raws qs ((cli x)\<lparr>gm := ?t\<rparr>)"
        by (rule holding_cong [OF hold]) (use i new holdingD(2) [OF hold] in \<open>simp_all add: store_handle_def\<close>)
      have "erase p ((handles ?s)(p \<mapsto> h)) = handles ?s"
        using p(2) by (auto simp: erase_def)
      then show "\<exists>e'. delete_handle p k (x\<lparr>cli := (cli x)\<lparr>gm := ?t\<rparr>\<rparr>) = k (x\<lparr>cli := (cli x)\<lparr>gm := ?s\<lparr>env := e'\<rparr>\<rparr>\<rparr>)" for k
        using p(1) by (intro exI [of _ e]) (simp add: delete_handle_def native_handle_delete_def load_native_def store_handle_def)
    qed (use c ph p reg in \<open>simp_all add: empty_handle_def store_handle_def Let_def\<close>)
  qed
qed

definition in_env :: "'e \<Rightarrow> ('e, 'z) fixture_scheme \<Rightarrow> ('e, 'z) fixture_scheme" where
  "in_env e x = x\<lparr>cli := (cli x)\<lparr>gm := (gm (cli x))\<lparr>env := e\<rparr>\<rparr>\<rparr>"

lemma ready_in_env:
  assumes "ready R x"
  shows "ready R (in_env e x)" and "failures (in_env e x) = failures x" and "fatal (in_env e x) = fatal x"
proof -
  note r = readyD [OF assms]
  have "gm_inv (r_cli R) (gm (cli (in_env e x)))"
    using lib_steps_inv [OF lib_steps_world(2) [OF rig_okD(1) [OF r(1)] holdingD(1) [OF r(3)]]] by (simp add: in_env_def)
  then have "holding R [] [] (cli (in_env e x))"
    using holdingD(2) [OF r(3)] by (simp add: holding_def in_env_def)
  then show "ready R (in_env e x)"
    using r by (simp add: ready_def in_env_def svc_ok_def)
qed (simp_all add: in_env_def)

lemma on_raw_Some: "on_raw (Some b) body = body (mRawHandle b)"
  by (rule ext) (simp add: on_raw_def)

lemma raw_unlock_test:
  assumes rdy: "ready R x" and s: "obtains_buffer R info x b y"
    and outer: "outer (Some b) = fx_unlock R (mRawHandle b) (- 1) (\<lambda>r f. EXPECT l (r = AIMAPPER_ERROR_BAD_BUFFER) Done)"
  shows "test_ends R (with_buffer R info outer) x [] False"
proof -
  note r = readyD [OF rdy]
  note y = buffer_held [OF r(1-3) s]
  have "gbm_bo_handle_map (gm (cli y)) (mRawHandle b) = None"
    using holdingD(4) [OF y(1), of "(mRawHandle b, info)"] by (simp add: raw_handle_def)
  then have "outer (Some b) y = Done y"
    using outer unlock_unregistered [OF holdingD(2) [OF y(1)], of "mRawHandle b" "r_cli R"]
    by (simp add: fx_unlock_def on_mapper_def)
  then have "\<exists>m. with_buffer R info outer x = Done (y\<lparr>cli := m\<rparr>) \<and> holding R [] [] m"
    using with_buffer_ends [OF r(1) y(7) _ y(1), of outer] by blast
  then show ?thesis
    using y r(4) by (auto simp: test_ends_def)
qed

lemma negative_tests:
  assumes rdy: "ready R x"
  shows "test_ends R (ImportBufferNegative R) x [] False"
    and "obtains_buffer R (generic_info R) x b y \<Longrightarrow> test_ends R (UnlockNotImported R) x [] False"
    and "\<forall>e. \<exists>b y. obtains_buffer R (generic_info R) (in_env e x) b y \<Longrightarrow> test_ends R (UnlockNegative R) x [] False"
proof -
  note r = readyD [OF rdy]
  obtain p m where eh: "\<And>k. empty_handle R k x = k p (x\<lparr>cli := m\<rparr>)" "holding R [] [] m"
    "p = 0 \<or> gbm_bo_handle_map (gm m) p = None" "p \<noteq> 0 \<Longrightarrow> \<exists>h. handles (gm m) p = Some h \<and> numFds h = 0"
    "\<And>k. \<exists>e. delete_handle p k (x\<lparr>cli := m\<rparr>) = k (in_env e x)"
    using empty_handle_holds [OF r(1,3)] unfolding in_env_def by metis
  have "importBuffer (r_cli R) p m = Done ((AIMAPPER_ERROR_BAD_BUFFER, None), m)"
    using eh(4) holdingD(2) [OF eh(2)] by (auto simp: importBuffer_def load_native_def)
  moreover have "importBuffer (r_cli R) 0 (cli x) = Done ((AIMAPPER_ERROR_BAD_BUFFER, None), cli x)"
    using r(6) by (simp add: importBuffer_def)
  moreover obtain e where "delete_handle p Done (x\<lparr>cli := m\<rparr>) = Done (in_env e x)"
    using eh(5) by blast
  ultimately show "test_ends R (ImportBufferNegative R) x [] False"
    using eh(1) ready_in_env [OF rdy, of e] readyD(3) r(4)
    by (simp add: ImportBufferNegative_def test_ends_def on_mapper_def)
  show "test_ends R (UnlockNotImported R) x [] False" if "obtains_buffer R (generic_info R) x b y"
    unfolding UnlockNotImported_def session_defs generic_info_def [symmetric]
    by (rule raw_unlock_test [OF rdy that]) (simp add: on_raw_Some)
  assume al: "\<forall>e. \<exists>b y. obtains_buffer R (generic_info R) (in_env e x) b y"
  let ?rest = "allocateGeneric R (\<lambda>buffer. on_raw buffer (\<lambda>raw. fx_unlock R raw (- 1) (\<lambda>r releaseFence.
    EXPECT 1184 (r = AIMAPPER_ERROR_BAD_BUFFER) Done)))"
  obtain e where e: "delete_handle p ?rest (x\<lparr>cli := m\<rparr>) = ?rest (in_env e x)"
    using eh(5) by blast
  obtain b y where b: "obtains_buffer R (generic_info R) (in_env e x) b y"
    using al by blast
  have "test_ends R ?rest (in_env e x) [] False"
    unfolding session_defs generic_info_def [symmetric]
    by (rule raw_unlock_test [OF ready_in_env(1) [OF rdy] b]) (simp add: on_raw_Some)
  moreover have "UnlockNegative R x = ?rest (in_env e x)"
    using eh(1) e unlock_unregistered [OF r(6), of 0] unlock_unregistered [OF holdingD(2) [OF eh(2)] eh(3)]
    by (simp add: UnlockNegative_def fx_unlock_def on_mapper_def)
  ultimately show "test_ends R (UnlockNegative R) x [] False"
    using ready_in_env(2) [OF rdy] by (simp add: test_ends_def)
qed

end
