(* ===== verification/Vts_Conformance.thy ===== *)
theory Vts_Conformance
  imports Vts_Locks
begin

text \<open>
  The outcome of the conformance tests that need more than one session or the whole way from the
  service to the client: identities of buffers, formats and planes, the list of supported types,
  the stride; then the properties that sum the tests up, on a platform of their own.
\<close>

section \<open>Several buffers\<close>

text \<open>The service survives its allocations.\<close>

lemma fx_allocate_svc:
  assumes R: "rig_ok R" and x: "svc_ok x" and run: "fx_allocate R info x = Done (Some b, y)"
  shows "svc_ok y"
proof -
  obtain st res a where al: "allocator_allocate2 (r_svc R) (r_lim R) info 1 new_result (svc x) = Done ((st, res), a)"
    using run by (auto simp: fx_allocate_def andThen_eq_Done)
  then have st: "st = StatusOk"
    using run by (cases st) (auto simp: fx_allocate_def)
  obtain st' desc where d: "convertToGBMDesc info zero_desc = (st', desc)"
    by fastforce
  then have run': "doAllocate (r_svc R) (r_lim R) desc 1 new_result (svc x) = Done ((StatusOk, res), a)"
    using al st by (auto simp: allocator_allocate2_def isOk_def ToBinderStatus_def split: if_splits)
  have r0: "ar_buffers new_result = []"
    by (simp add: new_result_def)
  have x': "reg_inv (al_proc (svc x))" "\<forall>fd \<in> open_fds (al_proc (svc x)). \<not> is_neg fd"
    using x by (simp_all add: svc_ok_def)
  note fr = doAllocate_frame [OF run' rig_okD(4-6) [OF R] x' r0]
  let ?t = "close_scoped (concat (map nh_fds (ar_buffers res))) (al_proc a)"
  have y: "svc y = a\<lparr>al_proc := ?t\<rparr>"
    using run al st by (auto simp: fx_allocate_def Let_def split: list.splits prod.splits)
  have "reg_inv ?t"
    using x'(1) fr by (subst reg_inv_cong [of _ "al_proc (svc x)"]) (simp_all add: close_scoped_def)
  moreover have "open_fds ?t \<subseteq> open_fds (al_proc (svc x))"
    using fr by (auto simp: close_scoped_def owned_def)
  ultimately show ?thesis
    using x'(2) by (auto simp: svc_ok_def y)
qed

lemma session_svc:
  assumes rdy: "ready R x" and s: "session R info x b q z"
  shows "svc_ok z"
proof -
  obtain y where y: "obtains_buffer R info x b y" "obtains_handle R b y q z"
    using s by (auto simp: session_def)
  then have "svc_ok y"
    using fx_allocate_svc [OF readyD(1,2) [OF rdy]] by (auto simp: obtains_buffer_def)
  then show ?thesis
    using y(2) by (auto simp: obtains_handle_def svc_ok_def)
qed

lemma buffer_id_test:
  assumes rdy: "ready R x" and s: "session R (generic_info R) x b q z"
    and s2: "\<And>h. load_handle q (gm (cli z)) = Done h \<Longrightarrow> session R (generic_info R) (with_md R h z) b2 q2 z2"
  shows "test_ends R (GetBufferId R) x [] False"
proof -
  note R = readyD(1) [OF rdy] and st = session_start [OF rdy s]
  let ?i = "generic_info R"
  obtain h where at: "at_handle R q h (initial_md (r_consts R) h) z"
    using session_at [OF rdy s] by blast
  let ?z = "with_md R h z"
  have "session R ?i ?z b2 q2 z2"
    using s2 at by (simp add: at_handle_def)
  then obtain y2 where y2: "obtains_buffer R ?i ?z b2 y2" "obtains_handle R b2 y2 q2 z2"
    by (auto simp: session_def)
  have hold: "holding R [(mRawHandle b, ?i)] [(q, ?i)] (cli ?z)"
    using st(1) by (simp add: held_def holding_def)
  have "svc_ok ?z"
    using session_svc [OF rdy s] by (simp add: svc_ok_def)
  note b2 = buffer_held [OF R this hold y2(1)]
  note h2 = handle_held [OF R b2(1) _ y2(2), of ?i]
  obtain h' where h': "load_handle q2 (gm (cli z2)) = Done h'"
    using holdingD(5) [OF h2(1), of "(q2, ?i)"] by (auto simp: imported_handle_def)
  let ?w = "with_md R h' z2"
  have at2: "at_handle R q2 h' (fst (createMetadata (r_consts R) h' (cli z2))) z2"
    using R h' holdingD(2) [OF h2(1)] by (simp add: at_handle_def)
  let ?in2 = "\<lambda>h2. get_value R BUFFER_ID h2 1303 (\<lambda>v. EXPECT 1305 (MInt64 q \<noteq> v) Done)"
  have run2: "?in2 q2 z2 = Done ?w"
    using at_values(1) [OF at2] h2(6) by simp
  have keep: "holding R [(mRawHandle b2, ?i), (mRawHandle b, ?i)] [(q2, ?i), (q, ?i)] (cli ?w)"
    using h2(1) by (simp add: holding_def)
  obtain m1 where m1: "with_import R (Some b2) ?in2 y2 = Done (?w\<lparr>cli := m1\<rparr>)"
    "holding R [(mRawHandle b2, ?i), (mRawHandle b, ?i)] [(q, ?i)] m1"
    using with_import_ends [where body = ?in2, OF R y2(2) run2 keep] by blast
  let ?body = "\<lambda>buffer2. with_import R buffer2 ?in2"
  obtain m2 where m2: "with_buffer R ?i ?body ?z = Done (?w\<lparr>cli := m2\<rparr>)"
    "holding R [(mRawHandle b, ?i)] [(q, ?i)] m2"
    using with_buffer_ends [where body = ?body and w = "?w\<lparr>cli := m1\<rparr>", OF R b2(7) m1(1)] m1(2) by auto
  show ?thesis
    unfolding GetBufferId_def session_defs generic_info_def [symmetric]
    by (rule session_ends [where w = "?w\<lparr>cli := m2\<rparr>", OF rdy s], rule refl)
      (use at_values(1) [OF at] m2 b2(2,3) h2(2,3) st(3) in \<open>simp_all add: held_def\<close>)
qed

section \<open>Formats and planes\<close>

text \<open>The names the tests use for formats are those of the HAL and of gbm.h.\<close>

definition formats_agree :: "'e rig \<Rightarrow> bool" where
  "formats_agree R \<longleftrightarrow> hal_ok (hal_of (r_cli R)) \<and>
     PixelFormat_RGBA_8888 (r_vts R) = HAL_PIXEL_FORMAT_RGBA_8888 (hal_of (r_cli R)) \<and>
     PixelFormat_YV12 (r_vts R) = HAL_PIXEL_FORMAT_YV12 (hal_of (r_cli R)) \<and>
     DRM_FORMAT_ABGR8888 (r_vts R) = GBM_FORMAT_ABGR8888 \<and> DRM_FORMAT_YVU420 (r_vts R) = GBM_FORMAT_YVU420"

lemma formats_agreeD:
  assumes "formats_agree R"
  shows "gralloc_gm_android_format_to_gbm_format (hal_of (r_cli R)) (PixelFormat_RGBA_8888 (r_vts R)) = GBM_FORMAT_ABGR8888"
    and "gralloc_gm_android_format_to_gbm_format (hal_of (r_cli R)) (PixelFormat_YV12 (r_vts R)) = GBM_FORMAT_GR88"
  using assms to_gbm_format_nth [of "hal_of (r_cli R)" 0] to_gbm_format_nth [of "hal_of (r_cli R)" 6]
  by (simp_all add: formats_agree_def hal_formats_def gbm_codes_def)

lemma at_fourcc:
  assumes "at_handle R q h md y" and "gralloc_gm_android_format_to_gbm_format (hal_of (r_cli R)) (h_format h) = c" "0 < c"
  shows "get_value R PIXEL_FORMAT_FOURCC q l k y = k (MInt32 c) (with_md R h y)"
  using at_value [OF assms(1)] assms(2,3) by (simp add: standard_value_def Let_def)

lemma zero_less_codes: "0 < GBM_FORMAT_ABGR8888" "0 < GBM_FORMAT_GR88" "GBM_FORMAT_GR88 \<noteq> GBM_FORMAT_YVU420"
  by (simp_all add: gbm_values word_less_nat_alt)

lemma no_planes_fit: "value_fits R T (MPlanes [])"
  by (simp add: value_fits_def encoded_size_eq length_header_chunks int_chunks_def planes_chunks_def planes_ok_def)

lemma YV12SubsampleMetadata_fails:
  assumes rdy: "ready R x" and fmt: "formats_agree R"
    and s: "session R (vts_info ''VTS_TEMP'' 64 64 (PixelFormat_YV12 (r_vts R)) (CPU_OFTEN R)) x b q z"
    and l: "lock (r_cli R) q (CPU_OFTEN R) (- 1) (cli z) = Done ((AIMAPPER_ERROR_NONE, out), m)"
  shows "test_ends R (YV12SubsampleMetadata R) x [874] True"
proof -
  let ?info = "vts_info ''VTS_TEMP'' 64 64 (PixelFormat_YV12 (r_vts R)) (CPU_OFTEN R)"
  note st = session_start [OF rdy s] and R = readyD(1) [OF rdy]
  note lh = lock_holds [OF R st(1) [unfolded held_def] l]
  let ?y = "z\<lparr>cli := m\<rparr>"
  have held: "held R ?info b q ?y"
    using lh(1) by (simp add: held_def)
  obtain h where h: "load_handle q (gm m) = Done h" "describes ?info h"
    using heldD(1) [OF held] by auto
  have at: "at_handle R q h (initial_md (r_consts R) h) ?y"
    using R h(1) heldD(2) [OF held] lh(2) st(4) by (simp add: at_handle_def createMetadata_def initial_md_def Let_def)
  have "gralloc_gm_android_format_to_gbm_format (hal_of (r_cli R)) (h_format h) = GBM_FORMAT_GR88"
    using formats_agreeD(2) [OF fmt] h(2) by (simp add: describes_def)
  then have planes: "handle_plane_layouts (hal_of (r_cli R)) (r_consts R) h = []"
    by (simp add: handle_plane_layouts_def getPlaneLayouts_def GetPlaneLayoutsMap_def gbm_values)
  have val: "get_value R PLANE_LAYOUTS q l' k ?y = k (MPlanes []) (with_md R h ?y)" for l' k
    using at_value [OF at _ no_planes_fit] planes by (simp add: standard_value_def)
  have keep: "held R ?info b q ((with_md R h ?y)\<lparr>failures := failures z @ [874], fatal := True\<rparr>)"
    using held by simp
  show ?thesis
    unfolding YV12SubsampleMetadata_def Let_def
    by (rule session_ends [where w = "(with_md R h ?y)\<lparr>failures := failures z @ [874], fatal := True\<rparr>", OF rdy s], simp)
      (use l val keep in \<open>simp_all add: fx_lock_def on_mapper_def aimapper_errors\<close>)
qed

lemma holding_swap: "holding R (a # b # raws) qs m = holding R (b # a # raws) qs m"
  by (auto simp: holding_def)

lemma fourcc_block:
  assumes R: "rig_ok R" and hold: "holding R [(mRawHandle b, info)] [] (cli y)" and imp: "obtains_handle R b y q z"
    and c: "gralloc_gm_android_format_to_gbm_format (hal_of (r_cli R)) (bdi_format info) = c" "0 < c"
  shows "\<exists>m. with_import R (Some b) (\<lambda>h. get_value R PIXEL_FORMAT_FOURCC h l (\<lambda>value. EXPECT l' (value = MInt32 d) Done)) y =
      Done (z\<lparr>failures := failures z @ (if c = d then [] else [l']), cli := m\<rparr>) \<and> holding R [(mRawHandle b, info)] [] m"
proof -
  let ?inner = "\<lambda>h. get_value R PIXEL_FORMAT_FOURCC h l (\<lambda>value. EXPECT l' (value = MInt32 d) Done)"
  note hh = handle_held [OF R hold _ imp, of info]
  have held: "held R info b q z"
    using hh(1) by (simp add: held_def)
  obtain h where h: "load_handle q (gm (cli z)) = Done h" "describes info h"
    using heldD(1) [OF held] by blast
  have at: "at_handle R q h (fst (createMetadata (r_consts R) h (cli z))) z"
    using R h(1) heldD(2) [OF held] by (simp add: at_handle_def)
  let ?w = "(with_md R h z)\<lparr>failures := failures z @ (if c = d then [] else [l'])\<rparr>"
  have "?inner q z = Done ?w"
    using at_fourcc [OF at, of c] c h(2) by (simp add: describes_def with_md_def)
  moreover have "holding R [(mRawHandle b, info)] [(q, info)] (cli ?w)"
    using hh(1) by (simp add: holding_def)
  ultimately obtain m where "with_import R (Some b) ?inner y = Done (?w\<lparr>cli := m\<rparr>)" "holding R [(mRawHandle b, info)] [] m"
    using with_import_ends [where body = ?inner, OF R imp] by blast
  moreover have "?w\<lparr>cli := m\<rparr> = z\<lparr>failures := failures z @ (if c = d then [] else [l']), cli := m\<rparr>"
    by (simp add: with_md_def)
  ultimately show ?thesis
    by auto
qed

lemma FourCC_fails:
  fixes R :: "'e rig"
  defines "i1 \<equiv> vts_info ''Hello, World!'' 64 128 (PixelFormat_RGBA_8888 (r_vts R)) (CPU_OFTEN R)"
    and "i2 \<equiv> vts_info ''yv12'' 64 128 (PixelFormat_YV12 (r_vts R)) (CPU_OFTEN R)"
    and "block1 \<equiv> \<lambda>h. get_value R PIXEL_FORMAT_FOURCC h 1372 (\<lambda>value. EXPECT 1373 (value = MInt32 (DRM_FORMAT_ABGR8888 (r_vts R))) Done)"
  assumes rdy: "ready R x" and fmt: "formats_agree R"
    and b1: "obtains_buffer R i1 x b y" "obtains_handle R b y q z" "with_import R (Some b) block1 y = Done w"
    and b2: "obtains_buffer R i2 w b2 y2" "BufferAllocation_dtor b y2 = Done y3" "obtains_handle R b2 y3 q2 z2"
  shows "test_ends R (GetPixelFormatFourCC R) x [1389] False"
proof -
  note r = readyD [OF rdy] and f = formats_agreeD [OF fmt]
  note y = buffer_held [OF r(1-3) b1(1)]
  note z = handle_held [OF r(1) y(1) _ b1(2), of i1]
  obtain m where w: "w = z\<lparr>failures := failures z, cli := m\<rparr>" and hw: "holding R [(mRawHandle b, i1)] [] m"
    using fourcc_block [OF r(1) y(1) b1(2), of GBM_FORMAT_ABGR8888 1372 1373 "DRM_FORMAT_ABGR8888 (r_vts R)"] f(1) fmt b1(3)
    by (auto simp: block1_def i1_def formats_agree_def zero_less_codes)
  have "svc_ok w"
    using session_svc [OF rdy, of i1 b q z] b1(1,2) by (auto simp: session_def svc_ok_def w)
  moreover have "holding R [(mRawHandle b, i1)] [] (cli w)"
    using hw by (simp add: w)
  ultimately have y2: "holding R [(mRawHandle b2, i2), (mRawHandle b, i1)] [] (cli y2)" "failures y2 = failures w"
    "fatal y2 = fatal w" "fx_allocate R i2 w = Done (Some b2, y2)"
    using buffer_held [OF r(1) _ _ b2(1)] by blast+
  obtain m3 where y3: "y3 = y2\<lparr>cli := m3\<rparr>" "holding R [(mRawHandle b2, i2)] [] m3"
    using dtor_holds [OF r(1), of b i1 "[(mRawHandle b2, i2)]" "[]" y2] y2(1) b2(2) holding_swap [of R] by auto
  have h3: "holding R [(mRawHandle b2, i2)] [] (cli y3)"
    using y3 by simp
  note z2 = handle_held [OF r(1) h3 _ b2(3), of i2]
  let ?block2 = "\<lambda>h. get_value R PIXEL_FORMAT_FOURCC h 1388 (\<lambda>value. EXPECT 1389 (value = MInt32 (DRM_FORMAT_YVU420 (r_vts R))) Done)"
  obtain m4 where w2: "with_import R (Some b2) ?block2 y3 = Done (z2\<lparr>failures := failures z2 @ [1389], cli := m4\<rparr>)"
    "holding R [(mRawHandle b2, i2)] [] m4"
    using fourcc_block [OF r(1) h3 b2(3), of GBM_FORMAT_GR88 1388 1389 "DRM_FORMAT_YVU420 (r_vts R)"] f(2) fmt
    by (auto simp: i2_def formats_agree_def zero_less_codes)
  let ?v = "z2\<lparr>failures := failures z2 @ [1389], cli := m4\<rparr>"
  obtain m5 where v: "BufferAllocation_dtor b2 ?v = Done (?v\<lparr>cli := m5\<rparr>)" "holding R [] [] m5"
    using dtor_holds [OF r(1), of b2 i2 "[]" "[]" ?v] w2(2) by auto
  have "GetPixelFormatFourCC R x = Done (?v\<lparr>cli := m5\<rparr>)"
    using y(7) b1(3) y2(4) b2(2) w2(1) v(1) w z(3) y(3) r(4)
    by (simp add: GetPixelFormatFourCC_def i1_def i2_def block1_def drop_buffer_def)
  then show ?thesis
    using v(2) z2(2,3) y3(1) y2(2,3) w z(2,3) y(2,3) r(4) by (simp add: test_ends_def)
qed

section \<open>Plane layouts\<close>

definition components_agree :: "'e rig \<Rightarrow> bool" where
  "components_agree R \<longleftrightarrow>
    (let T = mc_components (r_consts R)
     in distinct (map ext_value [Type_R T, Type_G T, Type_B T, Type_A T]) \<and>
        list_all (isStandardPlaneLayoutComponentType (r_vts R)) [Type_R T, Type_G T, Type_B T, Type_A T])"

lemma sint_of_small:
  assumes "uint (w :: u64) < 2 ^ 63"
  shows "sint w = uint w"
proof -
  have "- (2 ^ 63) \<le> (0 :: int)"
    by simp
  then have "- (2 ^ 63) \<le> uint w"
    using unsigned_greater_eq [of w] order_trans by blast
  then have "signed_take_bit 63 (uint w) = uint w"
    using assms by (rule signed_take_bit_int_eq_self)
  then show ?thesis
    by (simp add: sint_uint)
qed

lemma rgba_planes:
  assumes "formats_agree R" and "describes (vts_info nm 64 64 (PixelFormat_RGBA_8888 (r_vts R)) u) h"
  shows "handle_plane_layouts (hal_of (r_cli R)) (r_consts R) h = map (fill_plane h) (layout_ABGR8888 (mc_components (r_consts R)))"
  using formats_agreeD(1) [OF assms(1)] assms(2)
  by (simp add: handle_plane_layouts_def describes_def getPlaneLayouts_def GetPlaneLayoutsMap_def)

lemma verify_planes:
  assumes c: "components_agree R" and "h_width h = 64" "h_height h = 64"
  shows "verifyRGBA8888PlaneLayouts R (map (fill_plane h) (layout_ABGR8888 (mc_components (r_consts R)))) x =
    Done (if 16384 \<le> uint (h_stride h * 64) then x else x\<lparr>failures := failures x @ [310]\<rparr>)"
proof -
  have "sint (ucast (h_stride h * 64) :: u64) = uint (h_stride h * 64)"
    using uint_lt2p [of "h_stride h * 64"] sint_of_small [of "ucast (h_stride h * 64)"]
    by (simp add: unsigned_ucast_eq take_bit_int_eq_self)
  moreover define T where "T = mc_components (r_consts R)"
  moreover have ne: "ext_value (Type_R T) \<noteq> ext_value (Type_G T)" "ext_value (Type_R T) \<noteq> ext_value (Type_B T)"
    "ext_value (Type_R T) \<noteq> ext_value (Type_A T)" "ext_value (Type_G T) \<noteq> ext_value (Type_B T)"
    "ext_value (Type_G T) \<noteq> ext_value (Type_A T)" "ext_value (Type_B T) \<noteq> ext_value (Type_A T)"
    and std: "isStandardPlaneLayoutComponentType (r_vts R) (Type_R T)" "isStandardPlaneLayoutComponentType (r_vts R) (Type_G T)"
    "isStandardPlaneLayoutComponentType (r_vts R) (Type_B T)" "isStandardPlaneLayoutComponentType (r_vts R) (Type_A T)"
    using c by (simp_all add: components_agree_def T_def Let_def)
  ultimately show ?thesis
    using assms(2,3) ne [symmetric]
    by (simp add: verifyRGBA8888PlaneLayouts_def layout_ABGR8888_def plane_of_def fill_plane_def Let_def DIV_ROUND_UP_def)
qed

lemma plane_layouts_test:
  assumes rdy: "ready R x" and fmt: "formats_agree R" and c: "components_agree R"
    and s: "session R (generic_info R) x b q z" and h: "load_handle q (gm (cli z)) = Done h"
    and fits: "value_fits R PLANE_LAYOUTS (MPlanes (handle_plane_layouts (hal_of (r_cli R)) (r_consts R) h))"
  shows "test_ends R (GetPlaneLayouts R) x (if 16384 \<le> uint (h_stride h * 64) then [] else [310]) False"
proof -
  note st = session_start [OF rdy s]
  let ?ls = "if 16384 \<le> uint (h_stride h * 64) then [] else [310]"
  show ?thesis
    unfolding GetPlaneLayouts_def session_defs generic_info_def [symmetric]
  proof (rule body_test [OF rdy s], simp)
    fix h' assume at: "at_handle R q h' (initial_md (r_consts R) h') z" and d: "describes (generic_info R) h'"
    have h': "h' = h"
      using at h by (simp add: at_handle_def)
    have val: "get_value R PLANE_LAYOUTS q 1510 k z =
        k (MPlanes (handle_plane_layouts (hal_of (r_cli R)) (r_consts R) h)) (with_md R h z)" for k
      using at_value [OF at [unfolded h'] _ fits] by (simp add: standard_value_def)
    have pl: "handle_plane_layouts (hal_of (r_cli R)) (r_consts R) h =
        map (fill_plane h) (layout_ABGR8888 (mc_components (r_consts R)))"
      using rgba_planes [OF fmt] d h' by (simp add: generic_info_def)
    have "verifyRGBA8888PlaneLayouts R (handle_plane_layouts (hal_of (r_cli R)) (r_consts R) h) (with_md R h z) =
        Done (if 16384 \<le> uint (h_stride h * 64) then with_md R h z else (with_md R h z)\<lparr>failures := failures z @ [310]\<rparr>)"
      unfolding pl using verify_planes [OF c, of h "with_md R h z"] d h' by (simp add: describes_def generic_info_def)
    then show "ASSERT 1508 (q \<noteq> 0) (get_value R PLANE_LAYOUTS q 1510 (\<lambda>value.
        NO_FATAL 1511 (verifyRGBA8888PlaneLayouts R (case value of MPlanes ps \<Rightarrow> ps | _ \<Rightarrow> [])) Done)) z =
      Done ((with_md R h' z)\<lparr>failures := failures z @ ?ls, fatal := False\<rparr>)"
      using st(3,5) val h' by (simp add: NO_FATAL_def)
  qed
qed

section \<open>The list of types, and metadata errors\<close>

lemma bad_value_types_run:
  assumes "mInitialized (cli y)"
  shows "bad_value_types R Ts y =
    Done (y\<lparr>failures := failures y @ replicate (length (filter (\<lambda>T. T \<noteq> INVALID) Ts)) 1798\<rparr>)"
  using assms
  by (induction Ts arbitrary: y)
    (simp_all add: on_mapper_def getStandardMetadata_def aimapper_errors)

lemma metadata_error_tests:
  assumes rdy: "ready R x"
  shows "test_ends R (GetMetadataBadValue R) x
      (replicate (length (filter (\<lambda>T. T \<noteq> INVALID) (smt_values (mc_smt (r_consts R))))) 1798) False"
    and "session R (generic_info R) x b q z \<Longrightarrow> length (smt_values (mc_smt (r_consts R))) < 2 ^ 63 \<Longrightarrow>
      test_ends R (GetUnsupportedMetadata R) x [1809] False"
proof -
  note r = readyD [OF rdy]
  show "test_ends R (GetMetadataBadValue R) x
      (replicate (length (filter (\<lambda>T. T \<noteq> INVALID) (smt_values (mc_smt (r_consts R))))) 1798) False"
    using r by (simp add: test_ends_def GetMetadataBadValue_def bad_value_types_run)
  assume s: "session R (generic_info R) x b q z" and len: "length (smt_values (mc_smt (r_consts R))) < 2 ^ 63"
  note st = session_start [OF rdy s]
  let ?S = "mc_smt (r_consts R)" and ?m = "cli z"
  have i: "mInitialized ?m" "q \<noteq> 0"
    using heldD(2) [OF st(1)] st(5) by auto
  have S: "smt_ok ?S"
    by (rule rig_okD(2) [OF r(1)])
  have fake: "\<not> isStandardMetadata \<lparr>mt_name = map of_char ''Fake'', mt_value = 1\<rparr>"
    by (simp add: isStandardMetadata_def STANDARD_METADATA_NAME_def)
  have "unat (of_nat (length (smt_values ?S)) :: u64) = length (smt_values ?S)"
    using len by (simp add: unat_of_nat take_bit_nat_eq_self)
  then have inv: "invokeWithStandardMetadata ?S (of_nat (length (smt_values ?S))) = None"
    by (simp add: invokeWithStandardMetadata_def)
  have g: "getMetadata (r_cli R) (r_consts R) q \<lparr>mt_name = map of_char ''Fake'', mt_value = 1\<rparr> 0 ?m = Done ((7, []), ?m)"
    "getStandardMetadata (r_cli R) (r_consts R) q (smt_code ?S INVALID) 0 ?m = Done ((- 7, []), ?m)"
    "getStandardMetadata (r_cli R) (r_consts R) q (of_nat (length (smt_values ?S))) 0 ?m = Done ((- 7, []), ?m)"
    using fake i inv invoke_code [OF S, of INVALID]
    by (simp_all add: getMetadata_def getStandardMetadata_def provideStandardMetadata_def aimapper_errors)
  show "test_ends R (GetUnsupportedMetadata R) x [1809] False"
    unfolding GetUnsupportedMetadata_def Let_def session_defs generic_info_def [symmetric]
    by (rule session_ends [where w = "z\<lparr>failures := failures z @ [1809]\<rparr>", OF rdy s], simp)
      (use g i st in \<open>simp_all add: on_mapper_def aimapper_errors held_def\<close>)
qed

lemma standard_codes:
  assumes S: "smt_ok S" and "smt_code S INVALID = 0" and "length (smt_values S) < 2 ^ 63" and "T \<noteq> INVALID"
  shows "0 < sint (smt_code S T)" and "unat (smt_code S T) < length (smt_values S)"
proof -
  show l: "unat (smt_code S T) < length (smt_values S)"
    using S by (simp add: smt_ok_def)
  have "smt_code S T \<noteq> 0"
    using smt_code_inj [OF S, of T INVALID] assms(2,4) by simp
  then have "0 < uint (smt_code S T)"
    by (simp add: uint_0_iff less_le)
  moreover have "uint (smt_code S T) < 2 ^ 63"
  proof -
    have "unat (smt_code S T) < 2 ^ 63"
      using l assms(3) by (rule less_trans)
    then have "int (unat (smt_code S T)) < int (2 ^ 63)"
      by (simp only: of_nat_less_iff)
    then show ?thesis
      by simp
  qed
  ultimately show "0 < sint (smt_code S T)"
    by (simp only: sint_of_small)
qed

lemma standard_type [simp]: "isStandardMetadata \<lparr>mt_name = STANDARD_METADATA_NAME, mt_value = v\<rparr>"
  by (simp add: isStandardMetadata_def)

lemma check_description:
  assumes "smt_ok (mc_smt (r_consts R))" "smt_code (mc_smt (r_consts R)) INVALID = 0"
    "length (smt_values (mc_smt (r_consts R))) < 2 ^ 63" and "T \<noteq> INVALID"
  shows "check_descriptions R (describeStandard (r_consts R) T g s # its) getters setters k =
    check_descriptions R its (if g then filter (\<lambda>U. U \<noteq> T) getters else getters)
      (if s then filter (\<lambda>U. U \<noteq> T) setters else setters) k"
  using standard_codes [OF assms] assms(2) smt_code_inj [OF assms(1)]
  by (simp add: describeStandard_def erase_type_def)

lemma check_optional_other:
  assumes "smt_ok (mc_smt (r_consts R))" and "T \<notin> {SMPTE2094_10, SMPTE2094_40}"
  shows "check_optional R (describeStandard (r_consts R) T g s # its) = check_optional R its"
  using assms(2) smt_code_inj [OF assms(1)] by (simp add: describeStandard_def)

lemma supported_list_tests:
  assumes rdy: "ready R x" and s: "session R (generic_info R) x b q z"
  shows "smt_code (mc_smt (r_consts R)) INVALID = 0 \<Longrightarrow> length (smt_values (mc_smt (r_consts R))) < 2 ^ 63 \<Longrightarrow>
      test_ends R (SupportsRequiredGettersSetters R) x [1703, 1704] False"
    and "test_ends R (CheckRequiredSettersIfHasGetters R) x [] False"
proof -
  note st = session_start [OF rdy s]
  note S = rig_okD(2) [OF readyD(1) [OF rdy]]
  show "test_ends R (SupportsRequiredGettersSetters R) x [1703, 1704] False"
    if std: "smt_code (mc_smt (r_consts R)) INVALID = 0" "length (smt_values (mc_smt (r_consts R))) < 2 ^ 63"
  proof -
    have run: "check_descriptions R (snd (listSupportedMetadataTypes (r_consts R))) requiredGetters requiredSetters
        (\<lambda>getters setters. EXPECT 1703 (getters = []) (EXPECT 1704 (setters = []) Done)) z =
      Done (z\<lparr>failures := failures z @ [1703, 1704]\<rparr>)"
      by (simp add: listSupportedMetadataTypes_def check_description [OF S std] requiredGetters_def requiredSetters_def
        del: check_descriptions.simps(2))
    show ?thesis
      unfolding SupportsRequiredGettersSetters_def session_defs generic_info_def [symmetric]
      by (rule session_ends [where w = "z\<lparr>failures := failures z @ [1703, 1704]\<rparr>", OF rdy s], simp)
        (use st(1,3,5) run in \<open>simp_all add: case_prod_beta listSupportedMetadataTypes_def [THEN arg_cong [where f = fst]]
        del: check_descriptions.simps check_optional.simps\<close>)
  qed
  have run: "check_optional R (snd (listSupportedMetadataTypes (r_consts R))) z = Done z"
    by (simp add: listSupportedMetadataTypes_def check_optional_other [OF S] del: check_optional.simps(2))
  show "test_ends R (CheckRequiredSettersIfHasGetters R) x [] False"
    unfolding CheckRequiredSettersIfHasGetters_def session_defs generic_info_def [symmetric]
    by (rule session_ends [where w = z, OF rdy s], simp)
      (use st(1,3,5) run in \<open>simp_all add: case_prod_beta listSupportedMetadataTypes_def [THEN arg_cong [where f = fst]]
        del: check_descriptions.simps check_optional.simps\<close>)
qed

text \<open>The loop over the supported types reads each gettable one completely.\<close>

lemma list_get_value:
  assumes at: "at_handle R q h md y"
    and v: "standard_value (r_cli R) (r_consts R) q h md (gm (cli y)) T = Done (Some v)" and fits: "value_fits R T v"
  shows "list_get R q \<lparr>mt_name = STANDARD_METADATA_NAME, mt_value = smt_code (mc_smt (r_consts R)) T\<rparr> buffer k y =
    k (encoded_size (r_consts R) T v) (concat (value_chunks (smt_code (mc_smt (r_consts R)) T) v)) (with_md R h y)"
proof -
  let ?C = "r_consts R" and ?c = "smt_code (mc_smt (r_consts R)) T" and ?n = "encoded_size (r_consts R) T v"
  let ?m = "snd (createMetadata ?C h (cli y))" and ?bs = "concat (value_chunks ?c v)"
  have a: "rig_ok R" "mInitialized (cli y)" "load_handle q (gm (cli y)) = Done h"
    and md: "fst (createMetadata ?C h (cli y)) = md"
    using at by (simp_all add: at_handle_def)
  have T: "T \<noteq> INVALID"
    using v by (auto simp: standard_value_def)
  have n: "0 \<le> ?n"
    using fits by (simp add: value_fits_def)
  note enc = encoded_sizeD [OF n]
  have get: "getMetadata (r_cli R) ?C q \<lparr>mt_name = STANDARD_METADATA_NAME, mt_value = ?c\<rparr> k' m =
      Done (metadata_encode ?c v k', snd (createMetadata ?C h m))"
    if "mInitialized m" "gm m = gm (cli y)" "fst (createMetadata ?C h m) = md" for m k'
    using getStandardMetadata_provided [OF a(1) that(1) _ T, of q h v k'] a(3) v that by (simp add: getMetadata_def)
  obtain new where e: "metadata_encode ?c v (nat ?n) = (?n, new)"
    using enc(1) [of "nat ?n"] by (metis prod.collapse)
  have new: "new = ?bs"
    using encode_stored [OF e n] by simp
  have len: "length (resized (nat ?n) buffer) = nat ?n"
    by (simp add: resized_def)
  obtain new0 where e0: "metadata_encode ?c v 0 = (?n, new0)"
    using enc(1) [of 0] by (metis prod.collapse)
  have "stored_in (resized (nat ?n) buffer) ?bs = ?bs"
    using len enc(2) by (simp add: stored_in_def)
  then show ?thesis
    using get [of "cli y" 0] get [of ?m "nat ?n"] a(2) md n e e0 new len enc(2)
    by (simp add: list_get_def on_mapper_def with_md_def Let_def)
qed

lemma list_supported_step:
  assumes "at_handle R q h md y"
    and "standard_value (r_cli R) (r_consts R) q h md (gm (cli y)) T = Done (Some v)" and "value_fits R T v"
  shows "list_supported R q (describeStandard (r_consts R) T True False # its) buffer y =
    list_supported R q its (concat (value_chunks (smt_code (mc_smt (r_consts R)) T) v)) (with_md R h y)"
  using list_get_value [OF assms] assms(3) by (simp add: describeStandard_def value_fits_def)

lemma list_supported_skip:
  "list_supported R q (describeStandard C T False False # its) buffer = list_supported R q its buffer"
  by (simp add: describeStandard_def)

lemma ListSupportedWorks_passes:
  assumes rdy: "ready R x" and s: "session R (generic_info R) x b q z"
  shows "test_ends R (ListSupportedWorks R) x [] False"
proof -
  note st = session_start [OF rdy s]
  obtain h where at: "at_handle R q h (initial_md (r_consts R) h) z"
    using session_at [OF rdy s] by blast
  obtain size where size: "allocation_size q (gm (cli z)) = Done size"
    using st(7) by (auto simp: allocation_size_def gralloc_get_gbm_bo_from_handle_def load_bo_def)
  let ?w = "with_md R h z"
  have at': "at_handle R q h (initial_md (r_consts R) h) ?w"
    using at by simp
  note d = standard_value_def size Let_def
  have run: "list_supported R q (snd (listSupportedMetadataTypes (r_consts R))) [] z = Done ?w"
    by (simp add: listSupportedMetadataTypes_def list_supported_step [OF at] list_supported_step [OF at'] list_supported_skip d
        del: list_supported.simps(2))
  show ?thesis
    unfolding ListSupportedWorks_def session_defs generic_info_def [symmetric]
    by (rule session_ends [where w = ?w, OF rdy s], simp)
      (use st(1,3,5) run in \<open>simp_all add: case_prod_beta listSupportedMetadataTypes_def [THEN arg_cong [where f = fst]]
        del: list_supported.simps\<close>)
qed

section \<open>The stride from end to end\<close>

lemma gbmAllocateBuffer_stride:
  assumes run: "gbmAllocateBuffer P desc a = Done ((st, out), a1)" and "isOk st"
    and c: "handle_contract P" "bo_contract P" "fd_contract P"
  obtains p h where "out = Some (gralloc_gm_android_caculate_pixel_stride (hal_of P) (d_android_format desc) (h_stride h), p)"
    and "load_handle p (al_proc a1) = Done h" and "p \<noteq> 0" and "numFds h = 1" and "numInts h = 12"
proof -
  obtain ret out' s where g: "gralloc_allocate P desc (al_proc a) = Done ((ret, out'), s)"
    and a1: "a1 = a\<lparr>al_proc := s\<rparr>" and o: "ret = 0" "out' \<noteq> None"
      "out = Some (gralloc_gm_android_caculate_pixel_stride (hal_of P) (d_android_format desc) (fst (the out')), snd (the out'))"
    using run \<open>isOk st\<close>
    by (auto simp: gbmAllocateBuffer_def andThen_eq_Done Let_def ToBinderStatus_def isOk_def split: if_splits option.splits)
  then obtain p b h bo where "out' = Some (h_stride h, p)" "allocated (al_proc a) desc p b h bo s"
    using gralloc_allocate_cases [OF g c] by auto
  then show thesis
    using that [of h p] o(3) a1 by (simp add: allocated_def)
qed

lemma doAllocate_stride:
  assumes run: "doAllocate P lim desc 1 new_result a = Done ((StatusOk, res), a')"
    and c: "handle_contract P" "bo_contract P" "fd_contract P"
  shows "\<exists>nh. ar_buffers res = [nh] \<and>
    ar_stride res = gralloc_gm_android_caculate_pixel_stride (hal_of P) (d_android_format desc) (nh_ints nh ! 6)"
proof -
  have n: "unat (1 :: c_int) = Suc 0"
    by simp
  have i: "isInitialized a" "\<not> (is_neg (1 :: c_int) \<or> lim < unat (1 :: c_int))"
    using run by (auto simp: doAllocate_def ToBinderStatus_def split: if_splits)
  obtain st out a1 where g: "gbmAllocateBuffer P desc a = Done ((st, out), a1)"
    using run i by (auto simp: doAllocate_def andThen_eq_Done)
  have ok: "isOk st"
  proof (rule ccontr)
    assume "\<not> isOk st"
    then show False
      using run i g by (simp add: doAllocate_def isOk_def Let_def)
  qed
  obtain p h where out: "out = Some (gralloc_gm_android_caculate_pixel_stride (hal_of P) (d_android_format desc) (h_stride h), p)"
    and h: "load_handle p (al_proc a1) = Done h" "p \<noteq> 0" "numFds h = 1" "numInts h = 12"
    using gbmAllocateBuffer_stride [OF g ok c] by metis
  have ln: "load_native p s = Done h" if "handles s = handles (al_proc a1)" for s :: "'a proc"
    using h(1) that by (simp add: load_handle_Done load_native_Done)
  let ?bufs = "[\<lparr>nh_fds = [], nh_ints = []\<rparr>]"
  have rs: "resize_buffers 1 [] (al_proc a1) = (?bufs, al_proc a1)"
    by (simp add: resize_buffers_def close_scoped_def)
  obtain fds t where tf: "take_fds P True (take 1 (handle_data h)) (al_proc a1) = (fds, t)"
    by fastforce
  let ?nh = "\<lparr>nh_fds = fds, nh_ints = take 12 (drop 1 (handle_data h))\<rparr>"
  have du: "dupToAidl P p (al_proc a1) = Done (?nh, t)"
    using tf h(3,4) ln [OF refl] by (simp add: dupToAidl_def toAidl_def length_handle_data)
  have "ar_buffers res = [?nh] \<and> ar_stride res = gralloc_gm_android_caculate_pixel_stride (hal_of P) (d_android_format desc) (h_stride h)"
    using run i g ok out h(2) rs du
    by (auto simp: doAllocate_def n new_result_def Let_def andThen_eq_Done isOk_def)
  moreover have "nh_ints ?nh ! 6 = h_stride h"
    by (simp add: handle_data_def)
  ultimately show ?thesis
    by auto
qed

lemma fromAidl_stride:
  assumes e: "exported desc nh" and f: "fromAidl P nh dup s = (p, t)" and p: "p \<noteq> 0" and c: "handle_contract P" "fd_contract P"
    and h: "load_native p t = Done h"
  shows "h_stride h = nh_ints nh ! 6"
proof -
  obtain fd ints where nh: "nh_fds nh = [fd]" "nh_ints nh = ints" "length ints = 12"
    using e by (auto simp: exported_def length_Suc_conv)
  obtain res e' where cr: "p_native_handle_create P (dom (handles s)) 1 12 (env s) = (res, e')"
    by fastforce
  then obtain h0 where res: "res = Some (p, h0)"
    using f p nh by (auto simp: fromAidl_def split: option.splits prod.splits)
  obtain fds s1 where tf: "take_fds P dup [fd] (s\<lparr>env := e'\<rparr>) = (fds, s1)"
    by fastforce
  have t: "t = store_handle p (store_words (fds @ ints) h0) s1"
    using f cr res tf nh by (simp add: fromAidl_def)
  have len: "length fds = 1"
    using take_fds_either(1) [OF tf c(2)] by simp
  have "h = store_words (fds @ ints) h0"
    using h p by (simp add: t load_native_def store_handle_def)
  then have "handle_data h ! 7 = ints ! 6"
    using len nh(3) by (simp add: nth_append)
  then show ?thesis
    by (simp add: nh handle_data_def)
qed

lemma fx_allocate_stride:
  assumes R: "rig_ok R" and x: "svc_ok x" and run: "fx_allocate R info x = Done (Some b, y)"
    and p: "mRawHandle b \<noteq> 0" and h: "load_native (mRawHandle b) (gm (cli y)) = Done h"
  shows "mStride b = gralloc_gm_android_caculate_pixel_stride (hal_of (r_svc R)) (bdi_format info) (h_stride h)"
proof -
  obtain st res a where al: "allocator_allocate2 (r_svc R) (r_lim R) info 1 new_result (svc x) = Done ((st, res), a)"
    using run by (auto simp: fx_allocate_def andThen_eq_Done)
  then have st: "st = StatusOk"
    using run by (cases st) (auto simp: fx_allocate_def)
  obtain st' desc where d: "convertToGBMDesc info zero_desc = (st', desc)"
    by fastforce
  then have run': "doAllocate (r_svc R) (r_lim R) desc 1 new_result (svc x) = Done ((StatusOk, res), a)"
    and fmt: "d_android_format desc = bdi_format info"
    using al st by (auto simp: allocator_allocate2_def convertToGBMDesc_def isOk_def ToBinderStatus_def Let_def split: if_splits)
  obtain nh where nh: "ar_buffers res = [nh]" "ar_stride res =
      gralloc_gm_android_caculate_pixel_stride (hal_of (r_svc R)) (bdi_format info) (nh_ints nh ! 6)"
    using doAllocate_stride [OF run' rig_okD(4-6) [OF R]] fmt by auto
  have ex: "exported desc nh"
    using doAllocate_exported [OF run' rig_okD(4-6) [OF R]] x nh(1) by (auto simp: svc_ok_def new_result_def)
  obtain nh' s1 where sd: "r_send R nh (gm (cli x)) = (nh', s1)"
    by fastforce
  obtain q s2 where fa: "fromAidl (r_cli R) nh' True s1 = (q, s2)"
    by fastforce
  have b: "mRawHandle b = q" "mStride b = ar_stride res" and y: "cli y = (cli x)\<lparr>gm := close_scoped (nh_fds nh') s2\<rparr>"
    using run al st nh(1) sd fa by (auto simp: fx_allocate_def dupFromAidl_def Let_def)
  have s1: "same_handle nh nh'"
    using rig_okD(3) [OF R] sd unfolding send_contract_def by blast
  have "load_native q s2 = Done h"
    using h y b(1) by (simp add: load_native_Done close_scoped_def)
  then have "h_stride h = nh_ints nh' ! 6"
    using fromAidl_stride [OF exported_same [OF ex s1] fa _ rig_okD(7,9) [OF R]] p b(1) by simp
  then show ?thesis
    using s1 nh(2) b(2) by (simp add: same_handle_def)
qed

lemma session_stride:
  assumes rdy: "ready R x" and s: "session R info x b q z" and K: "hal_of (r_svc R) = hal_of (r_cli R)"
    and h: "load_handle q (gm (cli z)) = Done h"
  shows "mStride b = gralloc_gm_android_caculate_pixel_stride (hal_of (r_cli R)) (bdi_format info) (h_stride h)"
proof -
  note r = readyD [OF rdy]
  obtain y where y: "obtains_buffer R info x b y" "obtains_handle R b y q z"
    using s by (auto simp: session_def)
  note y1 = buffer_held [OF r(1-3) y(1)]
  obtain h0 where h0: "load_native (mRawHandle b) (gm (cli y)) = Done h0" "numFds h0 = 1"
    using holdingD(4) [OF y1(1), of "(mRawHandle b, info)"] by (auto simp: raw_handle_def)
  obtain m where m: "importBuffer (r_cli R) (mRawHandle b) (cli y) = Done ((AIMAPPER_ERROR_NONE, Some q), m)"
    and z: "z = y\<lparr>cli := m\<rparr>"
    using y(2) by (auto simp: obtains_handle_def)
  have "same_words h0 h"
    using importBuffer_words [OF m rig_okD(7,8) [OF r(1)] h0(1)] h z by auto
  then have "h_stride h = h_stride h0"
    using h0(2) by (simp add: same_words_def handle_data_def)
  then show ?thesis
    using fx_allocate_stride [OF r(1,2) y1(7,6) h0(1)] K by simp
qed

lemma GetStride_passes:
  assumes rdy: "ready R x" and s: "session R (generic_info R) x b q z" and K: "hal_of (r_svc R) = hal_of (r_cli R)"
  shows "test_ends R (GetStride R) x [] False"
proof -
  note st = session_start [OF rdy s]
  show ?thesis
    unfolding GetStride_def session_defs generic_info_def [symmetric]
  proof (rule body_test [OF rdy s], simp)
    fix h assume at: "at_handle R q h (initial_md (r_consts R) h) z" and d: "describes (generic_info R) h"
    have "load_handle q (gm (cli z)) = Done h"
      using at by (simp add: at_handle_def)
    from session_stride [OF rdy s K this]
    have "get_value R STRIDE q 1637 k z = k (MInt32 (mStride b)) (with_md R h z)" for k
      using at_value [OF at, of STRIDE] d by (simp add: standard_value_def describes_def)
    then show "ASSERT 1635 (q \<noteq> 0) (get_value R STRIDE q 1637 (\<lambda>value. EXPECT 1638 (value = MInt32 (mStride b)) Done)) z =
        Done ((with_md R h z)\<lparr>failures := failures z @ [], fatal := False\<rparr>)"
      using st(3,5) by simp
  qed
qed

end
