(* ===== verification/Vts_Sample.thy ===== *)
theory Vts_Sample
  imports Vts_Conformance
begin

text \<open>
  A platform for the conformance tests, made of the sample environment in both processes: it keeps
  every promise the outcomes rest on, and a test's session exists on it.
\<close>

section \<open>The platform\<close>

definition sample_vts :: vts_consts where
  "sample_vts = \<lparr>PixelFormat_RGBA_8888 = 1, PixelFormat_YV12 = 0x32315659,
     CPU_READ_OFTEN = 3, CPU_WRITE_OFTEN = 0x30, CPU_READ_NEVER = 0, CPU_WRITE_NEVER = 0,
     FRONT_BUFFER = 0x100000000, GPU_RENDER_TARGET = 0x200, GPU_TEXTURE = 0x100, COMPOSER_OVERLAY = 0x800,
     DRM_FORMAT_ABGR8888 = GBM_FORMAT_ABGR8888, DRM_FORMAT_YVU420 = GBM_FORMAT_YVU420,
     Dataspace_DISPLAY_P3 = 143261696, BlendMode_INVALID = 0, BlendMode_COVERAGE = 3,
     isStandardPlaneLayoutComponentType = (\<lambda>_. True),
     AllocationError_code = (\<lambda>e. case e of BAD_DESCRIPTOR \<Rightarrow> 0 | NO_RESOURCES \<Rightarrow> 1 | UNSUPPORTED \<Rightarrow> 2)\<rparr>"

definition sample_send :: "NativeHandle \<Rightarrow> unit proc \<Rightarrow> NativeHandle \<times> unit proc" where
  "sample_send nh s =
    (let nh = nh\<lparr>nh_fds := map (\<lambda>_. 20) (nh_fds nh)\<rparr> in (nh, s\<lparr>open_fds := open_fds s \<union> live_fds (nh_fds nh)\<rparr>))"

definition sample_rig :: "unit rig" where
  "sample_rig = \<lparr>r_svc = sample_env, r_cli = sample_env, r_lim = 1000, r_consts = sample_consts,
     r_vts = sample_vts, r_decode = \<lparr>lim_planes = 8, lim_components = 8, lim_rects = 8\<rparr>, r_send = sample_send\<rparr>"

definition sample_fixture :: "unit fixture" where
  "sample_fixture = \<lparr>svc = sample_allocator,
     cli = \<lparr>gm = sample_ready, mInitialized = True, metadata_map = Map.empty\<rparr>, failures = [], fatal = False\<rparr>"

lemma sample_rig_sel [simp]:
  "r_svc sample_rig = sample_env" "r_cli sample_rig = sample_env" "r_lim sample_rig = 1000"
  "r_consts sample_rig = sample_consts" "r_vts sample_rig = sample_vts" "r_send sample_rig = sample_send"
  "lim_rects (r_decode sample_rig) = 8"
  by (simp_all add: sample_rig_def)

lemma sample_vts_sel [simp]:
  "PixelFormat_RGBA_8888 sample_vts = 1" "PixelFormat_YV12 sample_vts = 0x32315659"
  "CPU_OFTEN sample_rig = 0x33" "CPU_READ_NEVER sample_vts = 0" "CPU_WRITE_NEVER sample_vts = 0"
  by (simp_all add: sample_vts_def CPU_OFTEN_def)

lemma sample_rig_ok [simp]: "rig_ok sample_rig"
  by (auto simp: rig_ok_def send_contract_def sample_send_def same_handle_def Let_def)

lemma sample_fixture_ready [simp]: "ready sample_rig sample_fixture"
  using sample_allocator_ok gm_reachable_inv [OF sample_ready_reachable]
  by (simp add: ready_def svc_ok_def holding_def sample_fixture_def)

definition sample_handle :: "BufferDescriptorInfo \<Rightarrow> c_int \<Rightarrow> u32 \<Rightarrow> gralloc_handle_t" where
  "sample_handle info fd stride = (blank_handle 1 12)\<lparr>prime_fd := fd, h_magic := GRALLOC_HANDLE_MAGIC,
     h_version := GRALLOC_HANDLE_VERSION, h_width := bdi_width info, h_height := bdi_height info,
     h_format := bdi_format info, h_usage := ucast (bdi_usage info), h_stride := stride\<rparr>"

lemma max_size: "(a :: u32) \<le> gralloc_get_max_texture_2d_size"
  using unsigned_less [of a, where 'a = nat] by (simp add: gralloc_get_max_texture_2d_size_def word_le_nat_alt)

definition sample_dims :: "BufferDescriptorInfo \<Rightarrow> u32 \<times> u32" where
  "sample_dims info = alloc_dims android_hal (sample_handle info (- 1) 0)
     (gralloc_gm_get_gbm_flags_from_android_usage android_hal (ucast (bdi_usage info)) (bdi_format info))"

definition sample_object :: "BufferDescriptorInfo \<Rightarrow> gbm_bo" where
  "sample_object info = sample_bo (fst (sample_dims info)) (snd (sample_dims info))
     (gralloc_gm_android_format_to_gbm_format android_hal (bdi_format info))"

abbreviation "sample_stride info \<equiv> bo_stride (sample_object info)"

lemma env_unit [simp]: "(s :: unit proc)\<lparr>env := e\<rparr> = s"
  by (cases s) simp

definition sample_allocated :: "BufferDescriptorInfo \<Rightarrow> unit proc" where
  "sample_allocated info = sample_ready\<lparr>open_fds := {10, 11},
      handles := [0x1000 \<mapsto> sample_handle info 11 (sample_stride info)], gbm_bo_handle_map := [0x1000 \<mapsto> 1],
      bos := [1 \<mapsto> sample_object info]\<rparr>"

lemma sample_gralloc:
  assumes "d_width desc = bdi_width info" "d_height desc = bdi_height info" "d_android_format desc = bdi_format info"
    "d_android_usage desc = ucast (bdi_usage info)"
  shows "gralloc_allocate sample_env desc sample_ready =
    Done ((0, Some (sample_stride info, 0x1000)), sample_allocated info)"
  using assms by (auto simp: gralloc_allocate_def Let_def dev_ready_def is_pos_def gralloc_is_desc_support_def max_size
      gralloc_handle_create_def store_handle_def load_handle_def load_native_def gralloc_is_format_supported_def
      GRALLOC_HANDLE_NUM_INTS_eq GRALLOC_HANDLE_NUM_FDS_def sample_lists blank_handle_def sample_handle_def emplace_def
      gralloc_allocate_finish_def add_fd_def sample_bo_def store_bo_def fresh_fd_def is_neg_def sample_object_def sample_dims_def
      sample_ready_def init_proc_def sample_allocated_def split: prod.splits)

definition sample_words :: "BufferDescriptorInfo \<Rightarrow> u32 \<Rightarrow> u32 list" where
  "sample_words info r = [GRALLOC_HANDLE_MAGIC, GRALLOC_HANDLE_VERSION, bdi_width info, bdi_height info,
     bdi_format info, ucast (bdi_usage info), r, 0, 0, 0, 0, 0]"

definition sample_export :: "BufferDescriptorInfo \<Rightarrow> NativeHandle" where
  "sample_export info = \<lparr>nh_fds = [12], nh_ints = sample_words info (sample_stride info)\<rparr>"

lemma sample_handle_sel [simp]:
  "numFds (sample_handle info fd r) = 1" "numInts (sample_handle info fd r) = 12"
  "handle_data (sample_handle info fd r) = fd # sample_words info r" "length (sample_words info r) = 12"
  by (simp_all add: sample_handle_def blank_handle_def handle_data_def sample_words_def lo32_def hi32_def)

lemma sample_export_run:
  "dupToAidl sample_env 0x1000 (sample_allocated info) = Done (sample_export info, add_fd 12 (sample_allocated info))"
  by (simp add: dupToAidl_def toAidl_def load_native_def sample_allocated_def fresh_fd_def sample_lists sample_export_def)

lemma sample_release:
  "release_buffer sample_env 0x1000 (add_fd 12 (sample_allocated info)) = Done (sample_ready\<lparr>open_fds := {10, 12}\<rparr>)"
   by (auto simp: load_native_def sample_allocated_def release_buffer_def
    gralloc_gm_buffer_free_def gbm_bo_destroy_def native_handle_close_def native_handle_delete_def load_handle_def
    gralloc_get_gbm_bo_from_handle_def erase_def handle_fds_def add_fd_def is_neg_def GRALLOC_HANDLE_NUM_FDS_def
    GRALLOC_HANDLE_NUM_INTS_eq sample_ready_def init_proc_def store_bo_def Let_def)

lemma sample_service:
  assumes "bdi_width info \<noteq> 0" "bdi_height info \<noteq> 0" "bdi_layerCount info = 1"
  shows "allocator_allocate2 sample_env 1000 info 1 new_result sample_allocator =
   Done ((StatusOk, \<lparr>ar_stride = gralloc_gm_android_caculate_pixel_stride android_hal (bdi_format info) (sample_stride info),
     ar_buffers = [sample_export info]\<rparr>), sample_allocator\<lparr>al_proc := sample_ready\<lparr>open_fds := {10, 12}\<rparr>\<rparr>)"
proof -
  have n: "unat (1 :: c_int) = Suc 0"
    by simp
  show ?thesis
  using assms
  by (simp add: allocator_allocate2_def convertToGBMDesc_def isOk_def doAllocate_def is_neg_def Let_def n
   gbmAllocateBuffer_def zero_desc_def sample_allocator_def isInitialized_def is_pos_def sample_gralloc ToBinderStatus_def
   new_result_def resize_buffers_def sample_export_run sample_release close_scoped_def
   gralloc_is_desc_support_def max_size gralloc_is_format_supported_def)
qed

text \<open>What the client receives, and what an import makes of it.\<close>

definition sample_received :: "BufferDescriptorInfo \<Rightarrow> unit proc" where
  "sample_received info = sample_ready\<lparr>open_fds := {10, 11},
     handles := [0x1000 \<mapsto> sample_handle info 11 (sample_stride info)]\<rparr>"

definition sample_buffer :: "BufferDescriptorInfo \<Rightarrow> buffer_allocation" where
  "sample_buffer info = \<lparr>mRawHandle = 0x1000,
     mStride = gralloc_gm_android_caculate_pixel_stride android_hal (bdi_format info) (sample_stride info), mInfo = info\<rparr>"

lemma sample_store [simp]: "store_words (fd # sample_words info r) (blank_handle (Suc 0) 12) = sample_handle info fd r"
  by (simp add: store_words_def sample_words_def sample_handle_def blank_handle_def handle_data_def join32_def lo32_def hi32_def)

lemma sample_dup_received:
  "dupFromAidl sample_env (sample_export info\<lparr>nh_fds := [20]\<rparr>) (sample_ready\<lparr>open_fds := {10, 20}\<rparr>) =
     (0x1000, (sample_received info)\<lparr>open_fds := {10, 11, 20}\<rparr>)"
  by (auto simp: dupFromAidl_def fromAidl_def sample_lists sample_export_def fresh_fd_def add_fd_def is_neg_def
      store_handle_def sample_received_def sample_ready_def init_proc_def)

lemma sample_fx_allocate:
  assumes "bdi_width info \<noteq> 0" "bdi_height info \<noteq> 0" "bdi_layerCount info = 1"
  shows "fx_allocate sample_rig info sample_fixture =
    Done (Some (sample_buffer info), sample_fixture\<lparr>cli := (cli sample_fixture)\<lparr>gm := sample_received info\<rparr>\<rparr>)"
proof -
  have "sample_allocator\<lparr>al_proc := close_scoped [12] (sample_ready\<lparr>open_fds := {10, 12}\<rparr>)\<rparr> = sample_allocator"
    by (auto simp: close_scoped_def sample_allocator_def sample_ready_def init_proc_def is_neg_def)
  moreover have "sample_send (sample_export info) sample_ready = (sample_export info\<lparr>nh_fds := [20]\<rparr>, sample_ready\<lparr>open_fds := {10, 20}\<rparr>)"
    by (auto simp: sample_send_def sample_export_def Let_def is_neg_def)
  moreover have "close_scoped [20] ((sample_received info)\<lparr>open_fds := {10, 11, 20}\<rparr>) = sample_received info"
    by (auto simp: close_scoped_def sample_received_def is_neg_def sample_ready_def init_proc_def)
  moreover have "nh_fds (sample_export info) = [12]"
    by (simp add: sample_export_def)
  ultimately show ?thesis
    using sample_service [OF assms] sample_dup_received [of info]
    by (simp add: fx_allocate_def sample_fixture_def sample_buffer_def Let_def)
qed

definition sample_import_object :: "BufferDescriptorInfo \<Rightarrow> gbm_bo" where
  "sample_import_object info =
     (let (w, h) = import_dims android_hal (sample_handle info 0 (sample_stride info))
      in sample_bo w h (gralloc_gm_android_format_to_gbm_format android_hal (bdi_format info)))"

lemma sample_import_at:
  assumes "gralloc_gm_android_format_to_gbm_format android_hal (bdi_format info) \<noteq> 0"
    and raw: "handles s 0x1000 = Some (sample_handle info 11 (sample_stride info))"
    and dev: "gbm_dev s = Some 1" "gbm_dev_fd s = 10" "devs s = {1}"
    and new: "pick sample_ptrs (dom (handles s)) = Some q" "fresh_fd (open_fds s) = fd" "\<not> is_neg fd"
      "pick sample_bos (dom (bos s)) = Some b" "gbm_bo_handle_map s q = None" and m: "mInitialized m" "gm m = s"
  shows "importBuffer sample_env 0x1000 m = Done ((AIMAPPER_ERROR_NONE, Some q), m\<lparr>gm :=
    s\<lparr>handles := (handles s)(q \<mapsto> sample_handle info fd (sample_stride info)), open_fds := open_fds s \<union> {fd},
      gbm_bo_handle_map := (gbm_bo_handle_map s)(q \<mapsto> b), bos := (bos s)(b \<mapsto> sample_import_object info)\<rparr>\<rparr>)"
proof -
  let ?h = "sample_handle info fd (sample_stride info)"
  let ?s = "s\<lparr>handles := (handles s)(q \<mapsto> ?h), open_fds := open_fds s \<union> {fd}\<rparr>"
  have h: "sample_handle info 11 r\<lparr>prime_fd := fd\<rparr> = sample_handle info fd r"
    "h_format (sample_handle info fd r) = bdi_format info" "prime_fd (sample_handle info fd r) = fd" for r
    by (simp_all add: sample_handle_def)
  have q: "q \<noteq> 0"
    using sample_ptr_nonzero [OF new(1)] by simp
  have l: "load_native 0x1000 s = Done (sample_handle info 11 (sample_stride info))" "load_handle q ?s = Done ?h"
    using raw q by (simp_all add: load_native_Done load_handle_Done)
  have "{x. x = fd \<and> \<not> is_neg x} = {fd}"
    using new(3) by auto
  then have cl: "native_handle_clone sample_env 0x1000 s = Done (q, ?s)"
    using l(1) new by (simp add: native_handle_clone_def h handle_fds_def)
  have dims: "import_dims android_hal ?h = import_dims android_hal (sample_handle info 0 (sample_stride info))"
    by (simp add: import_dims_def sample_handle_def)
  have "gralloc_gm_buffer_import sample_env q ?s = Done (0, ?s\<lparr>
      gbm_bo_handle_map := (gbm_bo_handle_map s)(q \<mapsto> b), bos := (bos s)(b \<mapsto> sample_import_object info)\<rparr>)"
    using l(2) assms(1) dev new(3-5) q
    by (simp add: gralloc_gm_buffer_import_def Let_def dev_ready_def is_pos_def is_neg_def gralloc_gbm_device_create_def
        h store_bo_def emplace_def import_data_def sample_import_object_def dims split: prod.splits del: load_handle_Done)
  then show ?thesis
    using l(1) cl q m by (simp add: importBuffer_def)
qed

lemma sample_lock_at:
  assumes "gbm_bo_handle_map s q = Some b" "bos s b = Some bo" "load_handle q s = Done h"
    and "user_data bo = None" "h_usage h = 0x33" "bo_stride bo = 4 * bo_width bo"
  shows "\<exists>out t. gralloc_gbm_bo_lock sample_env q 0x33 s = Done ((0, out), t)"
  unfolding lock_eq [OF assms(1,3,2)] using assms(4-6)
  by (simp add: lock_refused_def cpu_mask_def inc_int_def set_bd_def)

definition sample_imported :: "BufferDescriptorInfo \<Rightarrow> unit fixture" where
  "sample_imported info = sample_fixture\<lparr>cli := (cli sample_fixture)\<lparr>gm := (sample_received info)\<lparr>
     handles := (handles (sample_received info))(0x2000 \<mapsto> sample_handle info 12 (sample_stride info)),
     open_fds := {10, 11, 12}, gbm_bo_handle_map := [0x2000 \<mapsto> 1], bos := [1 \<mapsto> sample_import_object info]\<rparr>\<rparr>\<rparr>"

definition sample_ok :: "BufferDescriptorInfo \<Rightarrow> bool" where
  "sample_ok info \<longleftrightarrow> bdi_width info \<noteq> 0 \<and> bdi_height info \<noteq> 0 \<and> bdi_layerCount info = 1 \<and>
     gralloc_gm_android_format_to_gbm_format android_hal (bdi_format info) \<noteq> 0"

lemma sample_session:
  assumes "sample_ok info"
  shows "session sample_rig info sample_fixture (sample_buffer info) 0x2000 (sample_imported info)"
proof -
  let ?m = "(cli sample_fixture)\<lparr>gm := sample_received info\<rparr>"
  have "importBuffer sample_env 0x1000 ?m = Done ((AIMAPPER_ERROR_NONE, Some 0x2000), ?m\<lparr>gm :=
    s\<lparr>handles := (handles s)(0x2000 \<mapsto> sample_handle info 12 (sample_stride info)), open_fds := open_fds s \<union> {12},
      gbm_bo_handle_map := (gbm_bo_handle_map s)(0x2000 \<mapsto> 1), bos := (bos s)(1 \<mapsto> sample_import_object info)\<rparr>\<rparr>)"
    if "s = sample_received info" for s
    unfolding that
    by (rule sample_import_at)
      (use assms in \<open>simp_all add: sample_ok_def sample_received_def sample_lists fresh_fd_def sample_fixture_def is_neg_def\<close>)
  from this [OF refl]
  have "importBuffer sample_env 0x1000 ?m = Done ((AIMAPPER_ERROR_NONE, Some 0x2000), cli (sample_imported info))"
    by (simp add: sample_imported_def sample_received_def insert_commute)
  then show ?thesis
    using sample_fx_allocate [of info] assms
    by (auto simp: session_def obtains_buffer_def obtains_handle_def sample_buffer_def sample_ok_def sample_imported_def)
qed

lemma sample_second_import:
  assumes "sample_ok info"
  obtains z where "obtains_handle sample_rig (sample_buffer info) (sample_imported info) 0x3000 z"
    and "gbm_bo_handle_map (gm (cli z)) 0x3000 = Some 2" "bos (gm (cli z)) 2 = Some (sample_import_object info)"
      "load_handle 0x3000 (gm (cli z)) = Done (sample_handle info 13 (sample_stride info))" 
proof -
  have "importBuffer sample_env 0x1000 (cli (sample_imported info)) = Done ((AIMAPPER_ERROR_NONE, Some 0x3000), (cli (sample_imported info))\<lparr>gm :=
    s\<lparr>handles := (handles s)(0x3000 \<mapsto> sample_handle info 13 (sample_stride info)), open_fds := open_fds s \<union> {13},
      gbm_bo_handle_map := (gbm_bo_handle_map s)(0x3000 \<mapsto> 2), bos := (bos s)(2 \<mapsto> sample_import_object info)\<rparr>\<rparr>)"
    if "s = gm (cli (sample_imported info))" for s
    unfolding that
    by (rule sample_import_at)
      (use assms in \<open>simp_all add: sample_ok_def sample_received_def sample_lists fresh_fd_def sample_fixture_def is_neg_def sample_imported_def\<close>)
  from this [OF refl] show thesis
    by (intro that) (auto simp: obtains_handle_def sample_buffer_def load_handle_Done)
qed

lemma sample_object_rows [simp]:
  "user_data (sample_import_object info) = None" "bo_stride (sample_import_object info) = 4 * bo_width (sample_import_object info)"
  by (simp_all add: sample_import_object_def sample_bo_def split: prod.splits)

lemma sample_lock:
  assumes "mInitialized m" and "gralloc_gbm_bo_lock sample_env q 0x33 (gm m) = Done ((0, out), t)" and "q \<noteq> 0"
  shows "lock sample_env q 0x33 (- 1) m = Done ((AIMAPPER_ERROR_NONE, out), m\<lparr>gm := t\<rparr>)"
  using assms by (simp add: lock_def close_fence_def)

section \<open>Sessions and locks on it\<close>

lemma sample_infos [simp]:
  "sample_ok (vts_info nm 64 64 1 u)" "sample_ok (vts_info nm 64 128 1 u)" "sample_ok (vts_info nm 64 64 0x32315659 u)"
  by (simp_all add: sample_ok_def vts_info_def to_gbm_format_zero hal_formats_def)

lemma sample_generic: "generic_info sample_rig = vts_info ''VTS_TEMP'' 64 64 1 0x33"
  by (simp add: generic_info_def)

lemma sample_sessions:
  "session sample_rig (generic_info sample_rig) sample_fixture (sample_buffer (generic_info sample_rig)) 0x2000
     (sample_imported (generic_info sample_rig))"
  "session sample_rig (vts_info nm 64 128 (PixelFormat_RGBA_8888 (r_vts sample_rig)) u) sample_fixture
     (sample_buffer (vts_info nm 64 128 1 u)) 0x2000 (sample_imported (vts_info nm 64 128 1 u))"
  "session sample_rig (vts_info nm 64 64 (PixelFormat_RGBA_8888 (r_vts sample_rig)) u) sample_fixture
     (sample_buffer (vts_info nm 64 64 1 u)) 0x2000 (sample_imported (vts_info nm 64 64 1 u))"
  "session sample_rig (vts_info nm 64 64 (PixelFormat_YV12 (r_vts sample_rig)) u) sample_fixture
     (sample_buffer (vts_info nm 64 64 0x32315659 u)) 0x2000 (sample_imported (vts_info nm 64 64 0x32315659 u))"
  using sample_session by (simp_all add: sample_generic)

lemma sample_formats [simp]: "formats_agree sample_rig"
  by (simp add: formats_agree_def sample_vts_def)

lemma sample_rgba_stride: "mStride (sample_buffer (generic_info sample_rig)) = 64"
proof -
  let ?h = "sample_handle (generic_info sample_rig) (- 1) 0"
  have h: "h_usage ?h = 0x33" "h_format ?h = 1" "h_width ?h = 64"
    by (simp_all add: sample_handle_def sample_generic)
  have "fst (sample_dims (generic_info sample_rig)) = 64"
    using alloc_dims_eq [OF android_hal_ok, of ?h] h by (simp add: sample_dims_def sample_generic)
  moreover have "gralloc_gm_android_format_to_gbm_format android_hal 1 = GBM_FORMAT_ABGR8888"
    using formats_agreeD(1) [OF sample_formats] by simp
  then have "gralloc_gm_get_bytes_per_pixel_from_android_format android_hal 1 = 4"
    using bytes_per_pixel_gbm_table
    by (simp add: gralloc_gm_get_bytes_per_pixel_from_android_format_def gbm_codes_def)
  ultimately show ?thesis
    by (simp add: sample_buffer_def sample_object_def sample_bo_def gralloc_gm_android_caculate_pixel_stride_def
        sample_generic DIV_ROUND_UP_def)
qed

lemma sample_fits [simp]: "value_fits sample_rig T (MExtendable sample_ext)"
  by (simp add: value_fits_def encoded_size_eq length_header_chunks int_chunks_def sample_ext_def extendable_chunks_def
      string_chunks_def string_ok_def)

lemma sample_consts_sel [simp]: "Compression_None sample_consts = sample_ext" "Interlaced_None sample_consts = sample_ext"
  "ChromaSiting_None sample_consts = sample_ext" "sizeof_Smpte2086 sample_consts = 40" "sizeof_Cta861_3 sample_consts = 8"
  by (simp_all add: sample_consts_def)

lemma sample_in_env [simp]: "in_env e sample_fixture = sample_fixture"
  by (simp add: in_env_def sample_fixture_def)

lemma sample_import_lock:
  assumes "bdi_usage info = 0x33" and "mInitialized m" "gbm_bo_handle_map (gm m) q = Some b"
    "bos (gm m) b = Some (sample_import_object info)" "load_handle q (gm m) = Done (sample_handle info fd r)"
  shows "\<exists>out n. lock sample_env q 0x33 (- 1) m = Done ((AIMAPPER_ERROR_NONE, out), n)"
proof -
  obtain out t where "gralloc_gbm_bo_lock sample_env q 0x33 (gm m) = Done ((0, out), t)"
    using sample_lock_at [OF assms(3-5)] assms(1) by (auto simp: sample_handle_def)
  then show ?thesis
    using sample_lock [OF assms(2)] assms(5) by (auto simp: load_handle_Done)
qed

lemma sample_first_lock:
  assumes "bdi_usage info = 0x33"
  shows "\<exists>out n. lock sample_env 0x2000 0x33 (- 1) (cli (sample_imported info)) = Done ((AIMAPPER_ERROR_NONE, out), n)"
  by (rule sample_import_lock [OF assms, where b = 1 and fd = 12 and r = "sample_stride info"])
    (simp_all add: sample_imported_def sample_fixture_def load_handle_Done)

end
