(* ===== verification/Vts_Results.thy ===== *)
theory Vts_Results
  imports Vts_Sample
begin

text \<open>
  The outcome of the platform's conformance tests, test by test: which pass against the models of
  the service and of the mapper, and the lines at which the others record a failure or crash.
\<close>

section \<open>Properties\<close>

text \<open>C9: The mapper answers the queries the platform's tests make.  On any platform that keeps the
  promises asked of it, whenever the service allocates the test's buffer and the mapper imports it, the
  tests of width and height, layer count, requested format, modifier, usage, stride, compression,
  interlacing, chroma siting, crop, the two absent HDR blobs, the setters of optional types, and the
  walk over all supported types end without a failed expectation and with every handle released.
  For the stride the value follows the whole way: the mapper computes from the imported handle the
  pixel stride the service reported.\<close>

theorem vts_getters_conform:
  assumes "ready R x" and "session R (generic_info R) x b q z" and "hal_of (r_svc R) = hal_of (r_cli R)"
    and "session R (vts_info ''Hello, World!'' 64 128 (PixelFormat_RGBA_8888 (r_vts R)) (CPU_OFTEN R)) x b' q' z'"
    and "(ucast (ucast (CPU_OFTEN R) :: c_int) :: u64) = CPU_OFTEN R" and "1 \<le> lim_rects (r_decode R)"
    and "value_fits R COMPRESSION (MExtendable (Compression_None (r_consts R)))"
      "value_fits R INTERLACED (MExtendable (Interlaced_None (r_consts R)))"
      "value_fits R CHROMA_SITING (MExtendable (ChromaSiting_None (r_consts R)))"
  shows "list_all (\<lambda>t. test_ends R (t R) x [] False)
    [GetWidthHeight, GetLayerCount, GetPixelFormatRequested, GetPixelFormatModifier, GetUsage, GetStride,
     GetCompression, GetInterlaced, GetChromaSiting, GetCrop, GetSmpte2094_10, GetSmpte2094_40,
     CheckRequiredSettersIfHasGetters, ListSupportedWorks]"
  using assms simple_value_tests [OF assms(1,2)] more_value_tests [OF assms(1)] GetStride_passes [OF assms(1-3)]
    supported_list_tests(2) [OF assms(1,2)] ListSupportedWorks_passes [OF assms(1,2)] by simp

theorem vts_getters_conform_witness:
  "test_ends sample_rig (GetWidthHeight sample_rig) sample_fixture [] False \<and>
   test_ends sample_rig (GetStride sample_rig) sample_fixture [] False \<and>
   test_ends sample_rig (ListSupportedWorks sample_rig) sample_fixture [] False"
  using vts_getters_conform [of sample_rig sample_fixture, OF _ sample_sessions(1) _ sample_sessions(2)] by simp



text \<open>C37: The tests that set metadata and read it back do not pass.  The mapper copies the encoded
  value as if it were the object itself, so its size never fits: the data space and blend mode tests fail at
  the set call and at the read that follows, the latter already at the first read; the tests of the HDR
  values fail at both set calls and all three reads, as an unset value reads as zeros rather than as
  absent.  No test crashes and every handle is released.\<close>

theorem vts_setters_not_stored:
  assumes "ready R x" and "session R (generic_info R) x b q z"
    and "Dataspace_DISPLAY_P3 (r_vts R) \<noteq> Dataspace_UNKNOWN (r_consts R)"
    and "distinct [BlendMode_NONE (r_consts R), BlendMode_INVALID (r_vts R), BlendMode_COVERAGE (r_vts R)]"
    and "sizeof_Smpte2086 (r_consts R) \<notin> {0, 109}" "sizeof_Cta861_3 (r_consts R) \<notin> {0, 77}"
  shows "test_ends R (GetSetDataspace R) x [1534, 1538] False \<and>
    test_ends R (GetSetBlendMode R) x [1548, 1549, 1553] False \<and>
    test_ends R (GetSetSmpte2086 R) x [1563, 1571, 1576, 1578, 1582] False \<and>
    test_ends R (GetCta861_3 R) x [1592, 1595, 1600, 1602, 1606] False"
  using setter_tests [OF assms(1,2)] assms(3-6) by simp

theorem vts_setters_not_stored_witness:
  "test_ends sample_rig (GetSetDataspace sample_rig) sample_fixture [1534, 1538] False \<and>
   test_ends sample_rig (GetCta861_3 sample_rig) sample_fixture [1592, 1595, 1600, 1602, 1606] False"
  using vts_setters_not_stored [OF sample_fixture_ready sample_sessions(1)] by (simp add: sample_vts_def sample_consts_def)

text \<open>C36: Three of the platform's tests of wrong use crash the mapper.  Unlocking an imported buffer that
  was never locked, and unlocking one whose lock was refused for its usage, dereference the null lock
  data; freeing a handle without words reads past its end.\<close>

theorem vts_unlock_crashes:
  assumes "ready R x" and "session R (generic_info R) x b q z"
    and "session R (vts_info ''VTS_TEMP'' 64 64 (PixelFormat_RGBA_8888 (r_vts R)) 0) x b' q' z'"
    and "CPU_READ_NEVER (r_vts R) = 0" "CPU_WRITE_NEVER (r_vts R) = 0"
    and "p_native_handle_create (r_cli R) (dom (handles (gm (cli x)))) 0 0 (env (gm (cli x))) = (Some (p, h), e)"
  shows "UnlockNotLocked R x = Fault NullDeref \<and> LockUnlockNoCPUUsage R x = Fault NullDeref \<and>
    FreeBufferNegative R x = Fault OutOfBounds"
  using unlock_crash_tests [OF assms(1)] FreeBufferNegative_crash [OF assms(1,6)] assms(2-5) by blast

theorem vts_unlock_crashes_witness:
  "UnlockNotLocked sample_rig sample_fixture = Fault NullDeref \<and>
   FreeBufferNegative sample_rig sample_fixture = Fault OutOfBounds"
  using vts_unlock_crashes [OF sample_fixture_ready sample_sessions(1) sample_sessions(3)]
  by (simp add: sample_fixture_def sample_lists)

text \<open>C38: Locks do not do what the platform's tests ask of them: a lock with an access region outside the
  buffer succeeds; of two nested locks of one handle the second is refused, and then all three unlocks
  succeed, the unmatched one too.  Nothing else in the two tests fails.\<close>

theorem vts_locks_differ:
  assumes "ready R x" and "session R (generic_info R) x b q z"
    and "lock (r_cli R) q (CPU_OFTEN R) (- 1) (cli z) = Done ((AIMAPPER_ERROR_NONE, out), m)"
    and "obtains_handle R b z q2 z2" "(ucast (CPU_OFTEN R) :: c_int) AND cpu_mask (hal_of (r_cli R)) \<noteq> 0"
    and "lock (r_cli R) q2 (CPU_OFTEN R) (- 1) (cli z2) = Done ((AIMAPPER_ERROR_NONE, out2), m2)"
  shows "test_ends R (LockBadAccessRegion R) x [1168] False \<and> test_ends R (LockUnlockNested R) x [1216, 1230] False"
  using LockBadAccessRegion_fails [OF assms(1-3)] LockUnlockNested_fails [OF assms(1,2,4-6)] by blast

theorem vts_locks_differ_witness:
  "test_ends sample_rig (LockBadAccessRegion sample_rig) sample_fixture [1168] False \<and>
   test_ends sample_rig (LockUnlockNested sample_rig) sample_fixture [1216, 1230] False"
proof -
  let ?i = "generic_info sample_rig"
  have i: "bdi_usage ?i = 0x33" "sample_ok ?i"
    by (simp_all add: sample_generic)
  obtain z2 where z2: "obtains_handle sample_rig (sample_buffer ?i) (sample_imported ?i) 0x3000 z2"
    "gbm_bo_handle_map (gm (cli z2)) 0x3000 = Some 2" "bos (gm (cli z2)) 2 = Some (sample_import_object ?i)"
    "load_handle 0x3000 (gm (cli z2)) = Done (sample_handle ?i 13 (sample_stride ?i))"
    using sample_second_import [OF i(2)] by blast
  have "mInitialized (cli z2)"
    using handle_held(1) [OF sample_rig_ok _ _ z2(1)] session_start(1) [OF sample_fixture_ready sample_sessions(1)]
    by (force simp: held_def sample_buffer_def dest: holdingD(2))
  then obtain out2 m2 where "lock sample_env 0x3000 0x33 (- 1) (cli z2) = Done ((AIMAPPER_ERROR_NONE, out2), m2)"
    using sample_import_lock [OF i(1) _ z2(2-4)] by blast
  moreover obtain out m where "lock sample_env 0x2000 0x33 (- 1) (cli (sample_imported ?i)) = Done ((AIMAPPER_ERROR_NONE, out), m)"
    using sample_first_lock [OF i(1)] by blast
  ultimately show ?thesis
    using vts_locks_differ [OF sample_fixture_ready sample_sessions(1) _ z2(1)] by (simp add: cpu_mask_def)
qed

text \<open>C39: Metadata the tests require and the mapper lacks: the buffer's name is not kept, the planar
  layout of a YV12 buffer is empty, so both tests stop at a fatal failure, and the list of supported
  types is short of required getters and setters.\<close>

theorem vts_missing_metadata:
  assumes "ready R x" and "session R (generic_info R) x b q z"
    and "session R (vts_info ''Hello, World!'' 64 64 (PixelFormat_RGBA_8888 (r_vts R)) (CPU_OFTEN R)) x b' q' z'"
    and "formats_agree R" and "session R (vts_info ''VTS_TEMP'' 64 64 (PixelFormat_YV12 (r_vts R)) (CPU_OFTEN R)) x b2 q2 z2"
    and "lock (r_cli R) q2 (CPU_OFTEN R) (- 1) (cli z2) = Done ((AIMAPPER_ERROR_NONE, out), m)"
    and "smt_code (mc_smt (r_consts R)) INVALID = 0" "length (smt_values (mc_smt (r_consts R))) < 2 ^ 63"
  shows "test_ends R (GetName R) x [1320] True \<and> test_ends R (YV12SubsampleMetadata R) x [874] True \<and>
    test_ends R (SupportsRequiredGettersSetters R) x [1703, 1704] False"
  using more_failing_tests [OF assms(1,3)] YV12SubsampleMetadata_fails [OF assms(1,4,5,6)]
    supported_list_tests(1) [OF assms(1,2,7,8)] by blast

theorem vts_missing_metadata_witness:
  "test_ends sample_rig (GetName sample_rig) sample_fixture [1320] True \<and>
   test_ends sample_rig (YV12SubsampleMetadata sample_rig) sample_fixture [874] True"
proof -
  obtain out m where "lock sample_env 0x2000 0x33 (- 1) (cli (sample_imported (vts_info ''VTS_TEMP'' 64 64 0x32315659 0x33)))
      = Done ((AIMAPPER_ERROR_NONE, out), m)"
    using sample_first_lock [of "vts_info ''VTS_TEMP'' 64 64 0x32315659 0x33"] by auto
  then show ?thesis
    using vts_missing_metadata [OF sample_fixture_ready sample_sessions(1) sample_sessions(3) sample_formats sample_sessions(4)] 
    by (simp add: android_smt_def)
qed

text \<open>Error codes the platform's tests miss.  Flushing and rereading a null handle report success; a
  metadata query on a null handle, of any type but \<open>INVALID\<close>, and the query of an unknown vendor type
  answer with the error code itself where the interface wants its negation, so it reads as a size.  The
  other two unsupported queries of the last test get the code they expect.\<close>

theorem vts_error_codes_differ:
  assumes "ready R x" and "session R (generic_info R) x b q z" and "length (smt_values (mc_smt (r_consts R))) < 2 ^ 63"
  shows "test_ends R FlushLockedBufferBadBuffer x [1286] False \<and> test_ends R RereadLockedBufferBadBuffer x [1291] False \<and>
    test_ends R (GetMetadataBadValue R) x
      (replicate (length (filter (\<lambda>T. T \<noteq> INVALID) (smt_values (mc_smt (r_consts R))))) 1798) False \<and>
    test_ends R (GetUnsupportedMetadata R) x [1809] False"
  using bad_buffer_tests [OF readyD(3,4) [OF assms(1)]] metadata_error_tests [OF assms(1)] assms by blast

theorem vts_error_codes_differ_witness:
  "test_ends sample_rig FlushLockedBufferBadBuffer sample_fixture [1286] False \<and>
   test_ends sample_rig (GetUnsupportedMetadata sample_rig) sample_fixture [1809] False"
  using vts_error_codes_differ [OF sample_fixture_ready sample_sessions(1)] by (simp add: android_smt_def)

end
