(* ===== verification/Vts_Image.thy ===== *)
theory Vts_Image
  imports Vts_Tests
begin

text \<open>
  The platform's conformance tests that write an image through a locked buffer and read it back, and
  the tests of single YUV and RAW formats, from
  src/include/stable-c-v33/vts/VtsHalGraphicsMapperStableC_TargetTest.cpp.
\<close>

section \<open>Memory a test reaches through pointers\<close>

text \<open>
  The memory of the client process is a parameter: the byte of storage an address shows, \<open>None\<close> where
  nothing is mapped, what a byte of storage holds, storing into one, and what a lock that maps a
  handle at an address and an unlock make of it.  Two addresses may show one byte.
\<close>

record 'm mapped_memory =
  mm_cell :: "'m \<Rightarrow> u64 \<Rightarrow> nat option"
  mm_load :: "'m \<Rightarrow> nat \<Rightarrow> 8 word"
  mm_store :: "nat \<Rightarrow> 8 word \<Rightarrow> 'm \<Rightarrow> 'm"
  mm_lock :: "ptr \<Rightarrow> u64 \<Rightarrow> 'm \<Rightarrow> 'm"
  mm_unlock :: "ptr \<Rightarrow> 'm \<Rightarrow> 'm"

record ('e, 'm) image_fixture = "'e fixture" +
  memory :: 'm

type_synonym ('e, 'm) image_test = "('e, 'm) image_fixture \<Rightarrow> ('e, 'm) image_fixture run"

definition store_byte :: "'m mapped_memory \<Rightarrow> u64 \<Rightarrow> 8 word \<Rightarrow> ('e, 'm) image_test \<Rightarrow> ('e, 'm) image_test" where
  "store_byte M a v k x =
    (case mm_cell M (memory x) a of
       None \<Rightarrow> Fault OutOfBounds
     | Some c \<Rightarrow> k (x\<lparr>memory := mm_store M c v (memory x)\<rparr>))"

definition load_byte ::
    "'m mapped_memory \<Rightarrow> u64 \<Rightarrow> (8 word \<Rightarrow> ('e, 'm) image_test) \<Rightarrow> ('e, 'm) image_test" where
  "load_byte M a k x =
    (case mm_cell M (memory x) a of None \<Rightarrow> Fault OutOfBounds | Some c \<Rightarrow> k (mm_load M (memory x) c) x)"

text \<open>The loops of the tests, over the values of their counter.\<close>

definition for_each :: "nat \<Rightarrow> (nat \<Rightarrow> 'k \<Rightarrow> 'k) \<Rightarrow> 'k \<Rightarrow> 'k" where
  "for_each n body k = foldr body [0..<n] k"

text \<open>
  Locks that keep the pointer, \<open>None\<close> while it is not initialised.  The mapper stores a pointer on
  success when the usage asks for the CPU.
\<close>

definition im_lock ::
    "'e rig \<Rightarrow> 'm mapped_memory \<Rightarrow> ptr \<Rightarrow> u64 \<Rightarrow> c_int \<times> c_int \<times> c_int \<times> c_int \<Rightarrow> c_int \<Rightarrow> u64 option
      \<Rightarrow> (int \<Rightarrow> u64 option \<Rightarrow> ('e, 'm) image_test) \<Rightarrow> ('e, 'm) image_test" where
  "im_lock R M h cpuUsage accessRegion acquireFence data k =
     on_mapper (lock (r_cli R) h cpuUsage acquireFence) (\<lambda>(r, out) x.
       case out of
         None \<Rightarrow> k r data x
       | Some a \<Rightarrow> k r (Some a) (if r = AIMAPPER_ERROR_NONE then x\<lparr>memory := mm_lock M h a (memory x)\<rparr> else x))"

definition im_unlock ::
    "'e rig \<Rightarrow> 'm mapped_memory \<Rightarrow> ptr \<Rightarrow> c_int \<Rightarrow> (int \<Rightarrow> c_int \<Rightarrow> ('e, 'm) image_test) \<Rightarrow> ('e, 'm) image_test" where
  "im_unlock R M h releaseFence k =
     on_mapper (unlock (r_cli R) h) (\<lambda>(r, out) x.
       k r (case out of None \<Rightarrow> releaseFence | Some f \<Rightarrow> f)
         (if r = AIMAPPER_ERROR_NONE then x\<lparr>memory := mm_unlock M h (memory x)\<rparr> else x))"

definition with_pointer :: "u64 option \<Rightarrow> (u64 \<Rightarrow> ('e, 'm) image_test) \<Rightarrow> ('e, 'm) image_test" where
  "with_pointer data k x = (case data of None \<Rightarrow> Fault UninitRead | Some a \<Rightarrow> k a x)"

section \<open>RGBA images\<close>

definition fillRGBA8888 ::
    "'m mapped_memory \<Rightarrow> u64 \<Rightarrow> u32 \<Rightarrow> u64 \<Rightarrow> u64 \<Rightarrow> ('e, 'm) image_test \<Rightarrow> ('e, 'm) image_test" where
  "fillRGBA8888 M data height row_stride row_bytes =
     for_each (unat height) (\<lambda>y.
     for_each (unat row_bytes) (\<lambda>i.
       store_byte M (data + of_nat y * row_stride + of_nat i) (of_nat y)))"

text \<open>
  \<open>verifyRGBA8888\<close>: a fatal failure inside the check of the layouts does not stop it, only its caller.
\<close>

definition verifyRGBA8888 ::
    "'e rig \<Rightarrow> 'm mapped_memory \<Rightarrow> ptr \<Rightarrow> u64 \<Rightarrow> u32 \<Rightarrow> u64 \<Rightarrow> u64 \<Rightarrow> ('e, 'm) image_test" where
  "verifyRGBA8888 R M bufferHandle data height row_stride row_bytes =
     get_value R PLANE_LAYOUTS bufferHandle 326 (\<lambda>value.
     let planeLayouts = (case value of MPlanes ps \<Rightarrow> ps | _ \<Rightarrow> [])
     in ASSERT 328 (0 < length planeLayouts)
       (\<lambda>x. andThen (verifyRGBA8888PlaneLayouts R planeLayouts x)
         (for_each (unat height) (\<lambda>y.
          for_each (unat row_bytes) (\<lambda>i k.
            load_byte M (data + of_nat y * row_stride + of_nat i) (\<lambda>v.
            EXPECT 334 (v = of_nat y) k)))
          Done)))"

definition LockUnlockBasic :: "'e rig \<Rightarrow> 'm mapped_memory \<Rightarrow> ('e, 'm) image_test" where
  "LockUnlockBasic R M =
    (let usage = CPU_OFTEN R
     in with_buffer R (vts_info ''VTS_TEMP'' 64 64 (PixelFormat_RGBA_8888 (r_vts R)) usage) (\<lambda>buffer.
          ASSERT 721 (buffer \<noteq> None)
         (let info = mInfo (the buffer); row_stride = ucast (mStride (the buffer) * 4);
              row_bytes = scast (bdi_width info * 4); region = (0, 0, bdi_width info, bdi_height info)
          in with_import R buffer (\<lambda>handle.
             im_lock R M handle usage region (- 1) (Some 0) (\<lambda>r data.
             ASSERT 729 (r = AIMAPPER_ERROR_NONE)
            (with_pointer data (\<lambda>a. fillRGBA8888 M a (bdi_height info) row_stride row_bytes
            (im_unlock R M handle (- 1) (\<lambda>r releaseFence.
             ASSERT 736 (r = AIMAPPER_ERROR_NONE)
            (im_lock R M handle usage region releaseFence data (\<lambda>r data.
             ASSERT 739 (r = AIMAPPER_ERROR_NONE)
            (with_pointer data (\<lambda>a.
             NO_FATAL 743 (verifyRGBA8888 R M handle a (bdi_height info) row_stride row_bytes)
            (im_unlock R M handle (- 1) (\<lambda>r releaseFence.
             ASSERT 746 (r = AIMAPPER_ERROR_NONE)
            (close_release releaseFence Done))))))))))))))))"

definition FlushRereadBasic :: "'e rig \<Rightarrow> 'm mapped_memory \<Rightarrow> ('e, 'm) image_test" where
  "FlushRereadBasic R M =
     generic_import R 1236 (\<lambda>buffer bufferHandle.
     let info = mInfo buffer; row_stride = ucast (mStride buffer * 4);
         row_bytes = scast (bdi_width info * 4); region = (0, 0, bdi_width info, bdi_height info)
     in with_import R (Some buffer) (\<lambda>writeHandle.
        with_import R (Some buffer) (\<lambda>readHandle.
        ASSERT 1245 (writeHandle \<noteq> 0 \<and> readHandle \<noteq> 0)
       (im_lock R M writeHandle (CPU_WRITE_OFTEN (r_vts R)) region (- 1) None (\<lambda>r writeData.
        EXPECT 1250 (r = AIMAPPER_ERROR_NONE)
       (im_lock R M readHandle (CPU_READ_OFTEN (r_vts R)) region (- 1) None (\<lambda>r readData.
        EXPECT 1255 (r = AIMAPPER_ERROR_NONE)
       (with_pointer writeData (\<lambda>w. fillRGBA8888 M w (bdi_height info) row_stride row_bytes
       (on_mapper (\<lambda>m. Done (flushLockedBuffer writeHandle m)) (\<lambda>r.
        EXPECT 1261 (r = AIMAPPER_ERROR_NONE)
       (on_mapper (\<lambda>m. Done (rereadLockedBuffer readHandle m)) (\<lambda>r.
        EXPECT 1262 (r = AIMAPPER_ERROR_NONE)
       (with_pointer readData (\<lambda>d.
        NO_FATAL 1264 (verifyRGBA8888 R M readHandle d (bdi_height info) row_stride row_bytes)
       (im_unlock R M readHandle (- 1) (\<lambda>r releaseFence.
        EXPECT 1269 (r = AIMAPPER_ERROR_NONE)
       (close_release releaseFence
       (im_unlock R M writeHandle (- 1) (\<lambda>r releaseFence.
        EXPECT 1275 (r = AIMAPPER_ERROR_NONE)
       (close_release releaseFence Done)))))))))))))))))))))"

section \<open>YCbCr images\<close>

text \<open>Further constants of the AIDL enumerations.\<close>

record image_consts =
  PixelFormat_YCRCB_420_SP :: c_int
  PixelFormat_YCBCR_420_888 :: c_int
  PixelFormat_RAW10 :: c_int
  PixelFormat_RAW12 :: c_int
  PixelFormat_YCBCR_P010 :: c_int
  ComponentType_Y :: u32
  ComponentType_CB :: u32
  ComponentType_CR :: u32
  ComponentType_RAW :: u32

definition bitsToBytes :: "u64 \<Rightarrow> u64" where
  "bitsToBytes bits = word_of_int (sint bits sdiv 8)"

definition bytesToBits :: "u64 \<Rightarrow> u64" where
  "bytesToBits bytes = bytes * 8"

text \<open>
  \<open>traverseYCbCrData\<close>: the counters are \<open>uint32_t\<close>, so the values are cut to 32 bits and then to 8;
  the remainders by the subsampling, which the callers have compared with 2, are taken in
  \<open>int64_t\<close>.  The call passes \<open>subSampleVal + 1\<close> as a byte.
\<close>

definition traverseYCbCrData ::
    "android_ycbcr \<Rightarrow> u32 \<Rightarrow> u32 \<Rightarrow> u64 \<Rightarrow> u64 \<Rightarrow> (u64 \<Rightarrow> 8 word \<Rightarrow> ('e, 'm) image_test \<Rightarrow> ('e, 'm) image_test)
      \<Rightarrow> ('e, 'm) image_test \<Rightarrow> ('e, 'm) image_test" where
  "traverseYCbCrData yCbCr width height hSubsampling vSubsampling traverseFunction =
     for_each (unat height) (\<lambda>y. for_each (unat width) (\<lambda>x k.
       traverseFunction (yc_y yCbCr + yc_ystride yCbCr * of_nat y + of_nat x) (ucast (height * of_nat y + of_nat x))
        (if int y smod sint vSubsampling = 0 \<and> int x smod sint hSubsampling = 0
         then let subSampleX = word_of_int (int x sdiv sint hSubsampling) :: u32;
                  subSampleY = word_of_int (int y sdiv sint vSubsampling) :: u32;
                  subSampleOffset = yc_cstride yCbCr * ucast subSampleY + yc_chroma_step yCbCr * ucast subSampleX;
                  subSampleVal = ucast (height * subSampleY + subSampleX)
              in traverseFunction (yc_cb yCbCr + subSampleOffset) subSampleVal
                (traverseFunction (yc_cr yCbCr + subSampleOffset) (subSampleVal + 1) k)
         else k)))"

definition fillYCbCrData ::
    "'m mapped_memory \<Rightarrow> android_ycbcr \<Rightarrow> u32 \<Rightarrow> u32 \<Rightarrow> u64 \<Rightarrow> u64 \<Rightarrow> ('e, 'm) image_test \<Rightarrow> ('e, 'm) image_test" where
  "fillYCbCrData M yCbCr width height hSubsampling vSubsampling =
     traverseYCbCrData yCbCr width height hSubsampling vSubsampling (store_byte M)"

definition verifyYCbCrData ::
    "'m mapped_memory \<Rightarrow> android_ycbcr \<Rightarrow> u32 \<Rightarrow> u32 \<Rightarrow> u64 \<Rightarrow> u64 \<Rightarrow> ('e, 'm) image_test \<Rightarrow> ('e, 'm) image_test" where
  "verifyYCbCrData M yCbCr width height hSubsampling vSubsampling =
     traverseYCbCrData yCbCr width height hSubsampling vSubsampling (\<lambda>address expectedData k.
       load_byte M address (\<lambda>v. EXPECT 380 (v = expectedData) k))"

text \<open>
  A fatal failure inside a helper goes on with \<open>fail\<close>; under \<open>ASSERT_NO_FATAL_FAILURE\<close> that records
  the line of the call and leaves the test.
\<close>

definition ASSERT_else :: "nat \<Rightarrow> bool \<Rightarrow> ('e, 'z) test \<Rightarrow> ('e, 'z) test \<Rightarrow> ('e, 'z) test" where
  "ASSERT_else line ok fail k x = (if ok then k x else fail (expect line False x))"

definition fatal_at :: "nat \<Rightarrow> ('e, 'z) test" where
  "fatal_at line x = Done (expect line False x\<lparr>fatal := True\<rparr>)"

definition empty_ycbcr :: android_ycbcr where
  "empty_ycbcr = \<lparr>yc_y = 0, yc_cb = 0, yc_cr = 0, yc_ystride = 0, yc_cstride = 0, yc_chroma_step = 0, yc_reserved = []\<rparr>"

definition component_address :: "u64 \<Rightarrow> PlaneLayout \<Rightarrow> PlaneLayoutComponent \<Rightarrow> u64" where
  "component_address data planeLayout component =
     data + offsetInBytes planeLayout + bitsToBytes (offsetInBits component)"

text \<open>One round of the loop of \<open>getAndroidYCbCr\<close>; the state is the structure and the subsampling.\<close>

definition ycbcr_component ::
    "'e rig \<Rightarrow> image_consts \<Rightarrow> u64 \<Rightarrow> ('e, 'z) test \<Rightarrow> PlaneLayout \<times> PlaneLayoutComponent
      \<Rightarrow> android_ycbcr \<times> u64 \<times> u64 \<Rightarrow> (android_ycbcr \<times> u64 \<times> u64 \<Rightarrow> ('e, 'z) test) \<Rightarrow> ('e, 'z) test" where
  "ycbcr_component R IC data fail = (\<lambda>(planeLayout, component) (out, hSub, vSub) k.
     if \<not> isStandardPlaneLayoutComponentType (r_vts R) (plc_type component) then k (out, hSub, vSub)
     else ASSERT_else 405 (sint (offsetInBits component) smod 8 = 0) fail
      (let tmpData = component_address data planeLayout component;
           type = ucast (ext_value (plc_type component)) :: u32
       in if type = ComponentType_Y IC
          then ASSERT_else 414 (yc_y out = 0) fail
              (ASSERT_else 415 (sizeInBits component = 8) fail
              (ASSERT_else 416 (sampleIncrementInBits planeLayout = 8) fail
              (k (out\<lparr>yc_y := tmpData, yc_ystride := strideInBytes planeLayout\<rparr>, hSub, vSub))))
          else if type = ComponentType_CB IC \<or> type = ComponentType_CR IC
          then ASSERT_else 423 (sint (sampleIncrementInBits planeLayout) smod 8 = 0) fail
              (let sampleIncrementInBytes = bitsToBytes (sampleIncrementInBits planeLayout);
                   first_chroma = (yc_cstride out = 0 \<and> yc_chroma_step out = 0);
                   first_sub = (hSub = 0 \<and> vSub = 0);
                   out' = (if first_chroma then out\<lparr>yc_cstride := strideInBytes planeLayout, yc_chroma_step := sampleIncrementInBytes\<rparr>
                           else out);
                   hSub' = (if first_sub then horizontalSubsampling planeLayout else hSub);
                   vSub' = (if first_sub then verticalSubsampling planeLayout else vSub)
               in ASSERT_else 426 (sampleIncrementInBytes = 1 \<or> sampleIncrementInBytes = 2) fail
                 (ASSERT_else 432 (yc_cstride out' = strideInBytes planeLayout) fail
                 (ASSERT_else 433 (yc_chroma_step out' = sampleIncrementInBytes) fail
                 (ASSERT_else 440 (hSub' = horizontalSubsampling planeLayout) fail
                 (ASSERT_else 441 (vSub' = verticalSubsampling planeLayout) fail
                 (if type = ComponentType_CB IC
                  then ASSERT_else 445 (yc_cb out' = 0) fail (k (out'\<lparr>yc_cb := tmpData\<rparr>, hSub', vSub'))
                  else ASSERT_else 448 (yc_cr out' = 0) fail (k (out'\<lparr>yc_cr := tmpData\<rparr>, hSub', vSub'))))))))
          else k (out, hSub, vSub)))"

primrec ycbcr_components ::
    "'e rig \<Rightarrow> image_consts \<Rightarrow> u64 \<Rightarrow> ('e, 'z) test \<Rightarrow> (PlaneLayout \<times> PlaneLayoutComponent) list
      \<Rightarrow> android_ycbcr \<times> u64 \<times> u64 \<Rightarrow> (android_ycbcr \<times> u64 \<times> u64 \<Rightarrow> ('e, 'z) test) \<Rightarrow> ('e, 'z) test" where
  "ycbcr_components R IC data fail [] st k = k st"
| "ycbcr_components R IC data fail (pc # pcs) st k =
     ycbcr_component R IC data fail pc st (\<lambda>st. ycbcr_components R IC data fail pcs st k)"

definition plane_components :: "PlaneLayout list \<Rightarrow> (PlaneLayout \<times> PlaneLayoutComponent) list" where
  "plane_components planeLayouts = concat (map (\<lambda>p. map (\<lambda>c. (p, c)) (components p)) planeLayouts)"

definition getAndroidYCbCr ::
    "'e rig \<Rightarrow> image_consts \<Rightarrow> ptr \<Rightarrow> u64 \<Rightarrow> u64 \<times> u64 \<Rightarrow> ('e, 'z) test
      \<Rightarrow> (android_ycbcr \<times> u64 \<times> u64 \<Rightarrow> ('e, 'z) test) \<Rightarrow> ('e, 'z) test" where
  "getAndroidYCbCr R IC bufferHandle data sub fail k =
     fx_getStandardMetadata R PLANE_LAYOUTS bufferHandle (\<lambda>decodeResult.
     ASSERT_else 389 (decodeResult \<noteq> None) fail
    (let planeLayouts = (case decodeResult of Some (MPlanes ps) \<Rightarrow> ps | _ \<Rightarrow> [])
     in ASSERT_else 391 (0 < length planeLayouts) fail
       (ycbcr_components R IC data fail (plane_components planeLayouts) (empty_ycbcr, sub) (\<lambda>(out, sub).
        ASSERT_else 458 (yc_y out \<noteq> 0) fail
       (ASSERT_else 459 (yc_cb out \<noteq> 0) fail
       (ASSERT_else 460 (yc_cr out \<noteq> 0) fail (k (out, sub))))))))"

text \<open>
  What the three YUV tests do after their checks: fill, unlock, lock again, look up the planes again,
  compare, unlock.  The lines of the five calls that are checked differ.
\<close>

definition fill_and_verify ::
    "'e rig \<Rightarrow> image_consts \<Rightarrow> 'm mapped_memory \<Rightarrow> ptr \<Rightarrow> BufferDescriptorInfo \<Rightarrow> nat \<times> nat \<times> nat \<times> nat
      \<Rightarrow> u64 option \<Rightarrow> android_ycbcr \<times> u64 \<times> u64 \<Rightarrow> ('e, 'm) image_test" where
  "fill_and_verify R IC M handle info = (\<lambda>(l1, l2, l3, l4) data (yCbCr, hSub, vSub).
     fillYCbCrData M yCbCr (bdi_width info) (bdi_height info) hSub vSub
    (im_unlock R M handle (- 1) (\<lambda>r releaseFence.
     ASSERT l1 (r = AIMAPPER_ERROR_NONE)
    (im_lock R M handle (bdi_usage info) (0, 0, bdi_width info, bdi_height info) releaseFence data (\<lambda>r data.
     ASSERT l2 (r = AIMAPPER_ERROR_NONE)
    (with_pointer data (\<lambda>a.
     getAndroidYCbCr R IC handle a (hSub, vSub) (fatal_at l3) (\<lambda>(yCbCr, hSub, vSub).
     verifyYCbCrData M yCbCr (bdi_width info) (bdi_height info) hSub vSub
    (im_unlock R M handle (- 1) (\<lambda>r releaseFence.
     ASSERT l4 (r = AIMAPPER_ERROR_NONE)
    (close_release releaseFence Done)))))))))))"

text \<open>
  The lines the three YUV tests share before their own checks: a lock, the planes with the
  subsampling starting at 0, and the subsampling compared with 2.  An \<open>unsigned\<close> and an
  \<open>int64_t\<close> are compared as 64-bit values.
\<close>

definition lock_ycbcr ::
    "'e rig \<Rightarrow> image_consts \<Rightarrow> 'm mapped_memory \<Rightarrow> ptr \<Rightarrow> BufferDescriptorInfo \<Rightarrow> nat \<times> nat \<times> nat \<times> nat
      \<Rightarrow> (u64 option \<Rightarrow> android_ycbcr \<times> u64 \<times> u64 \<Rightarrow> ('e, 'm) image_test) \<Rightarrow> ('e, 'm) image_test" where
  "lock_ycbcr R IC M handle info = (\<lambda>(l1, l2, l3, l4) k.
     im_lock R M handle (bdi_usage info) (0, 0, bdi_width info, bdi_height info) (- 1) (Some 0) (\<lambda>r data.
     ASSERT l1 (r = AIMAPPER_ERROR_NONE)
    (with_pointer data (\<lambda>a.
     getAndroidYCbCr R IC handle a (0, 0) (fatal_at l2) (\<lambda>(yCbCr, hSub, vSub).
     ASSERT l3 (hSub = 2)
    (ASSERT l4 (vSub = 2)
    (k data (yCbCr, hSub, vSub))))))))"

definition yuv_info :: "'e rig \<Rightarrow> c_int \<Rightarrow> BufferDescriptorInfo" where
  "yuv_info R format = vts_info ''VTS_TEMP'' 64 64 format (CPU_OFTEN R)"

text \<open>The opening of the tests of optional formats: a refused allocation is an error if the format is supported.\<close>

definition if_supported ::
    "'e rig \<Rightarrow> BufferDescriptorInfo \<Rightarrow> nat \<Rightarrow> (ptr \<Rightarrow> ('e, 'z) test) \<Rightarrow> ('e, 'z) test" where
  "if_supported R info line body =
     with_buffer R info (\<lambda>buffer.
       if buffer = None then fx_isSupported info (\<lambda>supported. ASSERT line (\<not> supported) Done)
       else with_import R buffer body)"

definition Lock_YCRCB_420_SP :: "'e rig \<Rightarrow> image_consts \<Rightarrow> 'm mapped_memory \<Rightarrow> ('e, 'm) image_test" where
  "Lock_YCRCB_420_SP R IC M =
    (let info = yuv_info R (PixelFormat_YCRCB_420_SP IC)
     in if_supported R info 803 (\<lambda>handle.
        lock_ycbcr R IC M handle info (812, 818, 821, 822) (\<lambda>data (yCbCr, sub).
        ASSERT 826 (yc_cr yCbCr + 1 = yc_cb yCbCr)
       (ASSERT 827 (yc_chroma_step yCbCr = 2)
       (fill_and_verify R IC M handle info (832, 835, 839, 844) data (yCbCr, sub))))))"

definition Lock_YV12 :: "'e rig \<Rightarrow> image_consts \<Rightarrow> 'm mapped_memory \<Rightarrow> ('e, 'm) image_test" where
  "Lock_YV12 R IC M =
    (let info = yuv_info R (PixelFormat_YV12 (r_vts R))
     in with_buffer R info (\<lambda>buffer.
        ASSERT 920 (buffer \<noteq> None)
       (with_import R buffer (\<lambda>handle.
        lock_ycbcr R IC M handle info (926, 932, 935, 936) (\<lambda>data (yCbCr, hSub, vSub).
        ASSERT 940 (yc_cr yCbCr + yc_cstride yCbCr * scast (bdi_height info) div vSub = yc_cb yCbCr)
       (ASSERT 941 (yc_chroma_step yCbCr = 1)
       (fill_and_verify R IC M handle info (946, 949, 953, 957) data (yCbCr, hSub, vSub))))))))"

definition Lock_YCBCR_420_888 :: "'e rig \<Rightarrow> image_consts \<Rightarrow> 'm mapped_memory \<Rightarrow> ('e, 'm) image_test" where
  "Lock_YCBCR_420_888 R IC M =
    (let info = yuv_info R (PixelFormat_YCBCR_420_888 IC)
     in with_buffer R info (\<lambda>buffer.
        ASSERT 974 (buffer \<noteq> None)
       (with_import R buffer (\<lambda>handle.
        lock_ycbcr R IC M handle info (980, 986, 989, 990) (\<lambda>data st.
        fill_and_verify R IC M handle info (995, 998, 1002, 1006) data st)))))"

text \<open>
  The structure \<open>YCbCr\<close>.  Its two subsampling fields are \<open>None\<close> while they are not initialised:
  \<open>getAndroidYCbCr_P010\<close> sets the pointers and strides of its local variable and not these.
\<close>

record p010_ycbcr =
  p_yCbCr :: android_ycbcr
  horizontalSubSampling :: "u64 option"
  verticalSubSampling :: "u64 option"

definition read_field :: "u64 option \<Rightarrow> (u64 \<Rightarrow> ('e, 'z) test) \<Rightarrow> ('e, 'z) test" where
  "read_field v k x = (case v of None \<Rightarrow> Fault UninitRead | Some w \<Rightarrow> k w x)"

definition element_at :: "'a list \<Rightarrow> nat \<Rightarrow> ('a \<Rightarrow> ('e, 'z) test) \<Rightarrow> ('e, 'z) test" where
  "element_at xs i k x = (if i < length xs then k (xs ! i) x else Fault OutOfBounds)"

text \<open>
  The subsampling: the fields are read before anything has set them.  \<open>&&\<close> reads the second only
  when the first is 0.
\<close>

definition p010_subsampling :: "PlaneLayout \<Rightarrow> p010_ycbcr \<Rightarrow> (p010_ycbcr \<Rightarrow> ('e, 'z) test) \<Rightarrow> ('e, 'z) test" where
  "p010_subsampling planeLayout out k =
    (let set = k (out\<lparr>horizontalSubSampling := Some (horizontalSubsampling planeLayout),
                     verticalSubSampling := Some (verticalSubsampling planeLayout)\<rparr>);
         compare = read_field (horizontalSubSampling out) (\<lambda>hSub.
           EXPECT 525 (hSub = horizontalSubsampling planeLayout)
          (read_field (verticalSubSampling out) (\<lambda>vSub.
           EXPECT 527 (vSub = verticalSubsampling planeLayout) (k out))))
     in read_field (horizontalSubSampling out) (\<lambda>hSub.
        if hSub \<noteq> 0 then compare
        else read_field (verticalSubSampling out) (\<lambda>vSub. if vSub = 0 then set else compare)))"

text \<open>One round of the loop; the state also has the offsets of Cb and Cr.\<close>

definition p010_component ::
    "'e rig \<Rightarrow> image_consts \<Rightarrow> u64 \<Rightarrow> PlaneLayout \<times> PlaneLayoutComponent \<Rightarrow> p010_ycbcr \<times> u64 \<times> u64
      \<Rightarrow> (p010_ycbcr \<times> u64 \<times> u64 \<Rightarrow> ('e, 'z) test) \<Rightarrow> ('e, 'z) test" where
  "p010_component R IC data = (\<lambda>(planeLayout, component) (out, cb_offset, cr_offset) k.
     if \<not> isStandardPlaneLayoutComponentType (r_vts R) (plc_type component) then k (out, cb_offset, cr_offset)
     else
       let tmpData = component_address data planeLayout component;
           type = ucast (ext_value (plc_type component)) :: u32;
           yc = p_yCbCr out
       in if type = ComponentType_Y IC
          then EXPECT 498 (offsetInBits component = 6)
              (EXPECT 499 (yc_y yc = 0)
              (EXPECT 500 (sizeInBits component = 10)
              (EXPECT 501 (sampleIncrementInBits planeLayout = 16)
              (k (out\<lparr>p_yCbCr := yc\<lparr>yc_y := tmpData, yc_ystride := strideInBytes planeLayout\<rparr>\<rparr>, cb_offset, cr_offset)))))
          else if type = ComponentType_CB IC \<or> type = ComponentType_CR IC
          then let sampleIncrementInBytes = bitsToBytes (sampleIncrementInBits planeLayout);
                   first_chroma = (yc_cstride yc = 0 \<and> yc_chroma_step yc = 0);
                   yc' = (if first_chroma then yc\<lparr>yc_cstride := strideInBytes planeLayout, yc_chroma_step := sampleIncrementInBytes\<rparr>
                          else yc)
               in EXPECT 510 (sampleIncrementInBytes = 4)
                 (EXPECT 516 (yc_cstride yc' = strideInBytes planeLayout)
                 (EXPECT 517 (yc_chroma_step yc' = sampleIncrementInBytes)
                 (p010_subsampling planeLayout out (\<lambda>out.
                  if type = ComponentType_CB IC
                  then EXPECT 532 (yc_cb yc' = 0)
                      (k (out\<lparr>p_yCbCr := yc'\<lparr>yc_cb := tmpData\<rparr>\<rparr>, offsetInBits component, cr_offset))
                  else EXPECT 536 (yc_cr yc' = 0)
                      (k (out\<lparr>p_yCbCr := yc'\<lparr>yc_cr := tmpData\<rparr>\<rparr>, cb_offset, offsetInBits component))))))
          else k (out, cb_offset, cr_offset))"

primrec p010_components ::
    "'e rig \<Rightarrow> image_consts \<Rightarrow> u64 \<Rightarrow> (PlaneLayout \<times> PlaneLayoutComponent) list \<Rightarrow> p010_ycbcr \<times> u64 \<times> u64
      \<Rightarrow> (p010_ycbcr \<times> u64 \<times> u64 \<Rightarrow> ('e, 'z) test) \<Rightarrow> ('e, 'z) test" where
  "p010_components R IC data [] st k = k st"
| "p010_components R IC data (pc # pcs) st k =
     p010_component R IC data pc st (\<lambda>st. p010_components R IC data pcs st k)"

definition getAndroidYCbCr_P010 ::
    "'e rig \<Rightarrow> image_consts \<Rightarrow> ptr \<Rightarrow> u64 \<Rightarrow> (p010_ycbcr \<Rightarrow> ('e, 'z) test) \<Rightarrow> ('e, 'z) test" where
  "getAndroidYCbCr_P010 R IC bufferHandle data k =
     fx_getStandardMetadata R PLANE_LAYOUTS bufferHandle (\<lambda>decodeResult.
     if decodeResult = None
     then EXPECT 467 False (k \<lparr>p_yCbCr = empty_ycbcr, horizontalSubSampling = Some 0, verticalSubSampling = Some 0\<rparr>)
     else
       let planeLayouts = (case decodeResult of Some (MPlanes ps) \<Rightarrow> ps | _ \<Rightarrow> []);
           start = \<lparr>p_yCbCr = empty_ycbcr, horizontalSubSampling = None, verticalSubSampling = None\<rparr>
       in EXPECT 471 (length planeLayouts = 2)
         (element_at planeLayouts 0 (\<lambda>plane0.
          EXPECT 472 (length (components plane0) = 1)
         (element_at planeLayouts 1 (\<lambda>plane1.
          EXPECT 473 (length (components plane1) = 2)
         (p010_components R IC data (plane_components planeLayouts) (start, 0, 0) (\<lambda>(out, cb_offset, cr_offset).
          EXPECT 547 (cb_offset + bytesToBits 2 = cr_offset)
         (EXPECT 548 (yc_y (p_yCbCr out) \<noteq> 0)
         (EXPECT 549 (yc_cb (p_yCbCr out) \<noteq> 0)
         (EXPECT 550 (yc_cr (p_yCbCr out) \<noteq> 0) (k out)))))))))))"

text \<open>\<open>Lock_YCBCR_P010\<close> reads back under the lock it wrote under.\<close>

definition Lock_YCBCR_P010 :: "'e rig \<Rightarrow> image_consts \<Rightarrow> 'm mapped_memory \<Rightarrow> ('e, 'm) image_test" where
  "Lock_YCBCR_P010 R IC M =
    (let info = yuv_info R (PixelFormat_YCBCR_P010 IC)
     in if_supported R info 1124 (\<lambda>handle.
        im_lock R M handle (bdi_usage info) (0, 0, bdi_width info, bdi_height info) (- 1) (Some 0) (\<lambda>r data.
        ASSERT 1133 (r = AIMAPPER_ERROR_NONE)
       (with_pointer data (\<lambda>a.
        getAndroidYCbCr_P010 R IC handle a (\<lambda>yCbCr.
        read_field (horizontalSubSampling yCbCr) (\<lambda>hSub.
        ASSERT 1140 (hSub = 2)
       (read_field (verticalSubSampling yCbCr) (\<lambda>vSub.
        ASSERT 1141 (vSub = 2)
       (ASSERT 1143 (sint (bdi_height info) smod 2 = 0)
       (fillYCbCrData M (p_yCbCr yCbCr) (bdi_width info) (bdi_height info) hSub vSub
       (verifyYCbCrData M (p_yCbCr yCbCr) (bdi_width info) (bdi_height info) hSub vSub
       (im_unlock R M handle (- 1) (\<lambda>r releaseFence.
        ASSERT 1153 (r = AIMAPPER_ERROR_NONE)
       (close_release releaseFence Done)))))))))))))))"

section \<open>RAW images\<close>

text \<open>
  \<open>Lock_RAW10\<close> and \<open>Lock_RAW12\<close> are the same lines 50 apart, on two formats: \<open>line\<close> is the first
  one's distance.
\<close>

definition Lock_RAW :: "'e rig \<Rightarrow> image_consts \<Rightarrow> 'm mapped_memory \<Rightarrow> c_int \<Rightarrow> nat \<Rightarrow> ('e, 'm) image_test" where
  "Lock_RAW R IC M format line =
    (let info = yuv_info R format
     in if_supported R info (1024 + line) (\<lambda>handle.
        im_lock R M handle (bdi_usage info) (0, 0, bdi_width info, bdi_height info) (- 1) (Some 0) (\<lambda>r data.
        ASSERT (1033 + line) (r = AIMAPPER_ERROR_NONE)
       (get_value R PLANE_LAYOUTS handle (1037 + line) (\<lambda>value.
        let planeLayouts = (case value of MPlanes ps \<Rightarrow> ps | _ \<Rightarrow> [])
        in ASSERT (1040 + line) (length planeLayouts = 1)
          (let planeLayout = planeLayouts ! 0
           in EXPECT (1043 + line) (sampleIncrementInBits planeLayout = 0)
             (EXPECT (1044 + line) (horizontalSubsampling planeLayout = 1)
             (EXPECT (1045 + line) (verticalSubsampling planeLayout = 1)
             (ASSERT (1047 + line) (length (components planeLayout) = 1)
             (let component = components planeLayout ! 0
              in EXPECT (1050 + line) (ucast (ext_value (plc_type component)) = ComponentType_RAW IC)
                (EXPECT (1052 + line) (sint (offsetInBits component) smod 8 = 0)
                (EXPECT (1053 + line) (sizeInBits component = - 1)
                (im_unlock R M handle (- 1) (\<lambda>r releaseFence.
                 ASSERT (1056 + line) (r = AIMAPPER_ERROR_NONE)
                (close_release releaseFence Done)))))))))))))))"

definition Lock_RAW10 :: "'e rig \<Rightarrow> image_consts \<Rightarrow> 'm mapped_memory \<Rightarrow> ('e, 'm) image_test" where
  "Lock_RAW10 R IC M = Lock_RAW R IC M (PixelFormat_RAW10 IC) 0"

definition Lock_RAW12 :: "'e rig \<Rightarrow> image_consts \<Rightarrow> 'm mapped_memory \<Rightarrow> ('e, 'm) image_test" where
  "Lock_RAW12 R IC M = Lock_RAW R IC M (PixelFormat_RAW12 IC) 50"

end
