(* ===== verification/Vts_Image_Runs.thy ===== *)
theory Vts_Image_Runs
  imports Vts_Image Vts_Conformance
begin

text \<open>
  The outcome of the conformance tests on images: which pass on a memory that keeps what is written,
  and where the tests of YUV and RAW formats stop.
\<close>

section \<open>Loops\<close>

lemma for_each_simps [simp]:
  "for_each 0 body k = k"
  "for_each (Suc n) body k = for_each n body (body n k)"
  by (simp_all add: for_each_def)

text \<open>A loop whose rounds keep an invariant ends in a state where it holds; one whose rounds change nothing does nothing.\<close>

lemma for_each_invariant:
  assumes "\<And>i y. i < n \<Longrightarrow> I i y \<Longrightarrow> \<exists>y'. I (Suc i) y' \<and> (\<forall>k. body i k y = k y')" and "I 0 x"
  shows "\<exists>y. I n y \<and> (\<forall>k. for_each n body k x = k y)"
  using assms(1)
proof (induction n)
  case (Suc n)
  then obtain y where y: "I n y" "\<And>k. for_each n body k x = k y"
    by (metis less_Suc_eq)
  then show ?case
    using Suc.prems [of n y] by auto
qed (use assms(2) in auto)

lemma for_each_same:
  assumes "\<And>i k. i < n \<Longrightarrow> body i k x = k x"
  shows "for_each n body k x = k x"
  using assms by (induction n arbitrary: k) auto

section \<open>The memory\<close>

text \<open>
  What the tests rely on: stores change the byte they name, and mapping and unmapping a buffer keep
  every byte of storage.  The first \<open>n\<close> bytes of a locked buffer show distinct bytes, the same
  at every lock; other addresses stay as they were.
\<close>

definition memory_laws :: "'m mapped_memory \<Rightarrow> bool" where
  "memory_laws M \<longleftrightarrow>
     (\<forall>c v \<mu>. mm_load M (mm_store M c v \<mu>) = (mm_load M \<mu>)(c := v) \<and> mm_cell M (mm_store M c v \<mu>) = mm_cell M \<mu>) \<and>
     (\<forall>h a \<mu>. mm_load M (mm_lock M h a \<mu>) = mm_load M \<mu>) \<and> (\<forall>h \<mu>. mm_load M (mm_unlock M h \<mu>) = mm_load M \<mu>)"

definition shows_at :: "'m mapped_memory \<Rightarrow> 'm \<Rightarrow> u64 \<Rightarrow> (nat \<Rightarrow> nat) \<Rightarrow> nat \<Rightarrow> bool" where
  "shows_at M \<mu> a byte n \<longleftrightarrow> (\<forall>i < n. mm_cell M \<mu> (a + of_nat i) = Some (byte i))"

definition maps_buffer :: "'m mapped_memory \<Rightarrow> ptr \<Rightarrow> (nat \<Rightarrow> nat) \<Rightarrow> nat \<Rightarrow> bool" where
  "maps_buffer M h byte n \<longleftrightarrow> inj_on byte {..<n} \<and>
     (\<forall>\<mu> a. shows_at M (mm_lock M h a \<mu>) a byte n \<and>
        (\<forall>p. p \<notin> (\<lambda>i. a + of_nat i) ` {..<n} \<longrightarrow> mm_cell M (mm_lock M h a \<mu>) p = mm_cell M \<mu> p))"

lemma maps_bufferD:
  assumes "maps_buffer M h byte n"
  shows "inj_on byte {..<n}" and "shows_at M (mm_lock M h a \<mu>) a byte n"
    and "p \<notin> (\<lambda>i. a + of_nat i) ` {..<n} \<Longrightarrow> mm_cell M (mm_lock M h a \<mu>) p = mm_cell M \<mu> p"
  using assms by (simp_all add: maps_buffer_def)

lemma store_at:
  assumes "memory_laws M" "inj_on byte {..<n}" "shows_at M (memory x) a byte n" and i: "i < n"
  shows "\<exists>\<mu>. (\<forall>k. store_byte M (a + of_nat i) v k x = k (x\<lparr>memory := \<mu>\<rparr>)) \<and> mm_cell M \<mu> = mm_cell M (memory x) \<and>
    (\<forall>j < n. mm_load M \<mu> (byte j) = (if j = i then v else mm_load M (memory x) (byte j)))"
proof (intro exI conjI)
  let ?\<mu> = "mm_store M (byte i) v (memory x)"
  show "\<forall>k. store_byte M (a + of_nat i) v k x = k (x\<lparr>memory := ?\<mu>\<rparr>)"
    using assms(3) i by (simp add: store_byte_def shows_at_def)
  show "mm_cell M ?\<mu> = mm_cell M (memory x)"
    using assms(1) by (simp add: memory_laws_def)
  show "\<forall>j < n. mm_load M ?\<mu> (byte j) = (if j = i then v else mm_load M (memory x) (byte j))"
    using assms(1,2) i by (auto simp: memory_laws_def inj_on_def)
qed

text \<open>\<open>rows_filled\<close>: the first \<open>rows\<close> rows of an image, and the first \<open>cols\<close> bytes of the next, hold their row number.\<close>

definition rows_filled :: "'m mapped_memory \<Rightarrow> 'm \<Rightarrow> (nat \<Rightarrow> nat) \<Rightarrow> nat \<Rightarrow> nat \<Rightarrow> nat \<Rightarrow> nat \<Rightarrow> bool" where
  "rows_filled M \<mu> byte S W rows cols \<longleftrightarrow>
     (\<forall>r i. r < rows \<and> i < W \<or> r = rows \<and> i < cols \<longrightarrow> mm_load M \<mu> (byte (r * S + i)) = of_nat r)"

lemma rows_filled_next_row:
  assumes "rows_filled M \<mu> byte S W r W"
  shows "rows_filled M \<mu> byte S W (Suc r) 0"
  using assms unfolding rows_filled_def by (auto simp: less_Suc_eq)

lemma row_offset_less:
  assumes "r < H" "i < (W :: nat)" "W \<le> S" "(H - 1) * S + W \<le> n"
  shows "r * S + i < n"
proof -
  have "r * S \<le> (H - 1) * S"
    using assms(1) by (intro mult_right_mono) auto
  then show ?thesis
    using assms by linarith
qed

lemma row_offset_inj:
  assumes "r < rows" "i < W" "W \<le> (S :: nat)"
  shows "r * S + i \<noteq> rows * S + j"
proof -
  have "Suc r * S \<le> rows * S"
    using assms(1) by (intro mult_right_mono) auto
  then show ?thesis
    using assms by auto
qed

lemma row_address:
  fixes a row_stride :: u64
  shows "a + of_nat r * row_stride + of_nat i = a + of_nat (r * unat row_stride + i)"
  by (simp add: add.assoc)

lemma fill_rows:
  assumes laws: "memory_laws M" "inj_on byte {..<n}" and at: "shows_at M (memory x) a byte n"
    and W: "unat row_bytes \<le> unat row_stride" and n: "(unat height - 1) * unat row_stride + unat row_bytes \<le> n"
  shows "\<exists>\<mu>. (\<forall>k. fillRGBA8888 M a height row_stride row_bytes k x = k (x\<lparr>memory := \<mu>\<rparr>)) \<and>
    mm_cell M \<mu> = mm_cell M (memory x) \<and> rows_filled M \<mu> byte (unat row_stride) (unat row_bytes) (unat height) 0"
proof -
  let ?S = "unat row_stride" and ?W = "unat row_bytes" and ?H = "unat height"
  define I where "I = (\<lambda>r i y. \<exists>\<mu>. y = x\<lparr>memory := \<mu>\<rparr> \<and> mm_cell M \<mu> = mm_cell M (memory x) \<and> rows_filled M \<mu> byte ?S ?W r i)"
  let ?put = "\<lambda>r i. store_byte M (a + of_nat r * row_stride + of_nat i) (of_nat r)"
  have byte: "\<exists>y'. I r (Suc i) y' \<and> (\<forall>k. ?put r i k y = k y')" if r: "r < ?H" and i: "i < ?W" and y: "I r i y" for r i y
  proof -
    obtain \<mu> where \<mu>: "y = x\<lparr>memory := \<mu>\<rparr>" "mm_cell M \<mu> = mm_cell M (memory x)" "rows_filled M \<mu> byte ?S ?W r i"
      using y unfolding I_def by blast
    have lt: "r' * ?S + i' < n" if "r' < ?H" "i' < ?W" for r' i'
      by (rule row_offset_less [OF that W n])
    obtain \<nu> where \<nu>: "\<And>k. store_byte M (a + of_nat (r * ?S + i)) (of_nat r) k y = k (y\<lparr>memory := \<nu>\<rparr>)" "mm_cell M \<nu> = mm_cell M (memory x)"
      "\<And>j. j < n \<Longrightarrow> mm_load M \<nu> (byte j) = (if j = r * ?S + i then of_nat r else mm_load M \<mu> (byte j))"
      using store_at [OF laws, of y a "r * ?S + i" "of_nat r"] \<mu> lt [OF r i] at unfolding shows_at_def by auto
    have "mm_load M \<nu> (byte (r' * ?S + i')) = of_nat r'" if c: "r' < r \<and> i' < ?W \<or> r' = r \<and> i' < Suc i" for r' i'
    proof -
      have "r' < ?H" "i' < ?W"
        using c r i by auto
      then have load: "mm_load M \<nu> (byte (r' * ?S + i')) =
          (if r' * ?S + i' = r * ?S + i then of_nat r else mm_load M \<mu> (byte (r' * ?S + i')))"
        by (rule \<nu>(3) [OF lt])
      show ?thesis
      proof (cases "r' = r \<and> i' = i")
        case False
        then have old: "r' < r \<and> i' < ?W \<or> r' = r \<and> i' < i"
          using c by (auto simp: less_Suc_eq)
        then have "r' * ?S + i' \<noteq> r * ?S + i"
          using row_offset_inj [OF _ _ W, of r' r i' i] by auto
        moreover have "mm_load M \<mu> (byte (r' * ?S + i')) = of_nat r'"
          using \<mu>(3) old unfolding rows_filled_def by blast
        ultimately show ?thesis
          using load by simp
      qed (use load in simp)
    qed
    then have "I r (Suc i) (y\<lparr>memory := \<nu>\<rparr>)"
      using \<mu>(1) \<nu>(2) by (auto simp: I_def rows_filled_def)
    moreover have "?put r i k y = k (y\<lparr>memory := \<nu>\<rparr>)" for k
      unfolding row_address by (rule \<nu>(1))
    ultimately show ?thesis
      by blast
  qed
  have row: "\<exists>y'. I (Suc r) 0 y' \<and> (\<forall>k. for_each ?W (?put r) k y = k y')" if r: "r < ?H" and y: "I r 0 y" for r y
  proof -
    have "\<exists>y'. I r ?W y' \<and> (\<forall>k. for_each ?W (?put r) k y = k y')"
      by (rule for_each_invariant [where I = "I r" and body = "?put r", OF byte [OF r] y])
    then obtain y' where y': "I r ?W y'" "\<forall>k. for_each ?W (?put r) k y = k y'"
      by blast
    obtain \<mu> where \<mu>: "y' = x\<lparr>memory := \<mu>\<rparr>" "mm_cell M \<mu> = mm_cell M (memory x)" "rows_filled M \<mu> byte ?S ?W r ?W"
      using y'(1) unfolding I_def by blast
    then have "I (Suc r) 0 y'"
      unfolding I_def by (intro exI [of _ \<mu>] conjI rows_filled_next_row)
    then show ?thesis
      using y'(2) by blast
  qed
  have start: "I 0 0 x"
    unfolding I_def by (intro exI [of _ "memory x"]) (simp add: rows_filled_def)
  have "\<exists>y. I ?H 0 y \<and> (\<forall>k. for_each ?H (\<lambda>r. for_each ?W (?put r)) k x = k y)"
    using for_each_invariant [where I = "\<lambda>r. I r 0" and body = "\<lambda>r. for_each ?W (?put r)" and n = ?H, OF row start] .
  then obtain y where y: "I ?H 0 y" "\<forall>k. for_each ?H (\<lambda>r. for_each ?W (?put r)) k x = k y"
    by blast
  from y(1) obtain \<mu> where \<mu>: "y = x\<lparr>memory := \<mu>\<rparr>" "mm_cell M \<mu> = mm_cell M (memory x)" "rows_filled M \<mu> byte ?S ?W ?H 0"
    unfolding I_def by blast
  have "\<forall>k. fillRGBA8888 M a height row_stride row_bytes k x = k (x\<lparr>memory := \<mu>\<rparr>)"
    using y(2) unfolding fillRGBA8888_def \<mu>(1) .
  with \<mu>(2,3) show ?thesis
    by (intro exI [of _ \<mu>]) simp
qed

lemma verify_rows:
  fixes x :: "('e, 'm) image_fixture"
  assumes at: "shows_at M (memory x) a byte n" and filled: "rows_filled M (memory x) byte (unat row_stride) (unat row_bytes) (unat height) 0"
    and W: "unat row_bytes \<le> unat row_stride" and n: "(unat height - 1) * unat row_stride + unat row_bytes \<le> n"
  shows "for_each (unat height) (\<lambda>y. for_each (unat row_bytes) (\<lambda>i k.
    load_byte M (a + of_nat y * row_stride + of_nat i) (\<lambda>v. EXPECT l (v = of_nat y) k))) k x = k x"
proof (rule for_each_same, rule for_each_same)
  fix r i and k :: "('e, 'm) image_test"
  assume r: "r < unat height" and i: "i < unat row_bytes"
  have "mm_cell M (memory x) (a + of_nat (r * unat row_stride + i)) = Some (byte (r * unat row_stride + i))"
    using at row_offset_less [OF r i W n] unfolding shows_at_def by blast
  moreover have "mm_load M (memory x) (byte (r * unat row_stride + i)) = of_nat r"
    using filled r i by (simp add: rows_filled_def)
  ultimately show "load_byte M (a + of_nat r * row_stride + of_nat i) (\<lambda>v. EXPECT l (v = of_nat r) k) x = k x"
    unfolding row_address load_byte_def by simp
qed

section \<open>Images through a lock\<close>

text \<open>A handle locked for the CPU: its unlock succeeds, gives back no fence and leaves other handles locked.\<close>

definition cpu_held :: "'e rig \<Rightarrow> ptr \<Rightarrow> 'e mapper \<Rightarrow> bool" where
  "cpu_held R q m \<longleftrightarrow> (\<exists>l. lock_state_of (hal_of (r_cli R)) q (gm m) = CpuLocked l)"

definition locks_at :: "'e rig \<Rightarrow> ptr \<Rightarrow> u64 \<Rightarrow> 'e mapper \<Rightarrow> u64 \<Rightarrow> 'e mapper \<Rightarrow> bool" where
  "locks_at R q u m a n \<longleftrightarrow> lock (r_cli R) q u (- 1) m = Done ((AIMAPPER_ERROR_NONE, Some a), n)"

lemma locks_at_holds:
  assumes "rig_ok R" "holding R raws qs m" "locks_at R q u m a n"
  shows "holding R raws qs n" and "metadata_map n = metadata_map m" and "handles (gm n) = handles (gm m)"
  using lock_holds [OF assms(1,2)] assms(3) by (auto simp: locks_at_def)

lemma locks_at_held:
  assumes R: "rig_ok R" and hold: "holding R raws qs m"
    and cpu: "(ucast u :: c_int) AND cpu_mask (hal_of (r_cli R)) \<noteq> 0" and l: "locks_at R q u m a n"
  shows "cpu_held R q n" and "p \<noteq> q \<Longrightarrow> cpu_held R p m \<Longrightarrow> cpu_held R p n"
proof -
  let ?P = "r_cli R"
  note i = gm_invD(1,2) [OF holdingD(1) [OF hold]]
  have "u \<noteq> 0"
    using cpu by auto
  then obtain s1 where l1: "gralloc_gbm_bo_lock ?P q (ucast u) (gm m) = Done ((0, Some a), s1)" and n: "n = m\<lparr>gm := s1\<rparr>"
    using l unfolding locks_at_def
    by (auto simp: lock_def close_fence_def andThen_eq_Done aimapper_errors split: if_splits)
  note r = lock_refines [OF l1 i rig_okD(10) [OF R]]
  obtain l' where "lock_state_of (hal_of ?P) q s1 = CpuLocked l'"
    using spec_lock_cpu [OF _ cpu, of q "gm m" s1] r unfolding lock_result_def Let_def by auto
  then show "cpu_held R q n"
    by (simp add: cpu_held_def n)
  show "cpu_held R p n" if "p \<noteq> q" "cpu_held R p m"
    using r that unfolding lock_result_def Let_def cpu_held_def n by simp
qed

definition unlocks_to :: "'e rig \<Rightarrow> ptr \<Rightarrow> 'e mapper \<Rightarrow> 'e proc \<Rightarrow> bool" where
  "unlocks_to R q n s \<longleftrightarrow>
     (\<forall>n'. gm n' = gm n \<and> mInitialized n' \<longrightarrow>
        unlock (r_cli R) q n' = Done ((AIMAPPER_ERROR_NONE, Some (- 1)), n'\<lparr>gm := s\<rparr>)) \<and>
     (\<forall>p n'. p \<noteq> q \<and> cpu_held R p n \<and> gm n' = s \<longrightarrow> cpu_held R p n')"

lemma cpu_held_unlock:
  assumes hold: "holding R raws qs n" and q: "q \<in> fst ` set qs" and c: "cpu_held R q n"
  shows "\<exists>s. unlocks_to R q n s"
proof -
  note i = gm_invD(1,2) [OF holdingD(1) [OF hold]]
  have "q \<noteq> 0"
    using holding_live(1) [OF hold] q by auto
  obtain b where b: "gbm_bo_handle_map (gm n) q = Some b"
    using holdingD(5) [OF hold] q by (force simp: imported_handle_def)
  obtain l where "lock_state_of (hal_of (r_cli R)) q (gm n) = CpuLocked l"
    using c by (auto simp: cpu_held_def)
  then obtain s where s: "gralloc_gbm_bo_unlock (r_cli R) q (gm n) = Done (0, s)"
    using cpu_locked_next(2) [OF _ i b] by blast
  have "unlocks_to R q n s"
    using unlock_refines [OF s i] s \<open>q \<noteq> 0\<close> by (simp add: unlocks_to_def unlock_def cpu_held_def)
  then show ?thesis
    by blast
qed

lemma unlocks_toD:
  assumes "unlocks_to R q n s" and "gm n' = gm n" "mInitialized n'"
  shows "unlock (r_cli R) q n' = Done ((AIMAPPER_ERROR_NONE, Some (- 1)), n'\<lparr>gm := s\<rparr>)"
  using assms by (simp add: unlocks_to_def)

lemma im_lock_run:
  assumes "lock (r_cli R) h u f (cli x) = Done ((AIMAPPER_ERROR_NONE, Some a), m)"
  shows "im_lock R M h u region f data k x =
    k AIMAPPER_ERROR_NONE (Some a) (x\<lparr>cli := m, memory := mm_lock M h a (memory x)\<rparr>)"
  using assms by (simp add: im_lock_def on_mapper_def)

lemma im_unlock_run:
  assumes "unlock (r_cli R) h (cli x) = Done ((AIMAPPER_ERROR_NONE, Some f), m)"
  shows "im_unlock R M h f' k x = k AIMAPPER_ERROR_NONE f (x\<lparr>cli := m, memory := mm_unlock M h (memory x)\<rparr>)"
  using assms by (simp add: im_unlock_def on_mapper_def)

lemma memory_cli: "x\<lparr>memory := \<mu>, cli := m\<rparr> = (x :: ('e, 'm) image_fixture)\<lparr>cli := m, memory := \<mu>\<rparr>"
  by (cases x) simp

lemma memory_with_md [simp]: "memory (with_md R h y) = memory y"
  by (simp add: with_md_def)

lemma with_pointer_Some [simp]: "with_pointer (Some a) k = k a"
  by (rule ext) (simp add: with_pointer_def)

lemma close_release_none [simp]: "close_release (- 1) k = k"
  by (rule ext) (simp add: close_release_def)

text \<open>The check of a filled image passes: the planes are as expected, and every byte is.\<close>

lemma verify_image:
  assumes fmt: "formats_agree R" and c: "components_agree R" and at: "at_handle R q h md y"
    and d: "describes (vts_info nm 64 64 (PixelFormat_RGBA_8888 (r_vts R)) u) h"
    and fits: "value_fits R PLANE_LAYOUTS (MPlanes (handle_plane_layouts (hal_of (r_cli R)) (r_consts R) h))"
    and size: "16384 \<le> uint (h_stride h * 64)"
    and mem: "shows_at M (memory y) a byte n" "rows_filled M (memory y) byte (unat row_stride) (unat row_bytes) (unat height) 0"
    and W: "unat row_bytes \<le> unat row_stride" "(unat height - 1) * unat row_stride + unat row_bytes \<le> n"
  shows "verifyRGBA8888 R M q a height row_stride row_bytes y = Done (with_md R h y)"
proof -
  have pl: "handle_plane_layouts (hal_of (r_cli R)) (r_consts R) h =
      map (fill_plane h) (layout_ABGR8888 (mc_components (r_consts R)))"
    by (rule rgba_planes [OF fmt d])
  have val: "get_value R PLANE_LAYOUTS q l k y =
      k (MPlanes (handle_plane_layouts (hal_of (r_cli R)) (r_consts R) h)) (with_md R h y)" for l k
    using at_value [OF at _ fits] by (simp add: standard_value_def)
  have v: "verifyRGBA8888PlaneLayouts R (handle_plane_layouts (hal_of (r_cli R)) (r_consts R) h) (with_md R h y) = Done (with_md R h y)"
    unfolding pl using verify_planes [OF c, of h] d size by (simp add: describes_def)
  have "0 < length (handle_plane_layouts (hal_of (r_cli R)) (r_consts R) h)"
    by (simp add: pl layout_ABGR8888_def)
  then show ?thesis
    using v verify_rows [of M "with_md R h y" a byte n row_stride row_bytes height 334 Done] mem W
    by (simp add: verifyRGBA8888_def val)
qed

definition image_rows :: "'e rig \<Rightarrow> buffer_allocation \<Rightarrow> gralloc_handle_t \<Rightarrow> bool" where
  "image_rows R b h \<longleftrightarrow> formats_agree R \<and> components_agree R \<and>
     value_fits R PLANE_LAYOUTS (MPlanes (handle_plane_layouts (hal_of (r_cli R)) (r_consts R) h)) \<and>
     16384 \<le> uint (h_stride h * 64) \<and> 256 \<le> unat (mStride b * 4)"

lemma unat_ucast_64 [simp]: "unat (ucast (w :: u32) :: u64) = unat w"
  using unsigned_less [of w, where 'a = nat] by (simp add: unsigned_ucast_eq take_bit_nat_eq_self)

lemma LockUnlockBasic_passes:
  assumes rdy: "ready R x" and s: "session R (generic_info R) x b q z" and h: "load_handle q (gm (cli z)) = Done h"
    and rows: "image_rows R b h" and laws: "memory_laws M" and maps: "maps_buffer M q byte n"
    and n: "63 * unat (mStride b * 4) + 256 \<le> n"
    and cpu: "(ucast (CPU_OFTEN R) :: c_int) AND cpu_mask (hal_of (r_cli R)) \<noteq> 0"
    and l1: "locks_at R q (CPU_OFTEN R) (cli z) a1 m1" and u1: "unlock (r_cli R) q m1 = Done (res, m2)"
    and l2: "locks_at R q (CPU_OFTEN R) m2 a2 m3"
  shows "test_ends R (LockUnlockBasic R M) x [] False"
proof -
  let ?i = "generic_info R" and ?u = "CPU_OFTEN R"
  let ?S = "ucast (mStride b * 4) :: u64" and ?W = "256 :: u64" and ?H = "64 :: u32"
  note R = readyD(1) [OF rdy] and st = session_start [OF rdy s]
  note hz = st(1) [unfolded held_def]
  note h1 = locks_at_holds [OF R hz l1]
  have q: "q \<in> fst ` set [(q, ?i)]"
    by simp
  obtain s1 where s1: "unlocks_to R q m1 s1"
    using cpu_held_unlock [OF h1(1) q locks_at_held(1) [OF R hz cpu l1]] by blast
  have m2: "unlock (r_cli R) q m1 = Done ((AIMAPPER_ERROR_NONE, Some (- 1)), m2)"
    using unlocks_toD [OF s1 refl holdingD(2) [OF h1(1)]] u1 by simp
  note h2 = unlock_holds [OF R h1(1) m2]
  note h3 = locks_at_holds [OF R h2(1) l2]
  obtain s3 where s3: "unlocks_to R q m3 s3"
    using cpu_held_unlock [OF h3(1) q locks_at_held(1) [OF R h2(1) cpu l2]] by blast
  have W: "unat ?W \<le> unat ?S" "(unat ?H - 1) * unat ?S + unat ?W \<le> n"
    using rows n by (simp_all add: image_rows_def)
  obtain \<mu> where \<mu>: "\<And>k. fillRGBA8888 M a1 ?H ?S ?W k (z\<lparr>cli := m1, memory := mm_lock M q a1 (memory z)\<rparr>) =
      k (z\<lparr>cli := m1, memory := \<mu>\<rparr>)" "rows_filled M \<mu> byte (unat ?S) (unat ?W) (unat ?H) 0"
    using fill_rows [OF laws maps_bufferD(1) [OF maps] _ W, of "z\<lparr>cli := m1, memory := mm_lock M q a1 (memory z)\<rparr>" a1]
      maps_bufferD(2) [OF maps] by auto
  let ?\<nu> = "mm_lock M q a2 (mm_unlock M q \<mu>)" and ?info = "mInfo b"
  let ?y = "z\<lparr>cli := m3, memory := ?\<nu>\<rparr>"
  have held: "held R ?i b q ?y"
    using h3(1) by (simp add: held_def)
  obtain h' where h': "load_handle q (gm m3) = Done h'" "describes ?i h'"
    using heldD(1) [OF held] by auto
  have "h' = h"
    using h h'(1) h1(3) h2(3) h3(3) by (simp add: load_handle_Done)
  have at: "at_handle R q h (initial_md (r_consts R) h) ?y"
    using R h' \<open>h' = h\<close> heldD(2) [OF held] h3(2) h2(2) h1(2) st(4)
    by (simp add: at_handle_def createMetadata_def initial_md_def Let_def)
  have mem: "shows_at M (memory ?y) a2 byte n" "rows_filled M (memory ?y) byte (unat ?S) (unat ?W) (unat ?H) 0"
    using maps \<mu>(2) laws by (simp_all add: maps_buffer_def rows_filled_def memory_laws_def)
  have ver: "verifyRGBA8888 R M q a2 ?H ?S ?W ?y = Done (with_md R h ?y)"
    by (rule verify_image [OF _ _ at _ _ _ mem W]) (use rows h'(2) \<open>h' = h\<close> in \<open>auto simp: image_rows_def generic_info_def\<close>)
  let ?w = "(with_md R h ?y)\<lparr>cli := (cli (with_md R h ?y))\<lparr>gm := s3\<rparr>, memory := mm_unlock M q ?\<nu>\<rparr>"
  have u3: "unlock (r_cli R) q (cli (with_md R h ?y)) = Done ((AIMAPPER_ERROR_NONE, Some (- 1)), (cli (with_md R h ?y))\<lparr>gm := s3\<rparr>)"
    by (rule unlocks_toD [OF s3]) (use heldD(2) [OF held] in simp_all)
  have "held R ?i b q (with_md R h ?y)"
    using held by simp
  then have hw: "held R ?i b q ?w"
    using unlock_holds(1) [OF R _ u3] by (simp add: held_def)
  have f: "\<not> fatal z"
    using st by simp
  show ?thesis
    unfolding LockUnlockBasic_def Let_def generic_info_def [symmetric]
    by (rule session_ends [where w = ?w, OF rdy s], simp)
      (use \<mu>(1) ver u3 m2 l1 l2 st(2,3,6) hw in \<open>simp_all add: locks_at_def im_lock_run im_unlock_run NO_FATAL_def generic_info_def\<close>)
qed

text \<open>
  Two more imports inside a session, for a body that ends with all three handles held.
\<close>

lemma nested_imports:
  assumes rdy: "ready R x" and s: "session R info x b q z" and s2: "obtains_handle R b z q2 z2"
    and s3: "obtains_handle R b z2 q3 z3"
    and outer: "outer (Some b) = with_import R (Some b) (\<lambda>h1. ASSERT l (h1 \<noteq> 0)
      (with_import R (Some b) (\<lambda>h2. with_import R (Some b) (inner h2))))"
    and inner: "inner q2 q3 z3 = Done w"
    and kept: "holding R [(mRawHandle b, info)] [(q3, info), (q2, info), (q, info)] (cli w)"
    and ls: "failures w = failures z @ ls" "fatal w = fat"
  shows "test_ends R (with_buffer R info outer) x ls fat"
proof -
  note R = readyD(1) [OF rdy] and st = session_start [OF rdy s]
  obtain m where m: "with_import R (Some b) (inner q2) z2 = Done (w\<lparr>cli := m\<rparr>)"
    "holding R [(mRawHandle b, info)] [(q2, info), (q, info)] m"
    using with_import_ends [where body = "inner q2", OF R s3 inner kept] by blast
  obtain m' where m': "with_import R (Some b) (\<lambda>h2. with_import R (Some b) (inner h2)) z = Done (w\<lparr>cli := m'\<rparr>)"
    "holding R [(mRawHandle b, info)] [(q, info)] m'"
    using with_import_ends [where body = "\<lambda>h2. with_import R (Some b) (inner h2)" and w = "w\<lparr>cli := m\<rparr>", OF R s2 m(1),
        of "[(mRawHandle b, info)]" info "[(q, info)]"] m(2) by auto
  show ?thesis
    by (rule session_ends [where outer = outer and inner = "\<lambda>h1. ASSERT l (h1 \<noteq> 0) (with_import R (Some b) (\<lambda>h2. with_import R (Some b) (inner h2)))"
        and w = "w\<lparr>cli := m'\<rparr>", OF rdy s outer]) (use m' ls st(5) in \<open>simp_all add: held_def\<close>)
qed

lemma FlushRereadBasic_passes:
  assumes rdy: "ready R x" and s: "session R (generic_info R) x b q z" and s2: "obtains_handle R b z q2 z2"
    and s3: "obtains_handle R b z2 q3 z3" and h: "load_handle q3 (gm (cli z3)) = Done h"
    and rows: "image_rows R b h" and laws: "memory_laws M"
    and maps: "maps_buffer M q2 byte n" "maps_buffer M q3 byte n" and n: "63 * unat (mStride b * 4) + 256 \<le> n"
    and cpu: "(ucast (CPU_WRITE_OFTEN (r_vts R)) :: c_int) AND cpu_mask (hal_of (r_cli R)) \<noteq> 0"
      "(ucast (CPU_READ_OFTEN (r_vts R)) :: c_int) AND cpu_mask (hal_of (r_cli R)) \<noteq> 0"
    and l1: "locks_at R q2 (CPU_WRITE_OFTEN (r_vts R)) (cli z3) w m1"
    and l2: "locks_at R q3 (CPU_READ_OFTEN (r_vts R)) m1 d m2"
    and windows: "w = d \<or> (\<lambda>i. w + of_nat i) ` {..<n} \<inter> (\<lambda>i. d + of_nat i) ` {..<n} = {}"
  shows "test_ends R (FlushRereadBasic R M) x [] False"
proof -
  let ?i = "generic_info R" and ?raws = "[(mRawHandle b, generic_info R)]"
  let ?qs = "[(q3, generic_info R), (q2, generic_info R), (q, generic_info R)]"
  let ?S = "ucast (mStride b * 4) :: u64" and ?W = "256 :: u64" and ?H = "64 :: u32"
  note R = readyD(1) [OF rdy] and st = session_start [OF rdy s]
  note i2 = handle_held [OF R st(1) [unfolded held_def] _ s2, of ?i]
  note i3 = handle_held [OF R i2(1) _ s3, of ?i]
  have z3: "holding R ?raws ?qs (cli z3)" "failures z3 = failures z" "\<not> fatal z3" "metadata_map (cli z3) = Map.empty"
    "q2 \<noteq> 0" "q3 \<noteq> 0" "q2 \<noteq> q3"
    using i2 i3 st(2-4) by auto
  note k1 = locks_at_holds [OF R z3(1) l1] and k2 = locks_at_holds [OF R locks_at_holds(1) [OF R z3(1) l1] l2]
  have c: "cpu_held R q2 m2" "cpu_held R q3 m2"
    using locks_at_held(1) [OF R z3(1) cpu(1) l1] locks_at_held [OF R k1(1) cpu(2) l2] z3(7) by auto
  obtain s1 where s1: "unlocks_to R q3 m2 s1"
    using cpu_held_unlock [OF k2(1) _ c(2)] by auto
  let ?\<mu>0 = "mm_lock M q3 d (mm_lock M q2 w (memory z3))"
  let ?y0 = "z3\<lparr>cli := m2, memory := ?\<mu>0\<rparr>"
  have "shows_at M ?\<mu>0 w byte n"
  proof (cases "w = d")
    case True
    then show ?thesis
      using maps_bufferD(2) [OF maps(2)] by simp
  next
    case False
    then have "mm_cell M ?\<mu>0 (w + of_nat i) = mm_cell M (mm_lock M q2 w (memory z3)) (w + of_nat i)" if "i < n" for i
      using windows that by (intro maps_bufferD(3) [OF maps(2)]) auto
    then show ?thesis
      using maps_bufferD(2) [OF maps(1), of w "memory z3"] by (simp add: shows_at_def)
  qed
  moreover have W: "unat ?W \<le> unat ?S" "(unat ?H - 1) * unat ?S + unat ?W \<le> n"
    using rows n by (simp_all add: image_rows_def)
  ultimately obtain \<mu> where \<mu>: "\<And>k. fillRGBA8888 M w ?H ?S ?W k ?y0 = k (z3\<lparr>cli := m2, memory := \<mu>\<rparr>)"
    "rows_filled M \<mu> byte (unat ?S) (unat ?W) (unat ?H) 0" and cells: "mm_cell M \<mu> = mm_cell M ?\<mu>0"
    using fill_rows [OF laws maps_bufferD(1) [OF maps(1)] _ W, of ?y0 w] by auto
  let ?y = "z3\<lparr>cli := m2, memory := \<mu>\<rparr>"
  have mem: "shows_at M (memory ?y) d byte n" "rows_filled M (memory ?y) byte (unat ?S) (unat ?W) (unat ?H) 0"
    using maps_bufferD(2) [OF maps(2), of d "mm_lock M q2 w (memory z3)"] cells \<mu>(2) by (simp_all add: shows_at_def)
  have "load_handle q3 (gm m2) = Done h" "mInitialized m2"
    using h k1(3) k2(3) holdingD(2) [OF k2(1)] by (simp_all add: load_handle_Done)
  moreover then have "describes ?i h"
    using holdingD(5) [OF k2(1), of "(q3, ?i)"] by (auto simp: imported_handle_def)
  moreover have "metadata_map m2 = Map.empty"
    using k1(2) k2(2) z3(4) by simp
  ultimately have at: "at_handle R q3 h (initial_md (r_consts R) h) ?y" and desc: "describes ?i h"
    using R by (simp_all add: at_handle_def createMetadata_def initial_md_def Let_def)
  have ver: "verifyRGBA8888 R M q3 d ?H ?S ?W ?y = Done (with_md R h ?y)"
    by (rule verify_image [OF _ _ at _ _ _ mem W]) (use rows desc in \<open>auto simp: image_rows_def generic_info_def\<close>)
  let ?m3 = "cli (with_md R h ?y)"
  have h3: "holding R ?raws ?qs ?m3"
    using k2(1) by (simp add: holding_def)
  have u1: "unlock (r_cli R) q3 ?m3 = Done ((AIMAPPER_ERROR_NONE, Some (- 1)), ?m3\<lparr>gm := s1\<rparr>)"
    by (rule unlocks_toD [OF s1]) (use holdingD(2) [OF h3] in simp_all)
  note h4 = unlock_holds(1) [OF R h3 u1]
  have "cpu_held R q2 (?m3\<lparr>gm := s1\<rparr>)"
    using s1 c(1) z3(7) by (simp add: unlocks_to_def)
  then obtain t1 where t1: "unlocks_to R q2 (?m3\<lparr>gm := s1\<rparr>) t1"
    using cpu_held_unlock [OF h4] by auto
  have u2: "unlock (r_cli R) q2 (?m3\<lparr>gm := s1\<rparr>) = Done ((AIMAPPER_ERROR_NONE, Some (- 1)), ?m3\<lparr>gm := t1\<rparr>)"
    using unlocks_toD [OF t1 refl holdingD(2) [OF h4]] by simp
  note h5 = unlock_holds(1) [OF R h4 u2]
  let ?w = "(with_md R h ?y)\<lparr>cli := ?m3\<lparr>gm := t1\<rparr>, memory := mm_unlock M q2 (mm_unlock M q3 \<mu>)\<rparr>"
  show ?thesis
    unfolding FlushRereadBasic_def Let_def session_defs generic_info_def [symmetric]
    by (rule nested_imports [where w = ?w, OF rdy s s2 s3], simp)
      (use \<mu>(1) ver u1 u2 l1 l2 st(6) z3 h5 in
        \<open>simp_all add: locks_at_def im_lock_run im_unlock_run NO_FATAL_def generic_info_def on_mapper_def
          flushLockedBuffer_def rereadLockedBuffer_def memory_cli\<close>)
qed

section \<open>YUV and RAW formats\<close>

text \<open>The names the tests use for the YUV formats are those of the HAL.\<close>

definition image_formats :: "'e rig \<Rightarrow> image_consts \<Rightarrow> bool" where
  "image_formats R IC \<longleftrightarrow> formats_agree R \<and>
     PixelFormat_YCRCB_420_SP IC = HAL_PIXEL_FORMAT_YCrCb_420_SP (hal_of (r_cli R)) \<and>
     PixelFormat_YCBCR_420_888 IC = HAL_PIXEL_FORMAT_YCbCr_420_888 (hal_of (r_cli R)) \<and>
     PixelFormat_YCBCR_P010 IC = HAL_PIXEL_FORMAT_YCBCR_P010 (hal_of (r_cli R))"

text \<open>The table of plane layouts has no row for what these formats become.\<close>

lemma no_row:
  assumes "image_formats R IC"
    and "f \<in> {PixelFormat_YV12 (r_vts R), PixelFormat_YCRCB_420_SP IC, PixelFormat_YCBCR_420_888 IC, PixelFormat_YCBCR_P010 IC}"
  shows "map_of (GetPlaneLayoutsMap T) (gralloc_gm_android_format_to_gbm_format (hal_of (r_cli R)) f) = None"
proof -
  have "hal_ok (hal_of (r_cli R))"
    using assms(1) by (simp add: image_formats_def formats_agree_def)
  from to_gbm_format_table [OF this] show ?thesis
    using assms by (auto simp: image_formats_def formats_agree_def hal_formats_def gbm_codes_def GetPlaneLayoutsMap_def gbm_values)
qed

lemma session_locked:
  assumes rdy: "ready R x" and s: "session R info x b q z" and l: "locks_at R q u (cli z) a m"
  shows "\<exists>h. at_handle R q h (initial_md (r_consts R) h) (z\<lparr>cli := m, memory := \<mu>\<rparr>) \<and> describes info h"
    and "held R info b q (z\<lparr>cli := m, memory := \<mu>\<rparr>)"
proof -
  note R = readyD(1) [OF rdy] and st = session_start [OF rdy s]
  note k = locks_at_holds [OF R st(1) [unfolded held_def] l]
  show held: "held R info b q (z\<lparr>cli := m, memory := \<mu>\<rparr>)"
    using k(1) by (simp add: held_def)
  then obtain h where "load_handle q (gm m) = Done h" "describes info h"
    using heldD(1) [OF held] by auto
  then show "\<exists>h. at_handle R q h (initial_md (r_consts R) h) (z\<lparr>cli := m, memory := \<mu>\<rparr>) \<and> describes info h"
    using R k(2) st(4) heldD(2) [OF held]
    by (intro exI [of _ h]) (simp add: at_handle_def createMetadata_def initial_md_def Let_def)
qed

text \<open>A lock on a buffer of such a format, and the query of its planes.\<close>

lemma locked_without_planes:
  assumes rdy: "ready R x" and s: "session R info x b q z" and l: "locks_at R q u (cli z) a m"
    and row: "\<And>T. map_of (GetPlaneLayoutsMap T) (gralloc_gm_android_format_to_gbm_format (hal_of (r_cli R)) (bdi_format info)) = None"
  shows "\<exists>h. (\<forall>k. fx_getStandardMetadata R PLANE_LAYOUTS q k (z\<lparr>cli := m, memory := \<mu>\<rparr>) =
      k (Some (MPlanes [])) (with_md R h (z\<lparr>cli := m, memory := \<mu>\<rparr>))) \<and> held R info b q (with_md R h (z\<lparr>cli := m, memory := \<mu>\<rparr>))"
proof -
  let ?y = "z\<lparr>cli := m, memory := \<mu>\<rparr>"
  obtain h where h: "at_handle R q h (initial_md (r_consts R) h) ?y" "describes info h"
    using session_locked(1) [OF rdy s l] by blast
  then have "handle_plane_layouts (hal_of (r_cli R)) (r_consts R) h = []"
    using row by (simp add: handle_plane_layouts_def getPlaneLayouts_def describes_def)
  then have v: "standard_value (r_cli R) (r_consts R) q h (fst (createMetadata (r_consts R) h (cli ?y))) (gm (cli ?y)) PLANE_LAYOUTS
      = Done (Some (MPlanes []))"
    by (simp add: standard_value_def)
  have "fx_getStandardMetadata R PLANE_LAYOUTS q k ?y = k (Some (MPlanes [])) (with_md R h ?y)" for k
    using fx_get_value [OF readyD(1) [OF rdy] _ _ _ v] h(1) no_planes_fit [of R PLANE_LAYOUTS]
    by (simp add: at_handle_def value_fits_def with_md_def)
  then show ?thesis
    using session_locked(2) [OF rdy s l] by (intro exI [of _ h]) simp
qed

lemma lock_ycbcr_stops:
  assumes rdy: "ready R x" and s: "session R info x b q z" and l: "locks_at R q (bdi_usage info) (cli z) a m"
    and row: "\<And>T. map_of (GetPlaneLayoutsMap T) (gralloc_gm_android_format_to_gbm_format (hal_of (r_cli R)) (bdi_format info)) = None"
    and outer: "outer (Some b) = with_import R (Some b) (\<lambda>handle. lock_ycbcr R IC M handle info (l1, l2, l3, l4) (k handle))"
  shows "test_ends R (with_buffer R info outer) x [391, l2] True"
proof -
  obtain h where h: "\<And>k. fx_getStandardMetadata R PLANE_LAYOUTS q k (z\<lparr>cli := m, memory := mm_lock M q a (memory z)\<rparr>) =
      k (Some (MPlanes [])) (with_md R h (z\<lparr>cli := m, memory := mm_lock M q a (memory z)\<rparr>))"
    "held R info b q (with_md R h (z\<lparr>cli := m, memory := mm_lock M q a (memory z)\<rparr>))"
    using locked_without_planes [OF rdy s l row] by blast
  have lk: "lock (r_cli R) q (bdi_usage info) (- 1) (cli z) = Done ((AIMAPPER_ERROR_NONE, Some a), m)"
    using l by (simp add: locks_at_def)
  show ?thesis
    by (rule session_ends [where inner = "\<lambda>handle. lock_ycbcr R IC M handle info (l1, l2, l3, l4) (k handle)" and outer = outer
        and w = "(with_md R h (z\<lparr>cli := m, memory := mm_lock M q a (memory z)\<rparr>))\<lparr>failures := failures z @ [391, l2], fatal := True\<rparr>",
        OF rdy s outer])
      (use h lk in \<open>simp_all add: lock_ycbcr_def im_lock_run getAndroidYCbCr_def ASSERT_else_def fatal_at_def\<close>)
qed

lemma yuv_info_sel [simp]:
  "bdi_format (yuv_info R f) = f" "bdi_usage (yuv_info R f) = CPU_OFTEN R"
  "bdi_width (yuv_info R f) = 64" "bdi_height (yuv_info R f) = 64"
  by (simp_all add: yuv_info_def)

lemma yuv_tests:
  assumes rdy: "ready R x" and fmt: "image_formats R IC"
  shows "session R (yuv_info R (PixelFormat_YCRCB_420_SP IC)) x b q z \<Longrightarrow> locks_at R q (CPU_OFTEN R) (cli z) a m \<Longrightarrow>
      test_ends R (Lock_YCRCB_420_SP R IC M) x [391, 818] True"
    and "session R (yuv_info R (PixelFormat_YV12 (r_vts R))) x b q z \<Longrightarrow> locks_at R q (CPU_OFTEN R) (cli z) a m \<Longrightarrow>
      test_ends R (Lock_YV12 R IC M) x [391, 932] True"
    and "session R (yuv_info R (PixelFormat_YCBCR_420_888 IC)) x b q z \<Longrightarrow> locks_at R q (CPU_OFTEN R) (cli z) a m \<Longrightarrow>
      test_ends R (Lock_YCBCR_420_888 R IC M) x [391, 986] True"
proof -
  have stops: "test_ends R (with_buffer R (yuv_info R f) outer) x [391, l2] True"
    if "session R (yuv_info R f) x b q z" "locks_at R q (CPU_OFTEN R) (cli z) a m"
      and f: "f \<in> {PixelFormat_YV12 (r_vts R), PixelFormat_YCRCB_420_SP IC, PixelFormat_YCBCR_420_888 IC, PixelFormat_YCBCR_P010 IC}"
      and outer: "outer (Some b) = with_import R (Some b) (\<lambda>handle. lock_ycbcr R IC M handle (yuv_info R f) (l1, l2, l3, l4) (k handle))"
    for f outer l1 l2 l3 l4 k
    by (rule lock_ycbcr_stops [where outer = outer and info = "yuv_info R f" and k = k, OF rdy that(1)])
      (use that(2) no_row [OF fmt f] outer in simp_all)
  show "test_ends R (Lock_YCRCB_420_SP R IC M) x [391, 818] True"
    if "session R (yuv_info R (PixelFormat_YCRCB_420_SP IC)) x b q z" "locks_at R q (CPU_OFTEN R) (cli z) a m"
    unfolding Lock_YCRCB_420_SP_def if_supported_def Let_def by (rule stops [OF that]; simp)
  show "test_ends R (Lock_YV12 R IC M) x [391, 932] True"
    if "session R (yuv_info R (PixelFormat_YV12 (r_vts R))) x b q z" "locks_at R q (CPU_OFTEN R) (cli z) a m"
    unfolding Lock_YV12_def Let_def by (rule stops [OF that]; simp)
  show "test_ends R (Lock_YCBCR_420_888 R IC M) x [391, 986] True"
    if "session R (yuv_info R (PixelFormat_YCBCR_420_888 IC)) x b q z" "locks_at R q (CPU_OFTEN R) (cli z) a m"
    unfolding Lock_YCBCR_420_888_def Let_def by (rule stops [OF that]; simp)
qed

lemma p010_crash:
  assumes rdy: "ready R x" and fmt: "image_formats R IC"
    and s: "session R (yuv_info R (PixelFormat_YCBCR_P010 IC)) x b q z" and l: "locks_at R q (CPU_OFTEN R) (cli z) a m"
  shows "Lock_YCBCR_P010 R IC M x = Fault OutOfBounds"
proof -
  let ?info = "yuv_info R (PixelFormat_YCBCR_P010 IC)" and ?y = "z\<lparr>cli := m, memory := mm_lock M q a (memory z)\<rparr>"
  obtain h where h: "\<And>k. fx_getStandardMetadata R PLANE_LAYOUTS q k ?y = k (Some (MPlanes [])) (with_md R h ?y)"
    using locked_without_planes [OF rdy s l] no_row [OF fmt] by auto blast
  have lk: "lock (r_cli R) q (CPU_OFTEN R) (- 1) (cli z) = Done ((AIMAPPER_ERROR_NONE, Some a), m)"
    using l by (simp add: locks_at_def)
  show ?thesis
    unfolding Lock_YCBCR_P010_def if_supported_def Let_def
    by (rule session_fault [OF s], simp)
      (use h lk in \<open>simp add: im_lock_run getAndroidYCbCr_P010_def element_at_def\<close>)
qed

lemma fx_allocate_none:
  assumes "fx_allocate R info x = Done (None, y)"
  shows "cli y = cli x" and "fatal y = fatal x"
proof -
  obtain st res a where al: "allocator_allocate2 (r_svc R) (r_lim R) info 1 new_result (svc x) = Done ((st, res), a)"
    using assms by (auto simp: fx_allocate_def andThen_eq_Done)
  have "cli y = cli x \<and> fatal y = fatal x"
  proof (cases st)
    case StatusOk
    then show ?thesis
      using assms al by (cases "ar_buffers res") (auto simp: fx_allocate_def Let_def split: prod.splits)
  qed (use assms al in \<open>auto simp: fx_allocate_def expect_def Let_def split: if_splits\<close>)
  then show "cli y = cli x" and "fatal y = fatal x"
    by simp_all
qed

text \<open>The tests of optional formats when the service gives no buffer: \<open>isSupported\<close> still says yes.\<close>

lemma if_supported_refused:
  assumes rdy: "ready R x" and al: "fx_allocate R (yuv_info R f) x = Done (None, y)" and y: "failures y = failures x"
    and init: "isInitialized (svc y)"
  shows "test_ends R (if_supported R (yuv_info R f) line body) x [line] True"
proof -
  have "cli y = cli x" "fatal y = fatal x"
    using fx_allocate_none [OF al] .
  moreover have "isSupported (yuv_info R f) (svc y) = (StatusOk, Some True)"
    using init by (simp add: isSupported_def yuv_info_def vts_info_def)
  ultimately show ?thesis
    using al y readyD(3) [OF rdy]
    by (simp add: test_ends_def if_supported_def with_buffer_def fx_isSupported_def isOk_def)
qed

end
