(* ===== verification/Vts_Image_Results.thy ===== *)
theory Vts_Image_Results
  imports Vts_Image_Runs Vts_Sample
begin

text \<open>
  What the conformance tests on images show of the mapper, with a platform and a memory on which
  their conditions hold.
\<close>

section \<open>A memory\<close>

text \<open>A table from addresses to bytes of storage: every buffer is the same 16384 bytes.\<close>

definition sample_memory :: "((u64 \<Rightarrow> nat option) \<times> (nat \<Rightarrow> 8 word)) mapped_memory" where
  "sample_memory = \<lparr>mm_cell = fst, mm_load = snd, mm_store = (\<lambda>c v (t, f). (t, f(c := v))),
     mm_lock = (\<lambda>h a (t, f). (\<lambda>p. if unat (p - a) < 16384 then Some (unat (p - a)) else t p, f)),
     mm_unlock = (\<lambda>h (t, f). (Map.empty, f))\<rparr>"



text \<open>The platform of the other tests with this memory.\<close>

definition with_memory :: "'m \<Rightarrow> 'e fixture \<Rightarrow> ('e, 'm) image_fixture" where
  "with_memory \<mu> x = \<lparr>svc = svc x, cli = cli x, failures = failures x, fatal = fatal x, memory = \<mu>\<rparr>"

lemma with_memory_sel [simp]:
  "svc (with_memory \<mu> x) = svc x" "cli (with_memory \<mu> x) = cli x"
  "failures (with_memory \<mu> x) = failures x" "fatal (with_memory \<mu> x) = fatal x"
  by (simp_all add: with_memory_def)

lemma fx_allocate_memory:
  assumes "fx_allocate R info x = Done (b, y)"
  shows "fx_allocate R info (with_memory \<mu> x) = Done (b, with_memory \<mu> y)"
proof -
  obtain st res a where al: "allocator_allocate2 (r_svc R) (r_lim R) info 1 new_result (svc x) = Done ((st, res), a)"
    using assms by (auto simp: fx_allocate_def andThen_eq_Done)
  show ?thesis
    using assms al
    by (cases st; cases "ar_buffers res")
      (auto simp: fx_allocate_def with_memory_def expect_def Let_def split: prod.splits)
qed

lemma obtains_memory:
  assumes "obtains_handle R b y q z"
  shows "obtains_handle R b (with_memory \<mu> y) q (with_memory \<mu> z)"
  using assms by (auto simp: obtains_handle_def with_memory_def)

lemma session_memory:
  assumes "session R info x b q z"
  shows "session R info (with_memory \<mu> x) b q (with_memory \<mu> z)"
  using assms fx_allocate_memory obtains_memory unfolding session_def obtains_buffer_def by metis

lemma ready_memory: "ready R x \<Longrightarrow> ready R (with_memory \<mu> x)"
  by (simp add: ready_def svc_ok_def)

definition sample_image :: "(unit, (u64 \<Rightarrow> nat option) \<times> (nat \<Rightarrow> 8 word)) image_fixture" where
  "sample_image = with_memory (Map.empty, \<lambda>_. 0) sample_fixture"

lemma sample_image_ready [simp]: "ready sample_rig sample_image"
  unfolding sample_image_def by (rule ready_memory) simp

definition sample_images :: image_consts where
  "sample_images = \<lparr>PixelFormat_YCRCB_420_SP = 0x11, PixelFormat_YCBCR_420_888 = 0x23, PixelFormat_RAW10 = 0x25,
     PixelFormat_RAW12 = 0x26, PixelFormat_YCBCR_P010 = 0x36, ComponentType_Y = 1, ComponentType_CB = 2,
     ComponentType_CR = 4, ComponentType_RAW = 0x100000\<rparr>"

lemma sample_image_formats [simp]: "image_formats sample_rig sample_images"
  by (simp add: image_formats_def sample_images_def)

lemma sample_components [simp]: "components_agree sample_rig"
  by (simp add: components_agree_def sample_consts_def sample_component_def sample_vts_def)

text \<open>Locks and unlocks there, from a buffer object that is not locked.\<close>

definition idle_bd :: bo_data where
  "idle_bd = \<lparr>map_data = 0, lock_count = 0, locked_for = 0\<rparr>"

definition locked_bd :: "u64 \<Rightarrow> bo_data" where
  "locked_bd u = \<lparr>map_data = 1, lock_count = 1, locked_for = ucast u\<rparr>"

lemma sample_locks_at:
  assumes "mInitialized m" "q \<noteq> 0" and reg: "gbm_bo_handle_map (gm m) q = Some b" "bos (gm m) b = Some bo" "load_handle q (gm m) = Done h"
    and "bd_of (user_data bo) = idle_bd" "h_usage h = 0x33" "bo_stride bo = 4 * bo_width bo" and u: "u = 0x33 \<or> u = 3 \<or> u = 0x30"
  shows "locks_at sample_rig q u m 0x7F000000 (m\<lparr>gm := set_bd b bo (locked_bd u) (gm m)\<rparr>)"
proof -
  have "gralloc_gbm_bo_lock sample_env q (ucast u) (gm m) = Done ((0, Some 0x7F000000), set_bd b bo (locked_bd u) (gm m))"
    unfolding lock_eq [OF reg(1,3,2)] assms(6) using assms(7,8) u
    by (auto simp: lock_refused_def cpu_mask_def inc_int_def idle_bd_def locked_bd_def)
  then show ?thesis
    using assms(1,2) u by (auto simp: locks_at_def lock_def close_fence_def)
qed





section \<open>Properties\<close>


lemma sample_image_session:
  assumes "sample_ok info"
  shows "session sample_rig info sample_image (sample_buffer info) 0x2000 (with_memory (Map.empty, \<lambda>_. 0) (sample_imported info))"
  unfolding sample_image_def by (rule session_memory [OF sample_session [OF assms]])

lemma sample_imported_sel [simp]:
  "mInitialized (cli (sample_imported info))" "gbm_bo_handle_map (gm (cli (sample_imported info))) 0x2000 = Some 1"
  "bos (gm (cli (sample_imported info))) (Suc 0) = Some (sample_import_object info)"
  "handles (gm (cli (sample_imported info))) 0x2000 = Some (sample_handle info 12 (sample_stride info))"
  "load_handle 0x2000 (gm (cli (sample_imported info))) = Done (sample_handle info 12 (sample_stride info))"
  by (simp_all add: sample_imported_def sample_fixture_def load_handle_Done)

lemma sample_usage [simp]: "h_usage (sample_handle info fd r) = ucast (bdi_usage info)"
  by (simp add: sample_handle_def)









text \<open>C40: The platform's tests of planar formats do not get to an image.  The mapper's table has no layout
  for what the formats YCrCb 420 SP, YV12 and YCbCr 420 888 become, so each of the three tests stops at
  the empty list of planes, once in its helper and once at the call.  The P010 test does not stop: its
  helper only notes the wrong number of planes, and reads the first element of the empty list.\<close>

theorem vts_planar_images_stop:
  assumes "ready R x" and "image_formats R IC"
    and "session R (yuv_info R (PixelFormat_YCRCB_420_SP IC)) x b1 q1 z1" "locks_at R q1 (CPU_OFTEN R) (cli z1) a1 m1"
    and "session R (yuv_info R (PixelFormat_YV12 (r_vts R))) x b2 q2 z2" "locks_at R q2 (CPU_OFTEN R) (cli z2) a2 m2"
    and "session R (yuv_info R (PixelFormat_YCBCR_420_888 IC)) x b3 q3 z3" "locks_at R q3 (CPU_OFTEN R) (cli z3) a3 m3"
    and "session R (yuv_info R (PixelFormat_YCBCR_P010 IC)) x b4 q4 z4" "locks_at R q4 (CPU_OFTEN R) (cli z4) a4 m4"
  shows "test_ends R (Lock_YCRCB_420_SP R IC M) x [391, 818] True \<and> test_ends R (Lock_YV12 R IC M) x [391, 932] True \<and>
    test_ends R (Lock_YCBCR_420_888 R IC M) x [391, 986] True \<and> Lock_YCBCR_P010 R IC M x = Fault OutOfBounds"
  using yuv_tests(1) [OF assms(1-4)] yuv_tests(2) [OF assms(1,2,5,6)] yuv_tests(3) [OF assms(1,2,7,8)]
    p010_crash [OF assms(1,2,9,10)] by simp

lemma sample_yuv:
  assumes "f \<in> {0x11, 0x32315659, 0x23, 0x36}"
  obtains b z m where "session sample_rig (yuv_info sample_rig f) sample_image b 0x2000 z"
    and "locks_at sample_rig 0x2000 (CPU_OFTEN sample_rig) (cli z) 0x7F000000 m"
proof -
  let ?i = "yuv_info sample_rig f"
  have "f \<in> set (hal_formats android_hal)"
    using assms by (auto simp: hal_formats_def)
  then have "sample_ok ?i"
    by (simp add: sample_ok_def to_gbm_format_zero) (simp add: yuv_info_def)
  moreover have "locks_at sample_rig 0x2000 0x33 (cli (sample_imported ?i)) 0x7F000000
      ((cli (sample_imported ?i))\<lparr>gm := set_bd 1 (sample_import_object ?i) (locked_bd 0x33) (gm (cli (sample_imported ?i)))\<rparr>)"
    by (rule sample_locks_at [where h = "sample_handle ?i 12 (sample_stride ?i)"]) (simp_all add: idle_bd_def)
  ultimately show thesis
    using that [OF sample_image_session] by simp
qed

theorem vts_planar_images_stop_witness:
  "test_ends sample_rig (Lock_YV12 sample_rig sample_images sample_memory) sample_image [391, 932] True \<and>
   Lock_YCBCR_P010 sample_rig sample_images sample_memory sample_image = Fault OutOfBounds"
proof -
  have f: "PixelFormat_YCRCB_420_SP sample_images \<in> {0x11, 0x32315659, 0x23, 0x36}"
    "PixelFormat_YV12 (r_vts sample_rig) \<in> {0x11, 0x32315659, 0x23, 0x36}"
    "PixelFormat_YCBCR_420_888 sample_images \<in> {0x11, 0x32315659, 0x23, 0x36}"
    "PixelFormat_YCBCR_P010 sample_images \<in> {0x11, 0x32315659, 0x23, 0x36}"
    by (simp_all add: sample_images_def)
  obtain b1 z1 m1 where y1: "session sample_rig (yuv_info sample_rig (PixelFormat_YCRCB_420_SP sample_images)) sample_image b1 0x2000 z1"
    "locks_at sample_rig 0x2000 (CPU_OFTEN sample_rig) (cli z1) 0x7F000000 m1"
    by (rule sample_yuv [OF f(1)])
  obtain b2 z2 m2 where y2: "session sample_rig (yuv_info sample_rig (PixelFormat_YV12 (r_vts sample_rig))) sample_image b2 0x2000 z2"
    "locks_at sample_rig 0x2000 (CPU_OFTEN sample_rig) (cli z2) 0x7F000000 m2"
    by (rule sample_yuv [OF f(2)])
  obtain b3 z3 m3 where y3: "session sample_rig (yuv_info sample_rig (PixelFormat_YCBCR_420_888 sample_images)) sample_image b3 0x2000 z3"
    "locks_at sample_rig 0x2000 (CPU_OFTEN sample_rig) (cli z3) 0x7F000000 m3"
    by (rule sample_yuv [OF f(3)])
  obtain b4 z4 m4 where y4: "session sample_rig (yuv_info sample_rig (PixelFormat_YCBCR_P010 sample_images)) sample_image b4 0x2000 z4"
    "locks_at sample_rig 0x2000 (CPU_OFTEN sample_rig) (cli z4) 0x7F000000 m4"
    by (rule sample_yuv [OF f(4)])
  show ?thesis
    using vts_planar_images_stop [OF sample_image_ready sample_image_formats y1 y2 y3 y4, of sample_memory] by simp
qed

end
