(* ===== verification/Mapper_Interface.thy ===== *)
theory Mapper_Interface
  imports Mapper_Service
begin

text \<open>
  What the interface header of the mapper,
  src/include/stable-c-v34/include/android/hardware/graphics/mapper/IMapper.h, promises of each entry
  of the function table, and where the answers of the model of \<open>GbmMesaMapperV5\<close> keep the promises
  and where they do not.
\<close>

section \<open>The promises\<close>



definition AIMapper_Error_values :: "int list" where
  "AIMapper_Error_values = [AIMAPPER_ERROR_NONE, AIMAPPER_ERROR_BAD_DESCRIPTOR, AIMAPPER_ERROR_BAD_BUFFER,
     AIMAPPER_ERROR_BAD_VALUE, AIMAPPER_ERROR_NO_RESOURCES, AIMAPPER_ERROR_UNSUPPORTED]"






















section \<open>Where the mapper departs from them\<close>




section \<open>Answers of the mapper\<close>











section \<open>Properties\<close>





end
