(* ===== verification/Aidl_Service.thy ===== *)
theory Aidl_Service
  imports Aidl_Batch Aidl_Binder Mapper_Service
begin

text \<open>
  The allocator service as a process: its main program, src/src/aidl/Main.cpp, and the transactions it
  answers, over the library's state machine.
\<close>

section \<open>The main program\<close>

text \<open>
  \<open>main\<close> runs on the platform: the descriptor of the interface, the service manager, and the thread pool
  of libbinder, which is given its size and serves transactions until it ends.  The scheduling priority,
  whose failure is only logged, is left out.  An allocator that does not come up is destroyed on the way
  out; one that is registered lives as long as the process.
\<close>

record 'e service_world =
  sw_descriptor :: bytes
  AServiceManager_addService :: "bytes \<Rightarrow> binder_status_t"
  joinThreadPool :: "nat \<Rightarrow> 'e allocator \<Rightarrow> 'e allocator run"

definition EXIT_FAILURE :: int where
  "EXIT_FAILURE = 1"

definition main :: "'e gbm_env \<Rightarrow> 'e service_world \<Rightarrow> 'e proc \<Rightarrow> ((int \<times> bytes option) \<times> 'e allocator) run" where
  "main P W s =
    (let (ok, allocator) = allocator_init P (GbmMesaAllocator s)
     in if \<not> ok then Done ((EXIT_FAILURE, None), allocator_dtor allocator)
        else let name = sw_descriptor W @ map of_char ''/default''
             in if AServiceManager_addService W name \<noteq> STATUS_OK then Fault AssertFail
                else andThen (joinThreadPool W 4 allocator) (\<lambda>allocator. Done ((EXIT_FAILURE, Some name), allocator)))"

section \<open>The service over the library's machine\<close>

definition service_inv :: "'e gbm_env \<Rightarrow> 'e allocator \<Rightarrow> bool" where
  "service_inv P a \<longleftrightarrow> gm_inv P (al_proc a) \<and> isInitialized a \<and> dev_ready (al_proc a)"

definition service_step :: "'e gbm_env \<Rightarrow> 'e allocator \<Rightarrow> 'e allocator \<Rightarrow> bool" where
  "service_step P a b \<longleftrightarrow> lib_steps P (al_proc a) (al_proc b) \<and> gbmDevFd b = gbmDevFd a"

lemma service_step_refl: "gm_inv P (al_proc a) \<Longrightarrow> service_step P a a"
  by (simp add: service_step_def lib_steps_refl)

lemma service_step_trans: "service_step P a b \<Longrightarrow> service_step P b c \<Longrightarrow> service_step P a c"
  unfolding service_step_def using lib_steps_trans by metis

lemma service_step_lift: "lib_steps P (al_proc a) s \<Longrightarrow> service_step P a (a\<lparr>al_proc := s\<rparr>)"
  by (simp add: service_step_def)

lemma service_step_inv: "service_step P a b \<Longrightarrow> service_inv P a \<Longrightarrow> service_inv P b"
  using lib_steps_inv lib_steps_ready by (auto simp: service_step_def service_inv_def isInitialized_def)

interpretation sv: library_client P al_proc "service_inv P" "service_step P" for P
  by unfold_locales (simp add: service_step_def, rule service_step_inv)

section \<open>The operations as steps of the machine\<close>

lemma release_buffer_steps:
  assumes run: "release_buffer P p s = Done t" and w: "world_ok P" and inv: "gm_inv P s"
  shows "lib_steps P s t"
proof -
  obtain r u where f: "gralloc_gm_buffer_free P p s = Done (r, u)"
    and rest: "andThen (native_handle_close p u) (\<lambda>s. native_handle_delete p s) = Done t"
    using run by (auto simp: release_buffer_def andThen_eq_Done)
  have "gm_exec P (Free p) s = Done (r, u)"
    using f by simp
  note u = lib_steps_call [OF this w inv]
  have "gbm_bo_handle_map u p = None"
    by (rule free_unregisters_handle [OF f gm_invD(1) [OF inv]])
  from release_steps [OF rest this w lib_steps_inv [OF u]] show ?thesis
    by (rule lib_steps_trans [OF u])
qed

lemma release_buffers_steps:
  assumes "release_buffers P ps s = Done t" and w: "world_ok P" and "gm_inv P s"
  shows "lib_steps P s t"
  using assms(1,3)
proof (induction ps arbitrary: s)
  case Nil
  then show ?case
    by (simp add: lib_steps_refl)
next
  case (Cons p ps)
  show ?case
  proof (cases "p = 0")
    case True
    then show ?thesis
      using Cons by simp
  next
    case False
    then obtain u where u: "release_buffer P p s = Done u" "release_buffers P ps u = Done t"
      using Cons.prems(1) by (auto simp: andThen_eq_Done)
    have "lib_steps P s u"
      by (rule release_buffer_steps [OF u(1) w Cons.prems(2)])
    then show ?thesis
      using Cons.IH [OF u(2)] lib_steps_inv lib_steps_trans by blast
  qed
qed

lemma take_fds_world: "\<exists>e F. snd (take_fds P doDup fds s) = s\<lparr>env := e, open_fds := F\<rparr>"
proof (induction fds arbitrary: s)
  case Nil
  then show ?case
    by (intro exI [of _ "env s"] exI [of _ "open_fds s"]) simp
next
  case (Cons fd fds)
  obtain e F where "snd (if doDup then let (r, e) = p_dup P (open_fds s) fd (env s) in (r, add_fd r (s\<lparr>env := e\<rparr>))
      else (fd, s)) = s\<lparr>env := e, open_fds := F\<rparr>"
  proof
    show "snd (if doDup then let (r, e) = p_dup P (open_fds s) fd (env s) in (r, add_fd r (s\<lparr>env := e\<rparr>)) else (fd, s)) =
      s\<lparr>env := if doDup then snd (p_dup P (open_fds s) fd (env s)) else env s,
        open_fds := if doDup \<and> \<not> is_neg (fst (p_dup P (open_fds s) fd (env s)))
          then insert (fst (p_dup P (open_fds s) fd (env s))) (open_fds s) else open_fds s\<rparr>"
      by (simp add: add_fd_def Let_def case_prod_beta)
  qed
  then show ?case
    using Cons.IH [of "s\<lparr>env := e, open_fds := F\<rparr>"] by (auto simp: Let_def case_prod_beta)
qed

lemma dupToAidl_steps:
  assumes run: "dupToAidl P p s = Done (nh, t)" and w: "world_ok P" and inv: "gm_inv P s"
  shows "lib_steps P s t"
proof -
  obtain fds where "t = snd (take_fds P True fds s)"
    using run by (auto simp: dupToAidl_def toAidl_def andThen_eq_Done case_prod_beta Let_def split: if_splits)
  then obtain e F where t: "t = s\<lparr>env := e, open_fds := F\<rparr>"
    using take_fds_world [of P True fds s] by blast
  show ?thesis
    unfolding t by (rule lib_steps_step [OF gm_world w inv])
qed

lemma gbmAllocateBuffer_step:
  assumes run: "gbmAllocateBuffer P desc a = Done (x, b)" and w: "world_ok P" and inv: "gm_inv P (al_proc a)"
  shows "service_step P a b"
proof -
  have "b = a \<or> (\<exists>ret out s. gralloc_allocate P desc (al_proc a) = Done ((ret, out), s) \<and> b = a\<lparr>al_proc := s\<rparr>)"
    using run by (auto simp: gbmAllocateBuffer_def andThen_eq_Done Let_def split: if_splits option.splits)
  then show ?thesis
  proof (elim disjE exE conjE)
    fix ret out s assume "gralloc_allocate P desc (al_proc a) = Done ((ret, out), s)" and b: "b = a\<lparr>al_proc := s\<rparr>"
    then have "gm_exec P (Allocate desc) (al_proc a) = Done (ret, s)"
      by (simp add: code_of_def)
    from lib_steps_call [OF this w inv] show ?thesis
      unfolding b by (rule service_step_lift)
  qed (simp add: service_step_refl [OF inv])
qed

lemma allocate_loop_step:
  assumes "allocate_loop P desc n hs res a = Done (x, b)" and w: "world_ok P" and "gm_inv P (al_proc a)"
  shows "service_step P a b"
  using assms(1,3)
proof (induction n arbitrary: hs res a)
  case 0
  then show ?case
    by (simp add: service_step_refl)
next
  case (Suc n)
  obtain status out c where g: "gbmAllocateBuffer P desc a = Done ((status, out), c)"
    using Suc.prems(1) by (auto simp: andThen_eq_Done)
  note st = gbmAllocateBuffer_step [OF g w Suc.prems(2)]
  have c: "gm_inv P (al_proc c)"
    using st lib_steps_inv by (auto simp: service_step_def)
  show ?case
  proof (cases "isOk status")
    case True
    then show ?thesis
      using Suc.prems(1) g Suc.IH [OF _ c] service_step_trans [OF st] by (auto simp: Let_def)
  next
    case False
    then obtain s where "release_buffers P hs (al_proc c) = Done s" and b: "b = c\<lparr>al_proc := s\<rparr>"
      using Suc.prems(1) g by (auto simp: Let_def andThen_eq_Done)
    then show ?thesis
      using service_step_trans [OF st service_step_lift] release_buffers_steps [OF _ w c] by blast
  qed
qed

lemma close_scoped_steps:
  assumes "world_ok P" and "gm_inv P s"
  shows "lib_steps P s (close_scoped fds s)"
  using lib_steps_world(1) [OF assms] by (simp add: close_scoped_def)

lemma export_loop_steps:
  assumes "export_loop P i ps bufs s = Done (x, t)" and w: "world_ok P" and "gm_inv P s"
  shows "lib_steps P s t"
  using assms(1,3)
proof (induction ps arbitrary: i bufs s)
  case Nil
  then show ?case
    by (simp add: lib_steps_refl)
next
  case (Cons p ps)
  show ?case
  proof (cases "p = 0")
    case True
    then show ?thesis
      using Cons by simp
  next
    case False
    then obtain nh u v where d: "dupToAidl P p s = Done (nh, u)"
      and r: "release_buffer P p (close_scoped (nh_fds (bufs ! i)) u) = Done v"
      and e: "export_loop P (Suc i) ps (bufs[i := nh]) v = Done (x, t)"
      using Cons.prems(1) by (auto simp: andThen_eq_Done Let_def)
    note u = dupToAidl_steps [OF d w Cons.prems(2)]
    note c = close_scoped_steps [OF w lib_steps_inv [OF u]]
    note v = release_buffer_steps [OF r w lib_steps_inv [OF c]]
    show ?thesis
      by (rule lib_steps_trans [OF u lib_steps_trans [OF c lib_steps_trans [OF v Cons.IH [OF e lib_steps_inv [OF v]]]]])
  qed
qed

lemma doAllocate_step:
  assumes run: "doAllocate P lim desc cnt res a = Done (x, b)" and w: "world_ok P" and inv: "gm_inv P (al_proc a)"
  shows "service_step P a b"
proof (cases "isInitialized a")
  case False
  then show ?thesis
    using run service_step_refl [OF inv] by (simp add: doAllocate_def)
next
  case True
  then obtain status hs res' c where l: "allocate_loop P desc (unat cnt) [] res a = Done ((status, hs, res'), c)"
    using run by (auto simp: doAllocate_def andThen_eq_Done split: if_splits)
  note st = allocate_loop_step [OF l w inv]
  have c: "gm_inv P (al_proc c)"
    using st lib_steps_inv by (auto simp: service_step_def)
  show ?thesis
  proof (cases "isOk status")
    case False
    then have "b = c"
      using run True l by (auto simp: doAllocate_def split: if_splits)
    then show ?thesis
      using st by simp
  next
    case True
    let ?s = "close_scoped (concat (map nh_fds (drop (unat cnt) (ar_buffers res')))) (al_proc c)"
    obtain bufs bufs' t where e: "export_loop P 0 hs bufs ?s = Done (bufs', t)" and b: "b = c\<lparr>al_proc := t\<rparr>"
      using run \<open>isInitialized a\<close> l True
      by (auto simp: doAllocate_def resize_buffers_def Let_def andThen_eq_Done split: if_splits)
    note cs = close_scoped_steps [OF w c]
    show ?thesis
      unfolding b
      by (rule service_step_trans [OF st service_step_lift])
        (rule lib_steps_trans [OF cs export_loop_steps [OF e w lib_steps_inv [OF cs]]])
  qed
qed

lemma allocator_allocate_step:
  assumes run: "allocator_allocate P lim dec d cnt res a = Done (x, b)" and w: "world_ok P" and inv: "gm_inv P (al_proc a)"
  shows "service_step P a b"
  using run doAllocate_step [OF _ w inv] service_step_refl [OF inv]
  by (auto simp: allocator_allocate_def Let_def split: if_splits prod.splits)

lemma allocator_allocate2_step:
  assumes run: "allocator_allocate2 P lim d cnt res a = Done (x, b)" and w: "world_ok P" and inv: "gm_inv P (al_proc a)"
  shows "service_step P a b"
  using run doAllocate_step [OF _ w inv] service_step_refl [OF inv]
  by (auto simp: allocator_allocate2_def Let_def split: if_splits prod.splits)

section \<open>Transactions\<close>

lemma send_reply_state:
  assumes "send_reply K wr out answer = Done (r, v)"
  shows "\<exists>x. answer = Done (x, v)"
proof -
  obtain status ret w where a: "answer = Done ((status, ret), w)"
    using assms by (auto simp: send_reply_def andThen_eq_Done)
  obtain st out' where h: "AParcel_writeStatusHeader K status out = (st, out')"
    by fastforce
  have "w = v"
    using assms unfolding a send_reply_def andThen.simps
    by (simp add: h split: if_splits option.splits)
  then show ?thesis
    using a by blast
qed

lemma onTransact_step:
  assumes run: "onTransact K (allocator_service P lim dec version hash) code inp out a = Done (r, b)"
    and w: "world_ok P" and inv: "gm_inv P (al_proc a)"
  shows "service_step P a b"
proof -
  let ?I = "allocator_service P lim dec version hash"
  have "b = a \<or> (\<exists>d n x. m_allocate ?I d n new_result a = Done (x, b)) \<or>
    (\<exists>d n x. m_allocate2 ?I d n new_result a = Done (x, b))"
    using run unfolding onTransact_def
    by (auto simp: allocator_service_def whole_result_def or_empty_def andThen_eq_Done BnAllocator_getInterfaceVersion_def
        BnAllocator_getInterfaceHash_def split: if_splits prod.splits dest!: send_reply_state)
  then show ?thesis
    using allocator_allocate_step [OF _ w inv] allocator_allocate2_step [OF _ w inv] service_step_refl [OF inv]
    by (auto simp: allocator_service_def)
qed

text \<open>
  A process with the service: the allocator comes up in a process that any use of the library may have led
  to, transactions arrive with any code and data, and the rest of the process goes on.
\<close>

inductive service_reachable ::
    "'p binder_ops \<Rightarrow> 'e gbm_env \<Rightarrow> nat \<Rightarrow> (bytes \<Rightarrow> c_int \<times> BufferDescriptorInfoV4) \<Rightarrow> 'e allocator \<Rightarrow> bool"
  for K P lim dec where
  started: "gm_reachable P s \<Longrightarrow> allocator_init P (GbmMesaAllocator s) = (True, a) \<Longrightarrow> service_reachable K P lim dec a"
| transacted: "service_reachable K P lim dec a \<Longrightarrow>
    onTransact K (allocator_service P lim dec version hash) code inp out a = Done (r, b) \<Longrightarrow>
    service_reachable K P lim dec b"
| around: "service_reachable K P lim dec a \<Longrightarrow> gm_step P (al_proc a) s \<Longrightarrow> service_reachable K P lim dec (a\<lparr>al_proc := s\<rparr>)"

lemma init_ready:
  assumes i: "allocator_init P (GbmMesaAllocator s) = (True, a)" and r: "gm_reachable P s"
  shows "gm_reachable P (al_proc a) \<and> isInitialized a \<and> dev_ready (al_proc a)"
proof -
  obtain fd t where d: "gralloc_gbm_device_init P s = (fd, t)" "is_pos fd" and a: "a = \<lparr>al_proc = t, gbmDevFd = fd\<rparr>"
    using i by (auto simp: allocator_init_def GbmMesaAllocator_def split: prod.splits)
  have "gm_exec P DeviceInit s = Done (fd, t)"
    using d by simp
  then have "gm_reachable P t"
    using r gm_next gm_call by blast
  then show ?thesis
    using device_init_pos_ready [OF d] d(2) by (simp add: a isInitialized_def)
qed

lemma service_reachable_inv:
  assumes "service_reachable K P lim dec a" and w: "world_ok P"
  shows "gm_reachable P (al_proc a) \<and> service_inv P a"
  using assms(1)
proof induction
  case (started s a)
  then show ?case
    using init_ready [OF started(2,1)] gm_reachable_inv [OF _ w] by (simp add: service_inv_def)
next
  case (transacted a version hash code inp out r b)
  then have "service_step P a b"
    using onTransact_step [OF transacted.hyps(2) w] by (simp add: service_inv_def)
  then show ?case
    using transacted.IH sv.session [of P a b] by blast
next
  case (around a s)
  then have "service_step P a (a\<lparr>al_proc := s\<rparr>)"
    using lib_steps_step [OF around.hyps(2) w] by (intro service_step_lift) (simp add: service_inv_def)
  then show ?case
    using around.IH sv.session [of P a "a\<lparr>al_proc := s\<rparr>"] by blast
qed

text \<open>The main program exits with a failure however it ends, and it serves only what came up.\<close>

lemma main_serves_ready:
  assumes run: "main P W s = Done ((r, registered), b)" and s: "gm_reachable P s" and w: "world_ok P"
    and pool: "\<And>n a b. joinThreadPool W n a = Done b \<Longrightarrow> service_reachable K P lim dec a \<Longrightarrow> service_reachable K P lim dec b"
  shows "r = EXIT_FAILURE" and "registered \<noteq> None \<Longrightarrow> gm_reachable P (al_proc b) \<and> service_inv P b"
    and "registered = None \<Longrightarrow> \<not> isInitialized b"
proof -
  obtain ok a where i: "allocator_init P (GbmMesaAllocator s) = (ok, a)"
    by fastforce
  show "r = EXIT_FAILURE"
    using run i by (auto simp: main_def Let_def andThen_eq_Done split: if_splits)
  show "\<not> isInitialized b" if "registered = None"
    using run i that
    by (auto simp: main_def Let_def andThen_eq_Done allocator_dtor_def isInitialized_def is_pos_def split: if_splits)
  show "gm_reachable P (al_proc b) \<and> service_inv P b" if "registered \<noteq> None"
  proof -
    have "ok" and "joinThreadPool W 4 a = Done b"
      using run i that by (auto simp: main_def Let_def andThen_eq_Done split: if_splits)
    moreover have "service_reachable K P lim dec a"
      by (rule started [OF s]) (use \<open>ok\<close> i in simp)
    ultimately show ?thesis
      using pool service_reachable_inv [OF _ w] by blast
  qed
qed

section \<open>Properties\<close>

text \<open>C5: Whatever transactions clients send to the service, with any code and any data, well formed or
  not, and mixed with any other use of the library in its process, the process stays within the library's
  state machine, so that its registry, lock and device invariants hold, and the service stays initialised
  with its device ready.\<close>

theorem service_stays_consistent:
  assumes "service_reachable K P lim dec a" and "world_ok P"
  shows "gm_reachable P (al_proc a) \<and> service_inv P a"
  using assms by (rule service_reachable_inv)

lemma suffix_transaction:
  "\<exists>r. onTransact K (allocator_service P lim dec version hash) (FIRST_CALL_TRANSACTION K + 3) inp out a = Done (r, a)"
  by (cases "AParcel_writeStatusHeader K (fst getIMapperLibrarySuffix) out")
    (simp add: onTransact_def allocator_service_def or_empty_def send_reply_def)

definition sample_decode :: "bytes \<Rightarrow> c_int \<times> BufferDescriptorInfoV4" where
  "sample_decode bs =
     (0, \<lparr>v4_width = 64, v4_height = 4, v4_layerCount = 1, v4_format = 1, v4_usage = 3, v4_reservedSize = 0\<rparr>)"

theorem service_stays_consistent_witness:
  "\<exists>a b r. main sample_env \<lparr>sw_descriptor = [], AServiceManager_addService = (\<lambda>_. STATUS_OK), joinThreadPool = (\<lambda>n a. Done a)\<rparr>
       (init_proc () {}) = Done ((EXIT_FAILURE, Some (map of_char ''/default'')), a) \<and>
     onTransact cell_binder_ops (allocator_service sample_env 1000 sample_decode 2 []) (FIRST_CALL_TRANSACTION cell_binder_ops + 3)
       ([], 0) ([], 0) a = Done (r, b) \<and>
     isInitialized b \<and> dev_ready (al_proc b)"
proof -
  obtain fd s where "gralloc_gbm_device_init sample_env (init_proc () {}) = (fd, s)" and "is_pos fd"
    using device_init_sample by blast
  then obtain a where i: "allocator_init sample_env (GbmMesaAllocator (init_proc () {})) = (True, a)"
    by (simp add: allocator_init_def GbmMesaAllocator_def)
  obtain r where t: "onTransact cell_binder_ops (allocator_service sample_env 1000 sample_decode 2 [])
      (FIRST_CALL_TRANSACTION cell_binder_ops + 3) ([], 0) ([], 0) a = Done (r, a)"
    using suffix_transaction [of cell_binder_ops sample_env 1000 sample_decode 2 "[]" "([], 0)" "([], 0)" a] by blast
  have "service_reachable cell_binder_ops sample_env 1000 sample_decode a"
    using transacted [OF started [OF gm_start i] t] .
  then have "service_inv sample_env a"
    using service_stays_consistent sample_world_ok by blast
  then show ?thesis
    using i t by (intro exI [of _ a] exI [of _ r]) (simp add: main_def service_inv_def)
qed

end
