(* ===== verification/Vts_Startup.thy ===== *)
theory Vts_Startup
  imports Vts_Session Aidl_Service
begin

text \<open>
  How a conformance test comes up, and the tests of the loaded library itself: \<open>Initialize\<close> and the
  first tests of src/include/stable-c-v33/vts/VtsHalGraphicsMapperStableC_TargetTest.cpp, over the entry point
  \<open>AIMapper_loadIMapper\<close> of src/src/mapper_stablec/Mapper.cpp.
\<close>

section \<open>The library\<close>

definition AIMAPPER_VERSION_5 :: u32 where
  "AIMAPPER_VERSION_5 = 5"

definition ANDROID_HAL_MAPPER_VERSION :: u32 where
  "ANDROID_HAL_MAPPER_VERSION = AIMAPPER_VERSION_5"

text \<open>The entry point has one provider, number 0, for the life of the process.\<close>

definition AIMapper_loadIMapper :: "'e gbm_env \<Rightarrow> 'e proc \<Rightarrow> 'e provider \<Rightarrow> (int \<times> 'e provider) run" where
  "AIMapper_loadIMapper P = load P 0"

definition exported_symbols :: "string list" where
  "exported_symbols = [''ANDROID_HAL_MAPPER_VERSION'', ''AIMapper_loadIMapper'']"

text \<open>
  The \<open>AIMapper\<close> that \<open>load\<close> hands out, \<open>None\<close> for the null pointer before: its version and the entries of the
  table that \<open>bindV5\<close> sets, each a function of its own.
\<close>

record AIMapper =
  am_version :: u32
  am_v5 :: "string list"

definition bound_entries :: "string list" where
  "bound_entries = [''importBuffer'', ''freeBuffer'', ''getTransportSize'', ''lock'', ''unlock'', ''flushLockedBuffer'',
     ''rereadLockedBuffer'', ''getMetadata'', ''getStandardMetadata'', ''setMetadata'', ''setStandardMetadata'',
     ''listSupportedMetadataTypes'', ''dumpBuffer'', ''dumpAllBuffers'', ''getReservedRegion'']"

definition mMapper :: "'e provider \<Rightarrow> AIMapper option" where
  "mMapper p = (if mLoadOnceFlag p then Some \<lparr>am_version = AIMAPPER_VERSION_5, am_v5 = bound_entries\<rparr> else None)"

definition entry :: "AIMapper \<Rightarrow> string \<Rightarrow> string option" where
  "entry m e = (if e \<in> set (am_v5 m) then Some e else None)"

section \<open>The set-up\<close>

text \<open>
  The fields of the fixture, and the library in the process of the test.  The mapper of the client is in
  \<open>cli\<close>, before the library is loaded just its process; a further load finds the mapper as it is.
\<close>

record 'e startup = "'e fixture" +
  the_provider :: "'e provider"
  mIAllocatorVersion :: c_int
  mIMapper :: "AIMapper option"
  mIMapperHALVersion :: "u32 option"

definition on_service ::
    "('e allocator \<Rightarrow> ('r \<times> 'e allocator) run) \<Rightarrow> ('r \<Rightarrow> 'e startup \<Rightarrow> 'e startup run) \<Rightarrow> 'e startup \<Rightarrow> 'e startup run" where
  "on_service f k x = andThen (f (svc x)) (\<lambda>(r, a). k r (x\<lparr>svc := a\<rparr>))"

definition call_loader ::
    "'e rig \<Rightarrow> (int \<Rightarrow> AIMapper option \<Rightarrow> 'e startup \<Rightarrow> 'e startup run) \<Rightarrow> 'e startup \<Rightarrow> 'e startup run" where
  "call_loader R k x =
    (let p = the_provider x;
         p = (if mLoadOnceFlag p then p\<lparr>mImpl := Some (cli x)\<rparr> else p)
     in andThen (AIMapper_loadIMapper (r_cli R) (gm (cli x)) p) (\<lambda>(r, p).
          k r (mMapper p) (x\<lparr>the_provider := p, cli := (case mImpl p of None \<Rightarrow> cli x | Some m \<Rightarrow> m)\<rparr>)))"

text \<open>
  \<open>openDeclaredPassthroughHal\<close> says which mapper libraries, by their suffix, the platform opens; the one
  opened exports what Mapper.cpp does.
\<close>

definition Initialize ::
    "'e rig \<Rightarrow> (bytes \<Rightarrow> bool) \<Rightarrow> 'e allocator IAllocator option \<Rightarrow> 'e startup \<Rightarrow> 'e startup run" where
  "Initialize R openDeclaredPassthroughHal allocator =
    (case allocator of
       None \<Rightarrow> ASSERT 162 False Done
     | Some mAllocator \<Rightarrow>
         on_service (m_getInterfaceVersion mAllocator) (\<lambda>(status, version) x.
          (ASSERT 163 (isOk status) (\<lambda>x.
           ASSERT 164 (2 \<le> sint (mIAllocatorVersion x))
          (on_service (m_getIMapperLibrarySuffix mAllocator) (\<lambda>(status, suffix).
           ASSERT 167 (isOk status)
          (ASSERT 171 (openDeclaredPassthroughHal (case suffix of None \<Rightarrow> [] | Some b \<Rightarrow> b))
          (ASSERT 173 (''AIMapper_loadIMapper'' \<in> set exported_symbols)
          (call_loader R (\<lambda>r mapper x.
           ASSERT 174 (r = AIMAPPER_ERROR_NONE)
          (ASSERT 175 (mapper \<noteq> None) (\<lambda>x.
           Done (x\<lparr>mIMapperHALVersion := (if ''ANDROID_HAL_MAPPER_VERSION'' \<in> set exported_symbols
             then Some ANDROID_HAL_MAPPER_VERSION else None)\<rparr>))) (x\<lparr>mIMapper := mapper\<rparr>))))))) x))
          (x\<lparr>mIAllocatorVersion := (case version of None \<Rightarrow> mIAllocatorVersion x | Some v \<Rightarrow> v)\<rparr>)))"

section \<open>The tests\<close>

text \<open>Reading through the null pointer of a mapper that is not loaded is undefined.\<close>

definition with_mapper :: "(AIMapper \<Rightarrow> 'e startup \<Rightarrow> 'e startup run) \<Rightarrow> 'e startup \<Rightarrow> 'e startup run" where
  "with_mapper k x = (case mIMapper x of None \<Rightarrow> Fault NullDeref | Some m \<Rightarrow> k m x)"

definition VersionChecks :: "'e startup \<Rightarrow> 'e startup run" where
  "VersionChecks x =
    (case mIMapperHALVersion x of
       None \<Rightarrow> ASSERT 565 False Done x
     | Some halVersion \<Rightarrow>
         EXPECT 567 (halVersion = AIMAPPER_VERSION_5)
        (with_mapper (\<lambda>mapper.
         EXPECT 568 (am_version mapper = AIMAPPER_VERSION_5)
        (EXPECT 569 (halVersion = am_version mapper) Done))) x)"

definition tested_entries :: "string list" where
  "tested_entries = [''importBuffer'', ''freeBuffer'', ''getTransportSize'', ''lock'', ''unlock'', ''flushLockedBuffer'',
     ''rereadLockedBuffer'', ''getMetadata'', ''getStandardMetadata'', ''setMetadata'', ''setStandardMetadata'',
     ''listSupportedMetadataTypes'', ''dumpBuffer'', ''getReservedRegion'']"

primrec EXPECT_each ::
    "nat \<Rightarrow> (string \<Rightarrow> bool) \<Rightarrow> string list \<Rightarrow> ('e startup \<Rightarrow> 'e startup run) \<Rightarrow> 'e startup \<Rightarrow> 'e startup run" where
  "EXPECT_each line ok [] k = k"
| "EXPECT_each line ok (e # es) k = EXPECT line (ok e) (EXPECT_each (Suc line) ok es k)"

definition AllV5CallbacksDefined :: "'e startup \<Rightarrow> 'e startup run" where
  "AllV5CallbacksDefined =
     with_mapper (\<lambda>mapper.
     ASSERT 574 (uint AIMAPPER_VERSION_5 \<le> uint (am_version mapper))
    (EXPECT_each 576 (\<lambda>e. entry mapper e \<noteq> None) tested_entries Done))"

definition DualLoadIsIdentical :: "'e rig \<Rightarrow> 'e startup \<Rightarrow> 'e startup run" where
  "DualLoadIsIdentical R =
     with_mapper (\<lambda>mapper.
     ASSERT 593 (uint AIMAPPER_VERSION_5 \<le> uint (am_version mapper))
    (call_loader R (\<lambda>r secondMapper.
     ASSERT 595 (r = AIMAPPER_ERROR_NONE)
    (case secondMapper of
       None \<Rightarrow> (\<lambda>x. Fault NullDeref)
     | Some second \<Rightarrow> EXPECT_each 597 (\<lambda>e. entry second e = entry mapper e) tested_entries Done))))"

section \<open>What they establish\<close>

definition come_up :: "'e startup \<Rightarrow> bool" where
  "come_up x \<longleftrightarrow> mLoadOnceFlag (the_provider x) \<and> mIMapper x = mMapper (the_provider x) \<and>
     mIMapperHALVersion x = Some AIMAPPER_VERSION_5"

text \<open>
  The first load in a process: on a platform that keeps its promises, against the service of this
  repository and with a device that opens, the set-up leaves the fixture in the state that the other tests
  start from.
\<close>

lemma EXPECT_true [simp]: "EXPECT line True k x = k x"
  by (simp add: EXPECT_def expect_def)

lemma ASSERT_true [simp]: "ASSERT line True k x = k x"
  by (simp add: ASSERT_def)

lemma Initialize_ready:
  assumes rig: "rig_ok R" and svc: "svc_ok x" "\<not> fatal x"
    and version: "2 \<le> sint version" and opens: "opens (snd getIMapperLibrarySuffix)"
    and first: "\<not> mLoadOnceFlag (the_provider x)" "sIMapperInstance (the_provider x) = None"
    and client: "gm_inv (r_cli R) (gm (cli x))"
    and device: "gralloc_gbm_device_init (r_cli R) (gm (cli x)) = (fd, s)" "is_pos fd"
  shows "\<exists>y. Initialize R opens (Some (allocator_service (r_svc R) (r_lim R) dec version hash)) x = Done y \<and>
    ready R y \<and> come_up y \<and> failures y = failures x"
proof -
  let ?m = "\<lparr>gm = s, mInitialized = True, metadata_map = Map.empty\<rparr>"
  let ?p = "(the_provider x)\<lparr>sIMapperInstance := Some 0, mImpl := Some ?m, mLoadOnceFlag := True\<rparr>"
  let ?y = "x\<lparr>mIAllocatorVersion := version, the_provider := ?p, cli := ?m, mIMapper := mMapper ?p,
    mIMapperHALVersion := Some AIMAPPER_VERSION_5\<rparr>"
  have "mMapper ?p \<noteq> None"
    by (simp add: mMapper_def)
  then have "Initialize R opens (Some (allocator_service (r_svc R) (r_lim R) dec version hash)) x = Done ?y"
    using version opens first device
    by (simp add: Initialize_def on_service_def allocator_service_def BnAllocator_getInterfaceVersion_def
        call_loader_def AIMapper_loadIMapper_def load_def GbmMesaMapperV5_def exported_symbols_def
        ANDROID_HAL_MAPPER_VERSION_def Let_def getIMapperLibrarySuffix_def isOk_def)
  moreover have "gm_inv (r_cli R) s"
    by (rule device_init_gm_inv [OF device(1) client])
  then have "ready R ?y"
    using rig svc by (simp add: ready_def holding_def svc_ok_def)
  ultimately show ?thesis
    by (intro exI [of _ ?y]) (simp add: come_up_def)
qed

lemma EXPECT_each_all:
  assumes "\<And>e. e \<in> set es \<Longrightarrow> ok e"
  shows "EXPECT_each line ok es k x = k x"
  using assms by (induction es arbitrary: line) simp_all

lemma entry_tested: "e \<in> set tested_entries \<Longrightarrow> entry \<lparr>am_version = v, am_v5 = bound_entries\<rparr> e = Some e"
  by (auto simp: entry_def tested_entries_def bound_entries_def)

text \<open>The tests of the library pass once it is loaded, and the second load changes nothing.\<close>

lemma startup_tests_pass:
  assumes "come_up x"
  shows "VersionChecks x = Done x" and "AllV5CallbacksDefined x = Done x"
    and "mImpl (the_provider x) = Some (cli x) \<Longrightarrow> DualLoadIsIdentical R x = Done x"
proof -
  let ?M = "\<lparr>am_version = AIMAPPER_VERSION_5, am_v5 = bound_entries\<rparr>"
  have m: "mIMapper x = Some ?M" and hv: "mIMapperHALVersion x = Some AIMAPPER_VERSION_5" and l: "mLoadOnceFlag (the_provider x)"
    using assms by (simp_all add: come_up_def mMapper_def)
  show "VersionChecks x = Done x"
    by (simp add: VersionChecks_def with_mapper_def m hv)
  show "AllV5CallbacksDefined x = Done x"
    by (simp add: AllV5CallbacksDefined_def with_mapper_def m EXPECT_each_all entry_tested)
  show "DualLoadIsIdentical R x = Done x" if i: "mImpl (the_provider x) = Some (cli x)"
  proof -
    have "(the_provider x)\<lparr>mImpl := Some (cli x)\<rparr> = the_provider x" and "x\<lparr>the_provider := the_provider x, cli := cli x\<rparr> = x"
      using i by simp_all
    then show ?thesis
      using l i
      by (simp add: DualLoadIsIdentical_def with_mapper_def m call_loader_def AIMapper_loadIMapper_def load_def
          mMapper_def EXPECT_each_all Let_def)
  qed
qed

end
