(* ===== verification/Spec2Isabelle.thy ===== *)
theory Spec2Isabelle
  imports Mapper_Service Gralloc4_Module Aidl_Batch Aidl_Binder Codec_Loops Codec_Tests Vts_Results Vts_Image_Results
    Mapper_Interface Aidl_Service Vts_Startup
begin

text \<open>
  A verification library for gralloc_gbm_mesa, the graphics-buffer allocator and mapper of Android
  on top of Mesa's GBM.

  The program.  One library, src/src/gralloc_gbm_mesa.cpp, owns a GBM device, a map from native
  handles to GBM buffer objects, and the lock bookkeeping of each object.  Three components use it:
  the AIDL allocator service (src/src/aidl), which allocates buffers for other processes and sends
  their handles over the binder; the Stable-C mapper (src/src/mapper_stablec), which imports such
  handles into a client, locks them and answers metadata queries; and the legacy HAL module
  (src/src/gralloc4), which does both in one process.

  Theories and sources.

  \<^item> \<^theory_text>\<open>Gm_Prelude\<close>: machine types, runs that may hit undefined behaviour, word lemmas.
  \<^item> \<^theory_text>\<open>Gbm_Header\<close>: src/src/include/mesa/gbm.h, its constants and import descriptor.
  \<^item> \<^theory_text>\<open>Gm_Process\<close>: the handle of drm/gralloc_handle.h, the buffer object, the state of a process
    (static variables, handles, objects, descriptors), and what comes from outside as parameters.
  \<^item> \<^theory_text>\<open>Gm_Sample\<close>: a concrete environment for the witnesses.
  \<^item> \<^theory_text>\<open>Gm_Format\<close>, \<^theory_text>\<open>Gm_Device\<close>, \<^theory_text>\<open>Gm_Buffer\<close>, \<^theory_text>\<open>Gm_Lock\<close>: the four parts of
    gralloc_gbm_mesa.cpp, one definition per function and under the function's name.
  \<^item> \<^theory_text>\<open>Gm_Machine\<close>: the library as a state machine: its entry points, what clients and the world do
    to a process, reachable states, and the interface \<open>library_client\<close> of the components above it.
  \<^item> \<^theory_text>\<open>Gralloc4_Module\<close>: src/src/gralloc4/Gralloc.cpp.
  \<^item> \<^theory_text>\<open>Metadata_Codec\<close>, \<^theory_text>\<open>Standard_Metadata\<close>: the v34 IMapperMetadataTypes.h;
    \<^theory_text>\<open>Codec_Loops\<close>: how many rounds its loops take; \<^theory_text>\<open>Codec_Tests\<close>: its unit tests, from
    src/include/stable-c-v33/implutils/impltests.cpp, and that they pass.
  \<^item> \<^theory_text>\<open>Plane_Layouts\<close>, \<^theory_text>\<open>Stablec_Mapper\<close>: src/src/mapper_stablec/Mapper.cpp and the loading part of
    IMapperProvider.h; \<^theory_text>\<open>Mapper_Service\<close>: the function table of IMapperProvider.h over the machine.
  \<^item> \<^theory_text>\<open>Mapper_Interface\<close>: what the interface header IMapper.h (stable-c-v34) promises of each entry of
    that table, and which calls of the model keep it.
  \<^item> \<^theory_text>\<open>Aidl_NativeHandle\<close>: src/src/aidl/aidlcommonsupport/NativeHandle.cpp.
  \<^item> \<^theory_text>\<open>Aidl_Allocator\<close>: src/src/aidl/Allocator.cpp; \<^theory_text>\<open>Aidl_Batch\<close>: what its loops do as a whole.
  \<^item> \<^theory_text>\<open>Aidl_Parcel\<close>: the parcelables NativeHandle.cpp, ExtendableType.cpp,
    BufferDescriptorInfo.cpp and AllocationResult.cpp of src/src/aidl; \<^theory_text>\<open>Aidl_Wire\<close>: their
    properties and a parcel that keeps the promises asked of libbinder's.
  \<^item> \<^theory_text>\<open>Aidl_Binder\<close>: src/src/aidl/IAllocator.cpp, server dispatch and proxy; \<^theory_text>\<open>Aidl_Service\<close>:
    src/src/aidl/Main.cpp and the service under any transactions.
  \<^item> \<^theory_text>\<open>Vts_Fixture\<close>, \<^theory_text>\<open>Vts_Tests\<close>: the platform's conformance tests, from
    src/include/stable-c-v33/vts/VtsHalGraphicsMapperStableC_TargetTest.cpp, as programs over the
    models of the allocator service and of the mapper; \<^theory_text>\<open>Vts_Session\<close>, \<^theory_text>\<open>Vts_Locks\<close>,
    \<^theory_text>\<open>Vts_Conformance\<close>: the outcome of each; \<^theory_text>\<open>Vts_Sample\<close>, \<^theory_text>\<open>Vts_Results\<close>: a platform to run them
    on, and the properties.
  \<^item> \<^theory_text>\<open>Vts_Startup\<close>: the set-up of the fixture, which loads the mapper library, and the tests of the
    loaded library; the other tests start from the state it leaves.
  \<^item> \<^theory_text>\<open>Vts_Image\<close>: the tests of that file that write and read images, RGBA, YUV, P010 and RAW, through
    the pointers of locks; \<^theory_text>\<open>Vts_Image_Runs\<close>: what their loops and locks do; \<^theory_text>\<open>Vts_Image_Results\<close>: a memory
    to run them on, and the properties.

  State and operations.  A process is the record \<open>proc\<close>; the components' records hold one and add
  their own fields.  Functions that change state take it and return it; out parameters are results,
  with \<open>None\<close> for nothing stored.  \<open>Fault\<close> is undefined behaviour, a failed assertion or an
  exception nobody catches; every raise and early return of the sources is a branch of its own.
  C integers are words of their width: \<open>int\<close> and \<open>uint32_t\<close> are both \<open>32 word\<close>, read signed by
  \<open>sint\<close>.

  Parameters.  Mesa, libcutils, the kernel, the Android headers, libbinder and the gralloctypes
  library are not in the repository.  Their functions are fields of \<open>gbm_env\<close>, \<open>hal\<close>,
  \<open>mapper_consts\<close>, \<open>parcel_ops\<close>, \<open>binder_ops\<close> and \<open>ibinder\<close>, and what the code relies on is a named
  predicate: \<open>handle_contract\<close>, \<open>bo_contract\<close>, \<open>fd_contract\<close>, \<open>map_contract\<close> (together \<open>world_ok\<close>),
  \<open>smt_ok\<close>, \<open>hal_ok\<close>, \<open>parcel_contract\<close>, \<open>binder_contract\<close>, \<open>delivers\<close>.  Each is shown to hold of a
  concrete instance.

  What the lemmas show.

  \<^item> The registry: every registered handle is live and owns one object, no two share one, no object
    is lost (\<open>reg_inv\<close>); allocation, import and free change exactly what they say.  The lock code
    refines an abstract lock protocol; locks and unlocks balance.  Every reachable state of the
    library satisfies all of it, and the faults possible in one are listed.
  \<^item> The metadata format: decoding inverts encoding for every kind of value, never past either end;
    the mapper's answers decode to the values it holds.
  \<^item> The clients: the legacy module, the mapper and the allocator service, whatever transactions reach
    it, only take steps of the library machine, in any session; the service allocates all buffers or none.
  \<^item> The binder interface: parcelables read back what was written and stay inside their frame, so a
    call through the proxy is the call on the service.
  \<^item> From end to end: the theorem of this theory follows a buffer from the allocation in the service
    to its import in a client.
  \<^item> The conformance tests: a test ends with the list of the lines whose expectation failed, or in a
    fault.  The lemmas say which, for every platform that keeps its promises (\<open>rig_ok\<close>) and every
    session in which the test gets its buffers.  Between the steps \<open>holding\<close> records the raw and the
    imported handles a test owns.
  \<^item> The image tests: the memory of the client is a parameter with laws (\<open>memory_laws\<close>, \<open>maps_buffer\<close>), a
    lock shows the bytes of the buffer at the address it returns.  What is written through one lock or
    one handle is read through another; planar formats stop before, for want of plane layouts.
  \<^item> The interface: one predicate per entry of the function table states the codes and conditions that its
    documentation lists; a call keeps its promise unless it is one of the departures named.
  \<^item> Where the code does less than it means to, the theorem states what it does.

  Bounds.  All recursion is structural: over lists, counts and call sequences, so no fuel is needed.
  The limits of C++ vectors are parameters (\<open>codec_limits\<close>, the limit of \<open>doAllocate\<close>).  The loops of
  the metadata decoders recurse over the count the stream claims; \<open>counted_loops_end\<close> bounds their
  rounds by the bytes that are left.

  Not modelled.  Logging; threads, so the once-flag, the hash mutex of the proxy and the mutex of the
  legacy module are seen by one thread (the last one with its deadlock); the scheduling
  priority of the service; reference counts of binder objects; the callbacks of the
  dump functions, which the code builds and never calls; the access region of a lock, which the code
  drops; how Mesa maps a buffer object, of which the image tests only use that a handle's mapping shows
  the bytes of its buffer; the choice of the services the platform's tests run on; the unit tests that
  compare the codec with the encoders of gralloc4, which are outside the repository; the prose of the interface
  declarations beyond codes and conditions, and the v33 copies of the headers, which are the v34 ones byte
  for byte.
\<close>

section \<open>A buffer from the service to a client\<close>

text \<open>C3: A buffer reaches the client as it was asked for.  Take any buffer of a successful allocation
  in the service, send its handle to another process, make a native handle of it there, with or
  without duplicating the descriptor, and import that: the handle the mapper returns is registered
  with a buffer object and describes the width, height, format and usage of the request.\<close>

theorem allocated_buffer_reaches_client:
  assumes service: "doAllocate P lim desc cnt new_result a = Done ((StatusOk, res), a')"
    and s: "handle_contract P" "bo_contract P" "fd_contract P" "reg_inv (al_proc a)"
      "\<forall>fd \<in> open_fds (al_proc a). \<not> is_neg fd"
    and wire: "nh \<in> set (ar_buffers res)" "same_handle nh nh'"
    and client: "fromAidl Q nh' dup t = (p, gm m)" "p \<noteq> 0"
    and import_done: "importBuffer Q p m = Done ((AIMAPPER_ERROR_NONE, Some q), n)"
    and k: "handle_contract Q" "bo_contract Q" "fd_contract Q"
  shows "gralloc_get_gbm_bo_from_handle q (gm n) \<noteq> None \<and>
    (\<exists>h. load_handle q (gm n) = Done h \<and> h_width h = d_width desc \<and> h_height h = d_height desc \<and>
       h_format h = d_android_format desc \<and> h_usage h = d_android_usage desc)"
proof -
  have "ar_buffers new_result = []"
    by (simp add: new_result_def)
  then have "exported desc nh'"
    using doAllocate_exported [OF service s] wire exported_same by blast
  then obtain h where h: "load_native p (gm m) = Done h" "numFds h = 1" "described desc h"
    using fromAidl_describes [OF _ client k(1,3)] by blast
  obtain h' where "load_handle q (gm n) = Done h'" "same_words h h'" "gbm_bo_handle_map (gm n) q \<noteq> None"
    using importBuffer_words [OF import_done k(1,2) h(1)] by blast
  then show ?thesis
    using same_words_described [OF h(3) _ h(2)] by (auto simp: gralloc_get_gbm_bo_from_handle_def described_def)
qed

text \<open>A client of the sample environment: a native handle made of an exported one, then imported.\<close>

lemma sample_client_handle:
  assumes "exported desc nh"
  shows "\<exists>t. fromAidl sample_env nh True sample_ready = (0x1000, t) \<and> dom (handles t) = {0x1000} \<and>
    open_fds t = {10, 11} \<and> gbm_bo_handle_map t = Map.empty \<and> bos t = Map.empty \<and> devs t = {1} \<and>
    gbm_dev t = Some 1 \<and> gbm_dev_fd t = 10"
proof -
  obtain fd where nh: "nh_fds nh = [fd]" "length (nh_ints nh) = 12"
    using assms by (auto simp: exported_def length_Suc_conv)
  have "take_fds sample_env True [fd] (sample_ready\<lparr>env := ()\<rparr>) = ([11], add_fd 11 (sample_ready\<lparr>env := ()\<rparr>))"
    by (simp add: fresh_fd_def sample_lists)
  then show ?thesis
    using nh by (auto simp: fromAidl_def sample_lists store_handle_def add_fd_def is_neg_def)
qed

lemma sample_client_import:
  assumes h: "load_native 0x1000 t = Done h" "numFds h = 1" "numInts h = 12" "h_format h = 1"
    and t: "dom (handles t) = {0x1000}" "open_fds t = {10, 11}" "gbm_bo_handle_map t = Map.empty"
      "bos t = Map.empty" "devs t = {1}" "gbm_dev t = Some 1" "gbm_dev_fd t = 10"
  shows "\<exists>n. importBuffer sample_env 0x1000 \<lparr>gm = t, mInitialized = True, metadata_map = Map.empty\<rparr> =
    Done ((AIMAPPER_ERROR_NONE, Some 0x2000), n)"
proof -
  let ?h = "h\<lparr>prime_fd := 12\<rparr>"
  let ?s = "t\<lparr>env := env t, handles := (handles t)(0x2000 \<mapsto> ?h),
    open_fds := open_fds t \<union> set (filter (\<lambda>fd. \<not> is_neg fd) (handle_fds ?h))\<rparr>"
  have cl: "native_handle_clone sample_env 0x1000 t = Done (0x2000, ?s)"
    using h t by (simp add: native_handle_clone_def fresh_fd_def sample_lists is_neg_def)
  have lh: "load_handle 0x2000 ?s = Done ?h"
    using h by (simp add: load_handle_Done)
  have "\<exists>s'. gralloc_gm_buffer_import sample_env 0x2000 ?s = Done (0, s')"
    using lh t h by (simp add: gralloc_gm_buffer_import_def Let_def dev_ready_def is_pos_def
        gralloc_gbm_device_create_def is_neg_def to_gbm_format_zero hal_formats_def sample_lists
        store_bo_def emplace_def)
  then show ?thesis
    using cl h by (auto simp: importBuffer_def)
qed

theorem allocated_buffer_reaches_client_witness:
  "\<exists>res a nh t n. doAllocate sample_env 1000 sample_desc 1 new_result sample_allocator = Done ((StatusOk, res), a) \<and>
    ar_buffers res = [nh] \<and> fromAidl sample_env nh True sample_ready = (0x1000, t) \<and>
    importBuffer sample_env 0x1000 \<lparr>gm = t, mInitialized = True, metadata_map = Map.empty\<rparr> =
      Done ((AIMAPPER_ERROR_NONE, Some 0x2000), n) \<and>
    gralloc_get_gbm_bo_from_handle 0x2000 (gm n) \<noteq> None \<and>
    (\<exists>h. load_handle 0x2000 (gm n) = Done h \<and> h_width h = 64 \<and> h_height h = 4 \<and> h_format h = 1)"
proof -
  note c = sample_handle_contract sample_bo_contract sample_fd_contract
  obtain res a where d: "doAllocate sample_env 1000 sample_desc 1 new_result sample_allocator = Done ((StatusOk, res), a)"
    using sample_doAllocate by (auto simp: new_result_def)
  have "ar_buffers new_result = []"
    by (simp add: new_result_def)
  then obtain nh where nh: "ar_buffers res = [nh]" "exported sample_desc nh"
    using doAllocate_exported [OF d c sample_allocator_ok] by (auto simp: length_Suc_conv)
  obtain t where t: "fromAidl sample_env nh True sample_ready = (0x1000, t)"
    and ts: "dom (handles t) = {0x1000}" "open_fds t = {10, 11}" "gbm_bo_handle_map t = Map.empty"
      "bos t = Map.empty" "devs t = {1}" "gbm_dev t = Some 1" "gbm_dev_fd t = 10"
    using sample_client_handle [OF nh(2)] by blast
  obtain h where "load_native 0x1000 t = Done h" "numFds h = 1" "numInts h = 12" "described sample_desc h"
    using fromAidl_describes [OF nh(2) t _ c(1,3)] by auto
  then obtain n where n: "importBuffer sample_env 0x1000
      \<lparr>gm = t, mInitialized = True, metadata_map = Map.empty\<rparr> = Done ((AIMAPPER_ERROR_NONE, Some 0x2000), n)"
    using sample_client_import [OF _ _ _ _ ts] by (auto simp: described_def sample_desc_def)
  have "nh \<in> set (ar_buffers res)" "same_handle nh nh" "(0x1000 :: ptr) \<noteq> 0"
    by (simp_all add: nh same_handle_def)
  from allocated_buffer_reaches_client [OF d c sample_allocator_ok this(1,2) _ this(3) n c] t
  have "gralloc_get_gbm_bo_from_handle 0x2000 (gm n) \<noteq> None \<and>
    (\<exists>h. load_handle 0x2000 (gm n) = Done h \<and> h_width h = 64 \<and> h_height h = 4 \<and> h_format h = 1)"
    by (auto simp: sample_desc_def)
  with d nh(1) t n show ?thesis
    by blast
qed

end
